(* ===== verification/PyPrelude.thy ===== *)
theory PyPrelude
  imports Main "HOL-Library.Word"
begin

unbundle bit_operations_syntax

text \<open>
  The part of Python that every component of the model shares: exceptions as values, the two
  bind combinators (for pure code that may raise and for code that also changes a state),
  byte strings, indexing and slicing, and \<^verbatim>\<open>struct.pack\<close> and \<^verbatim>\<open>struct.unpack\<close> of integers.

  A byte is an \<^typ>\<open>8 word\<close>, a byte string a list of them, a Python integer an \<^typ>\<open>int\<close>.
  Reading a byte gives an integer (\<open>uint\<close>), as indexing a \<^verbatim>\<open>bytes\<close> object does.
\<close>

section \<open>Collections of facts\<close>

named_theorems exec_simps \<open>equations that run the exception and state combinators\<close>
named_theorems codec_simps \<open>lengths and round trips of the byte codecs\<close>

section \<open>Exceptions\<close>

text \<open>
  One constructor per exception class the modelled files raise. Messages are kept where the
  code stores them as data (\<open>NegativeResponseError\<close>, \<open>CommandResponseError\<close>) and dropped where
  they are only printed. \<open>OutOfFuel\<close> is not a Python exception: it is the value of a loop of
  the model whose step bound ran out.
\<close>

datatype exn =
    AssertionError
  | IndexError
  | KeyError
  | AttributeError
  | ValueError
  | TypeError
  | StructError
  | EOFError
  | RuntimeError
  | ZeroDivisionError
  | GenericException
  | MessageTimeoutError
  | NegativeResponseError string int int
  | InvalidServiceIdError
  | InvalidSubFunctionError
  | InvalidSubAddressError
  | CommandTimeoutError
  | CommandCounterError
  | CommandResponseError int
  | OutOfFuel

type_synonym 'a result = "exn + 'a"

text \<open>Pure code that may raise: the first exception wins.\<close>

fun ebind :: "'a result \<Rightarrow> ('a \<Rightarrow> 'b result) \<Rightarrow> 'b result" where
  "ebind (Inl e) f = Inl e"
| "ebind (Inr x) f = f x"

definition ensure :: "bool \<Rightarrow> exn \<Rightarrow> unit result" where
  "ensure b e = (if b then Inr () else Inl e)"

lemma ensure_simps [simp]:
  "ensure True e = Inr ()"
  "ensure False e = Inl e"
  by (simp_all add: ensure_def)

lemma ensure_eq_Inr [simp]: "ensure b e = Inr u \<longleftrightarrow> b"
  by (simp add: ensure_def)

lemma ensure_eq_Inl [simp]: "ensure b e = Inl e' \<longleftrightarrow> \<not> b \<and> e' = e"
  by (auto simp: ensure_def)

lemma ebind_eq_Inr: "ebind m f = Inr y \<longleftrightarrow> (\<exists>x. m = Inr x \<and> f x = Inr y)"
  by (cases m) auto

lemma ebind_eq_Inl: "ebind m f = Inl e \<longleftrightarrow> m = Inl e \<or> (\<exists>x. m = Inr x \<and> f x = Inl e)"
  by (cases m) auto

lemma ebind_ensure: "ebind (ensure b e) f = (if b then f () else Inl e)"
  by (simp add: ensure_def)

lemma ebind_cong [fundef_cong]:
  "m = m' \<Longrightarrow> (\<And>x. m' = Inr x \<Longrightarrow> f x = f' x) \<Longrightarrow> ebind m f = ebind m' f'"
  by (cases m') auto

text \<open>Evaluating a list of calls left to right, as a loop that appends their results does.\<close>

fun emap :: "('a \<Rightarrow> 'b result) \<Rightarrow> 'a list \<Rightarrow> 'b list result" where
  "emap f [] = Inr []"
| "emap f (x # xs) = ebind (f x) (\<lambda>y. ebind (emap f xs) (\<lambda>ys. Inr (y # ys)))"

fun emap_concat :: "('a \<Rightarrow> 'b list result) \<Rightarrow> 'a list \<Rightarrow> 'b list result" where
  "emap_concat f [] = Inr []"
| "emap_concat f (x # xs) = ebind (f x) (\<lambda>ys. ebind (emap_concat f xs) (\<lambda>zs. Inr (ys @ zs)))"

section \<open>State and exceptions\<close>

text \<open>
  A method that changes its object and may raise. The state survives the exception, as the
  attributes written before a \<^verbatim>\<open>raise\<close> do.
\<close>

type_synonym ('s, 'a) meth = "'s \<Rightarrow> 'a result \<times> 's"

definition sret :: "'a \<Rightarrow> ('s, 'a) meth" where
  "sret x s = (Inr x, s)"

definition sraise :: "exn \<Rightarrow> ('s, 'a) meth" where
  "sraise e s = (Inl e, s)"

definition slift :: "'a result \<Rightarrow> ('s, 'a) meth" where
  "slift r s = (r, s)"

definition sbind :: "('s, 'a) meth \<Rightarrow> ('a \<Rightarrow> ('s, 'b) meth) \<Rightarrow> ('s, 'b) meth" where
  "sbind m f s = (case m s of (Inl e, s') \<Rightarrow> (Inl e, s') | (Inr x, s') \<Rightarrow> f x s')"

definition sassert :: "bool \<Rightarrow> ('s, unit) meth" where
  "sassert b = slift (ensure b AssertionError)"

definition smodify :: "('s \<Rightarrow> 's) \<Rightarrow> ('s, unit) meth" where
  "smodify f s = (Inr (), f s)"

definition sget :: "('s \<Rightarrow> 'a) \<Rightarrow> ('s, 'a) meth" where
  "sget f s = (Inr (f s), s)"

lemma sbind_simps [simp, exec_simps]:
  "sbind (sret x) f = f x"
  "sbind (sraise e) f = sraise e"
  "sbind (slift (Inr x)) f = f x"
  "sbind (slift (Inl e)) f = sraise e"
  by (auto simp: fun_eq_iff sbind_def sret_def sraise_def slift_def)

lemma sbind_smodify [exec_simps]: "sbind (smodify g) f s = f () (g s)"
  by (simp add: sbind_def smodify_def)

lemma sbind_sget [exec_simps]: "sbind (sget g) f s = f (g s) s"
  by (simp add: sbind_def sget_def)

lemma sbind_slift [exec_simps]:
  "sbind (slift r) f s = (case r of Inl e \<Rightarrow> (Inl e, s) | Inr x \<Rightarrow> f x s)"
  by (simp add: sbind_def slift_def split: sum.splits)

lemma sbind_sassert [exec_simps]: "sbind (sassert b) f s = (if b then f () s else (Inl AssertionError, s))"
  by (simp add: sassert_def sbind_def slift_def ensure_def)

lemma sret_apply [exec_simps]: "sret x s = (Inr x, s)"
  by (simp add: sret_def)

lemma sraise_apply [exec_simps]: "sraise e s = (Inl e, s)"
  by (simp add: sraise_def)

lemma slift_apply [exec_simps]: "slift r s = (r, s)"
  by (simp add: slift_def)

lemma smodify_apply [exec_simps]: "smodify f s = (Inr (), f s)"
  by (simp add: smodify_def)

lemma sbind_eq_Inr:
  "sbind m f s = (Inr y, s'') \<longleftrightarrow> (\<exists>x s'. m s = (Inr x, s') \<and> f x s' = (Inr y, s''))"
  by (auto simp: sbind_def split: prod.splits sum.splits)

lemma sbind_run: "m s = (Inr x, s') \<Longrightarrow> sbind m f s = f x s'"
  by (simp add: sbind_def)

lemma sbind_fail: "m s = (Inl e, s') \<Longrightarrow> sbind m f s = (Inl e, s')"
  by (simp add: sbind_def)

lemma sbind_assoc: "sbind (sbind m f) g = sbind m (\<lambda>x. sbind (f x) g)"
  by (auto simp: fun_eq_iff sbind_def split: prod.splits sum.splits)

text \<open>A method that keeps a property of its object, also when it raises.\<close>

definition preserves :: "('s \<Rightarrow> bool) \<Rightarrow> ('s, 'a) meth \<Rightarrow> bool" where
  "preserves P m \<longleftrightarrow> (\<forall>s. P s \<longrightarrow> P (snd (m s)))"

lemma preservesD: "preserves P m \<Longrightarrow> P s \<Longrightarrow> m s = (r, s') \<Longrightarrow> P s'"
  by (force simp: preserves_def)

lemma preserves_sret [simp]: "preserves P (sret x)"
  by (simp add: preserves_def sret_def)

lemma preserves_smodify: "(\<And>s. P s \<Longrightarrow> P (f s)) \<Longrightarrow> preserves P (smodify f)"
  by (simp add: preserves_def smodify_def)

lemma preserves_sbind: "preserves P m \<Longrightarrow> (\<And>x. preserves P (f x)) \<Longrightarrow> preserves P (sbind m f)"
  by (fastforce simp: preserves_def sbind_def split: sum.splits prod.splits)

section \<open>Invariants of a component that is driven by inputs\<close>

text \<open>
  The contract that several components share: each input moves the state by one step, and the
  step keeps the invariant. Every run then keeps it, from every state that has it.
\<close>

locale invariant_step =
  fixes step :: "'i \<Rightarrow> 's \<Rightarrow> 's"
    and inv :: "'s \<Rightarrow> bool"
  assumes step_inv: "inv s \<Longrightarrow> inv (step i s)"
begin

lemma run_inv: "inv s \<Longrightarrow> inv (fold step is s)"
  by (induction "is" arbitrary: s) (simp_all add: step_inv)

lemma run_prefix_inv: "inv s \<Longrightarrow> inv (fold step (take n is) s)"
  by (rule run_inv)

end

end
