(* ===== verification/PyBytes.thy ===== *)
theory PyBytes
  imports PyPrelude
begin

text \<open>
  Byte strings as the repository uses them: construction from integers, indexing, slicing,
  \<^verbatim>\<open>ljust\<close>, \<^verbatim>\<open>hex\<close>, and the integer formats of \<^verbatim>\<open>struct\<close> in both byte orders. The codec
  locale states the one law the clients use of a pair of an encoder and a decoder.
\<close>

type_synonym byte = "8 word"
type_synonym bytes = "byte list"

section \<open>Construction, indexing, slicing\<close>

text \<open>\<^verbatim>\<open>bytes([n])\<close> raises \<^verbatim>\<open>ValueError\<close> outside \<^verbatim>\<open>range(256)\<close>.\<close>

definition py_byte :: "int \<Rightarrow> byte result" where
  "py_byte n = (if 0 \<le> n \<and> n < 256 then Inr (word_of_int n) else Inl ValueError)"

definition py_bytes :: "int list \<Rightarrow> bytes result" where
  "py_bytes ns = emap py_byte ns"

definition py_index :: "'a list \<Rightarrow> nat \<Rightarrow> 'a result" where
  "py_index xs i = (if i < length xs then Inr (xs ! i) else Inl IndexError)"

text \<open>\<^verbatim>\<open>data[i]\<close> of a bytes object, as an integer.\<close>

definition byte_at :: "bytes \<Rightarrow> nat \<Rightarrow> int result" where
  "byte_at xs i = (if i < length xs then Inr (uint (xs ! i)) else Inl IndexError)"

text \<open>A slice bound: negative bounds count from the end, and both are clamped to the length.\<close>

definition slice_bound :: "nat \<Rightarrow> int \<Rightarrow> nat" where
  "slice_bound n i = (if i < 0 then nat (int n + i) else min n (nat i))"

definition py_slice :: "'a list \<Rightarrow> int \<Rightarrow> int \<Rightarrow> 'a list" where
  "py_slice xs lo hi =
     (let n = length xs; l = slice_bound n lo; h = slice_bound n hi
      in take (h - l) (drop l xs))"

text \<open>\<^verbatim>\<open>range(a, b, s)\<close> with a positive step.\<close>

definition py_range :: "int \<Rightarrow> int \<Rightarrow> int \<Rightarrow> int list" where
  "py_range a b s = map (\<lambda>k. a + int k * s) [0..<nat ((b - a + s - 1) div s)]"

definition ljust :: "nat \<Rightarrow> bytes \<Rightarrow> bytes" where
  "ljust n xs = xs @ replicate (n - length xs) 0"

lemma py_byte_simps [simp]:
  "0 \<le> n \<Longrightarrow> n < 256 \<Longrightarrow> py_byte n = Inr (word_of_int n)"
  "n < 0 \<Longrightarrow> py_byte n = Inl ValueError"
  "256 \<le> n \<Longrightarrow> py_byte n = Inl ValueError"
  by (simp_all add: py_byte_def)

lemma py_byte_eq_Inr: "py_byte n = Inr b \<longleftrightarrow> uint b = n"
  by (auto simp: py_byte_def uint_word_of_int_eq take_bit_int_eq_self word_of_int_uint
      intro: uint_ge_0 uint_lt2p[where 'a=8, simplified])

lemma uint_byte_lt [simp]: "uint (b :: byte) < 256"
  using uint_lt2p [of b] by simp

lemma py_byte_uint [simp]: "py_byte (uint b) = Inr b"
  by (simp add: py_byte_eq_Inr)

lemma py_bytes_simps [simp]:
  "py_bytes [] = Inr []"
  "py_bytes (n # ns) = ebind (py_byte n) (\<lambda>b. ebind (py_bytes ns) (\<lambda>bs. Inr (b # bs)))"
  by (simp_all add: py_bytes_def)

lemma py_bytes_length: "py_bytes ns = Inr bs \<Longrightarrow> length bs = length ns"
  by (induction ns arbitrary: bs) (auto simp: ebind_eq_Inr)

lemma py_bytes_uint: "py_bytes ns = Inr bs \<Longrightarrow> map uint bs = ns"
  by (induction ns arbitrary: bs) (auto simp: ebind_eq_Inr py_byte_eq_Inr)

lemma py_index_simps [simp]:
  "py_index (x # xs) 0 = Inr x"
  "py_index (x # xs) (Suc i) = py_index xs i"
  "py_index [] i = Inl IndexError"
  "py_index (x # xs) 1 = py_index xs 0"
  "py_index (x # xs) (numeral n) = py_index xs (pred_numeral n)"
  by (simp_all add: py_index_def numeral_eq_Suc)

lemma byte_at_simps [simp]:
  "byte_at (x # xs) 0 = Inr (uint x)"
  "byte_at (x # xs) (Suc i) = byte_at xs i"
  "byte_at [] i = Inl IndexError"
  "byte_at (x # xs) 1 = byte_at xs 0"
  "byte_at (x # xs) (numeral n) = byte_at xs (pred_numeral n)"
  by (simp_all add: byte_at_def numeral_eq_Suc)

lemma byte_at_eq_Inr: "byte_at xs i = Inr n \<longleftrightarrow> i < length xs \<and> uint (xs ! i) = n"
  by (auto simp: byte_at_def)

lemma py_slice_nonneg:
  "0 \<le> lo \<Longrightarrow> lo \<le> hi \<Longrightarrow> py_slice xs lo hi = take (nat hi - nat lo) (drop (nat lo) xs)"
  by (auto simp: py_slice_def slice_bound_def Let_def min_def)

lemma py_slice_of_nat [simp]:
  "py_slice xs (int l) (int h) = take (h - l) (drop l xs)"
  by (auto simp: py_slice_def slice_bound_def Let_def min_def)

lemma length_ljust [simp, codec_simps]: "length (ljust n xs) = max n (length xs)"
  by (simp add: ljust_def)

lemma ljust_id [simp]: "n \<le> length xs \<Longrightarrow> ljust n xs = xs"
  by (simp add: ljust_def)

lemma take_ljust: "m \<le> length xs \<Longrightarrow> take m (ljust n xs) = take m xs"
  by (simp add: ljust_def)

lemma ljust_Cons: "0 < n \<Longrightarrow> ljust n (x # xs) = x # ljust (n - 1) xs"
  by (cases n) (simp_all add: ljust_def)

section \<open>Integers in struct formats\<close>

text \<open>
  \<^verbatim>\<open>struct.pack\<close> with \<^verbatim>\<open>!\<close> or \<^verbatim>\<open>>\<close> writes the most significant byte first, with \<^verbatim>\<open><\<close> the least
  significant. A value that does not fit the format raises \<^verbatim>\<open>struct.error\<close>.
\<close>

fun be_bytes :: "nat \<Rightarrow> int \<Rightarrow> bytes" where
  "be_bytes 0 n = []"
| "be_bytes (Suc k) n = be_bytes k (n div 256) @ [word_of_int n]"

definition be_int :: "bytes \<Rightarrow> int" where
  "be_int bs = foldl (\<lambda>a b. a * 256 + uint b) 0 bs"

fun le_bytes :: "nat \<Rightarrow> int \<Rightarrow> bytes" where
  "le_bytes 0 n = []"
| "le_bytes (Suc k) n = word_of_int n # le_bytes k (n div 256)"

fun le_int :: "bytes \<Rightarrow> int" where
  "le_int [] = 0"
| "le_int (b # bs) = uint b + 256 * le_int bs"

definition pack_be :: "nat \<Rightarrow> int \<Rightarrow> bytes result" where
  "pack_be k n = (if 0 \<le> n \<and> n < 256 ^ k then Inr (be_bytes k n) else Inl StructError)"

definition pack_le :: "nat \<Rightarrow> int \<Rightarrow> bytes result" where
  "pack_le k n = (if 0 \<le> n \<and> n < 256 ^ k then Inr (le_bytes k n) else Inl StructError)"

definition unpack_be :: "nat \<Rightarrow> bytes \<Rightarrow> int result" where
  "unpack_be k bs = (if length bs = k then Inr (be_int bs) else Inl StructError)"

definition unpack_le :: "nat \<Rightarrow> bytes \<Rightarrow> int result" where
  "unpack_le k bs = (if length bs = k then Inr (le_int bs) else Inl StructError)"

lemma be_int_Nil [simp]: "be_int [] = 0"
  by (simp add: be_int_def)

lemma be_int_snoc [simp]: "be_int (bs @ [b]) = be_int bs * 256 + uint b"
  by (simp add: be_int_def)

lemma be_int_foldl: "foldl (\<lambda>a b. a * 256 + uint b) x (bs :: bytes) = x * 256 ^ length bs + be_int bs"
  by (induction bs arbitrary: x rule: rev_induct) (simp_all add: algebra_simps)

lemma be_int_Cons: "be_int (b # bs) = uint b * 256 ^ length bs + be_int bs"
  using be_int_foldl [of "uint b" bs] by (simp add: be_int_def)

lemma length_be_bytes [simp, codec_simps]: "length (be_bytes k n) = k"
  by (induction k arbitrary: n) simp_all

lemma length_le_bytes [simp, codec_simps]: "length (le_bytes k n) = k"
  by (induction k arbitrary: n) simp_all

lemma uint_of_int_byte: "uint (word_of_int n :: byte) = n mod 256"
  by (simp add: uint_word_of_int)

lemma word_of_int_byte_eq: "n mod 256 = uint b \<Longrightarrow> word_of_int n = (b :: byte)"
  by (metis uint_of_int_byte word_uint_eqI)

lemma be_int_bytes [codec_simps]: "be_int (be_bytes k n) = n mod 256 ^ k"
proof (induction k arbitrary: n)
  case 0
  then show ?case by simp
next
  case (Suc k)
  have "n mod (256 * 256 ^ k) = 256 * (n div 256 mod 256 ^ k) + n mod 256"
    by (simp add: zmod_zmult2_eq)
  then show ?case
    by (simp add: Suc.IH uint_of_int_byte mult.commute)
qed

lemma le_int_bytes [codec_simps]: "le_int (le_bytes k n) = n mod 256 ^ k"
proof (induction k arbitrary: n)
  case 0
  then show ?case by simp
next
  case (Suc k)
  have "n mod (256 * 256 ^ k) = 256 * (n div 256 mod 256 ^ k) + n mod 256"
    by (simp add: zmod_zmult2_eq)
  then show ?case
    by (simp add: Suc.IH uint_of_int_byte)
qed

lemma be_int_ge_0 [simp]: "0 \<le> be_int bs"
  by (induction bs rule: rev_induct) simp_all

lemma le_int_ge_0 [simp]: "0 \<le> le_int bs"
  by (induction bs) simp_all

lemma digit_lt: "a < p \<Longrightarrow> d < 256 \<Longrightarrow> a * 256 + d < p * 256" for a p d :: int
  by linarith

lemma be_int_lt: "be_int bs < 256 ^ length bs"
proof (induction bs rule: rev_induct)
  case Nil
  then show ?case by simp
next
  case (snoc b bs)
  have "be_int bs * 256 + uint b < 256 ^ length bs * 256"
    using snoc.IH uint_byte_lt by (rule digit_lt)
  then show ?case by (simp add: mult.commute)
qed

lemma le_int_lt: "le_int bs < 256 ^ length bs"
proof (induction bs)
  case Nil
  then show ?case by simp
next
  case (Cons b bs)
  have "le_int bs * 256 + uint b < 256 ^ length bs * 256"
    using Cons.IH uint_byte_lt by (rule digit_lt)
  then show ?case by (simp add: mult.commute add.commute)
qed

lemma be_bytes_int [codec_simps]: "be_bytes (length bs) (be_int bs) = bs"
proof (induction bs rule: rev_induct)
  case Nil
  then show ?case by simp
next
  case (snoc b bs)
  have "(be_int bs * 256 + uint b) div 256 = be_int bs" by simp
  moreover have "word_of_int (be_int bs * 256 + uint b) = b"
    by (rule word_of_int_byte_eq) simp
  ultimately show ?case using snoc by simp
qed

lemma le_bytes_int [codec_simps]: "le_bytes (length bs) (le_int bs) = bs"
proof (induction bs)
  case Nil
  then show ?case by simp
next
  case (Cons b bs)
  have "(uint b + 256 * le_int bs) div 256 = le_int bs" by simp
  moreover have "word_of_int (uint b + 256 * le_int bs) = b"
    by (rule word_of_int_byte_eq) simp
  ultimately show ?case using Cons by simp
qed

lemma pack_be_length: "pack_be k n = Inr bs \<Longrightarrow> length bs = k"
  by (auto simp: pack_be_def split: if_splits)

lemma pack_le_length: "pack_le k n = Inr bs \<Longrightarrow> length bs = k"
  by (auto simp: pack_le_def split: if_splits)

section \<open>The interface of a byte codec\<close>

text \<open>
  What the users of a codec rely on: every encodable value is written to bytes that the decoder
  reads back. Two values with the same bytes are then equal, and the encoder never raises on
  an encodable value.
\<close>

locale byte_codec =
  fixes enc :: "'a \<Rightarrow> bytes result"
    and dec :: "bytes \<Rightarrow> 'a result"
    and encodable :: "'a \<Rightarrow> bool"
  assumes enc_dec: "encodable x \<Longrightarrow> \<exists>bs. enc x = Inr bs \<and> dec bs = Inr x"
begin

lemma round_trip: "encodable x \<Longrightarrow> ebind (enc x) dec = Inr x"
  using enc_dec [of x] by auto

lemma enc_total: "encodable x \<Longrightarrow> enc x \<noteq> Inl e"
  using enc_dec [of x] by auto

lemma enc_inj: "encodable x \<Longrightarrow> encodable y \<Longrightarrow> enc x = enc y \<Longrightarrow> x = y"
  using enc_dec [of x] enc_dec [of y] by auto

end

interpretation be_codec: byte_codec "pack_be k" "unpack_be k" "\<lambda>n. 0 \<le> n \<and> n < 256 ^ k" for k
  by unfold_locales (simp add: pack_be_def unpack_be_def codec_simps)

interpretation le_codec: byte_codec "pack_le k" "unpack_le k" "\<lambda>n. 0 \<le> n \<and> n < 256 ^ k" for k
  by unfold_locales (simp add: pack_le_def unpack_le_def codec_simps)

section \<open>Hexadecimal text\<close>

definition hex_digit :: "int \<Rightarrow> char" where
  "hex_digit n = ''0123456789abcdef'' ! nat n"

definition hex_bytes :: "bytes \<Rightarrow> string" where
  "hex_bytes bs = concat (map (\<lambda>b. [hex_digit (uint b div 16), hex_digit (uint b mod 16)]) bs)"

lemma length_hex_bytes: "length (hex_bytes bs) = 2 * length bs"
  by (induction bs) (simp_all add: hex_bytes_def)

section \<open>Bit masks on integers\<close>

lemma and_15 [simp]: "(x::int) AND 15 = x mod 16"
proof -
  have "x AND mask 4 = take_bit 4 x" by (simp add: take_bit_eq_mask)
  then show ?thesis by (simp add: take_bit_int_def mask_eq_exp_minus_1)
qed

lemma and_255: "(x::int) AND 255 = x mod 256"
proof -
  have "x AND mask 8 = take_bit 8 x" by (simp add: take_bit_eq_mask)
  then show ?thesis by (simp add: take_bit_int_def mask_eq_exp_minus_1)
qed

lemma or_add_disjoint: "0 \<le> y \<Longrightarrow> y < 2 ^ k \<Longrightarrow> push_bit k x OR y = x * 2 ^ k + (y::int)"
proof -
  assume "0 \<le> y" "y < 2 ^ k"
  then have y: "take_bit k y = y" by (simp add: take_bit_int_eq_self)
  have "push_bit k x AND y = 0"
    by (rule bit_eqI) (metis bit_0_eq bit_and_iff bit_push_bit_iff bit_take_bit_iff bot_apply not_le y bot_bool_def)
  then have "push_bit k x OR y = push_bit k x + y"
    by (simp add: disjunctive_add bit_eq_iff bit_and_iff)
  then show ?thesis by (simp add: push_bit_eq_mult)
qed

end
