(* ===== verification/PyFloat.thy ===== *)
theory PyFloat
  imports PyPrelude Complex_Main
begin

text \<open>
  Python floats. A finite double is a rational number, and an arithmetic operation is the exact
  operation followed by \<open>fl\<close>, the rounding to 53 significant bits, ties to even, that IEEE 754
  prescribes. Not modelled: infinities, NaN, the limits of the exponent (overflow and subnormal
  numbers), and the sign of zero. A literal such as \<^verbatim>\<open>1e-4\<close> is \<open>fl (1/10000)\<close>.

  The lemmas say when rounding changes nothing: \<open>fl_exact\<close> for every number with at most 53
  significant bits, in particular the integers up to \<open>2 ^ 53\<close> (\<open>fl_of_int\<close>).
\<close>

section \<open>Powers of two and the binary exponent\<close>

function bit_length :: "int \<Rightarrow> nat" where
  "bit_length n = (if n \<le> 0 then 0 else Suc (bit_length (n div 2)))"
  by pat_completeness auto
termination
  by (relation "measure nat") auto

declare bit_length.simps [simp del]

definition exp2 :: "int \<Rightarrow> rat" where
  "exp2 e = (if 0 \<le> e then 2 ^ nat e else 1 / 2 ^ nat (- e))"

text \<open>The exponent of a positive number: \<open>exp2 (ilog2 q) \<le> q < exp2 (ilog2 q + 1)\<close>.\<close>

definition ilog2 :: "rat \<Rightarrow> int" where
  "ilog2 q =
     (let (n, d) = quotient_of q;
          k = int (bit_length n) - int (bit_length d)
      in if exp2 k \<le> q then k else k - 1)"

definition round_half_even :: "rat \<Rightarrow> int" where
  "round_half_even q =
     (let f = \<lfloor>q\<rfloor>; r = q - of_int f
      in if r < 1 / 2 then f else if 1 / 2 < r then f + 1
         else if even f then f else f + 1)"

definition fl :: "rat \<Rightarrow> rat" where
  "fl q =
     (if q = 0 then 0
      else let s = exp2 (ilog2 \<bar>q\<bar> - 52) in of_int (round_half_even (q / s)) * s)"

text \<open>\<^verbatim>\<open>round(x)\<close>, \<^verbatim>\<open>round(x, n)\<close> and \<^verbatim>\<open>int(x)\<close> of a float.\<close>

definition py_round :: "rat \<Rightarrow> int" where
  "py_round x = round_half_even x"

definition py_round_digits :: "rat \<Rightarrow> nat \<Rightarrow> rat" where
  "py_round_digits x n = fl (of_int (round_half_even (x * 10 ^ n)) / 10 ^ n)"

definition py_trunc :: "rat \<Rightarrow> int" where
  "py_trunc x = (if 0 \<le> x then \<lfloor>x\<rfloor> else \<lceil>x\<rceil>)"

lemma exp2_pos [simp]: "0 < exp2 e"
  by (simp add: exp2_def)

lemma exp2_neq_0 [simp]: "exp2 e \<noteq> 0"
  using exp2_pos [of e] by linarith

lemma exp2_0 [simp]: "exp2 0 = 1"
  by (simp add: exp2_def)

lemma exp2_powi: "exp2 e = 2 powi e"
  by (simp add: exp2_def power_int_def inverse_eq_divide power_one_over)

lemma exp2_add: "exp2 (a + b) = exp2 a * exp2 b"
  by (simp add: exp2_powi power_int_add)

lemma exp2_diff: "exp2 (a - b) = exp2 a / exp2 b"
  by (simp add: exp2_powi power_int_diff)

lemma exp2_nat: "exp2 (int n) = 2 ^ n"
  by (simp add: exp2_def)

lemma exp2_mono: "a \<le> b \<Longrightarrow> exp2 a \<le> exp2 b"
  by (simp add: exp2_powi power_int_increasing)

lemma bit_length_bounds: "0 < n \<Longrightarrow> 2 ^ (bit_length n - 1) \<le> n \<and> n < 2 ^ bit_length n"
proof (induction n rule: bit_length.induct)
  case (1 n)
  show ?case
  proof (cases "n div 2 = 0")
    case True
    with 1 have "n = 1" by linarith
    then show ?thesis by (simp add: bit_length.simps)
  next
    case False
    with 1 have half: "0 < n div 2" by linarith
    with 1 have IH: "2 ^ (bit_length (n div 2) - 1) \<le> n div 2" "n div 2 < 2 ^ bit_length (n div 2)"
      by auto
    have b: "bit_length n = Suc (bit_length (n div 2))"
      using 1 by (subst bit_length.simps) simp
    have pos: "0 < bit_length (n div 2)"
      using half by (subst bit_length.simps) simp
    have "2 * 2 ^ (bit_length (n div 2) - 1) \<le> n" using IH(1) by linarith
    then have lo: "2 ^ bit_length (n div 2) \<le> n"
      using pos by (metis Suc_diff_1 power_Suc)
    have "n < 2 * 2 ^ bit_length (n div 2)" using IH(2) by linarith
    with lo b show ?thesis by simp
  qed
qed

lemma bit_length_pos: "0 < n \<Longrightarrow> 0 < bit_length n"
  by (subst bit_length.simps) simp

lemma bit_length_exp2:
  assumes "0 < n"
  shows "exp2 (int (bit_length n) - 1) \<le> of_int n \<and> of_int n < exp2 (int (bit_length n))"
proof -
  have a: "2 ^ (bit_length n - 1) \<le> n" "n < 2 ^ bit_length n" using bit_length_bounds [OF assms] by auto
  have "of_int (2 ^ (bit_length n - 1)) \<le> (of_int n :: rat)" using a(1) by (simp only: of_int_le_iff)
  moreover have "of_int n < (of_int (2 ^ bit_length n) :: rat)" using a(2) by (simp only: of_int_less_iff)
  ultimately show ?thesis
    using bit_length_pos [OF assms] by (simp add: exp2_def nat_diff_distrib)
qed

lemma ilog2_bounds:
  assumes "0 < q"
  shows "exp2 (ilog2 q) \<le> q \<and> q < exp2 (ilog2 q + 1)"
proof -
  obtain n d where nd: "quotient_of q = (n, d)" by (cases "quotient_of q")
  have q: "q = of_int n / of_int d" using nd by (rule quotient_of_div)
  have d: "0 < d" using nd by (rule quotient_of_denom_pos)
  have n: "0 < n" using assms q d by (simp add: zero_less_divide_iff)
  let ?a = "bit_length n" and ?b = "bit_length d"
  have a1: "exp2 (int ?a - 1) \<le> of_int n" and a2: "of_int n < exp2 (int ?a)"
    using bit_length_exp2 [OF n] by auto
  have b1: "exp2 (int ?b - 1) \<le> of_int d" and b2: "of_int d < exp2 (int ?b)"
    using bit_length_exp2 [OF d] by auto
  let ?k = "int ?a - int ?b"
  have "exp2 (?k - 1) = exp2 (int ?a - 1) / exp2 (int ?b)"
    by (simp flip: exp2_diff add: algebra_simps)
  also have "\<dots> \<le> q"
    unfolding q using a1 b2 d n by (intro frac_le) auto
  finally have lo: "exp2 (?k - 1) \<le> q" .
  have "q < exp2 (int ?a) / exp2 (int ?b - 1)"
    unfolding q using a2 b1 d n by (intro frac_less) auto
  also have "\<dots> = exp2 (?k + 1)"
    by (simp flip: exp2_diff add: algebra_simps)
  finally have hi: "q < exp2 (?k + 1)" .
  show ?thesis using lo hi by (simp add: ilog2_def nd Let_def)
qed

section \<open>When rounding is the identity\<close>

lemma round_half_even_of_int [simp]: "round_half_even (of_int n) = n"
  by (simp add: round_half_even_def)

lemma round_half_even_bounds: "\<bar>of_int (round_half_even q) - q\<bar> \<le> 1 / 2"
proof -
  obtain r where r: "r = q - of_int \<lfloor>q\<rfloor>" by simp
  have "0 \<le> r" "r < 1" unfolding r using floor_correct [of q] by (simp, linarith)
  then have "\<bar>of_int (round_half_even q) - (of_int \<lfloor>q\<rfloor> + r)\<bar> \<le> 1 / 2"
    unfolding round_half_even_def Let_def r [symmetric] by (auto simp: abs_if)
  then show ?thesis by (simp add: r)
qed

lemma exp2_diff_power:
  "a \<le> b \<Longrightarrow> exp2 b = 2 ^ nat (b - a) * exp2 a"
  using exp2_add [of a "b - a"] by (simp add: exp2_def)

lemma fl_exact:
  assumes "\<bar>m\<bar> \<le> 2 ^ 53" and q: "q = of_int m * exp2 e"
  shows "fl q = q"
proof (cases "m = 0")
  case True
  then show ?thesis by (simp add: q fl_def)
next
  case False
  obtain E where E: "E = ilog2 \<bar>q\<bar> - 52" by simp
  have "0 < \<bar>q\<bar>" using False by (simp add: q)
  then have lo: "exp2 (E + 52) \<le> \<bar>q\<bar>" using ilog2_bounds [of "\<bar>q\<bar>"] by (simp add: E)
  have abs: "\<bar>q\<bar> = of_int \<bar>m\<bar> * exp2 e" by (simp add: q abs_mult abs_of_pos)
  have "\<exists>z. q / exp2 E = of_int z"
  proof (cases "E \<le> e")
    case True
    then have "q / exp2 E = of_int (m * 2 ^ nat (e - E))"
      using exp2_diff_power [OF True] by (simp add: q)
    then show ?thesis ..
  next
    case gt: False
    let ?j = "nat (E - e)"
    have "exp2 (E + 52) = 2 ^ 52 * exp2 E" using exp2_diff_power [of E "E + 52"] by simp
    also have "\<dots> = 2 ^ 52 * (2 ^ ?j * exp2 e)" using gt exp2_diff_power [of e E] by simp
    finally have "2 ^ 52 * 2 ^ ?j * exp2 e \<le> of_int \<bar>m\<bar> * exp2 e"
      using lo abs by (simp add: mult.assoc)
    then have "(2 ^ 52 * 2 ^ ?j :: rat) \<le> of_int \<bar>m\<bar>" by simp
    then have "of_int (2 ^ 52 * 2 ^ ?j) \<le> (of_int \<bar>m\<bar> :: rat)" by simp
    then have m_ge: "2 ^ 52 * 2 ^ ?j \<le> \<bar>m\<bar>" by (simp only: of_int_le_iff)
    have j: "1 \<le> ?j" using gt by simp
    have "?j = 1"
    proof (rule ccontr)
      assume "?j \<noteq> 1"
      with j have "2 \<le> ?j" by simp
      then have "(2 :: int) ^ 2 \<le> 2 ^ ?j" by (intro power_increasing) auto
      then have "(2 :: int) ^ 52 * 4 \<le> 2 ^ 52 * 2 ^ ?j" by simp
      with m_ge assms(1) show False by simp
    qed
    with m_ge assms(1) have "\<bar>m\<bar> = 2 ^ 53" by simp
    then have "even \<bar>m\<bar>" by simp
    then have "even m" by simp
    then obtain k where k: "m = 2 * k" by blast
    have "exp2 E = 2 * exp2 e" using gt exp2_diff_power [of e E] \<open>?j = 1\<close> by simp
    then have "q / exp2 E = of_int k" by (simp add: q k)
    then show ?thesis ..
  qed
  then obtain z where z: "q / exp2 E = of_int z" ..
  then have "q = of_int z * exp2 E" by (simp add: field_simps)
  have "q \<noteq> 0" using False by (simp add: q)
  then have "fl q = of_int (round_half_even (q / exp2 E)) * exp2 E"
    by (simp add: fl_def Let_def E)
  also have "\<dots> = of_int z * exp2 E" by (simp only: z round_half_even_of_int)
  also have "\<dots> = q" using \<open>q = of_int z * exp2 E\<close> by (rule sym)
  finally show ?thesis .
qed

lemma fl_of_int [simp]: "\<bar>n\<bar> \<le> 2 ^ 53 \<Longrightarrow> fl (of_int n) = of_int n"
  using fl_exact [of n "of_int n" 0] by simp

lemma fl_0 [simp]: "fl 0 = 0"
  by (simp add: fl_def)

lemma fl_1 [simp]: "fl 1 = 1"
  using fl_of_int [of 1] by simp

text \<open>The relative error of one rounding is at most \<open>2 ^ - 53\<close>.\<close>

lemma fl_error: "\<bar>fl q - q\<bar> \<le> \<bar>q\<bar> / 2 ^ 53"
proof (cases "q = 0")
  case False
  let ?s = "exp2 (ilog2 \<bar>q\<bar> - 52)"
  have pos: "0 < \<bar>q\<bar>" using False by simp
  have "fl q - q = (of_int (round_half_even (q / ?s)) - q / ?s) * ?s"
    using False by (simp add: fl_def Let_def algebra_simps)
  then have "\<bar>fl q - q\<bar> = \<bar>of_int (round_half_even (q / ?s)) - q / ?s\<bar> * ?s"
    by (simp add: abs_mult abs_of_pos)
  also have "\<dots> \<le> 1 / 2 * ?s"
    by (rule mult_right_mono [OF round_half_even_bounds]) (simp add: less_imp_le)
  also have "\<dots> = exp2 (ilog2 \<bar>q\<bar>) / 2 ^ 53"
    by (simp add: exp2_diff exp2_nat [of 52, simplified])
  also have "\<dots> \<le> \<bar>q\<bar> / 2 ^ 53"
    using ilog2_bounds [OF pos] by (intro divide_right_mono) auto
  finally show ?thesis .
qed simp

lemma fl_ge_half: "0 \<le> q \<Longrightarrow> q / 2 \<le> fl q"
  using fl_error [of q] by (simp add: abs_if split: if_splits)

section \<open>Rounding is monotone\<close>

lemma round_half_even_mono: "p \<le> q \<Longrightarrow> round_half_even p \<le> round_half_even q"
proof -
  assume le: "p \<le> q"
  have b: "\<bar>of_int (round_half_even p) - p\<bar> \<le> 1 / 2" "\<bar>of_int (round_half_even q) - q\<bar> \<le> 1 / 2"
    by (rule round_half_even_bounds)+
  show ?thesis
  proof (rule ccontr)
    assume "\<not> ?thesis"
    then have lt: "round_half_even q + 1 \<le> round_half_even p" by simp
    then have "of_int (round_half_even q) + 1 \<le> (of_int (round_half_even p) :: rat)"
      by (metis of_int_1 of_int_add of_int_le_iff)
    with b le have "p = q" unfolding abs_le_iff by linarith
    with lt show False by simp
  qed
qed

lemma round_half_even_minus: "round_half_even (- q) = - round_half_even q"
proof (cases "q = of_int \<lfloor>q\<rfloor>")
  case True
  then have "- q = of_int (- \<lfloor>q\<rfloor>)" by simp
  then have "round_half_even (- q) = - \<lfloor>q\<rfloor>" by (metis round_half_even_of_int)
  moreover have "round_half_even q = \<lfloor>q\<rfloor>" using True by (metis round_half_even_of_int)
  ultimately show ?thesis by simp
next
  case False
  have "\<lfloor>- q\<rfloor> = - \<lfloor>q\<rfloor> - 1"
    using False floor_correct [of q] by (intro floor_unique) (simp_all, linarith)
  then show ?thesis by (auto simp: round_half_even_def Let_def)
qed

lemma fl_minus: "fl (- q) = - fl q"
  by (simp add: fl_def Let_def round_half_even_minus)

lemma round_half_even_nonneg: "0 \<le> q \<Longrightarrow> 0 \<le> round_half_even q"
  using round_half_even_mono [of 0 q] round_half_even_of_int [of 0] by simp

lemma fl_nonneg [simp]: "0 \<le> q \<Longrightarrow> 0 \<le> fl q"
  using fl_ge_half [of q] by linarith

lemma fl_bracket:
  assumes "0 < q"
  shows "exp2 (ilog2 q) \<le> fl q" "fl q \<le> exp2 (ilog2 q + 1)"
    "\<exists>m. \<bar>m\<bar> \<le> 2 ^ 53 \<and> fl q = of_int m * exp2 (ilog2 q - 52)"
proof -
  let ?s = "exp2 (ilog2 q - 52)" and ?r = "round_half_even (q / exp2 (ilog2 q - 52))"
  have fl: "fl q = of_int ?r * ?s" using assms by (simp add: fl_def Let_def)
  have e: "exp2 (ilog2 q) = 2 ^ 52 * ?s" "exp2 (ilog2 q + 1) = 2 ^ 53 * ?s"
    using exp2_diff_power [of "ilog2 q - 52" "ilog2 q"] exp2_diff_power [of "ilog2 q - 52" "ilog2 q + 1"] by simp_all
  have "2 ^ 52 \<le> q / ?s" "q / ?s \<le> 2 ^ 53"
    using ilog2_bounds [OF assms] unfolding e by (simp_all add: pos_le_divide_eq pos_divide_le_eq less_imp_le)
  then have "round_half_even (of_int (2 ^ 52)) \<le> ?r" "?r \<le> round_half_even (of_int (2 ^ 53))"
    by (auto intro!: round_half_even_mono)
  then have r: "2 ^ 52 \<le> ?r" "?r \<le> 2 ^ 53" unfolding round_half_even_of_int by simp_all
  have "of_int (2 ^ 52) \<le> (of_int ?r :: rat)" "(of_int ?r :: rat) \<le> of_int (2 ^ 53)"
    using r unfolding of_int_le_iff by simp_all
  then show "exp2 (ilog2 q) \<le> fl q" "fl q \<le> exp2 (ilog2 q + 1)" unfolding fl e by simp_all
  show "\<exists>m. \<bar>m\<bar> \<le> 2 ^ 53 \<and> fl q = of_int m * ?s" using r fl by (intro exI [of _ ?r]) simp
qed

lemma fl_idem [simp]: "fl (fl q) = fl q"
proof -
  have pos: "fl (fl q) = fl q" if "0 < q" for q
    using fl_bracket(3) [OF that] fl_exact by blast
  consider "q = 0" | "0 < q" | "0 < - q" by linarith
  then show ?thesis
  proof cases
    case 3
    then show ?thesis using pos [of "- q"] by (simp add: fl_minus)
  qed (simp_all add: pos)
qed

lemma fl_mono_pos:
  assumes "0 < x" "x \<le> y"
  shows "fl x \<le> fl y"
proof (cases "ilog2 x = ilog2 y")
  case True
  have "round_half_even (x / exp2 (ilog2 y - 52)) \<le> round_half_even (y / exp2 (ilog2 y - 52))"
    by (intro round_half_even_mono divide_right_mono) (use assms in \<open>simp_all add: less_imp_le\<close>)
  then have "(of_int (round_half_even (x / exp2 (ilog2 y - 52))) :: rat) \<le> of_int (round_half_even (y / exp2 (ilog2 y - 52)))"
    by simp
  then show ?thesis using assms True by (simp add: fl_def Let_def mult_right_mono)
next
  case False
  have "exp2 (ilog2 x) < exp2 (ilog2 y + 1)"
    using ilog2_bounds [of x] ilog2_bounds [of y] assms by linarith
  then have "ilog2 x < ilog2 y + 1" using exp2_mono [of "ilog2 y + 1" "ilog2 x"] by (meson not_le)
  then have "ilog2 x + 1 \<le> ilog2 y" using False by simp
  from exp2_mono [OF this] show ?thesis
    using fl_bracket(2) [OF assms(1)] fl_bracket(1) [of y] assms by simp
qed

text \<open>Rounding keeps the order.\<close>

lemma fl_mono: "x \<le> y \<Longrightarrow> fl x \<le> fl y"
proof -
  assume le: "x \<le> y"
  consider "0 < x" | "y < 0" | "x \<le> 0" "0 \<le> y" using le by linarith
  then show ?thesis
  proof cases
    case 1
    then show ?thesis using fl_mono_pos le by blast
  next
    case 2
    then have "fl (- y) \<le> fl (- x)" using le by (intro fl_mono_pos) simp_all
    then show ?thesis by (simp add: fl_minus)
  next
    case 3
    then have "0 \<le> fl y" "0 \<le> fl (- x)" by simp_all
    then show ?thesis by (simp add: fl_minus)
  qed
qed

end
