(* ===== verification/PandaEnv.thy ===== *)
theory PandaEnv
  imports PyBytes PyFloat
begin

text \<open>
  The environment of the diagnostic clients: the panda they are given as an argument, and the
  clock. Neither is code of the modelled files, so both are data of the state: \<open>rx_script\<close> holds
  what the coming calls of \<^verbatim>\<open>can_recv\<close> return (nothing once it is used up), \<open>tx_log\<close> the frames
  passed to \<^verbatim>\<open>can_send\<close>, oldest first, \<open>cleared\<close> the arguments of \<^verbatim>\<open>can_clear\<close>, and the n-th
  reading of the clock is \<open>clock n\<close>. Every property holds for every script and every clock.
\<close>

type_synonym frame = "int \<times> bytes \<times> int"

record panda =
  rx_script :: "frame list list"
  tx_log :: "frame list"
  cleared :: "int list"
  clock :: "nat \<Rightarrow> rat"
  ticks :: nat

definition can_send :: "int \<Rightarrow> bytes \<Rightarrow> int \<Rightarrow> panda \<Rightarrow> panda" where
  "can_send addr dat bus p = p\<lparr>tx_log := tx_log p @ [(addr, dat, bus)]\<rparr>"

definition can_recv :: "panda \<Rightarrow> frame list \<times> panda" where
  "can_recv p = (case rx_script p of [] \<Rightarrow> ([], p) | msgs # rest \<Rightarrow> (msgs, p\<lparr>rx_script := rest\<rparr>))"

definition can_clear :: "int \<Rightarrow> panda \<Rightarrow> panda" where
  "can_clear bus p = p\<lparr>cleared := cleared p @ [bus]\<rparr>"

definition read_clock :: "panda \<Rightarrow> rat \<times> panda" where
  "read_clock p = (clock p (ticks p), p\<lparr>ticks := Suc (ticks p)\<rparr>)"

lemma can_send_sel [simp]:
  "rx_script (can_send a d b p) = rx_script p"
  "tx_log (can_send a d b p) = tx_log p @ [(a, d, b)]"
  "cleared (can_send a d b p) = cleared p"
  "clock (can_send a d b p) = clock p"
  "ticks (can_send a d b p) = ticks p"
  by (simp_all add: can_send_def)

lemma can_clear_sel [simp]:
  "rx_script (can_clear b p) = rx_script p"
  "tx_log (can_clear b p) = tx_log p"
  "cleared (can_clear b p) = cleared p @ [b]"
  "clock (can_clear b p) = clock p"
  "ticks (can_clear b p) = ticks p"
  by (simp_all add: can_clear_def)

lemma can_recv_Nil [simp]: "rx_script p = [] \<Longrightarrow> can_recv p = ([], p)"
  by (simp add: can_recv_def)

lemma can_recv_Cons [simp]: "rx_script p = ms # rest \<Longrightarrow> can_recv p = (ms, p\<lparr>rx_script := rest\<rparr>)"
  by (simp add: can_recv_def)

text \<open>The clock passes every bound: what makes a timeout happen.\<close>

definition clock_advances :: "(nat \<Rightarrow> rat) \<Rightarrow> bool" where
  "clock_advances c \<longleftrightarrow> (\<forall>t. \<exists>n. \<forall>k\<ge>n. t < c k)"

lemma clock_advancesD: "clock_advances c \<Longrightarrow> \<exists>n. \<forall>k\<ge>n. t < c k"
  by (simp add: clock_advances_def)

lemma clock_advances_of_nat: "clock_advances of_nat"
  unfolding clock_advances_def
  by (meson of_nat_le_iff order_less_le_trans reals_Archimedean2)

section \<open>Methods of an object that holds a part of the state\<close>

text \<open>Running a method of a component on the object that contains it.\<close>

definition on_part :: "('s \<Rightarrow> 'c) \<Rightarrow> (('c \<Rightarrow> 'c) \<Rightarrow> 's \<Rightarrow> 's) \<Rightarrow> ('c, 'a) meth \<Rightarrow> ('s, 'a) meth" where
  "on_part part upd m s = (let (r, c) = m (part s) in (r, upd (\<lambda>_. c) s))"

lemma on_part_run: "m (part s) = (r, c) \<Longrightarrow> on_part part upd m s = (r, upd (\<lambda>_. c) s)"
  by (simp add: on_part_def)

end
