(* ===== verification/UdsTypes.thy ===== *)
theory UdsTypes
  imports PyBytes
begin

text \<open>
  The constants of \<^verbatim>\<open>opendbc/car/uds.py\<close>: its integer enumerations (one datatype each, with the
  source's members and a \<open>_value\<close> function), the table of negative response codes, the texts of
  diagnostic trouble codes, and the default response address of a request address.
  Member \<^verbatim>\<open>ALL\<close> of the source is written \<open>ALL'\<close>, since \<open>ALL\<close> is a keyword of HOL.
\<close>

section \<open>Integer enumerations\<close>

text \<open>
  An \<^verbatim>\<open>IntEnum\<close> is looked up by value: \<^verbatim>\<open>SERVICE_TYPE(n)\<close> gives the member whose value is \<open>n\<close> and
  raises when there is none. The lookup inverts the value function as soon as the members'
  values are distinct.
\<close>

definition enum_lookup :: "('m \<Rightarrow> int) \<Rightarrow> 'm list \<Rightarrow> int \<Rightarrow> 'm result" where
  "enum_lookup val ms n = (case find (\<lambda>m. val m = n) ms of None \<Rightarrow> Inl ValueError | Some m \<Rightarrow> Inr m)"

locale int_enum =
  fixes val :: "'m \<Rightarrow> int"
    and members :: "'m list"
  assumes distinct_values: "distinct (map val members)"
    and all_members: "m \<in> set members"
begin

lemma value_inj: "val m = val m' \<Longrightarrow> m = m'"
  using distinct_values all_members by (auto simp: distinct_map dest: inj_onD)

lemma lookup_value: "enum_lookup val members (val m) = Inr m"
proof -
  have "find (\<lambda>m'. val m' = val m) members \<noteq> None"
    using all_members [of m] by (auto simp: find_None_iff)
  then obtain m' where "find (\<lambda>m'. val m' = val m) members = Some m'" by blast
  moreover from this have "val m' = val m" by (auto simp: find_Some_iff)
  ultimately show ?thesis by (auto simp: enum_lookup_def dest: value_inj)
qed

lemma lookup_Inr: "enum_lookup val members n = Inr m \<longleftrightarrow> val m = n"
proof
  assume "enum_lookup val members n = Inr m"
  then show "val m = n"
    by (auto simp: enum_lookup_def find_Some_iff split: option.splits)
next
  assume "val m = n"
  then show "enum_lookup val members n = Inr m"
    using lookup_value [of m] by simp
qed

lemma lookup_Inl: "enum_lookup val members n = Inl e \<longleftrightarrow> e = ValueError \<and> (\<forall>m. val m \<noteq> n)"
  using all_members by (auto simp: enum_lookup_def find_None_iff find_Some_iff split: option.splits)

end

datatype SERVICE_TYPE =
    DIAGNOSTIC_SESSION_CONTROL
  | ECU_RESET
  | SECURITY_ACCESS
  | COMMUNICATION_CONTROL
  | TESTER_PRESENT
  | ACCESS_TIMING_PARAMETER
  | SECURED_DATA_TRANSMISSION
  | CONTROL_DTC_SETTING
  | RESPONSE_ON_EVENT
  | LINK_CONTROL
  | READ_DATA_BY_IDENTIFIER
  | READ_MEMORY_BY_ADDRESS
  | READ_SCALING_DATA_BY_IDENTIFIER
  | READ_DATA_BY_PERIODIC_IDENTIFIER
  | DYNAMICALLY_DEFINE_DATA_IDENTIFIER
  | WRITE_DATA_BY_IDENTIFIER
  | WRITE_MEMORY_BY_ADDRESS
  | CLEAR_DIAGNOSTIC_INFORMATION
  | READ_DTC_INFORMATION
  | INPUT_OUTPUT_CONTROL_BY_IDENTIFIER
  | ROUTINE_CONTROL
  | REQUEST_DOWNLOAD
  | REQUEST_UPLOAD
  | TRANSFER_DATA
  | REQUEST_TRANSFER_EXIT

primrec SERVICE_TYPE_value :: "SERVICE_TYPE \<Rightarrow> int" where
  "SERVICE_TYPE_value SERVICE_TYPE.DIAGNOSTIC_SESSION_CONTROL = 0x10"
| "SERVICE_TYPE_value SERVICE_TYPE.ECU_RESET = 0x11"
| "SERVICE_TYPE_value SERVICE_TYPE.SECURITY_ACCESS = 0x27"
| "SERVICE_TYPE_value SERVICE_TYPE.COMMUNICATION_CONTROL = 0x28"
| "SERVICE_TYPE_value SERVICE_TYPE.TESTER_PRESENT = 0x3E"
| "SERVICE_TYPE_value SERVICE_TYPE.ACCESS_TIMING_PARAMETER = 0x83"
| "SERVICE_TYPE_value SERVICE_TYPE.SECURED_DATA_TRANSMISSION = 0x84"
| "SERVICE_TYPE_value SERVICE_TYPE.CONTROL_DTC_SETTING = 0x85"
| "SERVICE_TYPE_value SERVICE_TYPE.RESPONSE_ON_EVENT = 0x86"
| "SERVICE_TYPE_value SERVICE_TYPE.LINK_CONTROL = 0x87"
| "SERVICE_TYPE_value SERVICE_TYPE.READ_DATA_BY_IDENTIFIER = 0x22"
| "SERVICE_TYPE_value SERVICE_TYPE.READ_MEMORY_BY_ADDRESS = 0x23"
| "SERVICE_TYPE_value SERVICE_TYPE.READ_SCALING_DATA_BY_IDENTIFIER = 0x24"
| "SERVICE_TYPE_value SERVICE_TYPE.READ_DATA_BY_PERIODIC_IDENTIFIER = 0x2A"
| "SERVICE_TYPE_value SERVICE_TYPE.DYNAMICALLY_DEFINE_DATA_IDENTIFIER = 0x2C"
| "SERVICE_TYPE_value SERVICE_TYPE.WRITE_DATA_BY_IDENTIFIER = 0x2E"
| "SERVICE_TYPE_value SERVICE_TYPE.WRITE_MEMORY_BY_ADDRESS = 0x3D"
| "SERVICE_TYPE_value SERVICE_TYPE.CLEAR_DIAGNOSTIC_INFORMATION = 0x14"
| "SERVICE_TYPE_value SERVICE_TYPE.READ_DTC_INFORMATION = 0x19"
| "SERVICE_TYPE_value SERVICE_TYPE.INPUT_OUTPUT_CONTROL_BY_IDENTIFIER = 0x2F"
| "SERVICE_TYPE_value SERVICE_TYPE.ROUTINE_CONTROL = 0x31"
| "SERVICE_TYPE_value SERVICE_TYPE.REQUEST_DOWNLOAD = 0x34"
| "SERVICE_TYPE_value SERVICE_TYPE.REQUEST_UPLOAD = 0x35"
| "SERVICE_TYPE_value SERVICE_TYPE.TRANSFER_DATA = 0x36"
| "SERVICE_TYPE_value SERVICE_TYPE.REQUEST_TRANSFER_EXIT = 0x37"

definition SERVICE_TYPE_members :: "SERVICE_TYPE list" where
  "SERVICE_TYPE_members =
    [SERVICE_TYPE.DIAGNOSTIC_SESSION_CONTROL,
     SERVICE_TYPE.ECU_RESET,
     SERVICE_TYPE.SECURITY_ACCESS,
     SERVICE_TYPE.COMMUNICATION_CONTROL,
     SERVICE_TYPE.TESTER_PRESENT,
     SERVICE_TYPE.ACCESS_TIMING_PARAMETER,
     SERVICE_TYPE.SECURED_DATA_TRANSMISSION,
     SERVICE_TYPE.CONTROL_DTC_SETTING,
     SERVICE_TYPE.RESPONSE_ON_EVENT,
     SERVICE_TYPE.LINK_CONTROL,
     SERVICE_TYPE.READ_DATA_BY_IDENTIFIER,
     SERVICE_TYPE.READ_MEMORY_BY_ADDRESS,
     SERVICE_TYPE.READ_SCALING_DATA_BY_IDENTIFIER,
     SERVICE_TYPE.READ_DATA_BY_PERIODIC_IDENTIFIER,
     SERVICE_TYPE.DYNAMICALLY_DEFINE_DATA_IDENTIFIER,
     SERVICE_TYPE.WRITE_DATA_BY_IDENTIFIER,
     SERVICE_TYPE.WRITE_MEMORY_BY_ADDRESS,
     SERVICE_TYPE.CLEAR_DIAGNOSTIC_INFORMATION,
     SERVICE_TYPE.READ_DTC_INFORMATION,
     SERVICE_TYPE.INPUT_OUTPUT_CONTROL_BY_IDENTIFIER,
     SERVICE_TYPE.ROUTINE_CONTROL,
     SERVICE_TYPE.REQUEST_DOWNLOAD,
     SERVICE_TYPE.REQUEST_UPLOAD,
     SERVICE_TYPE.TRANSFER_DATA,
     SERVICE_TYPE.REQUEST_TRANSFER_EXIT]"

primrec SERVICE_TYPE_name :: "SERVICE_TYPE \<Rightarrow> string" where
  "SERVICE_TYPE_name SERVICE_TYPE.DIAGNOSTIC_SESSION_CONTROL = ''DIAGNOSTIC_SESSION_CONTROL''"
| "SERVICE_TYPE_name SERVICE_TYPE.ECU_RESET = ''ECU_RESET''"
| "SERVICE_TYPE_name SERVICE_TYPE.SECURITY_ACCESS = ''SECURITY_ACCESS''"
| "SERVICE_TYPE_name SERVICE_TYPE.COMMUNICATION_CONTROL = ''COMMUNICATION_CONTROL''"
| "SERVICE_TYPE_name SERVICE_TYPE.TESTER_PRESENT = ''TESTER_PRESENT''"
| "SERVICE_TYPE_name SERVICE_TYPE.ACCESS_TIMING_PARAMETER = ''ACCESS_TIMING_PARAMETER''"
| "SERVICE_TYPE_name SERVICE_TYPE.SECURED_DATA_TRANSMISSION = ''SECURED_DATA_TRANSMISSION''"
| "SERVICE_TYPE_name SERVICE_TYPE.CONTROL_DTC_SETTING = ''CONTROL_DTC_SETTING''"
| "SERVICE_TYPE_name SERVICE_TYPE.RESPONSE_ON_EVENT = ''RESPONSE_ON_EVENT''"
| "SERVICE_TYPE_name SERVICE_TYPE.LINK_CONTROL = ''LINK_CONTROL''"
| "SERVICE_TYPE_name SERVICE_TYPE.READ_DATA_BY_IDENTIFIER = ''READ_DATA_BY_IDENTIFIER''"
| "SERVICE_TYPE_name SERVICE_TYPE.READ_MEMORY_BY_ADDRESS = ''READ_MEMORY_BY_ADDRESS''"
| "SERVICE_TYPE_name SERVICE_TYPE.READ_SCALING_DATA_BY_IDENTIFIER = ''READ_SCALING_DATA_BY_IDENTIFIER''"
| "SERVICE_TYPE_name SERVICE_TYPE.READ_DATA_BY_PERIODIC_IDENTIFIER = ''READ_DATA_BY_PERIODIC_IDENTIFIER''"
| "SERVICE_TYPE_name SERVICE_TYPE.DYNAMICALLY_DEFINE_DATA_IDENTIFIER = ''DYNAMICALLY_DEFINE_DATA_IDENTIFIER''"
| "SERVICE_TYPE_name SERVICE_TYPE.WRITE_DATA_BY_IDENTIFIER = ''WRITE_DATA_BY_IDENTIFIER''"
| "SERVICE_TYPE_name SERVICE_TYPE.WRITE_MEMORY_BY_ADDRESS = ''WRITE_MEMORY_BY_ADDRESS''"
| "SERVICE_TYPE_name SERVICE_TYPE.CLEAR_DIAGNOSTIC_INFORMATION = ''CLEAR_DIAGNOSTIC_INFORMATION''"
| "SERVICE_TYPE_name SERVICE_TYPE.READ_DTC_INFORMATION = ''READ_DTC_INFORMATION''"
| "SERVICE_TYPE_name SERVICE_TYPE.INPUT_OUTPUT_CONTROL_BY_IDENTIFIER = ''INPUT_OUTPUT_CONTROL_BY_IDENTIFIER''"
| "SERVICE_TYPE_name SERVICE_TYPE.ROUTINE_CONTROL = ''ROUTINE_CONTROL''"
| "SERVICE_TYPE_name SERVICE_TYPE.REQUEST_DOWNLOAD = ''REQUEST_DOWNLOAD''"
| "SERVICE_TYPE_name SERVICE_TYPE.REQUEST_UPLOAD = ''REQUEST_UPLOAD''"
| "SERVICE_TYPE_name SERVICE_TYPE.TRANSFER_DATA = ''TRANSFER_DATA''"
| "SERVICE_TYPE_name SERVICE_TYPE.REQUEST_TRANSFER_EXIT = ''REQUEST_TRANSFER_EXIT''"

datatype SESSION_TYPE =
    DEFAULT
  | PROGRAMMING
  | EXTENDED_DIAGNOSTIC
  | SAFETY_SYSTEM_DIAGNOSTIC

primrec SESSION_TYPE_value :: "SESSION_TYPE \<Rightarrow> int" where
  "SESSION_TYPE_value SESSION_TYPE.DEFAULT = 1"
| "SESSION_TYPE_value SESSION_TYPE.PROGRAMMING = 2"
| "SESSION_TYPE_value SESSION_TYPE.EXTENDED_DIAGNOSTIC = 3"
| "SESSION_TYPE_value SESSION_TYPE.SAFETY_SYSTEM_DIAGNOSTIC = 4"

datatype RESET_TYPE =
    HARD
  | KEY_OFF_ON
  | SOFT
  | ENABLE_RAPID_POWER_SHUTDOWN
  | DISABLE_RAPID_POWER_SHUTDOWN

primrec RESET_TYPE_value :: "RESET_TYPE \<Rightarrow> int" where
  "RESET_TYPE_value RESET_TYPE.HARD = 1"
| "RESET_TYPE_value RESET_TYPE.KEY_OFF_ON = 2"
| "RESET_TYPE_value RESET_TYPE.SOFT = 3"
| "RESET_TYPE_value RESET_TYPE.ENABLE_RAPID_POWER_SHUTDOWN = 4"
| "RESET_TYPE_value RESET_TYPE.DISABLE_RAPID_POWER_SHUTDOWN = 5"

datatype ACCESS_TYPE =
    REQUEST_SEED
  | SEND_KEY

primrec ACCESS_TYPE_value :: "ACCESS_TYPE \<Rightarrow> int" where
  "ACCESS_TYPE_value ACCESS_TYPE.REQUEST_SEED = 1"
| "ACCESS_TYPE_value ACCESS_TYPE.SEND_KEY = 2"

datatype CONTROL_TYPE =
    ENABLE_RX_ENABLE_TX
  | ENABLE_RX_DISABLE_TX
  | DISABLE_RX_ENABLE_TX
  | DISABLE_RX_DISABLE_TX

primrec CONTROL_TYPE_value :: "CONTROL_TYPE \<Rightarrow> int" where
  "CONTROL_TYPE_value CONTROL_TYPE.ENABLE_RX_ENABLE_TX = 0"
| "CONTROL_TYPE_value CONTROL_TYPE.ENABLE_RX_DISABLE_TX = 1"
| "CONTROL_TYPE_value CONTROL_TYPE.DISABLE_RX_ENABLE_TX = 2"
| "CONTROL_TYPE_value CONTROL_TYPE.DISABLE_RX_DISABLE_TX = 3"

datatype MESSAGE_TYPE =
    NORMAL
  | NETWORK_MANAGEMENT
  | NORMAL_AND_NETWORK_MANAGEMENT

primrec MESSAGE_TYPE_value :: "MESSAGE_TYPE \<Rightarrow> int" where
  "MESSAGE_TYPE_value MESSAGE_TYPE.NORMAL = 1"
| "MESSAGE_TYPE_value MESSAGE_TYPE.NETWORK_MANAGEMENT = 2"
| "MESSAGE_TYPE_value MESSAGE_TYPE.NORMAL_AND_NETWORK_MANAGEMENT = 3"

datatype TIMING_PARAMETER_TYPE =
    READ_EXTENDED_SET
  | SET_TO_DEFAULT_VALUES
  | READ_CURRENTLY_ACTIVE
  | SET_TO_GIVEN_VALUES

primrec TIMING_PARAMETER_TYPE_value :: "TIMING_PARAMETER_TYPE \<Rightarrow> int" where
  "TIMING_PARAMETER_TYPE_value TIMING_PARAMETER_TYPE.READ_EXTENDED_SET = 1"
| "TIMING_PARAMETER_TYPE_value TIMING_PARAMETER_TYPE.SET_TO_DEFAULT_VALUES = 2"
| "TIMING_PARAMETER_TYPE_value TIMING_PARAMETER_TYPE.READ_CURRENTLY_ACTIVE = 3"
| "TIMING_PARAMETER_TYPE_value TIMING_PARAMETER_TYPE.SET_TO_GIVEN_VALUES = 4"

datatype DTC_SETTING_TYPE =
    ON
  | OFF

primrec DTC_SETTING_TYPE_value :: "DTC_SETTING_TYPE \<Rightarrow> int" where
  "DTC_SETTING_TYPE_value DTC_SETTING_TYPE.ON = 1"
| "DTC_SETTING_TYPE_value DTC_SETTING_TYPE.OFF = 2"

datatype RESPONSE_EVENT_TYPE =
    STOP_RESPONSE_ON_EVENT
  | ON_DTC_STATUS_CHANGE
  | ON_TIMER_INTERRUPT
  | ON_CHANGE_OF_DATA_IDENTIFIER
  | REPORT_ACTIVATED_EVENTS
  | START_RESPONSE_ON_EVENT
  | CLEAR_RESPONSE_ON_EVENT
  | ON_COMPARISON_OF_VALUES

primrec RESPONSE_EVENT_TYPE_value :: "RESPONSE_EVENT_TYPE \<Rightarrow> int" where
  "RESPONSE_EVENT_TYPE_value RESPONSE_EVENT_TYPE.STOP_RESPONSE_ON_EVENT = 0"
| "RESPONSE_EVENT_TYPE_value RESPONSE_EVENT_TYPE.ON_DTC_STATUS_CHANGE = 1"
| "RESPONSE_EVENT_TYPE_value RESPONSE_EVENT_TYPE.ON_TIMER_INTERRUPT = 2"
| "RESPONSE_EVENT_TYPE_value RESPONSE_EVENT_TYPE.ON_CHANGE_OF_DATA_IDENTIFIER = 3"
| "RESPONSE_EVENT_TYPE_value RESPONSE_EVENT_TYPE.REPORT_ACTIVATED_EVENTS = 4"
| "RESPONSE_EVENT_TYPE_value RESPONSE_EVENT_TYPE.START_RESPONSE_ON_EVENT = 5"
| "RESPONSE_EVENT_TYPE_value RESPONSE_EVENT_TYPE.CLEAR_RESPONSE_ON_EVENT = 6"
| "RESPONSE_EVENT_TYPE_value RESPONSE_EVENT_TYPE.ON_COMPARISON_OF_VALUES = 7"

datatype LINK_CONTROL_TYPE =
    VERIFY_BAUDRATE_TRANSITION_WITH_FIXED_BAUDRATE
  | VERIFY_BAUDRATE_TRANSITION_WITH_SPECIFIC_BAUDRATE
  | TRANSITION_BAUDRATE

primrec LINK_CONTROL_TYPE_value :: "LINK_CONTROL_TYPE \<Rightarrow> int" where
  "LINK_CONTROL_TYPE_value LINK_CONTROL_TYPE.VERIFY_BAUDRATE_TRANSITION_WITH_FIXED_BAUDRATE = 1"
| "LINK_CONTROL_TYPE_value LINK_CONTROL_TYPE.VERIFY_BAUDRATE_TRANSITION_WITH_SPECIFIC_BAUDRATE = 2"
| "LINK_CONTROL_TYPE_value LINK_CONTROL_TYPE.TRANSITION_BAUDRATE = 3"

datatype BAUD_RATE_TYPE =
    PC9600
  | PC19200
  | PC38400
  | PC57600
  | PC115200
  | CAN125000
  | CAN250000
  | CAN500000
  | CAN1000000

primrec BAUD_RATE_TYPE_value :: "BAUD_RATE_TYPE \<Rightarrow> int" where
  "BAUD_RATE_TYPE_value BAUD_RATE_TYPE.PC9600 = 1"
| "BAUD_RATE_TYPE_value BAUD_RATE_TYPE.PC19200 = 2"
| "BAUD_RATE_TYPE_value BAUD_RATE_TYPE.PC38400 = 3"
| "BAUD_RATE_TYPE_value BAUD_RATE_TYPE.PC57600 = 4"
| "BAUD_RATE_TYPE_value BAUD_RATE_TYPE.PC115200 = 5"
| "BAUD_RATE_TYPE_value BAUD_RATE_TYPE.CAN125000 = 0x10"
| "BAUD_RATE_TYPE_value BAUD_RATE_TYPE.CAN250000 = 0x11"
| "BAUD_RATE_TYPE_value BAUD_RATE_TYPE.CAN500000 = 0x12"
| "BAUD_RATE_TYPE_value BAUD_RATE_TYPE.CAN1000000 = 0x13"

datatype DATA_IDENTIFIER_TYPE =
    BOOT_SOFTWARE_IDENTIFICATION
  | APPLICATION_SOFTWARE_IDENTIFICATION
  | APPLICATION_DATA_IDENTIFICATION
  | BOOT_SOFTWARE_FINGERPRINT
  | APPLICATION_SOFTWARE_FINGERPRINT
  | APPLICATION_DATA_FINGERPRINT
  | ACTIVE_DIAGNOSTIC_SESSION
  | VEHICLE_MANUFACTURER_SPARE_PART_NUMBER
  | VEHICLE_MANUFACTURER_ECU_SOFTWARE_NUMBER
  | VEHICLE_MANUFACTURER_ECU_SOFTWARE_VERSION_NUMBER
  | SYSTEM_SUPPLIER_IDENTIFIER
  | ECU_MANUFACTURING_DATE
  | ECU_SERIAL_NUMBER
  | SUPPORTED_FUNCTIONAL_UNITS
  | VEHICLE_MANUFACTURER_KIT_ASSEMBLY_PART_NUMBER
  | VIN
  | VEHICLE_MANUFACTURER_ECU_HARDWARE_NUMBER
  | SYSTEM_SUPPLIER_ECU_HARDWARE_NUMBER
  | SYSTEM_SUPPLIER_ECU_HARDWARE_VERSION_NUMBER
  | SYSTEM_SUPPLIER_ECU_SOFTWARE_NUMBER
  | SYSTEM_SUPPLIER_ECU_SOFTWARE_VERSION_NUMBER
  | EXHAUST_REGULATION_OR_TYPE_APPROVAL_NUMBER
  | SYSTEM_NAME_OR_ENGINE_TYPE
  | REPAIR_SHOP_CODE_OR_TESTER_SERIAL_NUMBER
  | PROGRAMMING_DATE
  | CALIBRATION_REPAIR_SHOP_CODE_OR_CALIBRATION_EQUIPMENT_SERIAL_NUMBER
  | CALIBRATION_DATE
  | CALIBRATION_EQUIPMENT_SOFTWARE_NUMBER
  | ECU_INSTALLATION_DATE
  | ODX_FILE
  | ENTITY

primrec DATA_IDENTIFIER_TYPE_value :: "DATA_IDENTIFIER_TYPE \<Rightarrow> int" where
  "DATA_IDENTIFIER_TYPE_value DATA_IDENTIFIER_TYPE.BOOT_SOFTWARE_IDENTIFICATION = 0xF180"
| "DATA_IDENTIFIER_TYPE_value DATA_IDENTIFIER_TYPE.APPLICATION_SOFTWARE_IDENTIFICATION = 0xF181"
| "DATA_IDENTIFIER_TYPE_value DATA_IDENTIFIER_TYPE.APPLICATION_DATA_IDENTIFICATION = 0xF182"
| "DATA_IDENTIFIER_TYPE_value DATA_IDENTIFIER_TYPE.BOOT_SOFTWARE_FINGERPRINT = 0xF183"
| "DATA_IDENTIFIER_TYPE_value DATA_IDENTIFIER_TYPE.APPLICATION_SOFTWARE_FINGERPRINT = 0xF184"
| "DATA_IDENTIFIER_TYPE_value DATA_IDENTIFIER_TYPE.APPLICATION_DATA_FINGERPRINT = 0xF185"
| "DATA_IDENTIFIER_TYPE_value DATA_IDENTIFIER_TYPE.ACTIVE_DIAGNOSTIC_SESSION = 0xF186"
| "DATA_IDENTIFIER_TYPE_value DATA_IDENTIFIER_TYPE.VEHICLE_MANUFACTURER_SPARE_PART_NUMBER = 0xF187"
| "DATA_IDENTIFIER_TYPE_value DATA_IDENTIFIER_TYPE.VEHICLE_MANUFACTURER_ECU_SOFTWARE_NUMBER = 0xF188"
| "DATA_IDENTIFIER_TYPE_value DATA_IDENTIFIER_TYPE.VEHICLE_MANUFACTURER_ECU_SOFTWARE_VERSION_NUMBER = 0xF189"
| "DATA_IDENTIFIER_TYPE_value DATA_IDENTIFIER_TYPE.SYSTEM_SUPPLIER_IDENTIFIER = 0xF18A"
| "DATA_IDENTIFIER_TYPE_value DATA_IDENTIFIER_TYPE.ECU_MANUFACTURING_DATE = 0xF18B"
| "DATA_IDENTIFIER_TYPE_value DATA_IDENTIFIER_TYPE.ECU_SERIAL_NUMBER = 0xF18C"
| "DATA_IDENTIFIER_TYPE_value DATA_IDENTIFIER_TYPE.SUPPORTED_FUNCTIONAL_UNITS = 0xF18D"
| "DATA_IDENTIFIER_TYPE_value DATA_IDENTIFIER_TYPE.VEHICLE_MANUFACTURER_KIT_ASSEMBLY_PART_NUMBER = 0xF18E"
| "DATA_IDENTIFIER_TYPE_value DATA_IDENTIFIER_TYPE.VIN = 0xF190"
| "DATA_IDENTIFIER_TYPE_value DATA_IDENTIFIER_TYPE.VEHICLE_MANUFACTURER_ECU_HARDWARE_NUMBER = 0xF191"
| "DATA_IDENTIFIER_TYPE_value DATA_IDENTIFIER_TYPE.SYSTEM_SUPPLIER_ECU_HARDWARE_NUMBER = 0xF192"
| "DATA_IDENTIFIER_TYPE_value DATA_IDENTIFIER_TYPE.SYSTEM_SUPPLIER_ECU_HARDWARE_VERSION_NUMBER = 0xF193"
| "DATA_IDENTIFIER_TYPE_value DATA_IDENTIFIER_TYPE.SYSTEM_SUPPLIER_ECU_SOFTWARE_NUMBER = 0xF194"
| "DATA_IDENTIFIER_TYPE_value DATA_IDENTIFIER_TYPE.SYSTEM_SUPPLIER_ECU_SOFTWARE_VERSION_NUMBER = 0xF195"
| "DATA_IDENTIFIER_TYPE_value DATA_IDENTIFIER_TYPE.EXHAUST_REGULATION_OR_TYPE_APPROVAL_NUMBER = 0xF196"
| "DATA_IDENTIFIER_TYPE_value DATA_IDENTIFIER_TYPE.SYSTEM_NAME_OR_ENGINE_TYPE = 0xF197"
| "DATA_IDENTIFIER_TYPE_value DATA_IDENTIFIER_TYPE.REPAIR_SHOP_CODE_OR_TESTER_SERIAL_NUMBER = 0xF198"
| "DATA_IDENTIFIER_TYPE_value DATA_IDENTIFIER_TYPE.PROGRAMMING_DATE = 0xF199"
| "DATA_IDENTIFIER_TYPE_value DATA_IDENTIFIER_TYPE.CALIBRATION_REPAIR_SHOP_CODE_OR_CALIBRATION_EQUIPMENT_SERIAL_NUMBER = 0xF19A"
| "DATA_IDENTIFIER_TYPE_value DATA_IDENTIFIER_TYPE.CALIBRATION_DATE = 0xF19B"
| "DATA_IDENTIFIER_TYPE_value DATA_IDENTIFIER_TYPE.CALIBRATION_EQUIPMENT_SOFTWARE_NUMBER = 0xF19C"
| "DATA_IDENTIFIER_TYPE_value DATA_IDENTIFIER_TYPE.ECU_INSTALLATION_DATE = 0xF19D"
| "DATA_IDENTIFIER_TYPE_value DATA_IDENTIFIER_TYPE.ODX_FILE = 0xF19E"
| "DATA_IDENTIFIER_TYPE_value DATA_IDENTIFIER_TYPE.ENTITY = 0xF19F"

datatype TRANSMISSION_MODE_TYPE =
    SEND_AT_SLOW_RATE
  | SEND_AT_MEDIUM_RATE
  | SEND_AT_FAST_RATE
  | STOP_SENDING

primrec TRANSMISSION_MODE_TYPE_value :: "TRANSMISSION_MODE_TYPE \<Rightarrow> int" where
  "TRANSMISSION_MODE_TYPE_value TRANSMISSION_MODE_TYPE.SEND_AT_SLOW_RATE = 1"
| "TRANSMISSION_MODE_TYPE_value TRANSMISSION_MODE_TYPE.SEND_AT_MEDIUM_RATE = 2"
| "TRANSMISSION_MODE_TYPE_value TRANSMISSION_MODE_TYPE.SEND_AT_FAST_RATE = 3"
| "TRANSMISSION_MODE_TYPE_value TRANSMISSION_MODE_TYPE.STOP_SENDING = 4"

datatype DYNAMIC_DEFINITION_TYPE =
    DEFINE_BY_IDENTIFIER
  | DEFINE_BY_MEMORY_ADDRESS
  | CLEAR_DYNAMICALLY_DEFINED_DATA_IDENTIFIER

primrec DYNAMIC_DEFINITION_TYPE_value :: "DYNAMIC_DEFINITION_TYPE \<Rightarrow> int" where
  "DYNAMIC_DEFINITION_TYPE_value DYNAMIC_DEFINITION_TYPE.DEFINE_BY_IDENTIFIER = 1"
| "DYNAMIC_DEFINITION_TYPE_value DYNAMIC_DEFINITION_TYPE.DEFINE_BY_MEMORY_ADDRESS = 2"
| "DYNAMIC_DEFINITION_TYPE_value DYNAMIC_DEFINITION_TYPE.CLEAR_DYNAMICALLY_DEFINED_DATA_IDENTIFIER = 3"

datatype ISOTP_FRAME_TYPE =
    SINGLE
  | FIRST
  | CONSECUTIVE
  | FLOW

primrec ISOTP_FRAME_TYPE_value :: "ISOTP_FRAME_TYPE \<Rightarrow> int" where
  "ISOTP_FRAME_TYPE_value ISOTP_FRAME_TYPE.SINGLE = 0"
| "ISOTP_FRAME_TYPE_value ISOTP_FRAME_TYPE.FIRST = 1"
| "ISOTP_FRAME_TYPE_value ISOTP_FRAME_TYPE.CONSECUTIVE = 2"
| "ISOTP_FRAME_TYPE_value ISOTP_FRAME_TYPE.FLOW = 3"

definition ISOTP_FRAME_TYPE_members :: "ISOTP_FRAME_TYPE list" where
  "ISOTP_FRAME_TYPE_members =
    [ISOTP_FRAME_TYPE.SINGLE,
     ISOTP_FRAME_TYPE.FIRST,
     ISOTP_FRAME_TYPE.CONSECUTIVE,
     ISOTP_FRAME_TYPE.FLOW]"

datatype DTC_GROUP_TYPE =
    EMISSIONS
  | ALL'

primrec DTC_GROUP_TYPE_value :: "DTC_GROUP_TYPE \<Rightarrow> int" where
  "DTC_GROUP_TYPE_value DTC_GROUP_TYPE.EMISSIONS = 0"
| "DTC_GROUP_TYPE_value DTC_GROUP_TYPE.ALL' = 0xFFFFFF"

datatype DTC_REPORT_TYPE =
    NUMBER_OF_DTC_BY_STATUS_MASK
  | DTC_BY_STATUS_MASK
  | DTC_SNAPSHOT_IDENTIFICATION
  | DTC_SNAPSHOT_RECORD_BY_DTC_NUMBER
  | DTC_SNAPSHOT_RECORD_BY_RECORD_NUMBER
  | DTC_EXTENDED_DATA_RECORD_BY_DTC_NUMBER
  | NUMBER_OF_DTC_BY_SEVERITY_MASK_RECORD
  | DTC_BY_SEVERITY_MASK_RECORD
  | SEVERITY_INFORMATION_OF_DTC
  | SUPPORTED_DTC
  | FIRST_TEST_FAILED_DTC
  | FIRST_CONFIRMED_DTC
  | MOST_RECENT_TEST_FAILED_DTC
  | MOST_RECENT_CONFIRMED_DTC
  | MIRROR_MEMORY_DTC_BY_STATUS_MASK
  | MIRROR_MEMORY_DTC_EXTENDED_DATA_RECORD_BY_DTC_NUMBER
  | NUMBER_OF_MIRROR_MEMORY_DTC_BY_STATUS_MASK
  | NUMBER_OF_EMISSIONS_RELATED_OBD_DTC_BY_STATUS_MASK
  | EMISSIONS_RELATED_OBD_DTC_BY_STATUS_MASK
  | DTC_FAULT_DETECTION_COUNTER
  | DTC_WITH_PERMANENT_STATUS

primrec DTC_REPORT_TYPE_value :: "DTC_REPORT_TYPE \<Rightarrow> int" where
  "DTC_REPORT_TYPE_value DTC_REPORT_TYPE.NUMBER_OF_DTC_BY_STATUS_MASK = 1"
| "DTC_REPORT_TYPE_value DTC_REPORT_TYPE.DTC_BY_STATUS_MASK = 2"
| "DTC_REPORT_TYPE_value DTC_REPORT_TYPE.DTC_SNAPSHOT_IDENTIFICATION = 3"
| "DTC_REPORT_TYPE_value DTC_REPORT_TYPE.DTC_SNAPSHOT_RECORD_BY_DTC_NUMBER = 4"
| "DTC_REPORT_TYPE_value DTC_REPORT_TYPE.DTC_SNAPSHOT_RECORD_BY_RECORD_NUMBER = 5"
| "DTC_REPORT_TYPE_value DTC_REPORT_TYPE.DTC_EXTENDED_DATA_RECORD_BY_DTC_NUMBER = 6"
| "DTC_REPORT_TYPE_value DTC_REPORT_TYPE.NUMBER_OF_DTC_BY_SEVERITY_MASK_RECORD = 7"
| "DTC_REPORT_TYPE_value DTC_REPORT_TYPE.DTC_BY_SEVERITY_MASK_RECORD = 8"
| "DTC_REPORT_TYPE_value DTC_REPORT_TYPE.SEVERITY_INFORMATION_OF_DTC = 9"
| "DTC_REPORT_TYPE_value DTC_REPORT_TYPE.SUPPORTED_DTC = 0xA"
| "DTC_REPORT_TYPE_value DTC_REPORT_TYPE.FIRST_TEST_FAILED_DTC = 0xB"
| "DTC_REPORT_TYPE_value DTC_REPORT_TYPE.FIRST_CONFIRMED_DTC = 0xC"
| "DTC_REPORT_TYPE_value DTC_REPORT_TYPE.MOST_RECENT_TEST_FAILED_DTC = 0xD"
| "DTC_REPORT_TYPE_value DTC_REPORT_TYPE.MOST_RECENT_CONFIRMED_DTC = 0xE"
| "DTC_REPORT_TYPE_value DTC_REPORT_TYPE.MIRROR_MEMORY_DTC_BY_STATUS_MASK = 0xF"
| "DTC_REPORT_TYPE_value DTC_REPORT_TYPE.MIRROR_MEMORY_DTC_EXTENDED_DATA_RECORD_BY_DTC_NUMBER = 0x10"
| "DTC_REPORT_TYPE_value DTC_REPORT_TYPE.NUMBER_OF_MIRROR_MEMORY_DTC_BY_STATUS_MASK = 0x11"
| "DTC_REPORT_TYPE_value DTC_REPORT_TYPE.NUMBER_OF_EMISSIONS_RELATED_OBD_DTC_BY_STATUS_MASK = 0x12"
| "DTC_REPORT_TYPE_value DTC_REPORT_TYPE.EMISSIONS_RELATED_OBD_DTC_BY_STATUS_MASK = 0x13"
| "DTC_REPORT_TYPE_value DTC_REPORT_TYPE.DTC_FAULT_DETECTION_COUNTER = 0x14"
| "DTC_REPORT_TYPE_value DTC_REPORT_TYPE.DTC_WITH_PERMANENT_STATUS = 0x15"

datatype DTC_STATUS_MASK_TYPE =
    TEST_FAILED
  | TEST_FAILED_THIS_OPERATION_CYCLE
  | PENDING_DTC
  | CONFIRMED_DTC
  | TEST_NOT_COMPLETED_SINCE_LAST_CLEAR
  | TEST_FAILED_SINCE_LAST_CLEAR
  | TEST_NOT_COMPLETED_THIS_OPERATION_CYCLE
  | WARNING_INDICATOR_REQUESTED
  | ALL'

primrec DTC_STATUS_MASK_TYPE_value :: "DTC_STATUS_MASK_TYPE \<Rightarrow> int" where
  "DTC_STATUS_MASK_TYPE_value DTC_STATUS_MASK_TYPE.TEST_FAILED = 1"
| "DTC_STATUS_MASK_TYPE_value DTC_STATUS_MASK_TYPE.TEST_FAILED_THIS_OPERATION_CYCLE = 2"
| "DTC_STATUS_MASK_TYPE_value DTC_STATUS_MASK_TYPE.PENDING_DTC = 4"
| "DTC_STATUS_MASK_TYPE_value DTC_STATUS_MASK_TYPE.CONFIRMED_DTC = 8"
| "DTC_STATUS_MASK_TYPE_value DTC_STATUS_MASK_TYPE.TEST_NOT_COMPLETED_SINCE_LAST_CLEAR = 0x10"
| "DTC_STATUS_MASK_TYPE_value DTC_STATUS_MASK_TYPE.TEST_FAILED_SINCE_LAST_CLEAR = 0x20"
| "DTC_STATUS_MASK_TYPE_value DTC_STATUS_MASK_TYPE.TEST_NOT_COMPLETED_THIS_OPERATION_CYCLE = 0x40"
| "DTC_STATUS_MASK_TYPE_value DTC_STATUS_MASK_TYPE.WARNING_INDICATOR_REQUESTED = 0x80"
| "DTC_STATUS_MASK_TYPE_value DTC_STATUS_MASK_TYPE.ALL' = 0xFF"

definition DTC_STATUS_MASK_TYPE_members :: "DTC_STATUS_MASK_TYPE list" where
  "DTC_STATUS_MASK_TYPE_members =
    [DTC_STATUS_MASK_TYPE.TEST_FAILED,
     DTC_STATUS_MASK_TYPE.TEST_FAILED_THIS_OPERATION_CYCLE,
     DTC_STATUS_MASK_TYPE.PENDING_DTC,
     DTC_STATUS_MASK_TYPE.CONFIRMED_DTC,
     DTC_STATUS_MASK_TYPE.TEST_NOT_COMPLETED_SINCE_LAST_CLEAR,
     DTC_STATUS_MASK_TYPE.TEST_FAILED_SINCE_LAST_CLEAR,
     DTC_STATUS_MASK_TYPE.TEST_NOT_COMPLETED_THIS_OPERATION_CYCLE,
     DTC_STATUS_MASK_TYPE.WARNING_INDICATOR_REQUESTED,
     DTC_STATUS_MASK_TYPE.ALL']"

primrec DTC_STATUS_MASK_TYPE_name :: "DTC_STATUS_MASK_TYPE \<Rightarrow> string" where
  "DTC_STATUS_MASK_TYPE_name DTC_STATUS_MASK_TYPE.TEST_FAILED = ''TEST_FAILED''"
| "DTC_STATUS_MASK_TYPE_name DTC_STATUS_MASK_TYPE.TEST_FAILED_THIS_OPERATION_CYCLE = ''TEST_FAILED_THIS_OPERATION_CYCLE''"
| "DTC_STATUS_MASK_TYPE_name DTC_STATUS_MASK_TYPE.PENDING_DTC = ''PENDING_DTC''"
| "DTC_STATUS_MASK_TYPE_name DTC_STATUS_MASK_TYPE.CONFIRMED_DTC = ''CONFIRMED_DTC''"
| "DTC_STATUS_MASK_TYPE_name DTC_STATUS_MASK_TYPE.TEST_NOT_COMPLETED_SINCE_LAST_CLEAR = ''TEST_NOT_COMPLETED_SINCE_LAST_CLEAR''"
| "DTC_STATUS_MASK_TYPE_name DTC_STATUS_MASK_TYPE.TEST_FAILED_SINCE_LAST_CLEAR = ''TEST_FAILED_SINCE_LAST_CLEAR''"
| "DTC_STATUS_MASK_TYPE_name DTC_STATUS_MASK_TYPE.TEST_NOT_COMPLETED_THIS_OPERATION_CYCLE = ''TEST_NOT_COMPLETED_THIS_OPERATION_CYCLE''"
| "DTC_STATUS_MASK_TYPE_name DTC_STATUS_MASK_TYPE.WARNING_INDICATOR_REQUESTED = ''WARNING_INDICATOR_REQUESTED''"
| "DTC_STATUS_MASK_TYPE_name DTC_STATUS_MASK_TYPE.ALL' = ''ALL''"

datatype DTC_SEVERITY_MASK_TYPE =
    MAINTENANCE_ONLY
  | CHECK_AT_NEXT_HALT
  | CHECK_IMMEDIATELY
  | ALL'

primrec DTC_SEVERITY_MASK_TYPE_value :: "DTC_SEVERITY_MASK_TYPE \<Rightarrow> int" where
  "DTC_SEVERITY_MASK_TYPE_value DTC_SEVERITY_MASK_TYPE.MAINTENANCE_ONLY = 0x20"
| "DTC_SEVERITY_MASK_TYPE_value DTC_SEVERITY_MASK_TYPE.CHECK_AT_NEXT_HALT = 0x40"
| "DTC_SEVERITY_MASK_TYPE_value DTC_SEVERITY_MASK_TYPE.CHECK_IMMEDIATELY = 0x80"
| "DTC_SEVERITY_MASK_TYPE_value DTC_SEVERITY_MASK_TYPE.ALL' = 0xE0"

datatype CONTROL_PARAMETER_TYPE =
    RETURN_CONTROL_TO_ECU
  | RESET_TO_DEFAULT
  | FREEZE_CURRENT_STATE
  | SHORT_TERM_ADJUSTMENT

primrec CONTROL_PARAMETER_TYPE_value :: "CONTROL_PARAMETER_TYPE \<Rightarrow> int" where
  "CONTROL_PARAMETER_TYPE_value CONTROL_PARAMETER_TYPE.RETURN_CONTROL_TO_ECU = 0"
| "CONTROL_PARAMETER_TYPE_value CONTROL_PARAMETER_TYPE.RESET_TO_DEFAULT = 1"
| "CONTROL_PARAMETER_TYPE_value CONTROL_PARAMETER_TYPE.FREEZE_CURRENT_STATE = 2"
| "CONTROL_PARAMETER_TYPE_value CONTROL_PARAMETER_TYPE.SHORT_TERM_ADJUSTMENT = 3"

datatype ROUTINE_CONTROL_TYPE =
    START
  | STOP
  | REQUEST_RESULTS

primrec ROUTINE_CONTROL_TYPE_value :: "ROUTINE_CONTROL_TYPE \<Rightarrow> int" where
  "ROUTINE_CONTROL_TYPE_value ROUTINE_CONTROL_TYPE.START = 1"
| "ROUTINE_CONTROL_TYPE_value ROUTINE_CONTROL_TYPE.STOP = 2"
| "ROUTINE_CONTROL_TYPE_value ROUTINE_CONTROL_TYPE.REQUEST_RESULTS = 3"

datatype ROUTINE_IDENTIFIER_TYPE =
    ERASE_MEMORY
  | CHECK_PROGRAMMING_DEPENDENCIES
  | ERASE_MIRROR_MEMORY_DTCS

primrec ROUTINE_IDENTIFIER_TYPE_value :: "ROUTINE_IDENTIFIER_TYPE \<Rightarrow> int" where
  "ROUTINE_IDENTIFIER_TYPE_value ROUTINE_IDENTIFIER_TYPE.ERASE_MEMORY = 0xFF00"
| "ROUTINE_IDENTIFIER_TYPE_value ROUTINE_IDENTIFIER_TYPE.CHECK_PROGRAMMING_DEPENDENCIES = 0xFF01"
| "ROUTINE_IDENTIFIER_TYPE_value ROUTINE_IDENTIFIER_TYPE.ERASE_MIRROR_MEMORY_DTCS = 0xFF02"

interpretation service_enum: int_enum SERVICE_TYPE_value SERVICE_TYPE_members
proof unfold_locales
  show "distinct (map SERVICE_TYPE_value SERVICE_TYPE_members)"
    by (simp add: SERVICE_TYPE_members_def)
  show "m \<in> set SERVICE_TYPE_members" for m
    by (cases m) (simp_all add: SERVICE_TYPE_members_def)
qed

interpretation status_enum: int_enum DTC_STATUS_MASK_TYPE_value DTC_STATUS_MASK_TYPE_members
proof unfold_locales
  show "distinct (map DTC_STATUS_MASK_TYPE_value DTC_STATUS_MASK_TYPE_members)"
    by (simp add: DTC_STATUS_MASK_TYPE_members_def)
  show "m \<in> set DTC_STATUS_MASK_TYPE_members" for m
    by (cases m) (simp_all add: DTC_STATUS_MASK_TYPE_members_def)
qed

interpretation frame_enum: int_enum ISOTP_FRAME_TYPE_value ISOTP_FRAME_TYPE_members
proof unfold_locales
  show "distinct (map ISOTP_FRAME_TYPE_value ISOTP_FRAME_TYPE_members)"
    by (simp add: ISOTP_FRAME_TYPE_members_def)
  show "m \<in> set ISOTP_FRAME_TYPE_members" for m
    by (cases m) (simp_all add: ISOTP_FRAME_TYPE_members_def)
qed

section \<open>Dynamic source definitions\<close>

record DynamicSourceDefinition =
  data_identifier :: int
  position :: int
  memory_size :: int
  memory_address :: int

section \<open>Negative response codes\<close>

definition negative_response_codes :: "(int \<times> string) list" where
  "negative_response_codes =
    [(0, ''positive response''),
     (0x10, ''general reject''),
     (0x11, ''service not supported''),
     (0x12, ''sub-function not supported''),
     (0x13, ''incorrect message length or invalid format''),
     (0x14, ''response too long''),
     (0x21, ''busy repeat request''),
     (0x22, ''conditions not correct''),
     (0x24, ''request sequence error''),
     (0x25, ''no response from subnet component''),
     (0x26, ''failure prevents execution of requested action''),
     (0x31, ''request out of range''),
     (0x33, ''security access denied''),
     (0x35, ''invalid key''),
     (0x36, ''exceed number of attempts''),
     (0x37, ''required time delay not expired''),
     (0x70, ''upload download not accepted''),
     (0x71, ''transfer data suspended''),
     (0x72, ''general programming failure''),
     (0x73, ''wrong block sequence counter''),
     (0x78, ''request correctly received - response pending''),
     (0x7E, ''sub-function not supported in active session''),
     (0x7F, ''service not supported in active session''),
     (0x81, ''rpm too high''),
     (0x82, ''rpm too low''),
     (0x83, ''engine is running''),
     (0x84, ''engine is not running''),
     (0x85, ''engine run time too low''),
     (0x86, ''temperature too high''),
     (0x87, ''temperature too low''),
     (0x88, ''vehicle speed too high''),
     (0x89, ''vehicle speed too low''),
     (0x8A, ''throttle/pedal too high''),
     (0x8B, ''throttle/pedal too low''),
     (0x8C, ''transmission not in neutral''),
     (0x8D, ''transmission not in gear''),
     (0x8F, ''brake switch(es) not closed''),
     (0x90, ''shifter lever not in park''),
     (0x91, ''torque converter clutch locked''),
     (0x92, ''voltage too high''),
     (0x93, ''voltage too low'')]"

section \<open>Trouble codes\<close>

definition dtc_designator :: "int \<Rightarrow> string result" where
  "dtc_designator n =
    (if n = 0 then Inr ''P'' else if n = 1 then Inr ''C''
     else if n = 2 then Inr ''B'' else if n = 3 then Inr ''U'' else Inl KeyError)"

definition get_dtc_num_as_str :: "bytes \<Rightarrow> string result" where
  "get_dtc_num_as_str dtc_num_bytes =
    ebind (byte_at dtc_num_bytes 0) (\<lambda>b0.
    ebind (dtc_designator (drop_bit 6 b0)) (\<lambda>d.
    ebind (py_byte (b0 AND 0x3F)) (\<lambda>n0.
    Inr (d @ hex_bytes (n0 # drop 1 dtc_num_bytes)))))"

definition get_dtc_status_names :: "int \<Rightarrow> string list" where
  "get_dtc_status_names status =
    map DTC_STATUS_MASK_TYPE_name
      (filter (\<lambda>m. m \<noteq> DTC_STATUS_MASK_TYPE.ALL' \<and> status AND DTC_STATUS_MASK_TYPE_value m \<noteq> 0)
        DTC_STATUS_MASK_TYPE_members)"

section \<open>Response addresses\<close>

definition FUNCTIONAL_ADDRS :: "int list" where
  "FUNCTIONAL_ADDRS = [0x7DF, 0x18DB33F1]"

definition get_rx_addr_for_tx_addr :: "int \<Rightarrow> int \<Rightarrow> int option result" where
  "get_rx_addr_for_tx_addr tx_addr rx_offset =
    (if tx_addr \<in> set FUNCTIONAL_ADDRS then Inr None
     else if tx_addr < 0xFFF8 then Inr (Some (tx_addr + rx_offset))
     else if tx_addr > 0x10000000 \<and> tx_addr < 0xFFFFFFFF
     then Inr (Some ((tx_addr AND 0xFFFF0000) + (push_bit 8 tx_addr AND 0xFF00) + (drop_bit 8 tx_addr AND 0xFF)))
     else Inl ValueError)"

end
