(* ===== verification/CanClient.thy ===== *)
theory CanClient
  imports PandaEnv UdsTypes
begin

text \<open>
  \<^verbatim>\<open>class CanClient\<close> of \<^verbatim>\<open>opendbc/car/uds.py\<close>: the frames of one diagnostic connection. Frames
  of other addresses are filtered out, functional addresses are narrowed to the first physical
  address that answers, and an optional sub-address is stripped on reception and prepended on
  transmission. A call of the generator method \<^verbatim>\<open>recv\<close> only creates the generator (\<open>Fresh\<close>);
  its body runs when it is resumed.
\<close>

section \<open>State\<close>

record can_client =
  tx_addr :: int
  rx_addr :: "int option"
  rx_buff :: "bytes list"
  sub_addr :: "int option"
  rx_sub_addr :: "int option"
  bus :: int
  panda :: panda

definition CanClient_init ::
    "panda \<Rightarrow> int \<Rightarrow> int option \<Rightarrow> int \<Rightarrow> int option \<Rightarrow> int option \<Rightarrow> can_client" where
  "CanClient_init p txa rxa b sub rx_sub =
    \<lparr>tx_addr = txa, rx_addr = rxa, rx_buff = [], sub_addr = sub,
     rx_sub_addr = (if rx_sub \<noteq> None then rx_sub else sub), bus = b, panda = p\<rparr>"

section \<open>Reception\<close>

definition recv_filter :: "int \<Rightarrow> int \<Rightarrow> can_client \<Rightarrow> bool \<times> can_client" where
  "recv_filter fbus addr c =
    (if tx_addr c = 0x7DF then
       (let is_response = 0x7E8 \<le> addr \<and> addr \<le> 0x7EF
        in (is_response,
            if is_response then c\<lparr>tx_addr := addr - 8, rx_addr := Some addr\<rparr> else c))
     else
       (let c' = (if tx_addr c = 0x18DB33F1 \<and> 0x18DAF100 \<le> addr \<and> addr \<le> 0x18DAF1FF
                  then c\<lparr>tx_addr := 0x18DA00F1 + (push_bit 8 addr AND 0xFF00), rx_addr := Some addr\<rparr>
                  else c)
        in (fbus = bus c' \<and> Some addr = rx_addr c', c')))"

text \<open>The loop over the frames of one \<^verbatim>\<open>can_recv\<close> call.\<close>

fun accept_frames :: "frame list \<Rightarrow> (can_client, unit) meth" where
  "accept_frames [] c = (Inr (), c)"
| "accept_frames ((addr, dat, fbus) # fs) c =
    (let (ok, c') = recv_filter fbus addr c
     in if ok \<and> dat \<noteq> []
        then (case rx_sub_addr c' of
                None \<Rightarrow> accept_frames fs (c'\<lparr>rx_buff := rx_buff c' @ [dat]\<rparr>)
              | Some sa \<Rightarrow>
                  (if uint (hd dat) \<noteq> sa then (Inl InvalidSubAddressError, c')
                   else accept_frames fs (c'\<lparr>rx_buff := rx_buff c' @ [tl dat]\<rparr>)))
        else accept_frames fs c')"

text \<open>
  \<^verbatim>\<open>_recv_buffer\<close>: the loop calls \<^verbatim>\<open>can_recv\<close> until a call returns fewer than 254 frames. The
  model recurses over the script, so that the call after its end, which returns nothing, is the
  last.
\<close>

fun recv_calls :: "bool \<Rightarrow> frame list list \<Rightarrow> (can_client, unit) meth" where
  "recv_calls drain [] c =
    (if drain then (Inr (), c\<lparr>rx_buff := []\<rparr>) else (Inr (), c))"
| "recv_calls drain (msgs # rest) c =
    (let c0 = c\<lparr>panda := (panda c)\<lparr>rx_script := rest\<rparr>\<rparr>;
         (r, c1) = (if drain then (Inr (), c0\<lparr>rx_buff := []\<rparr>) else accept_frames msgs c0)
     in case r of
          Inl e \<Rightarrow> (Inl e, c1)
        | Inr _ \<Rightarrow> (if length msgs < 254 then (Inr (), c1) else recv_calls drain rest c1))"

definition recv_buffer :: "bool \<Rightarrow> (can_client, unit) meth" where
  "recv_buffer drain c = recv_calls drain (rx_script (panda c)) c"

datatype recv_gen = Fresh bool | Resumed

definition CanClient_recv :: "bool \<Rightarrow> recv_gen" where
  "CanClient_recv drain = Fresh drain"

definition pop_buff :: "(can_client, (bytes \<times> recv_gen) option) meth" where
  "pop_buff c =
    (case rx_buff c of
       [] \<Rightarrow> (Inr None, c)
     | d # ds \<Rightarrow> (Inr (Some (d, Resumed)), c\<lparr>rx_buff := ds\<rparr>))"

fun recv_next :: "recv_gen \<Rightarrow> (can_client, (bytes \<times> recv_gen) option) meth" where
  "recv_next (Fresh drain) = sbind (recv_buffer drain) (\<lambda>_. pop_buff)"
| "recv_next Resumed = pop_buff"

section \<open>Transmission\<close>

text \<open>
  \<^verbatim>\<open>send\<close>: the loop with its index; every tenth frame is followed by a read of the receive
  buffer. The delay between frames only sleeps.
\<close>

fun send_from :: "nat \<Rightarrow> bytes list \<Rightarrow> (can_client, unit) meth" where
  "send_from i [] c = (Inr (), c)"
| "send_from i (msg # msgs) c =
    (case (case sub_addr c of None \<Rightarrow> Inr msg
           | Some sa \<Rightarrow> ebind (py_byte sa) (\<lambda>b. Inr (b # msg))) of
       Inl e \<Rightarrow> (Inl e, c)
     | Inr m \<Rightarrow>
         (if \<not> length m \<le> 8 then (Inl AssertionError, c)
          else
            (let c1 = c\<lparr>panda := can_send (tx_addr c) m (bus c) (panda c)\<rparr>
             in if i mod 10 = 9
                then (case recv_buffer False c1 of
                        (Inl e, c2) \<Rightarrow> (Inl e, c2)
                      | (Inr _, c2) \<Rightarrow> send_from (Suc i) msgs c2)
                else send_from (Suc i) msgs c1)))"

definition CanClient_send :: "bytes list \<Rightarrow> (can_client, unit) meth" where
  "CanClient_send msgs = send_from 0 msgs"

section \<open>What reception changes\<close>

text \<open>
  Reception never touches the transmit log, the sub-addresses, the bus or the clock; the
  addresses change only from a functional address to the physical one that answered.
\<close>

definition same_link :: "can_client \<Rightarrow> can_client \<Rightarrow> bool" where
  "same_link c c' \<longleftrightarrow>
     sub_addr c' = sub_addr c \<and> rx_sub_addr c' = rx_sub_addr c \<and> bus c' = bus c \<and>
     tx_log (panda c') = tx_log (panda c) \<and> cleared (panda c') = cleared (panda c) \<and>
     clock (panda c') = clock (panda c) \<and> ticks (panda c') = ticks (panda c)"

lemma same_link_refl [simp]: "same_link c c"
  by (simp add: same_link_def)

lemma same_link_trans [trans]: "same_link a b \<Longrightarrow> same_link b c \<Longrightarrow> same_link a c"
  by (simp add: same_link_def)

lemma same_link_upd [simp]:
  "same_link c (c'\<lparr>rx_buff := b\<rparr>) = same_link c c'"
  "same_link (c\<lparr>rx_buff := b\<rparr>) c' = same_link c c'"
  "same_link c (c'\<lparr>tx_addr := a\<rparr>) = same_link c c'"
  "same_link c (c'\<lparr>rx_addr := r\<rparr>) = same_link c c'"
  "same_link (c\<lparr>panda := (panda c)\<lparr>rx_script := s\<rparr>\<rparr>) c' = same_link c c'"
  "same_link c (c'\<lparr>panda := (panda c')\<lparr>rx_script := s\<rparr>\<rparr>) = same_link c c'"
  by (auto simp: same_link_def)

lemma recv_filter_link: "recv_filter b a c = (ok, c') \<Longrightarrow> same_link c c'"
  by (auto simp: recv_filter_def Let_def split: if_splits)

lemma recv_filter_frame:
  "recv_filter b a c = (ok, c') \<Longrightarrow> rx_buff c' = rx_buff c \<and> panda c' = panda c"
  by (auto simp: recv_filter_def Let_def split: if_splits)

text \<open>
  One turn of each loop: what the loop does next, from which state, or how it ends. The proofs
  about the loops are inductions that use these.
\<close>

lemma accept_frames_turn:
  assumes "accept_frames ((addr, dat, fbus) # fs) c = (r, c')"
  obtains c1 where "rx_buff c1 = rx_buff c" "panda c1 = panda c" "same_link c c1"
    and "accept_frames fs c1 = (r, c') \<or> r = Inl InvalidSubAddressError \<and> c' = c1 \<or>
      (\<exists>d. accept_frames fs (c1\<lparr>rx_buff := rx_buff c @ [d]\<rparr>) = (r, c'))"
proof -
  obtain ok c1 where f: "recv_filter fbus addr c = (ok, c1)" by fastforce
  note c1 = recv_filter_frame [OF f] recv_filter_link [OF f]
  have "accept_frames fs c1 = (r, c') \<or> r = Inl InvalidSubAddressError \<and> c' = c1 \<or>
      (\<exists>d. accept_frames fs (c1\<lparr>rx_buff := rx_buff c @ [d]\<rparr>) = (r, c'))"
  proof (cases "ok \<and> dat \<noteq> []")
    case False
    with assms f show ?thesis by simp
  next
    case True
    with assms f c1 show ?thesis
      by (cases "rx_sub_addr c1") (auto split: if_splits)
  qed
  with c1 that show ?thesis by blast
qed

lemma recv_calls_turn:
  assumes "recv_calls d (msgs # rest) c = (r, c')"
  obtains r1 c1 where "r1 = Inr () \<and> c1 = c\<lparr>panda := (panda c)\<lparr>rx_script := rest\<rparr>, rx_buff := []\<rparr> \<or>
      accept_frames msgs (c\<lparr>panda := (panda c)\<lparr>rx_script := rest\<rparr>\<rparr>) = (r1, c1)"
    and "r = r1 \<and> c' = c1 \<or> recv_calls d rest c1 = (r, c')"
proof -
  let ?c0 = "c\<lparr>panda := (panda c)\<lparr>rx_script := rest\<rparr>\<rparr>"
  obtain r1 c1 where
    s: "(if d then (Inr (), ?c0\<lparr>rx_buff := []\<rparr>) else accept_frames msgs ?c0) = (r1, c1)"
    by fastforce
  have "r = r1 \<and> c' = c1 \<or> recv_calls d rest c1 = (r, c')"
  proof (cases r1)
    case (Inl e)
    with assms s show ?thesis by simp
  next
    case (Inr u)
    with assms s show ?thesis by (cases "length msgs < 254") simp_all
  qed
  moreover have "r1 = Inr () \<and> c1 = c\<lparr>panda := (panda c)\<lparr>rx_script := rest\<rparr>, rx_buff := []\<rparr> \<or>
      accept_frames msgs ?c0 = (r1, c1)"
    using s by (cases d) simp_all
  ultimately show ?thesis using that by blast
qed

lemma accept_frames_link: "accept_frames fs c = (r, c') \<Longrightarrow> same_link c c' \<and> panda c' = panda c"
proof (induction fs arbitrary: c)
  case (Cons f fs)
  obtain a d b where f: "f = (a, d, b)" by (cases f) auto
  from Cons.prems [unfolded f] obtain c1 where
    c1: "rx_buff c1 = rx_buff c" "panda c1 = panda c" "same_link c c1" and
    n: "accept_frames fs c1 = (r, c') \<or> r = Inl InvalidSubAddressError \<and> c' = c1 \<or>
      (\<exists>d. accept_frames fs (c1\<lparr>rx_buff := rx_buff c @ [d]\<rparr>) = (r, c'))"
    by (rule accept_frames_turn)
  have "same_link c1 c' \<and> panda c' = panda c1" using n Cons.IH by fastforce
  with c1 show ?case using same_link_trans by auto
qed simp

lemma recv_calls_link: "recv_calls d s c = (r, c') \<Longrightarrow> same_link c c'"
proof (induction s arbitrary: c)
  case Nil
  then show ?case by (auto split: if_splits)
next
  case (Cons msgs rest)
  from Cons.prems obtain r1 c1 where
    c1: "r1 = Inr () \<and> c1 = c\<lparr>panda := (panda c)\<lparr>rx_script := rest\<rparr>, rx_buff := []\<rparr> \<or>
      accept_frames msgs (c\<lparr>panda := (panda c)\<lparr>rx_script := rest\<rparr>\<rparr>) = (r1, c1)"
    and n: "r = r1 \<and> c' = c1 \<or> recv_calls d rest c1 = (r, c')"
    by (rule recv_calls_turn)
  have "same_link c c1" using c1 accept_frames_link by fastforce
  with n Cons.IH show ?case using same_link_trans by blast
qed

lemma recv_buffer_link: "recv_buffer d c = (r, c') \<Longrightarrow> same_link c c'"
  by (auto simp: recv_buffer_def dest: recv_calls_link)

lemma recv_next_link: "recv_next g c = (r, c') \<Longrightarrow> same_link c c'"
proof (cases g)
  case (Fresh d)
  assume "recv_next g c = (r, c')"
  with Fresh show ?thesis
    by (auto simp: sbind_def pop_buff_def dest: recv_buffer_link
        split: prod.splits sum.splits list.splits)
next
  case Resumed
  assume "recv_next g c = (r, c')"
  with Resumed show ?thesis by (auto simp: pop_buff_def split: list.splits)
qed

section \<open>What transmission changes\<close>

text \<open>The payloads that have been put on the bus, oldest first.\<close>

definition sent :: "can_client \<Rightarrow> bytes list" where
  "sent c = map (\<lambda>(a, d, b). d) (tx_log (panda c))"

lemma same_link_sent: "same_link c c' \<Longrightarrow> sent c' = sent c"
  by (simp add: same_link_def sent_def)

lemma sent_can_send: "sent (c\<lparr>panda := can_send a m b (panda c)\<rparr>) = sent c @ [m]"
  by (simp add: sent_def)

lemma accept_frames_ok:
  "rx_sub_addr c = None \<Longrightarrow> \<exists>c'. accept_frames fs c = (Inr (), c')"
proof (induction fs c rule: accept_frames.induct)
  case (2 addr dat fbus fs c)
  obtain ok c1 where f: "recv_filter fbus addr c = (ok, c1)" by fastforce
  then have "rx_sub_addr c1 = None"
    using recv_filter_link [OF f] 2(4) by (simp add: same_link_def)
  then show ?case using 2 f by (cases "ok \<and> dat \<noteq> []") auto
qed simp

lemma recv_calls_ok: "rx_sub_addr c = None \<Longrightarrow> \<exists>c'. recv_calls d s c = (Inr (), c')"
proof (induction s arbitrary: c)
  case (Cons msgs rest)
  let ?c0 = "c\<lparr>panda := (panda c)\<lparr>rx_script := rest\<rparr>\<rparr>"
  obtain c1 where
    s: "(if d then (Inr (), ?c0\<lparr>rx_buff := []\<rparr>) else accept_frames msgs ?c0) = (Inr (), c1)"
    using accept_frames_ok [of ?c0 msgs] Cons.prems by (cases d) auto
  have "rx_sub_addr c1 = None"
    using s accept_frames_link [of msgs ?c0] Cons.prems by (cases d) (auto simp: same_link_def)
  then show ?case using s Cons.IH [of c1] by (cases "length msgs < 254") (auto simp: Let_def)
qed simp

lemma recv_buffer_ok: "rx_sub_addr c = None \<Longrightarrow> \<exists>c'. recv_buffer d c = (Inr (), c')"
  by (simp add: recv_buffer_def recv_calls_ok)

text \<open>Without sub-addresses, frames of at most eight bytes are all sent, in order.\<close>

definition plain_link :: "can_client \<Rightarrow> bool" where
  "plain_link c \<longleftrightarrow> sub_addr c = None \<and> rx_sub_addr c = None"

lemma same_link_plain: "same_link c c' \<Longrightarrow> plain_link c \<Longrightarrow> plain_link c'"
  by (simp add: same_link_def plain_link_def)

lemma plain_link_upd [simp]:
  "plain_link (c\<lparr>panda := p\<rparr>) = plain_link c"
  "plain_link (c\<lparr>rx_buff := b\<rparr>) = plain_link c"
  by (simp_all add: plain_link_def)

lemma send_from_ok:
  "plain_link c \<Longrightarrow> \<forall>m\<in>set msgs. length m \<le> 8 \<Longrightarrow>
   \<exists>c'. send_from i msgs c = (Inr (), c') \<and> plain_link c' \<and> sent c' = sent c @ msgs"
proof (induction msgs arbitrary: i c)
  case Nil
  then show ?case by simp
next
  case (Cons m msgs)
  let ?c1 = "c\<lparr>panda := can_send (tx_addr c) m (bus c) (panda c)\<rparr>"
  have c1: "plain_link ?c1" "sent ?c1 = sent c @ [m]"
    using Cons.prems(1) by (simp_all add: sent_can_send)
  obtain c2 where b: "recv_buffer False ?c1 = (Inr (), c2)"
    using recv_buffer_ok [of ?c1] c1(1) by (auto simp: plain_link_def)
  then have l: "same_link ?c1 c2" by (rule recv_buffer_link)
  have c2: "plain_link c2" "sent c2 = sent c @ [m]"
    using l c1 same_link_plain same_link_sent by (blast, metis)
  have sub: "sub_addr c = None" using Cons.prems(1) by (simp add: plain_link_def)
  show ?case
    using Cons.IH [OF c1(1), of "Suc i"] Cons.IH [OF c2(1), of "Suc i"] Cons.prems(2) b sub c1 c2
    by (cases "i mod 10 = 9") (auto simp: Let_def)
qed

lemma CanClient_send_ok:
  "plain_link c \<Longrightarrow> \<forall>m\<in>set msgs. length m \<le> 8 \<Longrightarrow>
   \<exists>c'. CanClient_send msgs c = (Inr (), c') \<and> plain_link c' \<and> sent c' = sent c @ msgs"
  unfolding CanClient_send_def by (rule send_from_ok)

text \<open>A single frame is sent without any read of the receive buffer.\<close>

lemma CanClient_send_single:
  "sub_addr c = None \<Longrightarrow> length m \<le> 8 \<Longrightarrow>
   CanClient_send [m] c = (Inr (), c\<lparr>panda := can_send (tx_addr c) m (bus c) (panda c)\<rparr>)"
  by (simp add: CanClient_send_def Let_def)

section \<open>Pending frames\<close>

text \<open>
  The frames that a client can still see: buffered ones and those of the coming \<^verbatim>\<open>can_recv\<close>
  calls. No operation adds to them, and every frame that \<^verbatim>\<open>recv\<close> yields is one less. No
  operation of this class runs out of fuel.
\<close>

definition pending :: "can_client \<Rightarrow> nat" where
  "pending c = length (rx_buff c) + sum_list (map length (rx_script (panda c)))"

lemma accept_frames_pending:
  "accept_frames fs c = (r, c') \<Longrightarrow> pending c' \<le> pending c + length fs \<and> r \<noteq> Inl OutOfFuel"
proof (induction fs arbitrary: c)
  case Nil
  then show ?case by auto
next
  case (Cons f fs)
  obtain a d b where f: "f = (a, d, b)" by (cases f) auto
  from Cons.prems [unfolded f] obtain c1 where
    c1: "rx_buff c1 = rx_buff c" "panda c1 = panda c" and
    n: "accept_frames fs c1 = (r, c') \<or> r = Inl InvalidSubAddressError \<and> c' = c1 \<or>
      (\<exists>d. accept_frames fs (c1\<lparr>rx_buff := rx_buff c @ [d]\<rparr>) = (r, c'))"
    by (rule accept_frames_turn)
  have p: "pending c1 = pending c" "pending (c1\<lparr>rx_buff := rx_buff c @ [d]\<rparr>) = Suc (pending c)" for d
    using c1 by (simp_all add: pending_def)
  from n show ?case
  proof (elim disjE exE)
    assume "accept_frames fs c1 = (r, c')"
    then show ?case using Cons.IH p by fastforce
  next
    assume "r = Inl InvalidSubAddressError \<and> c' = c1"
    then show ?case using p by simp
  next
    fix d assume "accept_frames fs (c1\<lparr>rx_buff := rx_buff c @ [d]\<rparr>) = (r, c')"
    then show ?case using Cons.IH p by fastforce
  qed
qed

lemma recv_calls_pending:
  "recv_calls d s c = (r, c') \<Longrightarrow> s = rx_script (panda c) \<Longrightarrow>
   pending c' \<le> pending c \<and> r \<noteq> Inl OutOfFuel"
proof (induction s arbitrary: c)
  case Nil
  then show ?case by (auto simp: pending_def split: if_splits)
next
  case (Cons msgs rest)
  let ?c0 = "c\<lparr>panda := (panda c)\<lparr>rx_script := rest\<rparr>\<rparr>"
  from Cons.prems(1) obtain r1 c1 where
    c1: "r1 = Inr () \<and> c1 = ?c0\<lparr>rx_buff := []\<rparr> \<or> accept_frames msgs ?c0 = (r1, c1)"
    and n: "r = r1 \<and> c' = c1 \<or> recv_calls d rest c1 = (r, c')"
    by (rule recv_calls_turn)
  have c0: "pending ?c0 + length msgs = pending c"
    using Cons.prems(2) [symmetric] by (simp add: pending_def)
  have "rx_script (panda c1) = rest" using c1 accept_frames_link by fastforce
  moreover have "pending c1 \<le> pending c \<and> r1 \<noteq> Inl OutOfFuel"
    using c1
  proof
    assume "r1 = Inr () \<and> c1 = ?c0\<lparr>rx_buff := []\<rparr>"
    then show ?thesis using c0 by (simp add: pending_def)
  next
    assume "accept_frames msgs ?c0 = (r1, c1)"
    then show ?thesis using accept_frames_pending [of msgs ?c0 r1 c1] c0 by simp
  qed
  ultimately show ?case using n Cons.IH [of c1] by fastforce
qed

lemma recv_buffer_pending:
  "recv_buffer d c = (r, c') \<Longrightarrow> pending c' \<le> pending c \<and> r \<noteq> Inl OutOfFuel"
  unfolding recv_buffer_def by (rule recv_calls_pending) simp_all

lemma pop_buff_cases:
  assumes "pop_buff c = (r, c')"
  shows "(r = Inr None \<and> c' = c) \<or> (\<exists>d. r = Inr (Some (d, Resumed)) \<and> Suc (pending c') = pending c)"
  using assms by (auto simp: pop_buff_def pending_def split: list.splits)

lemma recv_next_cases:
  assumes "recv_next g c = (r, c')"
  shows "(\<exists>e. r = Inl e \<and> e \<noteq> OutOfFuel) \<or> (r = Inr None \<and> pending c' \<le> pending c) \<or>
    (\<exists>d. r = Inr (Some (d, Resumed)) \<and> pending c' < pending c)"
proof (cases g)
  case Resumed
  with assms pop_buff_cases [of c r c'] show ?thesis by auto
next
  case (Fresh d)
  obtain r1 c1 where b: "recv_buffer d c = (r1, c1)" by fastforce
  show ?thesis
  proof (cases r1)
    case (Inl e)
    with assms Fresh b recv_buffer_pending [OF b] show ?thesis by (auto simp: sbind_def)
  next
    case (Inr u)
    with assms Fresh b have "pop_buff c1 = (r, c')" by (simp add: sbind_def)
    with pop_buff_cases [OF this] recv_buffer_pending [OF b] show ?thesis by auto
  qed
qed

lemma send_from_turn:
  assumes "send_from i (m # ms) c = (r, c')"
  obtains "c' = c" "r = Inl ValueError \<or> r = Inl AssertionError"
  | m' r2 c2 where "c2 = c\<lparr>panda := can_send (tx_addr c) m' (bus c) (panda c)\<rparr> \<and> r2 = Inr () \<or>
      recv_buffer False (c\<lparr>panda := can_send (tx_addr c) m' (bus c) (panda c)\<rparr>) = (r2, c2)"
    "r = r2 \<and> c' = c2 \<or> send_from (Suc i) ms c2 = (r, c')"
proof -
  let ?f = "case sub_addr c of None \<Rightarrow> Inr m | Some sa \<Rightarrow> ebind (py_byte sa) (\<lambda>b. Inr (b # m))"
  show ?thesis
  proof (cases ?f)
    case (Inl e)
    then have "e = ValueError"
      by (auto simp: ebind_eq_Inl py_byte_def split: option.splits if_splits)
    with Inl assms that(1) show ?thesis by simp
  next
    case (Inr m')
    let ?c1 = "c\<lparr>panda := can_send (tx_addr c) m' (bus c) (panda c)\<rparr>"
    obtain r2 c2 where b: "recv_buffer False ?c1 = (r2, c2)" by fastforce
    show ?thesis
    proof (cases "length m' \<le> 8")
      case False
      with Inr assms that(1) show ?thesis by simp
    next
      case True
      show ?thesis
      proof (cases "i mod 10 = 9")
        case tenth: True
        have "r = r2 \<and> c' = c2 \<or> send_from (Suc i) ms c2 = (r, c')"
          using Inr assms True tenth b by (cases r2) simp_all
        with b show ?thesis using that(2) by blast
      next
        case False
        have "send_from (Suc i) ms ?c1 = (r, c')" using Inr assms True False by simp
        then show ?thesis using that(2) by blast
      qed
    qed
  qed
qed

lemma send_from_frame:
  "send_from i ms c = (r, c') \<Longrightarrow>
   pending c' \<le> pending c \<and> r \<noteq> Inl OutOfFuel \<and>
   clock (panda c') = clock (panda c) \<and> ticks (panda c') = ticks (panda c)"
proof (induction ms arbitrary: i c)
  case Nil
  then show ?case by auto
next
  case (Cons m ms)
  from Cons.prems show ?case
  proof (cases rule: send_from_turn)
    case 1
    then show ?thesis by auto
  next
    case (2 m' r2 c2)
    let ?c1 = "c\<lparr>panda := can_send (tx_addr c) m' (bus c) (panda c)\<rparr>"
    have "pending ?c1 = pending c" by (simp add: pending_def)
    then have "pending c2 \<le> pending c \<and> r2 \<noteq> Inl OutOfFuel \<and>
        clock (panda c2) = clock (panda c) \<and> ticks (panda c2) = ticks (panda c)"
      using 2(1) recv_buffer_pending [of False ?c1 r2 c2] recv_buffer_link [of False ?c1 r2 c2]
      by (auto simp: same_link_def)
    with 2(2) Cons.IH [of "Suc i" c2] show ?thesis by fastforce
  qed
qed

end
