(* ===== verification/IsoTp.thy ===== *)
theory IsoTp
  imports CanClient
begin

text \<open>
  \<^verbatim>\<open>class IsoTpMessage\<close> of \<^verbatim>\<open>opendbc/car/uds.py\<close>: ISO 15765-2 segmentation of a request into
  CAN frames and reassembly of the response, as a state machine over the received frames.
  Attributes that the constructor leaves unset until \<^verbatim>\<open>send\<close> have the values \<^verbatim>\<open>send\<close> gives them.
\<close>

section \<open>State\<close>

record isotp =
  can_client :: can_client
  timeout :: rat
  single_frame_mode :: bool
  max_len :: nat
  flow_control_msg :: bytes
  tx_dat :: bytes
  tx_len :: int
  tx_idx :: int
  tx_done :: bool
  rx_dat :: bytes
  rx_len :: int
  rx_idx :: int
  rx_done :: bool

text \<open>The separation time in seconds, a float, as the byte of the flow control frame.\<close>

definition separation_time_byte :: "rat \<Rightarrow> int result" where
  "separation_time_byte st =
    (if fl (1 / 10000) \<le> st \<and> st \<le> fl (9 / 10000)
     then Inr (0xF1 + (py_trunc (fl (py_round_digits st 4 * 10000)) - 1))
     else if 0 \<le> st \<and> st \<le> fl (127 / 1000)
     then Inr (py_round (fl (st * 1000)))
     else Inl GenericException)"

definition IsoTpMessage_init :: "can_client \<Rightarrow> rat \<Rightarrow> bool \<Rightarrow> rat \<Rightarrow> isotp result" where
  "IsoTpMessage_init cc tmo sfm st =
    ebind (separation_time_byte st) (\<lambda>sep.
    ebind (py_bytes [0x30, if sfm then 0x01 else 0x00, sep]) (\<lambda>fc.
    (let ml = (if sub_addr cc = None then 8 else 7)
     in Inr \<lparr>can_client = cc, timeout = tmo, single_frame_mode = sfm, max_len = ml,
             flow_control_msg = ljust ml fc,
             tx_dat = [], tx_len = 0, tx_idx = 0, tx_done = False,
             rx_dat = [], rx_len = 0, rx_idx = 0, rx_done = False\<rparr>)))"

definition on_client :: "(can_client, 'a) meth \<Rightarrow> (isotp, 'a) meth" where
  "on_client = on_part can_client can_client_update"

section \<open>Transmission\<close>

definition tx_first_frame :: "bool \<Rightarrow> (isotp, unit) meth" where
  "tx_first_frame setup_only s =
    (if tx_len s < int (max_len s)
     then (case py_byte (tx_len s) of
             Inl e \<Rightarrow> (Inl e, s)
           | Inr b \<Rightarrow>
               (let msg = ljust (max_len s) (b # tx_dat s);
                    s' = s\<lparr>tx_done := True\<rparr>
                in if setup_only then (Inr (), s') else on_client (CanClient_send [msg]) s'))
     else (case pack_be 2 (0x1000 OR tx_len s) of
             Inl e \<Rightarrow> (Inl e, s)
           | Inr h \<Rightarrow>
               (let msg = ljust (max_len s - 2) (h @ take (max_len s - 2) (tx_dat s))
                in if setup_only then (Inr (), s) else on_client (CanClient_send [msg]) s)))"

text \<open>
  \<^verbatim>\<open>send\<close> first calls \<^verbatim>\<open>self._can_client.recv(drain=True)\<close> and drops the generator that the call
  creates, so nothing of its body runs.
\<close>

definition reset_message :: "bytes \<Rightarrow> isotp \<Rightarrow> isotp" where
  "reset_message dat s =
    s\<lparr>tx_dat := dat, tx_len := int (length dat), tx_idx := 0, tx_done := False,
      rx_dat := [], rx_len := 0, rx_idx := 0, rx_done := False\<rparr>"

definition isotp_send :: "bytes \<Rightarrow> bool \<Rightarrow> (isotp, unit) meth" where
  "isotp_send dat setup_only s =
    (let unused = CanClient_recv True
     in tx_first_frame setup_only (reset_message dat s))"

section \<open>The frame handlers\<close>

definition rx_single :: "bytes \<Rightarrow> int \<Rightarrow> (isotp, ISOTP_FRAME_TYPE) meth" where
  "rx_single rx_data d0 s =
    (if \<not> (rx_dat s = [] \<or> rx_done s) then (Inl AssertionError, s)
     else if d0 AND 0x0F = 0 \<and> 8 < length rx_data
     then (let s1 = s\<lparr>rx_len := uint (rx_data ! 1)\<rparr>;
               m = (if sub_addr (can_client s) = None then 62 else 61)
           in if \<not> rx_len s1 \<le> m then (Inl AssertionError, s1)
              else (Inr SINGLE,
                    s1\<lparr>rx_dat := py_slice rx_data 2 (2 + rx_len s1), rx_idx := 0, rx_done := True\<rparr>))
     else (let s1 = s\<lparr>rx_len := d0 AND 0x0F\<rparr>
           in if \<not> rx_len s1 < int (max_len s) then (Inl AssertionError, s1)
              else (Inr SINGLE,
                    s1\<lparr>rx_dat := py_slice rx_data 1 (1 + rx_len s1), rx_idx := 0, rx_done := True\<rparr>)))"

definition rx_first :: "bytes \<Rightarrow> int \<Rightarrow> (isotp, ISOTP_FRAME_TYPE) meth" where
  "rx_first rx_data d0 s =
    (if \<not> (rx_dat s = [] \<or> rx_done s) then (Inl AssertionError, s)
     else case byte_at rx_data 1 of
       Inl e \<Rightarrow> (Inl e, s)
     | Inr d1 \<Rightarrow>
         (let s1 = s\<lparr>rx_len := push_bit 8 (d0 AND 0x0F) + d1\<rparr>
          in if \<not> int (max_len s) \<le> rx_len s1 then (Inl AssertionError, s1)
             else if length rx_data \<noteq> max_len s then (Inl AssertionError, s1)
             else sbind (on_client (CanClient_send [flow_control_msg s])) (\<lambda>_. sret FIRST)
                    (s1\<lparr>rx_dat := drop 2 rx_data, rx_idx := 0, rx_done := False\<rparr>)))"

definition rx_consecutive :: "bytes \<Rightarrow> int \<Rightarrow> (isotp, ISOTP_FRAME_TYPE) meth" where
  "rx_consecutive rx_data d0 s =
    (if rx_done s then (Inl AssertionError, s)
     else
       (let s1 = s\<lparr>rx_idx := rx_idx s + 1\<rparr>
        in if rx_idx s1 AND 0xF \<noteq> d0 AND 0xF then (Inl AssertionError, s1)
           else
             (let rx_size = rx_len s1 - int (length (rx_dat s1));
                  s2 = s1\<lparr>rx_dat := rx_dat s1 @ py_slice rx_data 1 (1 + rx_size)\<rparr>
              in if rx_len s2 = int (length (rx_dat s2)) then (Inr CONSECUTIVE, s2\<lparr>rx_done := True\<rparr>)
                 else if single_frame_mode s2
                 then sbind (on_client (CanClient_send [flow_control_msg s2]))
                        (\<lambda>_. sret CONSECUTIVE) s2
                 else (Inr CONSECUTIVE, s2))))"

text \<open>
  One consecutive frame: the sequence number in the low nibble and up to \<open>max_len - 1\<close> bytes
  of the request from index \<open>i\<close>, padded with zeros.
\<close>

definition consecutive_frame :: "nat \<Rightarrow> bytes \<Rightarrow> int \<Rightarrow> int \<Rightarrow> bytes" where
  "consecutive_frame ml dat idx i =
     ljust ml (word_of_int (0x20 OR (idx AND 0xF)) # py_slice dat i (i + (int ml - 1)))"

definition consecutive_frames :: "nat \<Rightarrow> bytes \<Rightarrow> int \<Rightarrow> int list \<Rightarrow> bytes list" where
  "consecutive_frames ml dat idx is =
     map (\<lambda>(k, i). consecutive_frame ml dat (idx + 1 + int k) i) (enumerate 0 is)"

definition rx_flow :: "bytes \<Rightarrow> int \<Rightarrow> (isotp, ISOTP_FRAME_TYPE) meth" where
  "rx_flow rx_data d0 s =
    (if tx_done s then (Inl AssertionError, s)
     else if d0 = 0x32 then (Inl AssertionError, s)
     else if \<not> (d0 = 0x30 \<or> d0 = 0x31) then (Inl AssertionError, s)
     else if d0 = 0x30
     then (case byte_at rx_data 2 of
             Inl e \<Rightarrow> (Inl e, s)
           | Inr d2 \<Rightarrow>
               (let num_bytes = int (max_len s) - 1;
                    start = int (max_len s) - 2 + tx_idx s * num_bytes;
                    count = uint (rx_data ! 1);
                    end' = (if 0 < count then start + count * num_bytes else tx_len s);
                    is = py_range start end' num_bytes;
                    tx_msgs = consecutive_frames (max_len s) (tx_dat s) (tx_idx s) is;
                    s1 = s\<lparr>tx_idx := tx_idx s + int (length is)\<rparr>
                in sbind (on_client (CanClient_send tx_msgs))
                     (\<lambda>_ s2. (Inr FLOW, if tx_len s2 \<le> end' then s2\<lparr>tx_done := True\<rparr> else s2)) s1))
     else (Inr FLOW, s))"

definition isotp_rx_next :: "bytes \<Rightarrow> (isotp, ISOTP_FRAME_TYPE) meth" where
  "isotp_rx_next rx_data s =
    (case byte_at rx_data 0 of
       Inl e \<Rightarrow> (Inl e, s)
     | Inr d0 \<Rightarrow>
         (if drop_bit 4 d0 = ISOTP_FRAME_TYPE_value SINGLE then rx_single rx_data d0 s
          else if drop_bit 4 d0 = ISOTP_FRAME_TYPE_value FIRST then rx_first rx_data d0 s
          else if drop_bit 4 d0 = ISOTP_FRAME_TYPE_value CONSECUTIVE then rx_consecutive rx_data d0 s
          else if drop_bit 4 d0 = ISOTP_FRAME_TYPE_value FLOW then rx_flow rx_data d0 s
          else (Inl GenericException, s)))"

section \<open>The receive loop\<close>

definition isotp_now :: "(isotp, rat) meth" where
  "isotp_now s =
    (let (t, p) = read_clock (panda (can_client s))
     in (Inr t, s\<lparr>can_client := (can_client s)\<lparr>panda := p\<rparr>\<rparr>))"

text \<open>
  One unit of fuel per resumption of the frame generator. The generator is \<open>Fresh\<close> at the start
  of each turn of the outer loop; when it is exhausted, the timeout is checked.
\<close>

fun isotp_recv_loop ::
    "nat \<Rightarrow> rat \<Rightarrow> rat \<Rightarrow> bool \<Rightarrow> recv_gen \<Rightarrow> (isotp, bytes option \<times> bool) meth" where
  "isotp_recv_loop 0 tmo start_time prog gen = sraise OutOfFuel"
| "isotp_recv_loop (Suc n) tmo start_time prog gen =
    sbind (on_client (recv_next gen)) (\<lambda>nxt.
      case nxt of
        Some (msg, gen') \<Rightarrow>
          sbind (isotp_rx_next msg) (\<lambda>frame_type.
          sbind isotp_now (\<lambda>t.
          (\<lambda>s. if tx_done s \<and> rx_done s then (Inr (Some (rx_dat s), False), s)
               else isotp_recv_loop n tmo t
                      (frame_type \<in> {FIRST, CONSECUTIVE}) gen' s)))
      | None \<Rightarrow>
          if tmo = 0 then sret (None, prog)
          else sbind isotp_now (\<lambda>t.
            if tmo < fl (t - start_time) then sraise MessageTimeoutError
            else isotp_recv_loop n tmo start_time prog (CanClient_recv False)))"

definition isotp_recv :: "nat \<Rightarrow> rat option \<Rightarrow> (isotp, bytes option \<times> bool) meth" where
  "isotp_recv fuel tmo s =
    sbind isotp_now (\<lambda>start_time.
      isotp_recv_loop fuel (case tmo of None \<Rightarrow> timeout s | Some t \<Rightarrow> t) start_time False
        (CanClient_recv False)) s"

end
