(* ===== verification/IsoTpCorrect.thy ===== *)
theory IsoTpCorrect
  imports IsoTp
begin

text \<open>
  Correctness of the ISO-TP machine of \<^verbatim>\<open>opendbc/car/uds.py\<close>. \<open>isotp_frames\<close> is the abstract
  specification: the frames ISO 15765-2 prescribes for a message. The sender emits exactly
  these, the receiver turns them back into the message, and an invariant bounds what any
  sequence of received frames can do to the receive buffer.
\<close>

section \<open>The specification\<close>

text \<open>The k-th consecutive frame carries the bytes from \<open>ml - 2 + k * (ml - 1)\<close> on.\<close>

definition cf_count :: "nat \<Rightarrow> nat \<Rightarrow> nat" where
  "cf_count ml n = (n - (ml - 2) + (ml - 2)) div (ml - 1)"

definition cf_frame :: "nat \<Rightarrow> bytes \<Rightarrow> nat \<Rightarrow> bytes" where
  "cf_frame ml dat k =
     ljust ml (word_of_int (32 + int (Suc k) mod 16) # take (ml - 1) (drop (ml - 2 + k * (ml - 1)) dat))"

definition isotp_frames :: "nat \<Rightarrow> bytes \<Rightarrow> bytes list" where
  "isotp_frames ml dat =
    (if length dat < ml
     then [ljust ml (word_of_int (int (length dat)) # dat)]
     else (be_bytes 2 (0x1000 + int (length dat)) @ take (ml - 2) dat)
          # map (cf_frame ml dat) [0..<cf_count ml (length dat)])"

section \<open>Bits of the protocol control byte\<close>

lemma drop_bit_4: "drop_bit 4 (x::int) = x div 16"
  by (simp add: drop_bit_int_def)

lemma or_0x20: "(0x20::int) OR (idx AND 0xF) = 32 + idx mod 16"
proof -
  have "push_bit 4 2 OR (idx mod 16) = 2 * 2 ^ 4 + idx mod 16"
    by (rule or_add_disjoint) simp_all
  then show ?thesis by (simp add: push_bit_eq_mult)
qed

lemma or_0x1000: "0 \<le> n \<Longrightarrow> n < 4096 \<Longrightarrow> (0x1000::int) OR n = 4096 + n"
  using or_add_disjoint [of n 12 1] by (simp add: push_bit_eq_mult)

lemma or_0x1000_above:
  assumes "4096 \<le> n" "n < 8192"
  shows "(0x1000::int) OR n = n"
proof -
  have e: "(0x1000::int) OR (n - 4096) = n" using or_0x1000 [of "n - 4096"] assms by simp
  have "(0x1000::int) OR n = 0x1000 OR (0x1000 OR (n - 4096))" by (simp only: e)
  also have "\<dots> = 0x1000 OR (n - 4096)" by (simp only: or.left_idem)
  finally show ?thesis by (simp only: e)
qed

lemma seq_mod: "0 \<le> m \<Longrightarrow> m < 16 \<Longrightarrow> uint (word_of_int (32 + m) :: byte) = 32 + m"
  by (subst uint_of_int_byte) simp

lemma seq_div: "0 \<le> m \<Longrightarrow> m < 16 \<Longrightarrow> (32 + m) div 16 = (2::int)"
  by simp

lemma seq_low: "0 \<le> m \<Longrightarrow> m < 16 \<Longrightarrow> (32 + m) mod 16 = (m::int)"
proof -
  assume m: "0 \<le> m" "m < 16"
  have "(32 + m) mod 16 = (m + 2 * 16) mod 16" by (simp add: add.commute)
  also have "\<dots> = m mod 16" by (rule mod_mult_self1)
  finally show ?thesis using m by simp
qed

lemma first_low: "0 \<le> m \<Longrightarrow> m < 16 \<Longrightarrow> (16 + m) mod 16 = (m::int)"
  using mod_add_self1 [of 16 m] by simp

lemma be_bytes_2: "be_bytes 2 n = [word_of_int (n div 256), word_of_int n]"
  by (simp add: numeral_2_eq_2)

lemma first_frame_header:
  "be_bytes 2 (0x1000 + int n) = [word_of_int (16 + int n div 256), word_of_int (int n)]"
proof -
  have "(0x1000 + int n) div 256 = 16 + int n div 256" by simp
  moreover have "word_of_int (0x1000 + int n) = (word_of_int (int n) :: byte)"
  proof (rule word_of_int_byte_eq)
    have "(int n + 16 * 256) mod 256 = int n mod 256" by (rule mod_mult_self1)
    then show "(0x1000 + int n) mod 256 = uint (word_of_int (int n) :: byte)"
      by (simp only: uint_of_int_byte) (simp add: add.commute)
  qed
  ultimately show ?thesis unfolding be_bytes_2 by (simp only:)
qed

lemma byte_high_nibble: "uint (b :: byte) div 16 < 16"
  using uint_byte_lt [of b] by linarith

section \<open>Sending\<close>

definition isotp_link :: "isotp \<Rightarrow> bool" where
  "isotp_link s \<longleftrightarrow>
     plain_link (can_client s) \<and> max_len s = 8 \<and> length (flow_control_msg s) \<le> 8"

abbreviation isotp_sent :: "isotp \<Rightarrow> bytes list" where
  "isotp_sent s \<equiv> sent (can_client s)"

lemma on_client_send:
  assumes "isotp_link s" "\<forall>m\<in>set msgs. length m \<le> 8"
  shows "\<exists>c'. on_client (CanClient_send msgs) s = (Inr (), s\<lparr>can_client := c'\<rparr>) \<and>
           plain_link c' \<and> sent c' = isotp_sent s @ msgs"
  using CanClient_send_ok [of "can_client s" msgs] assms
  by (auto simp: on_client_def on_part_def isotp_link_def)

lemma isotp_link_upd [simp]:
  "isotp_link (s\<lparr>tx_dat := a\<rparr>) = isotp_link s"
  "isotp_link (s\<lparr>tx_len := n\<rparr>) = isotp_link s"
  "isotp_link (s\<lparr>tx_idx := n\<rparr>) = isotp_link s"
  "isotp_link (s\<lparr>tx_done := b\<rparr>) = isotp_link s"
  "isotp_link (s\<lparr>rx_dat := a\<rparr>) = isotp_link s"
  "isotp_link (s\<lparr>rx_len := n\<rparr>) = isotp_link s"
  "isotp_link (s\<lparr>rx_idx := n\<rparr>) = isotp_link s"
  "isotp_link (s\<lparr>rx_done := b\<rparr>) = isotp_link s"
  "isotp_link (reset_message dat s) = isotp_link s"
  by (simp_all add: isotp_link_def reset_message_def)

lemma isotp_link_client:
  "isotp_link s \<Longrightarrow> plain_link c \<Longrightarrow> isotp_link (s\<lparr>can_client := c\<rparr>)"
  by (simp add: isotp_link_def)

lemma consecutive_frame_eq:
  assumes "0 < ml"
  shows "consecutive_frame ml dat (int (Suc k)) (int (ml - 2 + k * (ml - 1))) = cf_frame ml dat k"
proof -
  let ?o = "ml - 2 + k * (ml - 1)"
  have "int ?o + (int ml - 1) = int (?o + (ml - 1))" using assms by simp
  then have "py_slice dat (int ?o) (int ?o + (int ml - 1)) = take (ml - 1) (drop ?o dat)"
    by (simp only: py_slice_of_nat) simp
  then show ?thesis
    by (simp only: consecutive_frame_def cf_frame_def or_0x20)
qed

lemma py_range_cf:
  "8 \<le> n \<Longrightarrow> py_range 6 (int n) 7 = map (\<lambda>k. int (6 + k * 7)) [0..<cf_count 8 n]"
proof -
  assume "8 \<le> n"
  then have "nat ((int n - 6 + 7 - 1) div 7) = cf_count 8 n"
    by (simp add: cf_count_def nat_div_distrib nat_diff_distrib)
  then show ?thesis by (simp add: py_range_def)
qed

lemma consecutive_frames_eq:
  assumes "8 \<le> length dat"
  shows "consecutive_frames 8 dat 0 (py_range 6 (int (length dat)) 7) =
         map (cf_frame 8 dat) [0..<cf_count 8 (length dat)]"
proof -
  have "consecutive_frame 8 dat (1 + int k) (int (6 + k * 7)) = cf_frame 8 dat k" for k
    using consecutive_frame_eq [of 8 dat k] by simp
  then show ?thesis
    unfolding consecutive_frames_def py_range_cf [OF assms]
    by (auto simp: list_eq_iff_nth_eq nth_enumerate_eq)
qed

lemma cf_frame_length [simp]: "length (cf_frame 8 dat k) = 8"
  by (simp add: cf_frame_def)

text \<open>The request: one single frame, or the first frame of a segmented message.\<close>

lemma isotp_send_first:
  assumes "isotp_link s" "length dat \<le> 4095"
  shows "\<exists>c'. isotp_send dat False s =
             (Inr (), (reset_message dat s)\<lparr>can_client := c', tx_done := (length dat < 8)\<rparr>) \<and>
           plain_link c' \<and> sent c' = isotp_sent s @ [hd (isotp_frames 8 dat)]"
proof -
  let ?s = "reset_message dat s"
  have ml: "max_len ?s = 8" and tl: "tx_len ?s = int (length dat)" and td: "tx_dat ?s = dat"
    and cc: "can_client ?s = can_client s" and tx: "tx_done ?s = False"
    using assms(1) by (simp_all add: reset_message_def isotp_link_def)
  show ?thesis
  proof (cases "length dat < 8")
    case True
    let ?m = "ljust 8 (word_of_int (int (length dat)) # dat)"
    have "length ?m \<le> 8" using True by simp
    then obtain c' where
      "on_client (CanClient_send [?m]) (?s\<lparr>tx_done := True\<rparr>) =
         (Inr (), ?s\<lparr>tx_done := True, can_client := c'\<rparr>)"
      "plain_link c'" "sent c' = isotp_sent s @ [?m]"
      using on_client_send [of "?s\<lparr>tx_done := True\<rparr>" "[?m]"] assms(1) cc by auto
    with True show ?thesis
      by (intro exI [of _ c'])
        (simp add: isotp_send_def tx_first_frame_def ml tl td isotp_frames_def Let_def)
  next
    case False
    let ?m = "be_bytes 2 (0x1000 + int (length dat)) @ take 6 dat"
    have p: "pack_be 2 (0x1000 OR int (length dat)) = Inr (be_bytes 2 (0x1000 + int (length dat)))"
      using assms(2) by (simp add: or_0x1000 pack_be_def)
    have len: "length ?m = 8" using False by simp
    then obtain c' where
      "on_client (CanClient_send [?m]) ?s = (Inr (), ?s\<lparr>can_client := c'\<rparr>)"
      "plain_link c'" "sent c' = isotp_sent s @ [?m]"
      using on_client_send [of ?s "[?m]"] assms(1) cc by auto
    with False len p tx show ?thesis
      by (intro exI [of _ c'])
        (simp add: isotp_send_def tx_first_frame_def ml tl td isotp_frames_def Let_def)
  qed
qed

text \<open>A flow control frame that clears the whole rest of the message.\<close>

lemma rx_flow_all:
  assumes "isotp_link s" "\<not> tx_done s" "tx_idx s = 0" "tx_dat s = dat" "tx_len s = int (length dat)"
    and "8 \<le> length dat"
  shows "\<exists>c'. isotp_rx_next (0x30 # 0 # st # fc) s =
             (Inr FLOW, s\<lparr>tx_idx := int (cf_count 8 (length dat)), can_client := c', tx_done := True\<rparr>) \<and>
           plain_link c' \<and> sent c' = isotp_sent s @ tl (isotp_frames 8 dat)"
proof -
  let ?fs = "map (cf_frame 8 dat) [0..<cf_count 8 (length dat)]"
  let ?s1 = "s\<lparr>tx_idx := int (cf_count 8 (length dat))\<rparr>"
  obtain c' where c':
    "on_client (CanClient_send ?fs) ?s1 = (Inr (), ?s1\<lparr>can_client := c'\<rparr>)"
    "plain_link c'" "sent c' = isotp_sent s @ ?fs"
    using on_client_send [of ?s1 ?fs] assms(1) by auto
  have "length (py_range 6 (int (length dat)) 7) = cf_count 8 (length dat)"
    by (simp add: py_range_cf [OF assms(6)])
  with c' assms show ?thesis
    by (intro exI [of _ c'])
      (simp add: isotp_rx_next_def rx_flow_def drop_bit_4 isotp_link_def Let_def
        consecutive_frames_eq sbind_def isotp_frames_def)
qed

section \<open>Receiving\<close>

text \<open>Feeding a list of frames to the receiver; the first exception stops it.\<close>

fun rx_run :: "bytes list \<Rightarrow> (isotp, unit) meth" where
  "rx_run [] = sret ()"
| "rx_run (f # fs) = sbind (isotp_rx_next f) (\<lambda>_. rx_run fs)"

lemma cf_payload:
  assumes "o' \<le> length dat" "length zs = n - length (drop o' dat)"
  shows "take (length dat - o') (take n (drop o' dat) @ zs) = take n (drop o' dat)"
  using assms by (cases "n \<ge> length dat - o'") auto

lemma cf_frame_simps:
  "cf_frame 8 dat k = word_of_int (32 + int (Suc k) mod 16)
      # (take 7 (drop (6 + k * 7) dat) @ replicate (7 - length (drop (6 + k * 7) dat)) 0)"
  by (auto simp: cf_frame_def ljust_def)

definition rx_progress :: "bytes \<Rightarrow> nat \<Rightarrow> isotp \<Rightarrow> bool" where
  "rx_progress dat k s \<longleftrightarrow>
     isotp_link s \<and> rx_dat s = take (6 + k * 7) dat \<and> rx_len s = int (length dat) \<and>
     rx_idx s = int k \<and> rx_done s = (length dat \<le> 6 + k * 7)"

lemma rx_consecutive_run:
  assumes "\<not> rx_done s" "(rx_idx s + 1) mod 16 = d0 mod 16"
    and "new = rx_dat s @ py_slice rx_data 1 (1 + (rx_len s - int (length (rx_dat s))))"
    and "s2 = s\<lparr>rx_idx := rx_idx s + 1, rx_dat := new\<rparr>"
  shows "rx_consecutive rx_data d0 s =
     (if rx_len s = int (length new) then (Inr CONSECUTIVE, s2\<lparr>rx_done := True\<rparr>)
      else if single_frame_mode s
      then sbind (on_client (CanClient_send [flow_control_msg s2])) (\<lambda>_. sret CONSECUTIVE) s2
      else (Inr CONSECUTIVE, s2))"
  using assms(1,2) by (simp add: rx_consecutive_def Let_def assms(3,4))

lemma rx_cf_step:
  assumes "rx_progress dat k s" "6 + k * 7 < length dat"
  shows "\<exists>s'. isotp_rx_next (cf_frame 8 dat k) s = (Inr CONSECUTIVE, s') \<and> rx_progress dat (Suc k) s'"
proof -
  let ?o = "6 + k * 7"
  obtain p where p: "p = take 7 (drop ?o dat) @ replicate (7 - length (drop ?o dat)) (0 :: byte)" by simp
  let ?s2 = "s\<lparr>rx_idx := int k + 1, rx_dat := take (6 + Suc k * 7) dat\<rparr>"
  have link: "isotp_link s" and d: "rx_dat s = take ?o dat" and l: "rx_len s = int (length dat)"
    and i: "rx_idx s = int k" and nd: "\<not> rx_done s"
    using assms by (auto simp: rx_progress_def)
  obtain b where b: "b = (word_of_int (32 + int (Suc k) mod 16) :: byte)" by simp
  have ub: "uint b = 32 + (int k + 1) mod 16"
    unfolding b by (subst seq_mod) (simp_all add: add.commute)
  have hi: "uint b div 16 = 2" unfolding ub by (rule seq_div) simp_all
  have lo: "uint b mod 16 = (int k + 1) mod 16" unfolding ub by (rule seq_low) simp_all
  have size: "rx_len s - int (length (rx_dat s)) = int (length dat - ?o)"
    using assms(2) by (simp add: d l)
  have pay: "take (length dat - ?o) p = take 7 (drop ?o dat)"
    unfolding p using assms(2) by (intro cf_payload) auto
  have dat2: "rx_dat s @ py_slice (b # p) 1 (1 + (rx_len s - int (length (rx_dat s)))) = take (6 + Suc k * 7) dat"
  proof -
    have "py_slice (b # p) 1 (1 + int (length dat - ?o)) =
          py_slice (b # p) (int 1) (int (1 + (length dat - ?o)))" by simp
    also have "\<dots> = take 7 (drop ?o dat)"
      unfolding py_slice_of_nat using pay by simp
    finally show ?thesis
      unfolding size by (simp add: d flip: take_add)
  qed
  have next_eq: "isotp_rx_next (cf_frame 8 dat k) s = rx_consecutive (b # p) (uint b) s"
    by (simp only: cf_frame_simps flip: b p) (simp add: isotp_rx_next_def drop_bit_4 hi)
  obtain c' where c': "on_client (CanClient_send [flow_control_msg ?s2]) ?s2 = (Inr (), ?s2\<lparr>can_client := c'\<rparr>)"
    "plain_link c'"
    using on_client_send [of ?s2 "[flow_control_msg ?s2]"] link by (auto simp: isotp_link_def)
  have cons: "rx_consecutive (b # p) (uint b) s =
     (if rx_len s = int (length (take (6 + Suc k * 7) dat)) then (Inr CONSECUTIVE, ?s2\<lparr>rx_done := True\<rparr>)
      else if single_frame_mode s
      then sbind (on_client (CanClient_send [flow_control_msg ?s2])) (\<lambda>_. sret CONSECUTIVE) ?s2
      else (Inr CONSECUTIVE, ?s2))"
    by (rule rx_consecutive_run) (simp_all only: nd dat2 i lo simp_thms)
  show ?thesis
  proof (cases "length dat \<le> 6 + Suc k * 7")
    case True
    then show ?thesis
      unfolding next_eq cons using link l by (auto simp: rx_progress_def)
  next
    case False
    then show ?thesis
      unfolding next_eq cons using link l nd c' isotp_link_client [OF link, of c']
      by (cases "single_frame_mode s") (auto simp: rx_progress_def sbind_def sret_def isotp_link_def)
  qed
qed

lemma cf_count_enough: "8 \<le> n \<Longrightarrow> n \<le> 6 + cf_count 8 n * 7"
  by (simp add: cf_count_def)

lemma cf_count_less: "8 \<le> n \<Longrightarrow> k < cf_count 8 n \<Longrightarrow> 6 + k * 7 < n"
  unfolding cf_count_def by simp

lemma rx_run_cfs:
  assumes "rx_progress dat k s" "8 \<le> length dat" "k \<le> cf_count 8 (length dat)"
  shows "\<exists>s'. rx_run (map (cf_frame 8 dat) [k..<cf_count 8 (length dat)]) s = (Inr (), s') \<and>
           rx_progress dat (cf_count 8 (length dat)) s'"
  using assms
proof (induction "cf_count 8 (length dat) - k" arbitrary: k s)
  case 0
  then show ?case by (simp add: sret_def)
next
  case (Suc n)
  then have k: "k < cf_count 8 (length dat)" by simp
  obtain s1 where s1: "isotp_rx_next (cf_frame 8 dat k) s = (Inr CONSECUTIVE, s1)" "rx_progress dat (Suc k) s1"
    using rx_cf_step [OF Suc.prems(1) cf_count_less [OF Suc.prems(2) k]] by blast
  have "n = cf_count 8 (length dat) - Suc k" using Suc.hyps(2) by simp
  with Suc.hyps(1) [OF _ s1(2)] k Suc.prems(2) s1(1) show ?case
    by (simp add: upt_conv_Cons sbind_run)
qed

lemma rx_first_step:
  assumes "isotp_link s" "rx_dat s = [] \<or> rx_done s" "8 \<le> length dat" "length dat \<le> 4095"
  shows "\<exists>s'. isotp_rx_next (hd (isotp_frames 8 dat)) s = (Inr FIRST, s') \<and> rx_progress dat 0 s'"
proof -
  obtain b0 b1 where b0: "b0 = (word_of_int (16 + int (length dat) div 256) :: byte)"
    and b1: "b1 = (word_of_int (int (length dat)) :: byte)" by simp
  have hd: "hd (isotp_frames 8 dat) = b0 # b1 # take 6 dat"
    using assms(3) by (simp only: isotp_frames_def first_frame_header flip: b0 b1) simp
  have u0: "uint b0 = 16 + int (length dat) div 256"
    unfolding b0 using assms(4) by (subst uint_of_int_byte) simp
  have u1: "uint b1 = int (length dat) mod 256"
    unfolding b1 by (subst uint_of_int_byte) simp
  have hi: "uint b0 div 16 = 1" using u0 assms(4) by linarith
  have lo: "uint b0 mod 16 = int (length dat) div 256" unfolding u0 using assms(4) by (intro first_low) simp_all
  have len: "push_bit 8 (uint b0 AND 0x0F) + uint b1 = int (length dat)"
    by (simp add: lo u1 push_bit_eq_mult)
  let ?s1 = "s\<lparr>rx_len := int (length dat), rx_dat := take 6 dat, rx_idx := 0, rx_done := False\<rparr>"
  obtain c' where c': "on_client (CanClient_send [flow_control_msg s]) ?s1 = (Inr (), ?s1\<lparr>can_client := c'\<rparr>)"
    "plain_link c'"
    using on_client_send [of ?s1 "[flow_control_msg s]"] assms(1) by (auto simp: isotp_link_def)
  have "isotp_rx_next (hd (isotp_frames 8 dat)) s = (Inr FIRST, ?s1\<lparr>can_client := c'\<rparr>)"
    using assms c'(1) hi len
    by (auto simp: hd isotp_rx_next_def drop_bit_4 rx_first_def isotp_link_def Let_def sbind_def sret_def
        simp del: and_15)
  moreover have "rx_progress dat 0 (?s1\<lparr>can_client := c'\<rparr>)"
    using assms c'(2) by (auto simp: rx_progress_def isotp_link_def)
  ultimately show ?thesis by blast
qed

lemma rx_single_step:
  assumes "isotp_link s" "rx_dat s = [] \<or> rx_done s" "length dat < 8"
  shows "\<exists>s'. isotp_rx_next (ljust 8 (word_of_int (int (length dat)) # dat)) s = (Inr SINGLE, s') \<and>
           rx_dat s' = dat \<and> rx_done s' \<and> isotp_link s'"
proof -
  let ?b = "word_of_int (int (length dat)) :: byte"
  have u: "uint ?b = int (length dat)" using assms(3) by (subst uint_of_int_byte) simp
  have hi: "uint ?b div 16 = 0" unfolding u using assms(3) by simp
  have lo: "uint ?b AND 0x0F = int (length dat)" unfolding u using assms(3) by simp
  have sl: "py_slice (ljust 8 (?b # dat)) 1 (1 + int (length dat)) = dat"
    using py_slice_of_nat [of "ljust 8 (?b # dat)" 1 "1 + length dat"] assms(3)
    by (simp add: ljust_Cons take_ljust)
  have "byte_at (ljust 8 (?b # dat)) 0 = Inr (uint ?b)" by (simp add: ljust_Cons)
  then have "isotp_rx_next (ljust 8 (?b # dat)) s = (Inr SINGLE,
      s\<lparr>rx_len := int (length dat), rx_dat := dat, rx_idx := 0, rx_done := True\<rparr>)"
    using assms hi lo sl
    by (simp add: isotp_rx_next_def drop_bit_4 rx_single_def isotp_link_def Let_def del: and_15)
  with assms(1) show ?thesis by simp
qed

text \<open>The receiver turns the frames of every message of at most 4095 bytes back into it.\<close>

lemma rx_run_frames:
  assumes "isotp_link s" "rx_dat s = [] \<or> rx_done s" "length dat \<le> 4095"
  shows "\<exists>s'. rx_run (isotp_frames 8 dat) s = (Inr (), s') \<and> rx_dat s' = dat \<and> rx_done s'"
proof (cases "length dat < 8")
  case True
  with rx_single_step [OF assms(1,2) True] show ?thesis
    by (auto simp: isotp_frames_def sbind_run sret_def)
next
  case False
  then have 8: "8 \<le> length dat" by simp
  obtain s1 where s1: "isotp_rx_next (hd (isotp_frames 8 dat)) s = (Inr FIRST, s1)" "rx_progress dat 0 s1"
    using rx_first_step [OF assms(1,2) 8 assms(3)] by blast
  obtain s2 where s2: "rx_run (map (cf_frame 8 dat) [0..<cf_count 8 (length dat)]) s1 = (Inr (), s2)"
    "rx_progress dat (cf_count 8 (length dat)) s2"
    using rx_run_cfs [OF s1(2) 8] by blast
  have "isotp_frames 8 dat = hd (isotp_frames 8 dat) # map (cf_frame 8 dat) [0..<cf_count 8 (length dat)]"
    using False by (simp add: isotp_frames_def)
  then have "rx_run (isotp_frames 8 dat) s = (Inr (), s2)"
    using s1(1) s2(1) by (metis rx_run.simps(2) sbind_run)
  moreover have "rx_dat s2 = dat" "rx_done s2"
    using s2(2) cf_count_enough [OF 8] by (simp_all add: rx_progress_def)
  ultimately show ?thesis by blast
qed

section \<open>The receive loop returns\<close>

lemma on_client_frame:
  assumes "on_client (CanClient_send ms) s = (r, s')"
  shows "pending (can_client s') \<le> pending (can_client s) \<and> r \<noteq> Inl OutOfFuel \<and>
    clock (panda (can_client s')) = clock (panda (can_client s)) \<and>
    ticks (panda (can_client s')) = ticks (panda (can_client s))"
proof -
  obtain r1 c1 where c: "send_from 0 ms (can_client s) = (r1, c1)" by fastforce
  with assms show ?thesis
    using send_from_frame [OF c] by (auto simp: on_client_def on_part_def CanClient_send_def)
qed

definition rx_frame_ok :: "isotp \<Rightarrow> ISOTP_FRAME_TYPE result \<times> isotp \<Rightarrow> bool" where
  "rx_frame_ok s rs \<longleftrightarrow>
    pending (can_client (snd rs)) \<le> pending (can_client s) \<and> fst rs \<noteq> Inl OutOfFuel \<and>
    clock (panda (can_client (snd rs))) = clock (panda (can_client s)) \<and>
    ticks (panda (can_client (snd rs))) = ticks (panda (can_client s))"

lemma rx_frame_ok_simps [simp]:
  "can_client s' = can_client s \<Longrightarrow> rx_frame_ok s (Inr t, s')"
  "can_client s' = can_client s \<Longrightarrow> rx_frame_ok s (Inl e, s') = (e \<noteq> OutOfFuel)"
  by (simp_all add: rx_frame_ok_def)

lemma rx_frame_ok_send:
  assumes "can_client s1 = can_client s"
    and "\<And>s2. \<exists>t s3. f () s2 = (Inr t, s3) \<and> can_client s3 = can_client s2"
  shows "rx_frame_ok s (sbind (on_client (CanClient_send ms)) f s1)"
proof -
  obtain r s2 where c: "on_client (CanClient_send ms) s1 = (r, s2)" by fastforce
  obtain t s3 where "f () s2 = (Inr t, s3)" "can_client s3 = can_client s2" using assms(2) by blast
  with on_client_frame [OF c] c assms(1) show ?thesis
    by (cases r) (simp_all add: rx_frame_ok_def sbind_def)
qed

lemma isotp_rx_next_frame: "rx_frame_ok s (isotp_rx_next d s)"
proof (cases "byte_at d 0")
  case (Inl e)
  then show ?thesis by (auto simp: isotp_rx_next_def byte_at_def split: if_splits)
next
  case (Inr d0)
  have a: "rx_frame_ok s (rx_single d d0 s)"
    by (simp add: rx_single_def Let_def)
  have b: "rx_frame_ok s (rx_first d d0 s)"
    by (auto simp: rx_first_def Let_def byte_at_def sret_def split: sum.splits if_splits
        intro!: rx_frame_ok_send)
  have c: "rx_frame_ok s (rx_consecutive d d0 s)"
    by (auto simp: rx_consecutive_def Let_def sret_def intro!: rx_frame_ok_send)
  have e: "rx_frame_ok s (rx_flow d d0 s)"
    by (auto simp: rx_flow_def Let_def byte_at_def split: sum.splits if_splits
        intro!: rx_frame_ok_send)
  show ?thesis using Inr a b c e by (simp add: isotp_rx_next_def)
qed

lemma isotp_now_run:
  "isotp_now s = (Inr (clock (panda (can_client s)) (ticks (panda (can_client s)))),
     s\<lparr>can_client := (can_client s)\<lparr>panda := (panda (can_client s))\<lparr>ticks := Suc (ticks (panda (can_client s)))\<rparr>\<rparr>\<rparr>)"
  by (simp add: isotp_now_def read_clock_def)

lemma on_client_recv_next:
  assumes "on_client (recv_next g) s = (r, s')"
  shows "clock (panda (can_client s')) = clock (panda (can_client s)) \<and>
      ticks (panda (can_client s')) = ticks (panda (can_client s)) \<and>
      ((\<exists>e. r = Inl e \<and> e \<noteq> OutOfFuel) \<or>
       (r = Inr None \<and> pending (can_client s') \<le> pending (can_client s)) \<or>
       (\<exists>d. r = Inr (Some (d, Resumed)) \<and> pending (can_client s') < pending (can_client s)))"
proof -
  obtain r1 c1 where c: "recv_next g (can_client s) = (r1, c1)" by fastforce
  have "r = r1" "can_client s' = c1"
    using assms c by (auto simp: on_client_def on_part_def)
  with recv_next_cases [OF c] recv_next_link [OF c] show ?thesis by (auto simp: same_link_def)
qed

lemma timeout_passes:
  fixes tmo :: rat
  assumes "2 * \<bar>tmo\<bar> < d"
  shows "tmo < fl d"
  using fl_ge_half [of d] assms by linarith

text \<open>
  With a clock that advances, enough fuel lets the loop end: by well-founded induction on the
  pending frames, and while no frame arrives, on the number of clock readings until the timeout.
\<close>

lemma isotp_recv_loop_returns:
  assumes "clock_advances (clock (panda (can_client s)))"
  shows "\<exists>n. \<forall>fuel\<ge>n. fst (isotp_recv_loop fuel tmo start prog gen s) \<noteq> Inl OutOfFuel"
  using assms
proof (induction "pending (can_client s)" arbitrary: s start prog gen rule: less_induct)
  case less
  let ?clk = "clock (panda (can_client s))"
  obtain N where N: "\<And>k. N \<le> k \<Longrightarrow> start + 2 * \<bar>tmo\<bar> < ?clk k"
    using clock_advancesD [OF less.prems] by blast
  have "\<exists>n. \<forall>fuel\<ge>n. fst (isotp_recv_loop fuel tmo start p g s1) \<noteq> Inl OutOfFuel"
    if "pending (can_client s1) \<le> pending (can_client s)" "clock (panda (can_client s1)) = ?clk" for s1 p g
    using that
  proof (induction "N - ticks (panda (can_client s1))" arbitrary: s1 p g rule: less_induct)
    case inner: less
    obtain r s2 where rn: "on_client (recv_next g) s1 = (r, s2)" by fastforce
    note frame = on_client_recv_next [OF rn]
    have clk2: "clock (panda (can_client s2)) = ?clk" using frame inner.prems by simp
    from frame consider (err) e where "r = Inl e" "e \<noteq> OutOfFuel"
      | (none) "r = Inr None" "pending (can_client s2) \<le> pending (can_client s1)"
      | (some) d where "r = Inr (Some (d, Resumed))" "pending (can_client s2) < pending (can_client s1)"
      by blast
    then show ?case
    proof cases
      case err
      have "fst (isotp_recv_loop fuel tmo start p g s1) \<noteq> Inl OutOfFuel" if "1 \<le> fuel" for fuel
        using that err rn by (cases fuel) (simp_all add: sbind_fail)
      then show ?thesis by blast
    next
      case none
      have rn': "on_client (recv_next g) s1 = (Inr None, s2)" using rn none(1) by simp
      obtain t s3 where now: "isotp_now s2 = (Inr t, s3)" and t: "t = ?clk (ticks (panda (can_client s2)))"
        and s3: "ticks (panda (can_client s3)) = Suc (ticks (panda (can_client s1)))"
          "clock (panda (can_client s3)) = ?clk" "pending (can_client s3) \<le> pending (can_client s)"
        using frame clk2 none(2) inner.prems by (simp add: isotp_now_run pending_def)
      show ?thesis
      proof (cases "tmo = 0 \<or> tmo < fl (t - start)")
        case True
        have "fst (isotp_recv_loop fuel tmo start p g s1) \<noteq> Inl OutOfFuel" if "1 \<le> fuel" for fuel
          using that True none rn now
          by (cases fuel) (auto simp: sbind_run [where m = "on_client (recv_next g)", OF rn'] sbind_run [where m = isotp_now, OF now] sret_def sraise_def)
        then show ?thesis by blast
      next
        case False
        have "\<not> N \<le> ticks (panda (can_client s1))"
        proof
          assume "N \<le> ticks (panda (can_client s1))"
          then have "start + 2 * \<bar>tmo\<bar> < t" using N t frame by simp
          then have "tmo < fl (t - start)" by (intro timeout_passes) linarith
          with False show False by simp
        qed
        then have "N - ticks (panda (can_client s3)) < N - ticks (panda (can_client s1))"
          using s3(1) by linarith
        from inner.hyps [OF this s3(3,2), of p "CanClient_recv False"]
        obtain n where n: "\<forall>fuel\<ge>n. fst (isotp_recv_loop fuel tmo start p (CanClient_recv False) s3) \<noteq> Inl OutOfFuel"
          by blast
        have "fst (isotp_recv_loop fuel tmo start p g s1) \<noteq> Inl OutOfFuel" if le: "Suc n \<le> fuel" for fuel
        proof -
          obtain f where f: "fuel = Suc f" "n \<le> f" using le by (cases fuel) auto
          with n False none rn now show ?thesis
            by (simp add: sbind_run [where m = "on_client (recv_next g)", OF rn'] sbind_run [where m = isotp_now, OF now])
        qed
        then show ?thesis by blast
      qed
    next
      case (some d)
      have rn': "on_client (recv_next g) s1 = (Inr (Some (d, Resumed)), s2)" using rn some(1) by simp
      obtain r3 s3 where nx: "isotp_rx_next d s2 = (r3, s3)" by fastforce
      have ok: "rx_frame_ok s2 (r3, s3)" using isotp_rx_next_frame [of s2 d] nx by simp
      show ?thesis
      proof (cases r3)
        case (Inl e)
        have "fst (isotp_recv_loop fuel tmo start p g s1) \<noteq> Inl OutOfFuel" if "1 \<le> fuel" for fuel
          using that Inl some(1) rn nx ok
          by (cases fuel) (auto simp: sbind_run [where m = "on_client (recv_next g)", OF rn'] sbind_def rx_frame_ok_def)
        then show ?thesis by blast
      next
        case (Inr ft)
        obtain t s4 where now: "isotp_now s3 = (Inr t, s4)"
          and s4: "clock (panda (can_client s4)) = ?clk" "pending (can_client s4) < pending (can_client s)"
          using ok clk2 some(2) inner.prems(1)
          by (simp add: isotp_now_run rx_frame_ok_def) (simp add: pending_def)
        have "clock_advances (clock (panda (can_client s4)))" using less.prems s4(1) by simp
        from less.hyps [OF s4(2) this] obtain n where
          n: "\<forall>fuel\<ge>n. fst (isotp_recv_loop fuel tmo t (ft \<in> {FIRST, CONSECUTIVE}) Resumed s4) \<noteq> Inl OutOfFuel"
          by blast
        have "fst (isotp_recv_loop fuel tmo start p g s1) \<noteq> Inl OutOfFuel" if le: "Suc n \<le> fuel" for fuel
        proof -
          obtain f where f: "fuel = Suc f" "n \<le> f" using le by (cases fuel) auto
          have nx': "isotp_rx_next d s2 = (Inr ft, s3)" using nx Inr by simp
          show ?thesis using n f some(1)
            by (simp add: sbind_run [where m = "on_client (recv_next g)", OF rn'] sbind_run [where m = "isotp_rx_next d", OF nx'] sbind_run [where m = isotp_now, OF now])
        qed
        then show ?thesis by blast
      qed
    qed
  qed
  from this [of s prog gen] show ?case by simp
qed

section \<open>What a sequence of frames can do to the receive buffer\<close>

definition rx_inv :: "isotp \<Rightarrow> bool" where
  "rx_inv s \<longleftrightarrow>
     0 \<le> rx_len s \<and> rx_len s \<le> 4095 \<and> length (rx_dat s) \<le> 4095 \<and>
     (\<not> rx_done s \<longrightarrow> int (length (rx_dat s)) \<le> rx_len s)"

lemma on_client_rx_inv: "on_client m s = (r, s') \<Longrightarrow> rx_inv s' = rx_inv s"
  by (auto simp: on_client_def on_part_def rx_inv_def split: prod.splits)

lemma rx_inv_send:
  assumes "rx_inv s" "\<And>s2. rx_inv s2 \<Longrightarrow> rx_inv (snd (f () s2))"
  shows "rx_inv (snd (sbind (on_client m) f s))"
proof -
  obtain r s2 where c: "on_client m s = (r, s2)" by fastforce
  with on_client_rx_inv [OF c] assms show ?thesis by (cases r) (simp_all add: sbind_def)
qed

lemma length_py_slice: "0 \<le> lo \<Longrightarrow> lo \<le> hi \<Longrightarrow> int (length (py_slice xs lo hi)) \<le> hi - lo"
  by (simp add: py_slice_nonneg)

lemma uint_low_nibble: "0 \<le> uint (b::byte) mod 16" "uint b mod 16 \<le> 15"
  by simp_all

lemma uint_byte_le_4095: "uint (b::byte) \<le> 4095"
  using uint_byte_lt [of b] by linarith

lemma rx_single_inv: "rx_inv s \<Longrightarrow> rx_inv (snd (rx_single d (uint (b::byte)) s))"
  using length_py_slice [of 2 "2 + uint (d ! 1)" d] length_py_slice [of 1 "1 + uint b mod 16" d]
    uint_low_nibble [of b] uint_byte_le_4095 [of "d ! 1"]
  by (simp add: rx_single_def rx_inv_def Let_def)

lemma rx_first_inv: "rx_inv s \<Longrightarrow> rx_inv (snd (rx_first d (uint (b::byte)) s))"
proof -
  assume inv: "rx_inv s"
  have len: "0 \<le> push_bit 8 (uint b AND 0x0F) + uint x \<and> push_bit 8 (uint b AND 0x0F) + uint x \<le> 4095"
    for x :: byte
  proof -
    have "push_bit 8 (uint b AND 0x0F) = uint b mod 16 * 256" by (simp add: push_bit_eq_mult)
    then show ?thesis
      using uint_low_nibble [of b] uint_byte_lt [of x] uint_ge_0 [of x] by linarith
  qed
  have ml: "n - 2 \<le> 4095" if "int n \<le> push_bit 8 (uint b mod 16) + uint x" for n and x :: byte
    using that len [of x] by simp
  show ?thesis
    using inv len [of "d ! 1"]
    by (auto simp: ml rx_first_def rx_inv_def byte_at_def Let_def sret_def split: sum.splits if_splits
        intro!: rx_inv_send [unfolded rx_inv_def])
qed

lemma rx_consecutive_inv: "rx_inv s \<Longrightarrow> rx_inv (snd (rx_consecutive d d0 s))"
proof (cases "rx_done s")
  case False
  assume inv: "rx_inv s"
  let ?sz = "rx_len s - int (length (rx_dat s))"
  have sz: "0 \<le> ?sz" using inv False by (simp add: rx_inv_def)
  then have "int (length (py_slice d 1 (1 + ?sz))) \<le> ?sz"
    using length_py_slice [of 1 "1 + ?sz" d] by simp
  then have new: "int (length (rx_dat s @ py_slice d 1 (1 + ?sz))) \<le> rx_len s" by simp
  then have "length (rx_dat s @ py_slice d 1 (1 + ?sz)) \<le> 4095"
    using inv by (simp add: rx_inv_def)
  with new inv False show ?thesis
    by (auto simp: rx_consecutive_def rx_inv_def Let_def sret_def
        intro!: rx_inv_send [unfolded rx_inv_def])
qed (simp add: rx_consecutive_def)

lemma rx_flow_inv: "rx_inv s \<Longrightarrow> rx_inv (snd (rx_flow d d0 s))"
  by (auto simp: rx_flow_def rx_inv_def byte_at_def Let_def split: sum.splits if_splits
      intro!: rx_inv_send [unfolded rx_inv_def])

lemma isotp_rx_next_inv: "rx_inv s \<Longrightarrow> rx_inv (snd (isotp_rx_next d s))"
  by (auto simp: isotp_rx_next_def byte_at_def rx_single_inv rx_first_inv rx_consecutive_inv
      rx_flow_inv split: sum.splits if_splits)

definition rx_step :: "bytes \<Rightarrow> isotp \<Rightarrow> isotp" where
  "rx_step d s = snd (isotp_rx_next d s)"

interpretation rx: invariant_step rx_step rx_inv
  by unfold_locales (simp add: rx_step_def isotp_rx_next_inv)

section \<open>Properties\<close>

text \<open>C6: end to end. For every message of at most 4095 bytes, one object sends it (a single
frame, or a first frame and, on a flow control frame with block size 0, the consecutive frames),
and the frames it put on the bus, fed to the receiver of another object, rebuild the message.\<close>

theorem isotp_end_to_end:
  assumes "isotp_link s" "isotp_link r" "rx_dat r = [] \<or> rx_done r" "length dat \<le> 4095"
  shows "\<exists>s1 s2 r' fs.
     isotp_send dat False s = (Inr (), s1) \<and>
     (if length dat < 8 then s2 = s1 else isotp_rx_next (0x30 # 0 # st # fc) s1 = (Inr FLOW, s2)) \<and>
     tx_done s2 \<and> isotp_sent s2 = isotp_sent s @ fs \<and>
     rx_run fs r = (Inr (), r') \<and> rx_done r' \<and> rx_dat r' = dat"
proof -
  obtain c1 where s1: "isotp_send dat False s =
      (Inr (), (reset_message dat s)\<lparr>can_client := c1, tx_done := (length dat < 8)\<rparr>)"
    "plain_link c1" "sent c1 = isotp_sent s @ [hd (isotp_frames 8 dat)]"
    using isotp_send_first [OF assms(1,4)] by blast
  obtain r' where r': "rx_run (isotp_frames 8 dat) r = (Inr (), r')" "rx_dat r' = dat" "rx_done r'"
    using rx_run_frames [OF assms(2-4)] by blast
  let ?s1 = "(reset_message dat s)\<lparr>can_client := c1, tx_done := (length dat < 8)\<rparr>"
  show ?thesis
  proof (cases "length dat < 8")
    case True
    then have "isotp_frames 8 dat = [hd (isotp_frames 8 dat)]" by (simp add: isotp_frames_def)
    with True s1 r' show ?thesis
      by (intro exI [of _ ?s1] exI [of _ r'] exI [of _ "isotp_frames 8 dat"]) auto
  next
    case False
    have "isotp_link ?s1" using assms(1) s1(2) by (simp add: isotp_link_def reset_message_def)
    then obtain c2 where s2: "isotp_rx_next (0x30 # 0 # st # fc) ?s1 =
        (Inr FLOW, ?s1\<lparr>tx_idx := int (cf_count 8 (length dat)), can_client := c2, tx_done := True\<rparr>)"
      "sent c2 = isotp_sent ?s1 @ tl (isotp_frames 8 dat)"
      using rx_flow_all [of ?s1 dat st fc] False by (auto simp: reset_message_def)
    have "isotp_frames 8 dat \<noteq> []" by (simp add: isotp_frames_def)
    then have "sent c2 = isotp_sent s @ isotp_frames 8 dat" using s2(2) s1(3) by simp
    with False s1(1) s2(1) r' show ?thesis
      by (intro exI [of _ ?s1] exI [of _ "?s1\<lparr>tx_idx := int (cf_count 8 (length dat)), can_client := c2, tx_done := True\<rparr>"]
          exI [of _ r'] exI [of _ "isotp_frames 8 dat"]) simp
  qed
qed

text \<open>the receive loop returns. Whatever frames the panda delivers and whatever the timeout,
with a clock that advances there is a number of turns after which \<^verbatim>\<open>recv\<close> has returned a
response, returned nothing, or raised.\<close>

theorem isotp_recv_returns:
  assumes "clock_advances (clock (panda (can_client s)))"
  shows "\<exists>n. \<forall>fuel\<ge>n. fst (isotp_recv fuel tmo s) \<noteq> Inl OutOfFuel"
proof -
  obtain t s1 where now: "isotp_now s = (Inr t, s1)"
    and clk: "clock (panda (can_client s1)) = clock (panda (can_client s))"
    by (simp add: isotp_now_run)
  have "clock_advances (clock (panda (can_client s1)))" using assms clk by simp
  from isotp_recv_loop_returns [OF this] show ?thesis
    by (simp add: isotp_recv_def sbind_run [where m = isotp_now, OF now])
qed

text \<open>the response is bounded. After \<^verbatim>\<open>send\<close> has reset the message, no sequence of received
frames, valid or not, makes the buffer exceed 4095 bytes, and while the message is incomplete
it never holds more bytes than the first frame announced.\<close>

theorem isotp_rx_bounded:
  fixes dat :: bytes
  shows "let s' = fold rx_step fs (reset_message dat s)
     in length (rx_dat s') \<le> 4095 \<and> (rx_done s' \<or> int (length (rx_dat s')) \<le> rx_len s')"
proof -
  have "rx_inv (reset_message dat s)" by (simp add: rx_inv_def reset_message_def)
  then have "rx_inv (fold rx_step fs (reset_message dat s))" by (rule rx.run_inv)
  then show ?thesis by (auto simp: rx_inv_def Let_def)
qed

text \<open>stale frames survive \<^verbatim>\<open>send\<close>. The call that should drain the receive buffer only creates
a generator, so the buffered frames and the frames waiting in the panda are the same after the
request as before, and the next \<^verbatim>\<open>recv\<close> reads them as its response.\<close>

theorem isotp_send_does_not_drain:
  assumes "isotp_send dat setup_only s = (r, s')"
  shows "rx_buff (can_client s') = rx_buff (can_client s) \<and>
    rx_script (panda (can_client s')) = rx_script (panda (can_client s))"
proof -
  have one: "rx_buff c' = rx_buff c \<and> rx_script (panda c') = rx_script (panda c)"
    if "CanClient_send [m] c = (r', c')" for m c c' and r' :: "unit result"
    using that by (auto simp: CanClient_send_def Let_def split: sum.splits if_splits)
  have "rx_buff (can_client s2) = rx_buff (can_client s1) \<and>
      rx_script (panda (can_client s2)) = rx_script (panda (can_client s1))"
    if "on_client (CanClient_send [m]) s1 = (r', s2)" for m s1 s2 and r' :: "unit result"
  proof -
    obtain r1 c1 where c: "CanClient_send [m] (can_client s1) = (r1, c1)" by fastforce
    with that one [OF c] show ?thesis by (auto simp: on_client_def on_part_def)
  qed
  note two = this
  show ?thesis
    using assms two
    by (auto simp: isotp_send_def tx_first_frame_def Let_def reset_message_def
        split: sum.splits if_splits)
qed

text \<open>a stray consecutive frame completes a response. Right after a request, before any first
frame, a consecutive frame with sequence number 1 is not rejected: it marks an empty response
as complete.\<close>

theorem isotp_stray_consecutive:
  "isotp_rx_next (0x21 # payload) (reset_message dat s) =
     (Inr CONSECUTIVE, (reset_message dat s)\<lparr>rx_idx := 1, rx_done := True\<rparr>)"
  using py_slice_of_nat [of "0x21 # payload" 1 1]
  by (simp add: isotp_rx_next_def drop_bit_4 rx_consecutive_def reset_message_def Let_def)

text \<open>a flow control frame with a block size \<open>bs > 0\<close> always triggers \<open>bs\<close> consecutive frames,
also when fewer are left of the message: the surplus frames carry padding only.\<close>

theorem isotp_block_size_frames:
  assumes "isotp_link s" "\<not> tx_done s" "0 < uint bs"
  shows "\<exists>s' fs. isotp_rx_next (0x30 # bs # st # fc) s = (Inr FLOW, s') \<and>
     isotp_sent s' = isotp_sent s @ fs \<and> int (length fs) = uint bs"
proof -
  let ?start = "int (max_len s) - 2 + tx_idx s * (int (max_len s) - 1)"
  let ?is = "py_range ?start (?start + uint bs * (int (max_len s) - 1)) (int (max_len s) - 1)"
  let ?fs = "consecutive_frames (max_len s) (tx_dat s) (tx_idx s) ?is"
  have 8: "max_len s = 8" using assms(1) by (simp add: isotp_link_def)
  have lis: "int (length ?is) = uint bs" using assms(3) by (simp add: py_range_def 8)
  have "\<forall>m\<in>set ?fs. length m \<le> 8"
    by (auto simp: consecutive_frames_def consecutive_frame_def 8 py_slice_def Let_def slice_bound_def)
  then obtain c' where c':
    "on_client (CanClient_send ?fs) (s\<lparr>tx_idx := tx_idx s + uint bs\<rparr>) =
       (Inr (), s\<lparr>tx_idx := tx_idx s + uint bs, can_client := c'\<rparr>)"
    "sent c' = isotp_sent s @ ?fs"
    using on_client_send [of "s\<lparr>tx_idx := tx_idx s + uint bs\<rparr>" ?fs] assms(1) by auto
  have "isotp_rx_next (0x30 # bs # st # fc) s = rx_flow (0x30 # bs # st # fc) 0x30 s"
    by (simp add: isotp_rx_next_def drop_bit_4)
  also have "\<dots> = (Inr FLOW, (\<lambda>s2. if tx_len s2 \<le> ?start + uint bs * (int (max_len s) - 1)
      then s2\<lparr>tx_done := True\<rparr> else s2) (s\<lparr>tx_idx := tx_idx s + uint bs, can_client := c'\<rparr>))"
    using assms(2,3) c'(1) lis by (simp add: rx_flow_def Let_def sbind_def)
  finally show ?thesis
    using c'(2) lis by (auto simp: consecutive_frames_def)
qed

text \<open>messages of 4096 to 8191 bytes are sent with a wrong header: the 12 bits of length wrap,
so the first frame announces 4096 bytes less than the message has.\<close>

theorem isotp_long_message_header:
  assumes "isotp_link s" "4096 \<le> length dat" "length dat < 8192"
  shows "\<exists>s'. isotp_send dat False s = (Inr (), s') \<and>
     isotp_sent s' = isotp_sent s @ [be_bytes 2 (0x1000 + int (length dat - 4096)) @ take 6 dat]"
proof -
  let ?s = "reset_message dat s" and ?m = "be_bytes 2 (int (length dat)) @ take 6 dat"
  have or: "(0x1000::int) OR int (length dat) = int (length dat)"
    using assms(2,3) by (intro or_0x1000_above) simp_all
  have len: "length ?m = 8" using assms(2) by simp
  obtain c' where c': "on_client (CanClient_send [?m]) ?s = (Inr (), ?s\<lparr>can_client := c'\<rparr>)"
    "sent c' = isotp_sent s @ [?m]"
    using on_client_send [of ?s "[?m]"] assms(1) len by (auto simp: reset_message_def)
  have "isotp_send dat False s = (Inr (), ?s\<lparr>can_client := c'\<rparr>)"
    using assms c'(1) len or
    by (simp add: isotp_send_def tx_first_frame_def Let_def reset_message_def pack_be_def isotp_link_def)
  moreover have "0x1000 + int (length dat - 4096) = int (length dat)" using assms(2) by simp
  ultimately show ?thesis
    using c'(2) by (intro exI [of _ "?s\<lparr>can_client := c'\<rparr>"]) simp
qed

section \<open>Witnesses\<close>

text \<open>A client with nothing to receive, and one with a stale frame in its buffer.\<close>

definition idle_panda :: panda where
  "idle_panda = \<lparr>rx_script = [], tx_log = [], cleared = [], clock = of_nat, ticks = 0\<rparr>"

definition idle_client :: can_client where
  "idle_client = CanClient_init idle_panda 0x7E0 (Some 0x7E8) 0 None None"

definition idle_isotp :: isotp where
  "idle_isotp =
    \<lparr>can_client = idle_client, timeout = 1, single_frame_mode = False, max_len = 8,
     flow_control_msg = [0x30, 0, 0, 0, 0, 0, 0, 0],
     tx_dat = [], tx_len = 0, tx_idx = 0, tx_done = False,
     rx_dat = [], rx_len = 0, rx_idx = 0, rx_done = False\<rparr>"

lemma idle_simps [simp]:
  "plain_link idle_client" "isotp_link idle_isotp" "rx_dat idle_isotp = []"
  "clock_advances (clock (panda idle_client))"
  "can_client idle_isotp = idle_client"
  "sent idle_client = []" "\<not> tx_done idle_isotp" "sub_addr idle_client = None"
  by (simp_all add: idle_isotp_def idle_client_def idle_panda_def CanClient_init_def isotp_link_def
      plain_link_def sent_def clock_advances_of_nat)

lemma IsoTpMessage_init_idle: "IsoTpMessage_init idle_client 1 False 0 = Inr idle_isotp"
proof -
  have "separation_time_byte 0 = Inr 0" by code_simp
  then show ?thesis
    by (simp add: IsoTpMessage_init_def idle_isotp_def idle_client_def CanClient_init_def ljust_def
        eval_nat_numeral)
qed

definition sample_message :: bytes where
  "sample_message = map word_of_int [0..19]"

lemma isotp_end_to_end_witness:
  "length sample_message = 20 \<and> (\<exists>s1 s2 r' fs.
     isotp_send sample_message False idle_isotp = (Inr (), s1) \<and>
     isotp_rx_next [0x30, 0, 0] s1 = (Inr FLOW, s2) \<and>
     tx_done s2 \<and> isotp_sent s2 = fs \<and>
     rx_run fs idle_isotp = (Inr (), r') \<and> rx_done r' \<and> rx_dat r' = sample_message)"
proof -
  have len: "length sample_message = 20" by (simp add: sample_message_def)
  then show ?thesis
    using isotp_end_to_end [of idle_isotp idle_isotp sample_message 0 "[]"] by simp
qed

lemma isotp_recv_returns_witness:
  "\<exists>n. \<forall>fuel\<ge>n. fst (isotp_recv fuel None idle_isotp) \<noteq> Inl OutOfFuel"
  by (rule isotp_recv_returns) simp

lemma isotp_send_does_not_drain_witness:
  "\<exists>s'. isotp_send [0x3E] False (idle_isotp\<lparr>can_client := idle_client\<lparr>rx_buff := [[1]]\<rparr>\<rparr>) = (Inr (), s') \<and>
     rx_buff (can_client s') = [[1]]"
proof -
  let ?s = "idle_isotp\<lparr>can_client := idle_client\<lparr>rx_buff := [[1]]\<rparr>\<rparr>"
  have "isotp_link ?s" by (rule isotp_link_client) simp_all
  then obtain s' where s': "isotp_send [0x3E] False ?s = (Inr (), s')"
    using isotp_send_first [of ?s "[0x3E]"] by auto
  from isotp_send_does_not_drain [OF this] s' show ?thesis by simp
qed

lemma isotp_block_size_frames_witness:
  "\<exists>s' fs. isotp_rx_next [0x30, 8, 0] idle_isotp = (Inr FLOW, s') \<and>
     isotp_sent s' = fs \<and> int (length fs) = 8"
  using isotp_block_size_frames [of idle_isotp 8 0 "[]"] by simp

lemma isotp_long_message_header_witness:
  "\<exists>s'. isotp_send (replicate 4097 0) False idle_isotp = (Inr (), s') \<and>
     isotp_sent s' = [[0x10, 1, 0, 0, 0, 0, 0, 0]]"
proof -
  have "take 6 (replicate 4097 0) = replicate 6 (0::byte)" by (simp add: take_replicate)
  also have "\<dots> = [0, 0, 0, 0, 0, 0]" by (simp add: numeral_eq_Suc)
  finally have t: "take 6 (replicate 4097 0) = [0, 0, 0, 0, 0, (0::byte)]" .
  have "be_bytes 2 (0x1000 + int (4097 - 4096)) = [0x10, 1]"
    by (simp add: be_bytes_2)
  with t show ?thesis
    using isotp_long_message_header [of idle_isotp "replicate 4097 0"] by simp
qed

end
