(* ===== verification/UdsClient.thy ===== *)
theory UdsClient
  imports IsoTp
begin

text \<open>
  \<^verbatim>\<open>class UdsClient\<close> of \<^verbatim>\<open>opendbc/car/uds.py\<close>: the generic request with its treatment of
  negative and pending responses, and the diagnostic services built on it. Every method of the
  class is a method of the model over the client's state; \<open>fuel\<close> bounds the turns of the two
  nested receive loops. Arguments typed as an \<^verbatim>\<open>IntEnum\<close> are integers, as they are in Python.
\<close>

section \<open>State\<close>

record uds_client =
  uds_can :: can_client
  uds_timeout :: rat
  response_pending_timeout :: rat

text \<open>The constructor; the send timeout is passed to the panda and has no effect in the model.\<close>

definition UdsClient_init ::
    "panda \<Rightarrow> int \<Rightarrow> int option \<Rightarrow> int \<Rightarrow> int option \<Rightarrow> int option \<Rightarrow> rat \<Rightarrow> rat \<Rightarrow> uds_client result" where
  "UdsClient_init p txa rxa b sub rx_sub tmo rp_tmo =
    ebind (case rxa of Some a \<Rightarrow> Inr (Some a) | None \<Rightarrow> get_rx_addr_for_tx_addr txa 8) (\<lambda>rxa'.
      Inr \<lparr>uds_can = CanClient_init p txa rxa' b sub rx_sub, uds_timeout = tmo,
           response_pending_timeout = rp_tmo\<rparr>)"

section \<open>The generic request\<close>

definition opt_byte_at :: "bytes \<Rightarrow> nat \<Rightarrow> int option" where
  "opt_byte_at xs i = (if i < length xs then Some (uint (xs ! i)) else None)"

definition service_desc :: "int \<Rightarrow> string" where
  "service_desc n =
    (case enum_lookup SERVICE_TYPE_value SERVICE_TYPE_members n of
       Inl _ \<Rightarrow> ''NON_STANDARD_SERVICE'' | Inr m \<Rightarrow> SERVICE_TYPE_name m)"

definition error_desc :: "bytes \<Rightarrow> int \<Rightarrow> string" where
  "error_desc resp code =
    (case map_of negative_response_codes code of
       Some d \<Rightarrow> d | None \<Rightarrow> hex_bytes (drop 3 resp))"

text \<open>
  What one complete response means: \<open>Inr None\<close> to wait for another one (response pending),
  \<open>Inr (Some d)\<close> for a positive response with data \<open>d\<close>, \<open>Inl\<close> for an exception.
\<close>

definition check_response :: "int \<Rightarrow> int option \<Rightarrow> bytes \<Rightarrow> bytes option result" where
  "check_response service_type subfunction resp =
    (let resp_sid = opt_byte_at resp 0
     in if resp_sid = Some 0x7F
        then (let service_id = (case opt_byte_at resp 1 of None \<Rightarrow> - 1 | Some n \<Rightarrow> n);
                  error_code = (case opt_byte_at resp 2 of None \<Rightarrow> - 1 | Some n \<Rightarrow> n)
              in if error_code = 0x78 then Inr None
                 else Inl (NegativeResponseError
                        (service_desc service_id @ '' - '' @ error_desc resp error_code)
                        service_id error_code))
        else if resp_sid \<noteq> Some (service_type + 0x40) then Inl InvalidServiceIdError
        else (case subfunction of
                None \<Rightarrow> Inr (Some (drop 1 resp))
              | Some sf \<Rightarrow>
                  (if opt_byte_at resp 1 \<noteq> Some sf then Inl InvalidSubFunctionError
                   else Inr (Some (drop 2 resp)))))"

definition request_bytes :: "int \<Rightarrow> int option \<Rightarrow> bytes option \<Rightarrow> bytes result" where
  "request_bytes service_type subfunction data =
    ebind (py_bytes [service_type]) (\<lambda>sid.
    ebind (case subfunction of None \<Rightarrow> Inr [] | Some sf \<Rightarrow> py_bytes [sf]) (\<lambda>sfn.
    Inr (sid @ sfn @ (case data of None \<Rightarrow> [] | Some d \<Rightarrow> d))))"

fun response_loop ::
    "nat \<Rightarrow> nat \<Rightarrow> rat \<Rightarrow> rat \<Rightarrow> int \<Rightarrow> int option \<Rightarrow> bool \<Rightarrow> (isotp, bytes) meth" where
  "response_loop 0 fuel tmo rp_tmo st sf pending_response = sraise OutOfFuel"
| "response_loop (Suc n) fuel tmo rp_tmo st sf pending_response =
    sbind (isotp_recv fuel (Some (if pending_response then rp_tmo else tmo))) (\<lambda>(resp, _).
      case resp of
        None \<Rightarrow> response_loop n fuel tmo rp_tmo st sf pending_response
      | Some r \<Rightarrow>
          sbind (slift (check_response st sf r)) (\<lambda>d.
            case d of
              None \<Rightarrow> response_loop n fuel tmo rp_tmo st sf True
            | Some payload \<Rightarrow> sret payload))"

text \<open>A method of the message object, run in the client that owns the connection.\<close>

definition with_message :: "isotp \<Rightarrow> (isotp, 'a) meth \<Rightarrow> (uds_client, 'a) meth" where
  "with_message m0 act u =
    (let (r, m) = act m0 in (r, u\<lparr>uds_can := can_client m\<rparr>))"

definition uds_request ::
    "nat \<Rightarrow> int \<Rightarrow> int option \<Rightarrow> bytes option \<Rightarrow> (uds_client, bytes) meth" where
  "uds_request fuel service_type subfunction data u =
    (case request_bytes service_type subfunction data of
       Inl e \<Rightarrow> (Inl e, u)
     | Inr req \<Rightarrow>
         (case IsoTpMessage_init (uds_can u) (uds_timeout u) False 0 of
            Inl e \<Rightarrow> (Inl e, u)
          | Inr m0 \<Rightarrow>
              with_message m0
                (sbind (isotp_send req False)
                  (\<lambda>_. response_loop fuel fuel (uds_timeout u) (response_pending_timeout u)
                         service_type subfunction False)) u))"

section \<open>Parts the services share\<close>

text \<open>
  The response identifier check. When the response is too short, the error message calls
  \<^verbatim>\<open>hex(None)\<close>, which raises \<^verbatim>\<open>TypeError\<close> in place of the \<^verbatim>\<open>ValueError\<close>.
\<close>

definition check_resp_id :: "int \<Rightarrow> bytes \<Rightarrow> bytes result" where
  "check_resp_id expected resp =
    (if 2 \<le> length resp
     then (if be_int (take 2 resp) \<noteq> expected then Inl ValueError else Inr (drop 2 resp))
     else Inl TypeError)"

text \<open>The format byte, the address and the nbytes, with their checks in the order of the code.\<close>

definition check_memory_bytes :: "int \<Rightarrow> int \<Rightarrow> unit result" where
  "check_memory_bytes addr_bytes size_bytes =
    ebind (ensure (\<not> (addr_bytes < 1 \<or> 4 < addr_bytes)) ValueError) (\<lambda>_.
    ensure (\<not> (size_bytes < 1 \<or> 4 < size_bytes)) ValueError)"

definition memory_field :: "int \<Rightarrow> int \<Rightarrow> bytes result" where
  "memory_field value n =
    ebind (ensure (\<not> push_bit (nat (n * 8)) 1 \<le> value) ValueError) (\<lambda>_.
    ebind (pack_be 4 value) (\<lambda>b. Inr (drop (nat (4 - n)) b)))"

definition memory_data :: "int \<Rightarrow> int \<Rightarrow> int \<Rightarrow> int \<Rightarrow> bytes result" where
  "memory_data address nbytes addr_bytes size_bytes =
    ebind (py_bytes [push_bit 4 size_bytes OR addr_bytes]) (\<lambda>f.
    ebind (memory_field address addr_bytes) (\<lambda>a.
    ebind (memory_field nbytes size_bytes) (\<lambda>s. Inr (f @ a @ s))))"

abbreviation ask ::
    "nat \<Rightarrow> SERVICE_TYPE \<Rightarrow> int option \<Rightarrow> bytes option \<Rightarrow> (uds_client, bytes) meth" where
  "ask fuel svc sf data \<equiv> uds_request fuel (SERVICE_TYPE_value svc) sf data"

abbreviation ask_ignore ::
    "nat \<Rightarrow> SERVICE_TYPE \<Rightarrow> int option \<Rightarrow> bytes option \<Rightarrow> (uds_client, unit) meth" where
  "ask_ignore fuel svc sf data \<equiv> sbind (ask fuel svc sf data) (\<lambda>_. sret ())"

section \<open>Session, reset and access services\<close>

definition diagnostic_session_control :: "nat \<Rightarrow> int \<Rightarrow> (uds_client, unit) meth" where
  "diagnostic_session_control fuel session_type =
    ask_ignore fuel DIAGNOSTIC_SESSION_CONTROL (Some session_type) None"

definition ecu_reset :: "nat \<Rightarrow> int \<Rightarrow> (uds_client, int option) meth" where
  "ecu_reset fuel reset_type =
    sbind (ask fuel ECU_RESET (Some reset_type) None) (\<lambda>resp.
      if reset_type = RESET_TYPE_value ENABLE_RAPID_POWER_SHUTDOWN
      then slift (ebind (byte_at resp 0) (\<lambda>t. Inr (Some t)))
      else sret None)"

definition security_access :: "nat \<Rightarrow> int \<Rightarrow> bytes \<Rightarrow> bytes \<Rightarrow> (uds_client, bytes option) meth" where
  "security_access fuel access_type security_key data_record =
    (let request_seed = access_type mod 2 \<noteq> 0
     in if request_seed \<and> length security_key \<noteq> 0 then sraise ValueError
        else if \<not> request_seed \<and> length security_key = 0 then sraise ValueError
        else if \<not> request_seed \<and> length data_record \<noteq> 0 then sraise ValueError
        else sbind (ask fuel SECURITY_ACCESS (Some access_type) (Some (security_key @ data_record)))
               (\<lambda>resp. sret (if request_seed then Some resp else None)))"

definition communication_control :: "nat \<Rightarrow> int \<Rightarrow> int \<Rightarrow> (uds_client, unit) meth" where
  "communication_control fuel control_type message_type =
    sbind (slift (py_bytes [message_type])) (\<lambda>data.
      ask_ignore fuel COMMUNICATION_CONTROL (Some control_type) (Some data))"

definition tester_present :: "nat \<Rightarrow> (uds_client, unit) meth" where
  "tester_present fuel = ask_ignore fuel TESTER_PRESENT (Some 0) None"

definition access_timing_parameter ::
    "nat \<Rightarrow> int \<Rightarrow> bytes option \<Rightarrow> (uds_client, bytes option) meth" where
  "access_timing_parameter fuel ty parameter_values =
    (let write_custom_values = (ty = TIMING_PARAMETER_TYPE_value SET_TO_GIVEN_VALUES);
         read_values = (ty = TIMING_PARAMETER_TYPE_value READ_CURRENTLY_ACTIVE \<or>
                        ty = TIMING_PARAMETER_TYPE_value READ_EXTENDED_SET)
     in if \<not> write_custom_values \<and> parameter_values \<noteq> None then sraise ValueError
        else if write_custom_values \<and> parameter_values = None then sraise ValueError
        else sbind (ask fuel ACCESS_TIMING_PARAMETER (Some ty) parameter_values)
               (\<lambda>resp. sret (if read_values then Some resp else None)))"

definition secured_data_transmission :: "nat \<Rightarrow> bytes \<Rightarrow> (uds_client, bytes) meth" where
  "secured_data_transmission fuel data = ask fuel SECURED_DATA_TRANSMISSION None (Some data)"

definition control_dtc_setting :: "nat \<Rightarrow> int \<Rightarrow> (uds_client, unit) meth" where
  "control_dtc_setting fuel dtc_setting_type =
    ask_ignore fuel CONTROL_DTC_SETTING (Some dtc_setting_type) None"

text \<open>The two dictionaries that \<^verbatim>\<open>response_on_event\<close> returns.\<close>

datatype event_response =
    ActivatedEvents int bytes
  | IdentifiedEvents int int bytes

definition response_on_event ::
    "nat \<Rightarrow> int \<Rightarrow> bool \<Rightarrow> int \<Rightarrow> int \<Rightarrow> int \<Rightarrow> (uds_client, event_response) meth" where
  "response_on_event fuel ty0 store_event window_time event_type_record service_response_record =
    (let ty = (if store_event then ty0 OR 0x20 else ty0)
     in sbind (slift (py_bytes [window_time, event_type_record, service_response_record])) (\<lambda>data.
        sbind (ask fuel RESPONSE_ON_EVENT (Some ty) (Some data)) (\<lambda>resp.
        slift
         (if ty = RESPONSE_EVENT_TYPE_value REPORT_ACTIVATED_EVENTS
          then ebind (byte_at resp 0) (\<lambda>n. Inr (ActivatedEvents n (drop 1 resp)))
          else ebind (byte_at resp 0) (\<lambda>n. ebind (byte_at resp 1) (\<lambda>w.
                 Inr (IdentifiedEvents n w (drop 2 resp))))))))"

definition link_control :: "nat \<Rightarrow> int \<Rightarrow> int option \<Rightarrow> (uds_client, unit) meth" where
  "link_control fuel ty baud_rate_type =
    sbind
     (slift
      (if ty = LINK_CONTROL_TYPE_value VERIFY_BAUDRATE_TRANSITION_WITH_FIXED_BAUDRATE
       then (case baud_rate_type of
               None \<Rightarrow> Inl TypeError | Some b \<Rightarrow> ebind (py_bytes [b]) (\<lambda>d. Inr (Some d)))
       else if ty = LINK_CONTROL_TYPE_value VERIFY_BAUDRATE_TRANSITION_WITH_SPECIFIC_BAUDRATE
       then (case baud_rate_type of
               None \<Rightarrow> Inl StructError | Some b \<Rightarrow> ebind (pack_be 4 b) (\<lambda>d. Inr (Some (drop 1 d))))
       else Inr None))
     (\<lambda>data. ask_ignore fuel LINK_CONTROL (Some ty) data)"

section \<open>Data services\<close>

definition read_data_by_identifier :: "nat \<Rightarrow> int \<Rightarrow> (uds_client, bytes) meth" where
  "read_data_by_identifier fuel data_id =
    sbind (slift (pack_be 2 data_id)) (\<lambda>data.
    sbind (ask fuel READ_DATA_BY_IDENTIFIER None (Some data)) (\<lambda>resp.
    slift (check_resp_id data_id resp)))"

definition read_memory_by_address ::
    "nat \<Rightarrow> int \<Rightarrow> int \<Rightarrow> int \<Rightarrow> int \<Rightarrow> (uds_client, bytes) meth" where
  "read_memory_by_address fuel address nbytes addr_bytes size_bytes =
    sbind (slift (check_memory_bytes addr_bytes size_bytes)) (\<lambda>_.
    sbind (slift (memory_data address nbytes addr_bytes size_bytes)) (\<lambda>data.
    ask fuel READ_MEMORY_BY_ADDRESS None (Some data)))"

definition read_scaling_data_by_identifier :: "nat \<Rightarrow> int \<Rightarrow> (uds_client, bytes) meth" where
  "read_scaling_data_by_identifier fuel data_id =
    sbind (slift (pack_be 2 data_id)) (\<lambda>data.
    sbind (ask fuel READ_SCALING_DATA_BY_IDENTIFIER None (Some data)) (\<lambda>resp.
    slift (check_resp_id data_id resp)))"

definition read_data_by_periodic_identifier :: "nat \<Rightarrow> int \<Rightarrow> int \<Rightarrow> (uds_client, unit) meth" where
  "read_data_by_periodic_identifier fuel transmission_mode_type periodic_data_identifier =
    sbind (slift (py_bytes [transmission_mode_type, periodic_data_identifier])) (\<lambda>data.
    ask_ignore fuel READ_DATA_BY_PERIODIC_IDENTIFIER None (Some data))"

fun define_by_identifier :: "DynamicSourceDefinition list \<Rightarrow> bytes result" where
  "define_by_identifier [] = Inr []"
| "define_by_identifier (s # ss) =
    ebind (pack_be 2 (data_identifier s)) (\<lambda>d.
    ebind (py_bytes [position s, memory_size s]) (\<lambda>p.
    ebind (define_by_identifier ss) (\<lambda>r. Inr (d @ p @ r))))"

fun define_by_memory_address :: "int \<Rightarrow> int \<Rightarrow> DynamicSourceDefinition list \<Rightarrow> bytes result" where
  "define_by_memory_address ab sb [] = Inr []"
| "define_by_memory_address ab sb (s # ss) =
    ebind (memory_field (memory_address s) ab) (\<lambda>a.
    ebind (memory_field (memory_size s) sb) (\<lambda>m.
    ebind (define_by_memory_address ab sb ss) (\<lambda>r. Inr (a @ m @ r))))"

definition dynamically_define_data_identifier ::
    "nat \<Rightarrow> int \<Rightarrow> int \<Rightarrow> DynamicSourceDefinition list \<Rightarrow> int \<Rightarrow> int \<Rightarrow> (uds_client, unit) meth" where
  "dynamically_define_data_identifier fuel ty dyn_id sources addr_bytes size_bytes =
    sbind (slift (check_memory_bytes addr_bytes size_bytes)) (\<lambda>_.
    sbind (slift (pack_be 2 dyn_id)) (\<lambda>d.
    sbind
     (slift
      (if ty = DYNAMIC_DEFINITION_TYPE_value DEFINE_BY_IDENTIFIER
       then ebind (define_by_identifier sources) (\<lambda>s. Inr (d @ s))
       else if ty = DYNAMIC_DEFINITION_TYPE_value DEFINE_BY_MEMORY_ADDRESS
       then ebind (py_bytes [push_bit 4 size_bytes OR addr_bytes]) (\<lambda>f.
            ebind (define_by_memory_address addr_bytes size_bytes sources) (\<lambda>s. Inr (d @ f @ s)))
       else if ty = DYNAMIC_DEFINITION_TYPE_value CLEAR_DYNAMICALLY_DEFINED_DATA_IDENTIFIER
       then Inr d
       else Inl ValueError))
     (\<lambda>data. ask_ignore fuel DYNAMICALLY_DEFINE_DATA_IDENTIFIER (Some ty) (Some data))))"

definition write_data_by_identifier :: "nat \<Rightarrow> int \<Rightarrow> bytes \<Rightarrow> (uds_client, unit) meth" where
  "write_data_by_identifier fuel data_id data_record =
    sbind (slift (pack_be 2 data_id)) (\<lambda>d.
    sbind (ask fuel WRITE_DATA_BY_IDENTIFIER None (Some (d @ data_record))) (\<lambda>resp.
    slift (ebind (check_resp_id data_id resp) (\<lambda>_. Inr ()))))"

definition write_memory_by_address ::
    "nat \<Rightarrow> int \<Rightarrow> int \<Rightarrow> bytes \<Rightarrow> int \<Rightarrow> int \<Rightarrow> (uds_client, unit) meth" where
  "write_memory_by_address fuel address nbytes data_record addr_bytes size_bytes =
    sbind (slift (check_memory_bytes addr_bytes size_bytes)) (\<lambda>_.
    sbind (slift (memory_data address nbytes addr_bytes size_bytes)) (\<lambda>data.
    ask_ignore fuel WRITE_MEMORY_BY_ADDRESS None (Some (data @ data_record))))"

section \<open>Trouble codes, input and output, routines\<close>

definition clear_diagnostic_information :: "nat \<Rightarrow> int \<Rightarrow> (uds_client, unit) meth" where
  "clear_diagnostic_information fuel dtc_group_type =
    sbind (slift (pack_be 4 dtc_group_type)) (\<lambda>d.
    ask_ignore fuel CLEAR_DIAGNOSTIC_INFORMATION None (Some (drop 1 d)))"

definition has_report_type :: "int \<Rightarrow> DTC_REPORT_TYPE list \<Rightarrow> bool" where
  "has_report_type ty ts = (ty \<in> set (map DTC_REPORT_TYPE_value ts))"

definition dtc_information_data :: "int \<Rightarrow> int \<Rightarrow> int \<Rightarrow> int \<Rightarrow> int \<Rightarrow> int \<Rightarrow> bytes result" where
  "dtc_information_data ty status_mask severity_mask mask_record snapshot_num extended_num =
    ebind (if has_report_type ty [NUMBER_OF_DTC_BY_STATUS_MASK, DTC_BY_STATUS_MASK,
              MIRROR_MEMORY_DTC_BY_STATUS_MASK, NUMBER_OF_MIRROR_MEMORY_DTC_BY_STATUS_MASK,
              NUMBER_OF_EMISSIONS_RELATED_OBD_DTC_BY_STATUS_MASK,
              EMISSIONS_RELATED_OBD_DTC_BY_STATUS_MASK]
           then py_bytes [status_mask] else Inr []) (\<lambda>d1.
    ebind (if has_report_type ty [DTC_SNAPSHOT_IDENTIFICATION, DTC_SNAPSHOT_RECORD_BY_DTC_NUMBER,
              DTC_EXTENDED_DATA_RECORD_BY_DTC_NUMBER,
              MIRROR_MEMORY_DTC_EXTENDED_DATA_RECORD_BY_DTC_NUMBER, SEVERITY_INFORMATION_OF_DTC]
           then ebind (pack_be 4 mask_record) (\<lambda>m. Inr (drop 1 m)) else Inr []) (\<lambda>d2.
    ebind (if has_report_type ty [DTC_SNAPSHOT_IDENTIFICATION, DTC_SNAPSHOT_RECORD_BY_DTC_NUMBER,
              DTC_SNAPSHOT_RECORD_BY_RECORD_NUMBER]
           then py_bytes [snapshot_num] else Inr []) (\<lambda>d3.
    ebind (if has_report_type ty [DTC_EXTENDED_DATA_RECORD_BY_DTC_NUMBER,
              MIRROR_MEMORY_DTC_EXTENDED_DATA_RECORD_BY_DTC_NUMBER]
           then py_bytes [extended_num] else Inr []) (\<lambda>d4.
    ebind (if has_report_type ty [NUMBER_OF_DTC_BY_SEVERITY_MASK_RECORD, DTC_BY_SEVERITY_MASK_RECORD]
           then py_bytes [severity_mask, status_mask] else Inr []) (\<lambda>d5.
    Inr (d1 @ d2 @ d3 @ d4 @ d5))))))"

definition read_dtc_information ::
    "nat \<Rightarrow> int \<Rightarrow> int \<Rightarrow> int \<Rightarrow> int \<Rightarrow> int \<Rightarrow> int \<Rightarrow> (uds_client, bytes) meth" where
  "read_dtc_information fuel ty status_mask severity_mask mask_record snapshot_num extended_num =
    sbind (slift (dtc_information_data ty status_mask severity_mask mask_record snapshot_num extended_num))
      (\<lambda>data. ask fuel READ_DTC_INFORMATION (Some ty) (Some data))"

definition input_output_control_by_identifier ::
    "nat \<Rightarrow> int \<Rightarrow> int \<Rightarrow> bytes \<Rightarrow> bytes \<Rightarrow> (uds_client, bytes) meth" where
  "input_output_control_by_identifier fuel data_id control_parameter_type option_record mask_record =
    sbind (slift (pack_be 2 data_id)) (\<lambda>d.
    sbind (slift (py_bytes [control_parameter_type])) (\<lambda>p.
    sbind (ask fuel INPUT_OUTPUT_CONTROL_BY_IDENTIFIER None (Some (d @ p @ option_record @ mask_record)))
      (\<lambda>resp. slift (check_resp_id data_id resp))))"

definition routine_control :: "nat \<Rightarrow> int \<Rightarrow> int \<Rightarrow> bytes \<Rightarrow> (uds_client, bytes) meth" where
  "routine_control fuel routine_control_type routine_id option_record =
    sbind (slift (pack_be 2 routine_id)) (\<lambda>d.
    sbind (ask fuel ROUTINE_CONTROL (Some routine_control_type) (Some (d @ option_record))) (\<lambda>resp.
    slift (check_resp_id routine_id resp)))"

section \<open>Transfer services\<close>

definition parse_max_num_bytes :: "bytes \<Rightarrow> int result" where
  "parse_max_num_bytes resp =
    (let n = (if 0 < length resp then drop_bit 4 (uint (resp ! 0)) else 0)
     in if 1 \<le> n \<and> n \<le> 4
        then unpack_be 4 (replicate (nat (4 - n)) 0 @ py_slice resp 1 (n + 1))
        else Inl ValueError)"

definition request_transfer ::
    "nat \<Rightarrow> SERVICE_TYPE \<Rightarrow> int \<Rightarrow> int \<Rightarrow> int \<Rightarrow> int \<Rightarrow> int \<Rightarrow> (uds_client, int) meth" where
  "request_transfer fuel svc address nbytes addr_bytes size_bytes data_format =
    sbind (slift (py_bytes [data_format])) (\<lambda>fmt.
    sbind (slift (check_memory_bytes addr_bytes size_bytes)) (\<lambda>_.
    sbind (slift (memory_data address nbytes addr_bytes size_bytes)) (\<lambda>data.
    sbind (ask fuel svc None (Some (fmt @ data))) (\<lambda>resp.
    slift (parse_max_num_bytes resp)))))"

definition request_download :: "nat \<Rightarrow> int \<Rightarrow> int \<Rightarrow> int \<Rightarrow> int \<Rightarrow> int \<Rightarrow> (uds_client, int) meth" where
  "request_download fuel = request_transfer fuel REQUEST_DOWNLOAD"

definition request_upload :: "nat \<Rightarrow> int \<Rightarrow> int \<Rightarrow> int \<Rightarrow> int \<Rightarrow> int \<Rightarrow> (uds_client, int) meth" where
  "request_upload fuel = request_transfer fuel REQUEST_UPLOAD"

definition transfer_data :: "nat \<Rightarrow> int \<Rightarrow> bytes \<Rightarrow> (uds_client, bytes) meth" where
  "transfer_data fuel block_sequence_count data =
    sbind (slift (py_bytes [block_sequence_count])) (\<lambda>c.
    sbind (ask fuel TRANSFER_DATA None (Some (c @ data))) (\<lambda>resp.
    if opt_byte_at resp 0 \<noteq> Some block_sequence_count then sraise ValueError
    else sret (drop 1 resp)))"

definition request_transfer_exit :: "nat \<Rightarrow> (uds_client, unit) meth" where
  "request_transfer_exit fuel = ask_ignore fuel REQUEST_TRANSFER_EXIT None None"

end
