(* ===== verification/UdsExchange.thy ===== *)
theory UdsExchange
  imports IsoTpCorrect UdsClient
begin

text \<open>
  A whole exchange with a control unit, for \<^verbatim>\<open>opendbc/car/uds.py\<close>: what the frames that wait
  in the panda become when the layers of the client run on top of each other. \<open>inbox\<close> is the
  abstraction of the client's receive side: the payloads of this connection, in order, however
  \<^verbatim>\<open>can_recv\<close> batches them and whatever other traffic is mixed in.
\<close>

section \<open>The inbox of a connection\<close>

text \<open>A connection to one physical address, without sub-addresses.\<close>

definition conn :: "int \<Rightarrow> can_client \<Rightarrow> bool" where
  "conn rxa c \<longleftrightarrow>
     tx_addr c \<noteq> 0x7DF \<and> tx_addr c \<noteq> 0x18DB33F1 \<and> rx_addr c = Some rxa \<and> plain_link c"

definition frame_ok :: "int \<Rightarrow> int \<Rightarrow> frame \<Rightarrow> bool" where
  "frame_ok rxa b f = (case f of (a, d, fb) \<Rightarrow> fb = b \<and> a = rxa \<and> d \<noteq> [])"

definition frame_data :: "frame \<Rightarrow> bytes" where
  "frame_data f = fst (snd f)"

definition inbox :: "int \<Rightarrow> can_client \<Rightarrow> bytes list" where
  "inbox rxa c =
     rx_buff c @ map frame_data (filter (frame_ok rxa (bus c)) (concat (rx_script (panda c))))"

lemma conn_upd [simp]:
  "conn rxa (c\<lparr>rx_buff := b\<rparr>) = conn rxa c"
  "conn rxa (c\<lparr>panda := p\<rparr>) = conn rxa c"
  by (simp_all add: conn_def plain_link_def)

lemma accept_frames_conn:
  "conn rxa c \<Longrightarrow> accept_frames fs c =
     (Inr (), c\<lparr>rx_buff := rx_buff c @ map frame_data (filter (frame_ok rxa (bus c)) fs)\<rparr>)"
proof (induction fs arbitrary: c)
  case (Cons f fs)
  obtain a d b where f: "f = (a, d, b)" by (cases f) auto
  have flt: "recv_filter b a c = (b = bus c \<and> a = rxa, c)"
    using Cons.prems by (auto simp: recv_filter_def conn_def Let_def)
  show ?case
    using Cons.IH [of c] Cons.IH [of "c\<lparr>rx_buff := rx_buff c @ [d]\<rparr>"] Cons.prems flt
    by (auto simp: f frame_ok_def frame_data_def conn_def plain_link_def)
qed simp

lemma recv_calls_conn:
  "conn rxa c \<Longrightarrow> s = rx_script (panda c) \<Longrightarrow>
   \<exists>c'. recv_calls False s c = (Inr (), c') \<and> conn rxa c' \<and> inbox rxa c' = inbox rxa c \<and>
     length (rx_script (panda c')) \<le> length s - 1"
proof (induction s arbitrary: c)
  case Nil
  then show ?case by simp
next
  case (Cons msgs rest)
  let ?c0 = "c\<lparr>panda := (panda c)\<lparr>rx_script := rest\<rparr>\<rparr>"
  let ?c1 = "?c0\<lparr>rx_buff := rx_buff c @ map frame_data (filter (frame_ok rxa (bus c)) msgs)\<rparr>"
  have a: "accept_frames msgs ?c0 = (Inr (), ?c1)"
    using accept_frames_conn [of rxa ?c0 msgs] Cons.prems(1) by simp
  have i: "inbox rxa ?c1 = inbox rxa c" using Cons.prems(2) [symmetric] by (simp add: inbox_def)
  have c1: "conn rxa ?c1" using Cons.prems(1) by simp
  show ?case
  proof (cases "length msgs < 254")
    case True
    with a c1 i show ?thesis by (simp add: Let_def)
  next
    case False
    obtain c' where "recv_calls False rest ?c1 = (Inr (), c')" "conn rxa c'"
      "inbox rxa c' = inbox rxa ?c1" "length (rx_script (panda c')) \<le> length rest - 1"
      using Cons.IH [of ?c1] c1 by auto
    with a i False show ?thesis by (simp add: Let_def)
  qed
qed

text \<open>One call of the receive side keeps the inbox, and uses up the script as long as it lasts.\<close>

lemma recv_buffer_conn:
  assumes "conn rxa c"
  obtains c' where "recv_buffer False c = (Inr (), c')" "conn rxa c'" "inbox rxa c' = inbox rxa c"
    "length (rx_script (panda c')) \<le> length (rx_script (panda c)) - 1"
  using recv_calls_conn [OF assms refl] by (auto simp: recv_buffer_def)

text \<open>
  One resumption of the generator yields the oldest frame, or nothing after a read that moved
  the script on.
\<close>

definition recv_effort :: "int \<Rightarrow> recv_gen \<Rightarrow> can_client \<Rightarrow> nat" where
  "recv_effort rxa g c =
     2 * (length (inbox rxa c) + length (rx_script (panda c))) + (if g = Resumed then 1 else 0)"

lemma pop_buff_conn:
  assumes "conn rxa c" "inbox rxa c = f # rest"
  shows "(\<exists>c'. pop_buff c = (Inr (Some (f, Resumed)), c') \<and> conn rxa c' \<and> inbox rxa c' = rest \<and>
            same_link c c' \<and> rx_script (panda c') = rx_script (panda c)) \<or>
         pop_buff c = (Inr None, c) \<and> rx_script (panda c) \<noteq> []"
proof (cases "rx_buff c")
  case Nil
  with assms(2) have "rx_script (panda c) \<noteq> []" by (auto simp: inbox_def)
  with Nil show ?thesis by (simp add: pop_buff_def)
next
  case (Cons d ds)
  with assms have "d = f" "inbox rxa (c\<lparr>rx_buff := ds\<rparr>) = rest" by (simp_all add: inbox_def)
  with Cons assms(1) show ?thesis by (simp add: pop_buff_def)
qed

lemma recv_next_conn:
  assumes c: "conn rxa c" and i: "inbox rxa c = f # rest" and g: "g \<noteq> Fresh True"
  obtains (yield) c' where "recv_next g c = (Inr (Some (f, Resumed)), c')" "conn rxa c'"
      "inbox rxa c' = rest" "same_link c c'" "recv_effort rxa Resumed c' < recv_effort rxa g c"
  | (empty) c' where "recv_next g c = (Inr None, c')" "conn rxa c'" "inbox rxa c' = f # rest"
      "same_link c c'" "recv_effort rxa (Fresh False) c' < recv_effort rxa g c"
proof (cases g)
  case Resumed
  from pop_buff_conn [OF c i] consider
    (a) c' where "pop_buff c = (Inr (Some (f, Resumed)), c')" "conn rxa c'" "inbox rxa c' = rest"
      "same_link c c'" "rx_script (panda c') = rx_script (panda c)"
    | (b) "pop_buff c = (Inr None, c)" by blast
  then show ?thesis
  proof cases
    case a
    then show ?thesis using yield [of c'] Resumed i by (simp add: recv_effort_def)
  next
    case b
    then show ?thesis using empty [of c] Resumed c i by (simp add: recv_effort_def)
  qed
next
  case (Fresh d)
  obtain c1 where c1: "recv_buffer False c = (Inr (), c1)" "conn rxa c1" "inbox rxa c1 = inbox rxa c"
    "length (rx_script (panda c1)) \<le> length (rx_script (panda c)) - 1"
    using c by (rule recv_buffer_conn)
  have l: "same_link c c1" using c1(1) by (rule recv_buffer_link)
  have eq: "recv_next g c = pop_buff c1" using Fresh g c1(1) by (simp add: sbind_def)
  have i1: "inbox rxa c1 = f # rest" using c1(3) i by simp
  from pop_buff_conn [OF c1(2) i1] consider
    (a) c' where "pop_buff c1 = (Inr (Some (f, Resumed)), c')" "conn rxa c'" "inbox rxa c' = rest"
      "same_link c1 c'" "rx_script (panda c') = rx_script (panda c1)"
    | (b) "pop_buff c1 = (Inr None, c1)" "rx_script (panda c1) \<noteq> []" by blast
  then show ?thesis
  proof cases
    case a
    then show ?thesis
      using yield [of c'] eq c1(4) i same_link_trans [OF l] Fresh by (simp add: recv_effort_def)
  next
    case b
    then have "0 < length (rx_script (panda c1))" by simp
    then have "length (rx_script (panda c1)) < length (rx_script (panda c))" using c1(4) by linarith
    with b(1) show ?thesis
      using empty [of c1] eq c1(2) i1 i l Fresh by (simp add: recv_effort_def)
  qed
qed

section \<open>What a frame handler does to the connection\<close>

text \<open>Handlers touch the client only by sending.\<close>

definition conn_step :: "int \<Rightarrow> can_client \<Rightarrow> can_client \<Rightarrow> bool" where
  "conn_step rxa c c' \<longleftrightarrow>
     conn rxa c' \<and> inbox rxa c' = inbox rxa c \<and> recv_effort rxa Resumed c' \<le> recv_effort rxa Resumed c \<and>
     clock (panda c') = clock (panda c) \<and> (\<exists>fs. sent c' = sent c @ fs)"

lemma conn_step_refl: "conn rxa c \<Longrightarrow> conn_step rxa c c"
  by (simp add: conn_step_def)

lemma conn_step_trans: "conn_step rxa a b \<Longrightarrow> conn_step rxa b c \<Longrightarrow> conn_step rxa a c"
  unfolding conn_step_def by force

lemma send_from_conn:
  "conn rxa c \<Longrightarrow> send_from i ms c = (r, c') \<Longrightarrow> conn_step rxa c c'"
proof (induction ms arbitrary: i c)
  case Nil
  then show ?case by (simp add: conn_step_refl)
next
  case (Cons m ms)
  from Cons.prems(2) show ?case
  proof (cases rule: send_from_turn)
    case 1
    with Cons.prems show ?thesis by (simp add: conn_step_refl)
  next
    case (2 m' r2 c2)
    let ?c1 = "c\<lparr>panda := can_send (tx_addr c) m' (bus c) (panda c)\<rparr>"
    have s1: "conn_step rxa c ?c1"
      using Cons.prems(1) by (simp add: conn_step_def inbox_def recv_effort_def sent_can_send)
    then have c1: "conn rxa ?c1" by (simp add: conn_step_def)
    obtain c3 where c3: "recv_buffer False ?c1 = (Inr (), c3)" "conn rxa c3" "inbox rxa c3 = inbox rxa ?c1"
      "length (rx_script (panda c3)) \<le> length (rx_script (panda ?c1)) - 1"
      using c1 by (rule recv_buffer_conn)
    have "same_link ?c1 c3" using c3(1) by (rule recv_buffer_link)
    then have "conn_step rxa ?c1 c3"
      using c3 same_link_sent [of ?c1 c3] by (simp add: conn_step_def recv_effort_def same_link_def)
    then have s2: "conn_step rxa c c2"
      using 2(1) s1 c3(1) conn_step_trans by auto
    then have "conn rxa c2" by (simp add: conn_step_def)
    from 2(2) Cons.IH [OF this, of "Suc i"] s2 conn_step_trans show ?thesis by blast
  qed
qed

definition handler_ok :: "int \<Rightarrow> isotp \<Rightarrow> 'a result \<times> isotp \<Rightarrow> bool" where
  "handler_ok rxa s p \<longleftrightarrow>
     conn_step rxa (can_client s) (can_client (snd p)) \<and> (tx_done s \<longrightarrow> tx_done (snd p))"

lemma handler_ok_send:
  assumes "conn rxa (can_client s)" "can_client s1 = can_client s" "tx_done s \<Longrightarrow> tx_done s1"
    and "\<And>s2. tx_done s1 \<Longrightarrow> tx_done s2 \<Longrightarrow> tx_done (snd (f () s2))"
    and "\<And>s2. can_client (snd (f () s2)) = can_client s2"
  shows "handler_ok rxa s (sbind (on_client (CanClient_send ms)) f s1)"
proof -
  obtain r c1 where c: "send_from 0 ms (can_client s) = (r, c1)" by fastforce
  have o: "on_client (CanClient_send ms) s1 = (r, s1\<lparr>can_client := c1\<rparr>)"
    using c assms(2) by (simp add: on_client_def on_part_def CanClient_send_def)
  from send_from_conn [OF assms(1) c] o assms(3)
    assms(4) [of "s1\<lparr>can_client := c1\<rparr>"] assms(5) [of "s1\<lparr>can_client := c1\<rparr>"] show ?thesis
    by (cases r) (auto simp: handler_ok_def sbind_def)
qed

lemma handler_ok_simps [simp]:
  "conn rxa (can_client s) \<Longrightarrow> can_client s' = can_client s \<Longrightarrow> tx_done s' = tx_done s \<Longrightarrow>
   handler_ok rxa s (r, s')"
  by (simp add: handler_ok_def conn_step_refl)

lemma isotp_rx_next_conn:
  assumes c: "conn rxa (can_client s)"
  shows "handler_ok rxa s (isotp_rx_next d s)"
proof (cases "byte_at d 0")
  case (Inl e)
  then show ?thesis using c by (simp add: isotp_rx_next_def)
next
  case (Inr d0)
  have a: "handler_ok rxa s (rx_single d d0 s)" using c by (simp add: rx_single_def Let_def)
  have b: "handler_ok rxa s (rx_first d d0 s)"
    using c by (auto simp: rx_first_def Let_def byte_at_def sret_def split: sum.splits if_splits
        intro!: handler_ok_send)
  have c': "handler_ok rxa s (rx_consecutive d d0 s)"
    using c by (auto simp: rx_consecutive_def Let_def sret_def intro!: handler_ok_send)
  have e: "handler_ok rxa s (rx_flow d d0 s)"
    using c by (auto simp: rx_flow_def Let_def byte_at_def split: sum.splits if_splits
        intro!: handler_ok_send)
  show ?thesis using c Inr a b c' e by (simp add: isotp_rx_next_def)
qed

section \<open>The receive loop against the inbox\<close>

text \<open>No pause between two readings of the clock exceeds the timeout.\<close>

definition prompt :: "(nat \<Rightarrow> rat) \<Rightarrow> rat \<Rightarrow> bool" where
  "prompt clk tmo \<longleftrightarrow> (\<forall>i j. fl (clk i - clk j) \<le> tmo)"

text \<open>One frame: the handler, the reading of the clock, and the test whether the message is done.\<close>

definition recv_turn :: "nat \<Rightarrow> rat \<Rightarrow> bytes \<Rightarrow> (isotp, bytes option \<times> bool) meth" where
  "recv_turn n tmo f =
     sbind (isotp_rx_next f) (\<lambda>frame_type.
     sbind isotp_now (\<lambda>t.
     (\<lambda>s. if tx_done s \<and> rx_done s then (Inr (Some (rx_dat s), False), s)
          else isotp_recv_loop n tmo t (frame_type \<in> {FIRST, CONSECUTIVE}) Resumed s)))"

definition moved :: "int \<Rightarrow> can_client \<Rightarrow> can_client \<Rightarrow> bool" where
  "moved rxa c c' \<longleftrightarrow> conn rxa c' \<and> sent c' = sent c \<and> clock (panda c') = clock (panda c)"

lemma recv_loop_next:
  assumes "conn rxa (can_client s)" "inbox rxa (can_client s) = f # rest" "gen \<noteq> Fresh True"
    and "tmo \<noteq> 0" "prompt (clock (panda (can_client s))) tmo"
    and "start \<in> range (clock (panda (can_client s)))"
    and "recv_effort rxa gen (can_client s) < fuel"
  shows "\<exists>n c'. isotp_recv_loop fuel tmo start prog gen s = recv_turn n tmo f (s\<lparr>can_client := c'\<rparr>) \<and>
    moved rxa (can_client s) c' \<and> inbox rxa c' = rest \<and> recv_effort rxa Resumed c' < n \<and>
    recv_effort rxa Resumed c' < recv_effort rxa gen (can_client s)"
  using assms
proof (induction fuel arbitrary: s start gen)
  case (Suc n)
  let ?c = "can_client s"
  from Suc.prems(1,2,3) show ?case
  proof (cases rule: recv_next_conn)
    case (yield c')
    have o: "on_client (recv_next gen) s = (Inr (Some (f, Resumed)), s\<lparr>can_client := c'\<rparr>)"
      using yield(1) by (simp add: on_client_def on_part_def)
    have "moved rxa ?c c'"
      using yield(2,4) same_link_sent by (simp add: moved_def same_link_def sent_def)
    with yield Suc.prems(7) show ?thesis
      by (intro exI [of _ n] exI [of _ c'])
        (simp add: sbind_run [where m = "on_client (recv_next gen)", OF o] recv_turn_def)
  next
    case (empty c')
    let ?s2 = "s\<lparr>can_client := c'\<rparr>"
    have o: "on_client (recv_next gen) s = (Inr None, ?s2)"
      using empty(1) by (simp add: on_client_def on_part_def)
    let ?p = "(panda c')\<lparr>ticks := Suc (ticks (panda c'))\<rparr>"
    let ?c3 = "c'\<lparr>panda := ?p\<rparr>" and ?s3 = "s\<lparr>can_client := c'\<lparr>panda := (panda c')\<lparr>ticks := Suc (ticks (panda c'))\<rparr>\<rparr>\<rparr>"
    let ?t = "clock (panda c') (ticks (panda c'))"
    have now: "isotp_now ?s2 = (Inr ?t, ?s3)" by (simp add: isotp_now_run)
    have clk: "clock (panda c') = clock (panda ?c)" "sent c' = sent ?c"
      using empty(4) same_link_sent by (auto simp: same_link_def sent_def)
    obtain i where "start = clock (panda ?c) i" using Suc.prems(6) by auto
    then have "\<not> tmo < fl (?t - start)" using Suc.prems(5) clk by (simp add: prompt_def not_less)
    then have step: "isotp_recv_loop (Suc n) tmo start prog gen s =
        isotp_recv_loop n tmo start prog (Fresh False) ?s3"
      using Suc.prems(4)
      by (simp add: sbind_run [where m = "on_client (recv_next gen)", OF o]
          sbind_run [where m = isotp_now, OF now] CanClient_recv_def)
    have c3: "inbox rxa ?c3 = inbox rxa c'" "recv_effort rxa (Fresh False) ?c3 = recv_effort rxa (Fresh False) c'"
      "sent ?c3 = sent c'"
      by (simp_all add: inbox_def recv_effort_def sent_def)
    have "\<exists>k c''. isotp_recv_loop n tmo start prog (Fresh False) ?s3 =
          recv_turn k tmo f (?s3\<lparr>can_client := c''\<rparr>) \<and>
        moved rxa (can_client ?s3) c'' \<and> inbox rxa c'' = rest \<and> recv_effort rxa Resumed c'' < k \<and>
        recv_effort rxa Resumed c'' < recv_effort rxa (Fresh False) (can_client ?s3)"
      using Suc.prems empty clk c3 by (intro Suc.IH) simp_all
    then obtain k c'' where "isotp_recv_loop n tmo start prog (Fresh False) ?s3 =
          recv_turn k tmo f (?s3\<lparr>can_client := c''\<rparr>)" "moved rxa ?c3 c''" "inbox rxa c'' = rest"
        "recv_effort rxa Resumed c'' < k" "recv_effort rxa Resumed c'' < recv_effort rxa (Fresh False) ?c3"
      by auto
    with step empty(5) clk c3 show ?thesis
      by (intro exI [of _ k] exI [of _ c'']) (simp add: moved_def)
  qed
qed simp

definition tick :: "isotp \<Rightarrow> isotp" where
  "tick s = snd (isotp_now s)"

text \<open>What holds between the start of a turn and its end, with the frames that are left.\<close>

definition later :: "int \<Rightarrow> isotp \<Rightarrow> isotp \<Rightarrow> bool" where
  "later rxa s s' \<longleftrightarrow>
     conn rxa (can_client s') \<and> clock (panda (can_client s')) = clock (panda (can_client s)) \<and>
     (\<exists>fs. isotp_sent s' = isotp_sent s @ fs) \<and> (tx_done s \<longrightarrow> tx_done s')"

lemma later_trans: "later rxa a b \<Longrightarrow> later rxa b c \<Longrightarrow> later rxa a c"
  unfolding later_def by force

lemma later_conn: "later rxa s s' \<Longrightarrow> conn rxa (can_client s')"
  by (simp add: later_def)

lemma later_prompt: "later rxa s s' \<Longrightarrow> prompt (clock (panda (can_client s))) tmo \<Longrightarrow>
    prompt (clock (panda (can_client s'))) tmo"
  by (simp add: later_def)

text \<open>
  A turn of the loop, for a handler that accepts the oldest frame of the inbox and establishes
  \<open>P\<close>: the loop delivers the message or goes on from a state with \<open>P\<close> and the rest of the inbox.
\<close>

definition listens :: "int \<Rightarrow> nat \<Rightarrow> rat \<Rightarrow> rat \<Rightarrow> recv_gen \<Rightarrow> isotp \<Rightarrow> bool" where
  "listens rxa fuel tmo start gen s \<longleftrightarrow>
     conn rxa (can_client s) \<and> gen \<noteq> Fresh True \<and> tmo \<noteq> 0 \<and>
     prompt (clock (panda (can_client s))) tmo \<and> start \<in> range (clock (panda (can_client s))) \<and>
     recv_effort rxa gen (can_client s) < fuel"

lemma recv_loop_turn:
  assumes l: "listens rxa fuel tmo start gen s" and i: "inbox rxa (can_client s) = f # rest"
    and h: "\<And>c'. moved rxa (can_client s) c' \<Longrightarrow>
        \<exists>ft s2. isotp_rx_next f (s\<lparr>can_client := c'\<rparr>) = (Inr ft, s2) \<and> P s2"
    and t: "\<And>s2. P s2 \<Longrightarrow> P (tick s2)"
  obtains n t' prog' s3 where
    "isotp_recv_loop fuel tmo start prog gen s =
       (if tx_done s3 \<and> rx_done s3 then (Inr (Some (rx_dat s3), False), s3)
        else isotp_recv_loop n tmo t' prog' Resumed s3)"
    "P s3" "later rxa s s3" "inbox rxa (can_client s3) = rest" "listens rxa n tmo t' Resumed s3"
    "recv_effort rxa Resumed (can_client s3) < recv_effort rxa gen (can_client s)"
proof -
  note l' = l [unfolded listens_def]
  obtain n c' where n: "isotp_recv_loop fuel tmo start prog gen s = recv_turn n tmo f (s\<lparr>can_client := c'\<rparr>)"
    and m: "moved rxa (can_client s) c'" and c': "inbox rxa c' = rest" "recv_effort rxa Resumed c' < n"
      "recv_effort rxa Resumed c' < recv_effort rxa gen (can_client s)"
    using recv_loop_next [OF _ i, of gen tmo start fuel prog] l' by auto
  obtain ft s2 where s2: "isotp_rx_next f (s\<lparr>can_client := c'\<rparr>) = (Inr ft, s2)" and P: "P s2"
    using h [OF m] by blast
  have "conn rxa (can_client (s\<lparr>can_client := c'\<rparr>))" using m by (simp add: moved_def)
  from isotp_rx_next_conn [OF this, of f] s2 m have
    k: "conn_step rxa c' (can_client s2)" "tx_done s \<longrightarrow> tx_done s2" by (simp_all add: handler_ok_def)
  let ?c2 = "can_client s2"
  let ?t = "clock (panda ?c2) (ticks (panda ?c2))"
  let ?s3 = "tick s2"
  have now: "isotp_now s2 = (Inr ?t, ?s3)" by (simp add: tick_def isotp_now_run)
  have turn: "recv_turn n tmo f (s\<lparr>can_client := c'\<rparr>) =
      (if tx_done ?s3 \<and> rx_done ?s3 then (Inr (Some (rx_dat ?s3), False), ?s3)
       else isotp_recv_loop n tmo ?t (ft \<in> {FIRST, CONSECUTIVE}) Resumed ?s3)"
    by (simp add: recv_turn_def sbind_run [where m = "isotp_rx_next f", OF s2]
        sbind_run [where m = isotp_now, OF now])
  have c3: "can_client ?s3 = ?c2\<lparr>panda := (panda ?c2)\<lparr>ticks := Suc (ticks (panda ?c2))\<rparr>\<rparr>"
    "tx_done ?s3 = tx_done s2"
    by (simp_all add: tick_def isotp_now_run)
  then have same: "inbox rxa (can_client ?s3) = inbox rxa ?c2" "isotp_sent ?s3 = sent ?c2"
    "recv_effort rxa Resumed (can_client ?s3) = recv_effort rxa Resumed ?c2"
    by (simp_all add: inbox_def recv_effort_def sent_def)
  have clk: "clock (panda (can_client ?s3)) = clock (panda (can_client s))"
    using k(1) m c3 by (simp add: conn_step_def moved_def)
  have lat: "later rxa s ?s3"
    using k m c3 same clk by (auto simp: later_def conn_step_def moved_def)
  have lis: "listens rxa n tmo ?t Resumed ?s3"
    using l' lat k(1) c' c3 same clk by (auto simp: listens_def later_def conn_step_def)
  have inb: "inbox rxa (can_client ?s3) = rest" using k(1) c'(1) same by (simp add: conn_step_def)
  have eff: "recv_effort rxa Resumed (can_client ?s3) < recv_effort rxa gen (can_client s)"
    using k(1) c'(3) same by (simp add: conn_step_def)
  show ?thesis by (rule that [OF _ t [OF P] lat inb lis eff]) (simp add: n turn)
qed

section \<open>Receiving one message\<close>

lemma tick_simps [simp]:
  "rx_dat (tick s) = rx_dat s" "rx_len (tick s) = rx_len s" "rx_idx (tick s) = rx_idx s"
  "rx_done (tick s) = rx_done s" "tx_done (tick s) = tx_done s" "tx_dat (tick s) = tx_dat s"
  "isotp_link (tick s) = isotp_link s" "isotp_sent (tick s) = isotp_sent s"
  by (simp_all add: tick_def isotp_now_run isotp_link_def sent_def)

lemma rx_progress_tick [simp]: "rx_progress dat k (tick s) = rx_progress dat k s"
  by (simp add: rx_progress_def)

lemma moved_link: "moved rxa c c' \<Longrightarrow> isotp_link s \<Longrightarrow> isotp_link (s\<lparr>can_client := c'\<rparr>)"
  by (simp add: isotp_link_client moved_def conn_def)

lemma moved_progress:
  "moved rxa c c' \<Longrightarrow> rx_progress dat k s \<Longrightarrow> rx_progress dat k (s\<lparr>can_client := c'\<rparr>)"
  using moved_link by (auto simp: rx_progress_def)

definition received :: "int \<Rightarrow> recv_gen \<Rightarrow> isotp \<Rightarrow> isotp \<Rightarrow> bytes list \<Rightarrow> bool" where
  "received rxa gen s s' rest \<longleftrightarrow>
     later rxa s s' \<and> inbox rxa (can_client s') = rest \<and> isotp_link s' \<and> rx_done s' \<and> tx_done s' \<and>
     recv_effort rxa Resumed (can_client s') < recv_effort rxa gen (can_client s)"

lemma recv_loop_cfs:
  assumes "rx_progress dat k s" "tx_done s" "8 \<le> length dat" "k < cf_count 8 (length dat)"
    and "listens rxa fuel tmo start gen s"
    and "inbox rxa (can_client s) = map (cf_frame 8 dat) [k..<cf_count 8 (length dat)] @ rest"
  shows "\<exists>s'. isotp_recv_loop fuel tmo start prog gen s = (Inr (Some dat, False), s') \<and>
    received rxa gen s s' rest"
  using assms
proof (induction "cf_count 8 (length dat) - k" arbitrary: k s fuel start gen prog)
  case (Suc m)
  let ?n = "cf_count 8 (length dat)"
  have i: "inbox rxa (can_client s) = cf_frame 8 dat k # (map (cf_frame 8 dat) [Suc k..<?n] @ rest)"
    using Suc.prems(4,6) by (simp add: upt_conv_Cons)
  have h: "\<exists>ft s2. isotp_rx_next (cf_frame 8 dat k) (s\<lparr>can_client := c'\<rparr>) = (Inr ft, s2) \<and>
      rx_progress dat (Suc k) s2" if "moved rxa (can_client s) c'" for c'
    using rx_cf_step [OF moved_progress [OF that Suc.prems(1)] cf_count_less [OF Suc.prems(3,4)]] by blast
  obtain n t' prog' s3 where s3: "isotp_recv_loop fuel tmo start prog gen s =
       (if tx_done s3 \<and> rx_done s3 then (Inr (Some (rx_dat s3), False), s3)
        else isotp_recv_loop n tmo t' prog' Resumed s3)"
    "rx_progress dat (Suc k) s3" "later rxa s s3"
    "inbox rxa (can_client s3) = map (cf_frame 8 dat) [Suc k..<?n] @ rest"
    "listens rxa n tmo t' Resumed s3"
    "recv_effort rxa Resumed (can_client s3) < recv_effort rxa gen (can_client s)"
    by (rule recv_loop_turn [where P = "rx_progress dat (Suc k)" and prog = prog, OF Suc.prems(5) i h]) simp_all
  have tx: "tx_done s3" using s3(3) Suc.prems(2) by (simp add: later_def)
  show ?case
  proof (cases "Suc k < ?n")
    case True
    have "\<not> rx_done s3" using s3(2) cf_count_less [OF Suc.prems(3) True] by (simp add: rx_progress_def)
    moreover obtain s' where "isotp_recv_loop n tmo t' prog' Resumed s3 = (Inr (Some dat, False), s')"
      "received rxa Resumed s3 s' rest"
      using Suc.hyps(1) [of "Suc k" s3] Suc.hyps(2) s3(2,4,5) tx Suc.prems(3) True by fastforce
    ultimately show ?thesis
      using s3(1,3,6) later_trans by (auto simp: received_def)
  next
    case False
    with Suc.prems(4) have k: "Suc k = ?n" by simp
    have p: "rx_progress dat ?n s3" using s3(2) unfolding k .
    have e: "length dat \<le> 6 + ?n * 7" using Suc.prems(3) by (rule cf_count_enough)
    then have "rx_done s3" "rx_dat s3 = dat" "isotp_link s3"
      using p unfolding rx_progress_def by simp_all
    moreover have "inbox rxa (can_client s3) = rest" using s3(4) k by simp
    ultimately show ?thesis using s3(1,3,6) tx by (simp add: received_def)
  qed
qed simp

text \<open>A whole message: the loop returns it and leaves the rest of the inbox.\<close>

lemma recv_loop_message:
  assumes "isotp_link s" "tx_done s" "rx_dat s = [] \<or> rx_done s" "length dat \<le> 4095"
    and l: "listens rxa fuel tmo start gen s"
    and i: "inbox rxa (can_client s) = isotp_frames 8 dat @ rest"
  shows "\<exists>s'. isotp_recv_loop fuel tmo start prog gen s = (Inr (Some dat, False), s') \<and>
    received rxa gen s s' rest"
proof (cases "length dat < 8")
  case True
  let ?f = "ljust 8 (word_of_int (int (length dat)) # dat)"
  let ?P = "\<lambda>s'. rx_dat s' = dat \<and> rx_done s' \<and> isotp_link s'"
  have i': "inbox rxa (can_client s) = ?f # rest" using i True by (simp add: isotp_frames_def)
  have h: "\<exists>ft s2. isotp_rx_next ?f (s\<lparr>can_client := c'\<rparr>) = (Inr ft, s2) \<and> ?P s2"
    if "moved rxa (can_client s) c'" for c'
    using rx_single_step [OF moved_link [OF that assms(1)] _ True] assms(3) by auto
  obtain n t' prog' s3 where s3: "isotp_recv_loop fuel tmo start prog gen s =
       (if tx_done s3 \<and> rx_done s3 then (Inr (Some (rx_dat s3), False), s3)
        else isotp_recv_loop n tmo t' prog' Resumed s3)"
    "?P s3" "later rxa s s3" "inbox rxa (can_client s3) = rest"
    "recv_effort rxa Resumed (can_client s3) < recv_effort rxa gen (can_client s)"
    by (rule recv_loop_turn [where P = ?P and prog = prog, OF l i' h]) simp_all
  have "tx_done s3" using s3(3) assms(2) by (simp add: later_def)
  with s3 show ?thesis by (simp add: received_def)
next
  case False
  then have 8: "8 \<le> length dat" by simp
  have 0: "0 < cf_count 8 (length dat)" using 8 by (simp add: cf_count_def)
  have i': "inbox rxa (can_client s) =
      hd (isotp_frames 8 dat) # (map (cf_frame 8 dat) [0..<cf_count 8 (length dat)] @ rest)"
    using i False by (simp add: isotp_frames_def)
  have h: "\<exists>ft s2. isotp_rx_next (hd (isotp_frames 8 dat)) (s\<lparr>can_client := c'\<rparr>) = (Inr ft, s2) \<and>
      rx_progress dat 0 s2" if "moved rxa (can_client s) c'" for c'
    using rx_first_step [OF moved_link [OF that assms(1)] _ 8 assms(4)] assms(3) by auto
  obtain n t' prog' s3 where s3: "isotp_recv_loop fuel tmo start prog gen s =
       (if tx_done s3 \<and> rx_done s3 then (Inr (Some (rx_dat s3), False), s3)
        else isotp_recv_loop n tmo t' prog' Resumed s3)"
    "rx_progress dat 0 s3" "later rxa s s3"
    "inbox rxa (can_client s3) = map (cf_frame 8 dat) [0..<cf_count 8 (length dat)] @ rest"
    "listens rxa n tmo t' Resumed s3"
    "recv_effort rxa Resumed (can_client s3) < recv_effort rxa gen (can_client s)"
    by (rule recv_loop_turn [where P = "rx_progress dat 0" and prog = prog, OF l i' h]) simp_all
  have tx: "tx_done s3" using s3(3) assms(2) by (simp add: later_def)
  have "\<not> rx_done s3" using s3(2) 8 by (simp add: rx_progress_def)
  moreover obtain s' where "isotp_recv_loop n tmo t' prog' Resumed s3 = (Inr (Some dat, False), s')"
    "received rxa Resumed s3 s' rest"
    using recv_loop_cfs [OF s3(2) tx 8 0 s3(5,4)] by blast
  ultimately show ?thesis using s3(1,3,6) later_trans by (auto simp: received_def)
qed

text \<open>The same at the level of \<^verbatim>\<open>recv\<close>, which first reads the clock.\<close>

definition quiet :: "int \<Rightarrow> nat \<Rightarrow> rat \<Rightarrow> isotp \<Rightarrow> bool" where
  "quiet rxa fuel tmo s \<longleftrightarrow>
     conn rxa (can_client s) \<and> tmo \<noteq> 0 \<and> prompt (clock (panda (can_client s))) tmo \<and>
     recv_effort rxa (Fresh False) (can_client s) < fuel"

lemma isotp_recv_tick:
  assumes "quiet rxa fuel tmo s"
  obtains t where "isotp_recv fuel (Some tmo) s = isotp_recv_loop fuel tmo t False (Fresh False) (tick s)"
    "listens rxa fuel tmo t (Fresh False) (tick s)"
    "inbox rxa (can_client (tick s)) = inbox rxa (can_client s)" "later rxa s (tick s)"
    "recv_effort rxa (Fresh False) (can_client (tick s)) = recv_effort rxa (Fresh False) (can_client s)"
proof -
  let ?c = "can_client s" and ?t = "clock (panda (can_client s)) (ticks (panda (can_client s)))"
  have now: "isotp_now s = (Inr ?t, tick s)" by (simp add: tick_def isotp_now_run)
  have c: "can_client (tick s) = ?c\<lparr>panda := (panda ?c)\<lparr>ticks := Suc (ticks (panda ?c))\<rparr>\<rparr>"
    by (simp add: tick_def isotp_now_run)
  have r: "isotp_recv fuel (Some tmo) s = isotp_recv_loop fuel tmo ?t False (Fresh False) (tick s)"
    by (simp add: isotp_recv_def sbind_run [where m = isotp_now, OF now] CanClient_recv_def)
  have e: "inbox rxa (can_client (tick s)) = inbox rxa ?c"
    "recv_effort rxa (Fresh False) (can_client (tick s)) = recv_effort rxa (Fresh False) ?c"
    by (simp_all add: c inbox_def recv_effort_def)
  show ?thesis
    by (rule that [OF r _ e(1) _ e(2)]) (use assms e c in \<open>simp_all add: quiet_def listens_def later_def sent_def\<close>)
qed

lemma received_tick:
  assumes "received rxa (Fresh False) (tick s) s' rest" "later rxa s (tick s)"
    "recv_effort rxa (Fresh False) (can_client (tick s)) = recv_effort rxa (Fresh False) (can_client s)"
  shows "received rxa (Fresh False) s s' rest"
  using assms later_trans by (auto simp: received_def)

lemma isotp_recv_message:
  assumes "isotp_link s" "tx_done s" "rx_dat s = [] \<or> rx_done s" "length dat \<le> 4095"
    and q: "quiet rxa fuel tmo s" and i: "inbox rxa (can_client s) = isotp_frames 8 dat @ rest"
  shows "\<exists>s'. isotp_recv fuel (Some tmo) s = (Inr (Some dat, False), s') \<and>
    received rxa (Fresh False) s s' rest"
proof -
  obtain t where t: "isotp_recv fuel (Some tmo) s = isotp_recv_loop fuel tmo t False (Fresh False) (tick s)"
    "listens rxa fuel tmo t (Fresh False) (tick s)"
    "inbox rxa (can_client (tick s)) = inbox rxa (can_client s)" "later rxa s (tick s)"
    "recv_effort rxa (Fresh False) (can_client (tick s)) = recv_effort rxa (Fresh False) (can_client s)"
    using q by (rule isotp_recv_tick)
  obtain s' where "isotp_recv_loop fuel tmo t False (Fresh False) (tick s) = (Inr (Some dat, False), s')"
    "received rxa (Fresh False) (tick s) s' rest"
    using recv_loop_message [of "tick s" dat rxa fuel tmo t "Fresh False" rest False] assms t(2,3) by auto
  with t received_tick show ?thesis by auto
qed

text \<open>
  The first \<^verbatim>\<open>recv\<close> after a segmented request: the flow control frame sends the rest of the
  request, then the message is received.
\<close>

lemma isotp_recv_after_flow:
  assumes "isotp_link s" "\<not> tx_done s" "tx_idx s = 0" "tx_dat s = req" "tx_len s = int (length req)"
    and "8 \<le> length req" "rx_dat s = []" "\<not> rx_done s" "length dat \<le> 4095"
    and q: "quiet rxa fuel tmo s"
    and i: "inbox rxa (can_client s) = (0x30 # 0 # sep # pad) # isotp_frames 8 dat @ rest"
  shows "\<exists>s' fs. isotp_recv fuel (Some tmo) s = (Inr (Some dat, False), s') \<and>
    received rxa (Fresh False) s s' rest \<and>
    isotp_sent s' = isotp_sent s @ tl (isotp_frames 8 req) @ fs"
proof -
  obtain t where t: "isotp_recv fuel (Some tmo) s = isotp_recv_loop fuel tmo t False (Fresh False) (tick s)"
    "listens rxa fuel tmo t (Fresh False) (tick s)"
    "inbox rxa (can_client (tick s)) = inbox rxa (can_client s)" "later rxa s (tick s)"
    "recv_effort rxa (Fresh False) (can_client (tick s)) = recv_effort rxa (Fresh False) (can_client s)"
    using q by (rule isotp_recv_tick)
  let ?f = "0x30 # 0 # sep # pad"
  let ?P = "\<lambda>s2. isotp_link s2 \<and> tx_done s2 \<and> \<not> rx_done s2 \<and> rx_dat s2 = [] \<and>
    isotp_sent s2 = isotp_sent s @ tl (isotp_frames 8 req)"
  have i': "inbox rxa (can_client (tick s)) = ?f # (isotp_frames 8 dat @ rest)" using i t(3) by simp
  have h: "\<exists>ft s2. isotp_rx_next ?f ((tick s)\<lparr>can_client := c'\<rparr>) = (Inr ft, s2) \<and> ?P s2"
    if m: "moved rxa (can_client (tick s)) c'" for c'
  proof -
    have s1: "isotp_sent ((tick s)\<lparr>can_client := c'\<rparr>) = isotp_sent s"
      using m tick_simps(8) [of s] by (simp add: moved_def)
    have "isotp_link ((tick s)\<lparr>can_client := c'\<rparr>)" using moved_link [OF m] assms(1) by simp
    moreover have "tx_idx ((tick s)\<lparr>can_client := c'\<rparr>) = 0" "tx_len ((tick s)\<lparr>can_client := c'\<rparr>) = int (length req)"
      using assms(3,5) by (simp_all add: tick_def isotp_now_run)
    ultimately obtain c'' where
      "isotp_rx_next ?f ((tick s)\<lparr>can_client := c'\<rparr>) =
         (Inr FLOW, (tick s)\<lparr>can_client := c', tx_idx := int (cf_count 8 (length req)), can_client := c'', tx_done := True\<rparr>)"
      "plain_link c''" "sent c'' = isotp_sent ((tick s)\<lparr>can_client := c'\<rparr>) @ tl (isotp_frames 8 req)"
      using rx_flow_all [of "(tick s)\<lparr>can_client := c'\<rparr>" req sep pad] assms(2,4,6) by auto
    with s1 assms(1,7,8) show ?thesis by (auto simp: isotp_link_def tick_def isotp_now_run)
  qed
  obtain n t' prog' s3 where s3: "isotp_recv_loop fuel tmo t False (Fresh False) (tick s) =
       (if tx_done s3 \<and> rx_done s3 then (Inr (Some (rx_dat s3), False), s3)
        else isotp_recv_loop n tmo t' prog' Resumed s3)"
    "?P s3" "later rxa (tick s) s3" "inbox rxa (can_client s3) = isotp_frames 8 dat @ rest"
    "listens rxa n tmo t' Resumed s3"
    "recv_effort rxa Resumed (can_client s3) < recv_effort rxa (Fresh False) (can_client (tick s))"
    by (rule recv_loop_turn [where P = ?P and prog = False, OF t(2) i' h]) simp_all
  obtain s' where s': "isotp_recv_loop n tmo t' prog' Resumed s3 = (Inr (Some dat, False), s')"
    "received rxa Resumed s3 s' rest"
    using recv_loop_message [of s3 dat rxa n tmo t' Resumed rest prog'] s3(2,4,5) assms(9) by auto
  have "isotp_recv fuel (Some tmo) s = (Inr (Some dat, False), s')" using t(1) s3(1,2) s'(1) by simp
  moreover have "received rxa (Fresh False) s s' rest"
    using s'(2) s3(3,6) t(4,5) later_trans unfolding received_def by (metis order_less_trans)
  moreover obtain fs where "isotp_sent s' = isotp_sent s3 @ fs"
    using s'(2) by (auto simp: received_def later_def)
  ultimately show ?thesis using s3(2) by (intro exI [of _ s'] exI [of _ fs]) simp
qed

section \<open>The request\<close>

text \<open>What the receiver makes of a response.\<close>

definition pending_response :: "bytes \<Rightarrow> bool" where
  "pending_response p \<longleftrightarrow> (\<exists>sid tail. p = 0x7F # sid # 0x78 # tail)"

lemma check_response_pending: "pending_response p \<Longrightarrow> check_response st sf p = Inr None"
  by (auto simp: pending_response_def check_response_def opt_byte_at_def)

lemma check_response_positive:
  assumes "request_bytes (st + 0x40) sf (Some payload) = Inr resp" "st \<noteq> 0x3F"
  shows "check_response st sf resp = Inr (Some payload)"
proof (cases sf)
  case None
  with assms obtain b where "resp = b # payload" "uint b = st + 0x40"
    by (auto simp: request_bytes_def ebind_eq_Inr py_byte_eq_Inr)
  with assms(2) None show ?thesis by (simp add: check_response_def opt_byte_at_def Let_def)
next
  case (Some f)
  with assms obtain b c where "resp = b # c # payload" "uint b = st + 0x40" "uint c = f"
    by (auto simp: request_bytes_def ebind_eq_Inr py_byte_eq_Inr)
  with assms(2) Some show ?thesis by (simp add: check_response_def opt_byte_at_def Let_def)
qed

lemma received_quiet:
  assumes "received rxa (Fresh False) s s' rest" "quiet rxa fuel tmo s"
    and "prompt (clock (panda (can_client s))) tmo'" "tmo' \<noteq> 0"
  shows "quiet rxa fuel tmo' s'"
  using assms by (auto simp: received_def quiet_def later_def recv_effort_def)

lemma received_later: "received rxa g s s' rest \<Longrightarrow> later rxa s s'"
  by (simp add: received_def)

lemma response_loop_pending:
  assumes "isotp_recv fuel (Some (if b then rp else tmo)) s = (Inr (Some p, False), s')" "pending_response p"
  shows "response_loop (Suc n) fuel tmo rp st sf b s = response_loop n fuel tmo rp st sf True s'"
  using assms(1) check_response_pending [OF assms(2)]
  by (simp add: sbind_run [where m = "isotp_recv fuel (Some (if b then rp else tmo))", OF assms(1)])

lemma response_loop_final:
  assumes "isotp_recv fuel (Some (if b then rp else tmo)) s = (Inr (Some r, False), s')"
    and "check_response st sf r = Inr (Some payload)"
  shows "response_loop (Suc n) fuel tmo rp st sf b s = (Inr payload, s')"
  using assms
  by (simp add: sbind_run [where m = "isotp_recv fuel (Some (if b then rp else tmo))", OF assms(1)] sret_def)

text \<open>The messages that are left, each in its own frames.\<close>

lemma response_loop_messages:
  assumes "isotp_link s" "tx_done s" "rx_dat s = [] \<or> rx_done s"
    and "quiet rxa fuel (if b then rp else tmo) s"
    and "prompt (clock (panda (can_client s))) rp" "rp \<noteq> 0"
    and "\<forall>p\<in>set pends. pending_response p \<and> length p \<le> 4095"
    and "check_response st sf resp = Inr (Some payload)" "length resp \<le> 4095"
    and "inbox rxa (can_client s) = concat (map (isotp_frames 8) (pends @ [resp])) @ rest"
    and "length pends < n"
  shows "\<exists>s'. response_loop n fuel tmo rp st sf b s = (Inr payload, s') \<and> later rxa s s' \<and>
    inbox rxa (can_client s') = rest"
  using assms
proof (induction pends arbitrary: s n b)
  case Nil
  then obtain k where n: "n = Suc k" by (cases n) auto
  have i: "inbox rxa (can_client s) = isotp_frames 8 resp @ rest" using Nil.prems(10) by simp
  obtain s' where s': "isotp_recv fuel (Some (if b then rp else tmo)) s = (Inr (Some resp, False), s')"
    "received rxa (Fresh False) s s' rest"
    using isotp_recv_message [OF Nil.prems(1-3,9,4) i] by blast
  have "later rxa s s' \<and> inbox rxa (can_client s') = rest" using s'(2) by (simp add: received_def)
  with response_loop_final [OF s'(1) Nil.prems(8)] n show ?case by blast
next
  case (Cons p pends)
  then obtain k where n: "n = Suc k" by (cases n) auto
  let ?rest = "concat (map (isotp_frames 8) (pends @ [resp])) @ rest"
  have i: "inbox rxa (can_client s) = isotp_frames 8 p @ ?rest" using Cons.prems(10) by simp
  have p: "length p \<le> 4095" "pending_response p" using Cons.prems(7) by simp_all
  obtain s1 where s1: "isotp_recv fuel (Some (if b then rp else tmo)) s = (Inr (Some p, False), s1)"
    "received rxa (Fresh False) s s1 ?rest"
    using isotp_recv_message [OF Cons.prems(1-3) p(1) Cons.prems(4) i] by blast
  have q: "quiet rxa fuel (if True then rp else tmo) s1"
    using received_quiet [OF s1(2) Cons.prems(4,5,6)] by simp
  have l: "isotp_link s1" "tx_done s1" "rx_dat s1 = [] \<or> rx_done s1" "inbox rxa (can_client s1) = ?rest"
    using s1(2) by (simp_all add: received_def)
  have pr: "prompt (clock (panda (can_client s1))) rp"
    using received_later [OF s1(2)] Cons.prems(5) by (rule later_prompt)
  have ps: "\<forall>p\<in>set pends. pending_response p \<and> length p \<le> 4095" and k: "length pends < k"
    using Cons.prems(7,11) n by simp_all
  obtain s' where "response_loop k fuel tmo rp st sf True s1 = (Inr payload, s')" "later rxa s1 s'"
    "inbox rxa (can_client s') = rest"
    using Cons.IH [OF l(1-3) q pr Cons.prems(6) ps Cons.prems(8,9) l(4) k] by blast
  with response_loop_pending [OF s1(1) p(2)] n later_trans [OF received_later [OF s1(2)]] show ?case
    by auto
qed

lemma isotp_send_conn:
  assumes "conn rxa (can_client s)" "isotp_send dat False s = (r, s')"
  shows "conn_step rxa (can_client s) (can_client s')"
proof -
  have sd: "conn_step rxa (can_client s1) (can_client s2)"
    if "on_client (CanClient_send ms) s1 = (r', s2)" "conn rxa (can_client s1)" for ms s1 s2 and r' :: "unit result"
  proof -
    obtain r1 c1 where c: "send_from 0 ms (can_client s1) = (r1, c1)" by fastforce
    with that(1) have "can_client s2 = c1" by (auto simp: on_client_def on_part_def CanClient_send_def)
    with send_from_conn [OF that(2) c] show ?thesis by simp
  qed
  have "conn_step rxa (can_client (reset_message dat s)) (can_client s')"
    using assms
    by (auto simp: isotp_send_def tx_first_frame_def Let_def reset_message_def conn_step_refl
        dest: sd split: sum.splits if_splits)
  then show ?thesis by (simp add: reset_message_def)
qed

lemma IsoTpMessage_init_plain:
  assumes "plain_link c"
  obtains m where "IsoTpMessage_init c tmo False 0 = Inr m" "isotp_link m" "can_client m = c"
proof -
  have "separation_time_byte 0 = Inr 0" by code_simp
  then have "\<exists>m. IsoTpMessage_init c tmo False 0 = Inr m \<and> isotp_link m \<and> can_client m = c"
    using assms by (simp add: IsoTpMessage_init_def isotp_link_def plain_link_def)
  then show ?thesis using that by blast
qed

text \<open>The first \<^verbatim>\<open>recv\<close> of a request: the flow control frame of a segmented one comes first.\<close>

definition flow_frames :: "bytes \<Rightarrow> byte \<Rightarrow> bytes \<Rightarrow> bytes list" where
  "flow_frames req sep pad = (if length req < 8 then [] else [0x30 # 0 # sep # pad])"

lemma isotp_recv_first:
  assumes "isotp_link m" "isotp_send req False m = (Inr (), s)" "length req \<le> 4095" "length dat \<le> 4095"
    and "conn rxa (can_client m)" "quiet rxa fuel tmo s"
    and "inbox rxa (can_client m) = flow_frames req sep pad @ isotp_frames 8 dat @ rest"
  shows "\<exists>s' fs. isotp_recv fuel (Some tmo) s = (Inr (Some dat, False), s') \<and>
    received rxa (Fresh False) s s' rest \<and> isotp_sent s' = isotp_sent m @ isotp_frames 8 req @ fs"
proof -
  obtain c1 where s: "s = (reset_message req m)\<lparr>can_client := c1, tx_done := (length req < 8)\<rparr>"
    "plain_link c1" "sent c1 = isotp_sent m @ [hd (isotp_frames 8 req)]"
    using isotp_send_first [OF assms(1,3)] assms(2) by auto
  have i: "inbox rxa (can_client s) = flow_frames req sep pad @ isotp_frames 8 dat @ rest"
    using isotp_send_conn [OF assms(5,2)] assms(7) by (simp add: conn_step_def)
  have l: "isotp_link s" "rx_dat s = []" "isotp_sent s = isotp_sent m @ [hd (isotp_frames 8 req)]"
    using s assms(1) by (simp_all add: isotp_link_def reset_message_def)
  show ?thesis
  proof (cases "length req < 8")
    case True
    have "tx_done s" using s(1) True by simp
    then obtain s' where s': "isotp_recv fuel (Some tmo) s = (Inr (Some dat, False), s')"
      "received rxa (Fresh False) s s' rest"
      using isotp_recv_message [of s dat rxa fuel tmo rest] l(1,2) assms(4,6) i True by (auto simp: flow_frames_def)
    moreover obtain fs where "isotp_sent s' = isotp_sent s @ fs"
      using s'(2) by (auto simp: received_def later_def)
    moreover have "isotp_frames 8 req = [hd (isotp_frames 8 req)]" using True by (simp add: isotp_frames_def)
    ultimately show ?thesis using l(3) by auto
  next
    case False
    have st: "\<not> tx_done s" "tx_idx s = 0" "tx_dat s = req" "tx_len s = int (length req)" "\<not> rx_done s"
      using s(1) False by (simp_all add: reset_message_def)
    obtain s' fs where "isotp_recv fuel (Some tmo) s = (Inr (Some dat, False), s')"
      "received rxa (Fresh False) s s' rest" "isotp_sent s' = isotp_sent s @ tl (isotp_frames 8 req) @ fs"
      using isotp_recv_after_flow [OF l(1) st(1-4) _ l(2) st(5) assms(4,6), of sep pad rest] i False
      by (auto simp: flow_frames_def)
    moreover have "isotp_frames 8 req \<noteq> []" by (simp add: isotp_frames_def)
    ultimately show ?thesis using l(3) by (metis append.assoc append_Cons append_Nil list.collapse)
  qed
qed

text \<open>The loop of responses after the request, first message included.\<close>

lemma response_loop_exchange:
  assumes m: "isotp_link m" "isotp_send req False m = (Inr (), s)" "length req \<le> 4095"
      "conn rxa (can_client m)"
    and q: "quiet rxa fuel tmo s" "prompt (clock (panda (can_client s))) rp" "rp \<noteq> 0"
    and p: "\<forall>p\<in>set pends. pending_response p \<and> length p \<le> 4095"
    and r: "check_response st sf resp = Inr (Some payload)" "length resp \<le> 4095"
    and i: "inbox rxa (can_client m) =
      flow_frames req sep pad @ concat (map (isotp_frames 8) (pends @ [resp])) @ rest"
    and n: "length pends < n"
  shows "\<exists>s' fs. response_loop n fuel tmo rp st sf False s = (Inr payload, s') \<and>
      inbox rxa (can_client s') = rest \<and> isotp_sent s' = isotp_sent m @ isotp_frames 8 req @ fs"
proof (cases pends)
  case Nil
  obtain k where k: "n = Suc k" using n by (cases n) auto
  have i1: "inbox rxa (can_client m) = flow_frames req sep pad @ isotp_frames 8 resp @ rest"
    using i Nil by simp
  obtain s' fs where s': "isotp_recv fuel (Some tmo) s = (Inr (Some resp, False), s')"
    "received rxa (Fresh False) s s' rest" "isotp_sent s' = isotp_sent m @ isotp_frames 8 req @ fs"
    using isotp_recv_first [OF m(1-3) r(2) m(4) q(1) i1] by blast
  then show ?thesis
    using response_loop_final [OF _ r(1), where b = False] k
    by (intro exI [of _ s'] exI [of _ fs]) (simp add: received_def)
next
  case (Cons p1 ps)
  obtain k where k: "n = Suc k" using n by (cases n) auto
  let ?rest = "concat (map (isotp_frames 8) (ps @ [resp])) @ rest"
  have i1: "inbox rxa (can_client m) = flow_frames req sep pad @ isotp_frames 8 p1 @ ?rest"
    using i Cons by simp
  have p1: "pending_response p1" "length p1 \<le> 4095" using p Cons by simp_all
  obtain s1 fs where s1: "isotp_recv fuel (Some tmo) s = (Inr (Some p1, False), s1)"
    "received rxa (Fresh False) s s1 ?rest" "isotp_sent s1 = isotp_sent m @ isotp_frames 8 req @ fs"
    using isotp_recv_first [OF m(1-3) p1(2) m(4) q(1) i1] by blast
  have q1: "quiet rxa fuel (if True then rp else tmo) s1"
    using received_quiet [OF s1(2) q] by simp
  have l: "isotp_link s1" "tx_done s1" "rx_dat s1 = [] \<or> rx_done s1" "inbox rxa (can_client s1) = ?rest"
    using s1(2) by (simp_all add: received_def)
  have pr1: "prompt (clock (panda (can_client s1))) rp"
    using received_later [OF s1(2)] q(2) by (rule later_prompt)
  have ps: "\<forall>p\<in>set ps. pending_response p \<and> length p \<le> 4095" "length ps < k"
    using p Cons n k by simp_all
  obtain s' where s': "response_loop k fuel tmo rp st sf True s1 = (Inr payload, s')"
    "later rxa s1 s'" "inbox rxa (can_client s') = rest"
    using response_loop_messages [OF l(1-3) q1 pr1 q(3) ps(1) r l(4) ps(2)] by blast
  have "response_loop n fuel tmo rp st sf False s = (Inr payload, s')"
    using response_loop_pending [OF _ p1(1), where b = False] s1(1) s'(1) k by simp
  moreover obtain fs' where "isotp_sent s' = isotp_sent s1 @ fs'" using s'(2) by (auto simp: later_def)
  ultimately show ?thesis using s'(3) s1(3) by auto
qed

lemma isotp_frames_count: "length xs < length (concat (map (isotp_frames ml) (xs @ [x])))"
  by (induction xs) (auto simp: isotp_frames_def)

text \<open>
  C1: a request reaches the control unit and its answer comes back. On a connection to a physical
  address, whatever other traffic is on the bus and however \<^verbatim>\<open>can_recv\<close> batches it: if the unit
  clears a segmented request with one flow control frame, answers with any number of
  response-pending messages and then with the positive response for \<open>payload\<close>, and no timeout
  passes, the request returns exactly \<open>payload\<close>, leaves later frames of the connection unread,
  and has put the ISO-TP frames of the request on the bus.\<close>

theorem uds_exchange:
  assumes "conn rxa (uds_can u)" "uds_timeout u \<noteq> 0" "response_pending_timeout u \<noteq> 0"
    and "prompt (clock (panda (uds_can u))) (uds_timeout u)"
    and "prompt (clock (panda (uds_can u))) (response_pending_timeout u)"
    and "request_bytes st sf data = Inr req" "length req \<le> 4095"
    and "\<forall>p\<in>set pends. pending_response p \<and> length p \<le> 4095"
    and "request_bytes (st + 0x40) sf (Some payload) = Inr resp" "length resp \<le> 4095" "st \<noteq> 0x3F"
    and "inbox rxa (uds_can u) =
      flow_frames req sep pad @ concat (map (isotp_frames 8) (pends @ [resp])) @ rest"
    and "recv_effort rxa (Fresh False) (uds_can u) < fuel"
  shows "\<exists>u' fs. uds_request fuel st sf data u = (Inr payload, u') \<and>
    inbox rxa (uds_can u') = rest \<and> sent (uds_can u') = sent (uds_can u) @ isotp_frames 8 req @ fs"
proof -
  have plain: "plain_link (uds_can u)" using assms(1) by (simp add: conn_def)
  obtain m where m: "IsoTpMessage_init (uds_can u) (uds_timeout u) False 0 = Inr m" "isotp_link m"
    "can_client m = uds_can u"
    using plain by (rule IsoTpMessage_init_plain)
  obtain s where s: "isotp_send req False m = (Inr (), s)"
    using isotp_send_first [OF m(2) assms(7)] by blast
  have step: "conn_step rxa (uds_can u) (can_client s)"
    using isotp_send_conn [OF _ s, of rxa] m(3) assms(1) by simp
  have q: "quiet rxa fuel (uds_timeout u) s"
    using step assms(2,4,13) by (auto simp: conn_step_def quiet_def recv_effort_def)
  have prp: "prompt (clock (panda (can_client s))) (response_pending_timeout u)"
    using step assms(5) by (simp add: conn_step_def)
  have fuel: "length pends < fuel"
    using isotp_frames_count [of pends 8 resp] assms(12,13) by (simp add: recv_effort_def)
  have cm: "conn rxa (can_client m)" "inbox rxa (can_client m) =
      flow_frames req sep pad @ concat (map (isotp_frames 8) (pends @ [resp])) @ rest"
    using m(3) assms(1,12) by simp_all
  obtain s' fs where s': "response_loop fuel fuel (uds_timeout u) (response_pending_timeout u) st sf False s =
      (Inr payload, s')" "inbox rxa (can_client s') = rest"
    "isotp_sent s' = isotp_sent m @ isotp_frames 8 req @ fs"
    using response_loop_exchange [OF m(2) s assms(7) cm(1) q prp assms(3,8)
        check_response_positive [OF assms(9,11)] assms(10) cm(2) fuel] by blast
  have "uds_request fuel st sf data u = (Inr payload, u\<lparr>uds_can := can_client s'\<rparr>)"
    using m(1) assms(6) s'(1)
    by (simp add: uds_request_def with_message_def sbind_run [where m = "isotp_send req False", OF s])
  with s'(2,3) m(3) show ?thesis by auto
qed

section \<open>A concrete exchange\<close>

text \<open>
  Reading the vehicle identification number: other traffic, a pending response in a read of its
  own, and the response of 20 bytes in three frames, with a later frame behind it.
\<close>

definition vin_response :: bytes where
  "vin_response = [0x62, 0xF1, 0x90] @ map word_of_int [65..81]"

definition vin_panda :: panda where
  "vin_panda =
    \<lparr>rx_script =
       [[(0x123, [1, 2], 0)] @ map (\<lambda>f. (0x7E8, f, 0)) (isotp_frames 8 [0x7F, 0x22, 0x78]), [],
        map (\<lambda>f. (0x7E8, f, 0)) (isotp_frames 8 vin_response) @ [(0x7E8, [3], 0)]],
     tx_log = [], cleared = [], clock = (\<lambda>_. 0), ticks = 0\<rparr>"

definition vin_client :: uds_client where
  "vin_client =
    \<lparr>uds_can = CanClient_init vin_panda 0x7E0 (Some 0x7E8) 0 None None, uds_timeout = 1,
     response_pending_timeout = 10\<rparr>"

lemma isotp_frames_nonempty: "\<forall>f\<in>set (isotp_frames 8 dat). f \<noteq> []"
  by (auto simp: isotp_frames_def ljust_def cf_frame_def be_bytes_2)

lemma frames_data:
  "\<forall>f\<in>set fs. f \<noteq> [] \<Longrightarrow> map frame_data (filter (frame_ok a b) (map (\<lambda>f. (a, f, b)) fs)) = fs"
  by (induction fs) (simp_all add: frame_ok_def frame_data_def)

lemma inbox_frames:
  "map frame_data (filter (frame_ok a b) (map (\<lambda>f. (a, f, b)) (isotp_frames 8 dat))) = isotp_frames 8 dat"
  using frames_data [OF isotp_frames_nonempty] .

lemma uds_exchange_witness:
  "\<exists>u' fs. uds_request 100 0x22 None (Some [0xF1, 0x90]) vin_client = (Inr (tl vin_response), u') \<and>
     inbox 0x7E8 (uds_can u') = [[3]] \<and> sent (uds_can u') = [[3, 0x22, 0xF1, 0x90, 0, 0, 0, 0]] @ fs"
proof -
  let ?c = "uds_can vin_client"
  let ?p = "[0x7F, 0x22, 0x78] :: bytes"
  have c: "conn 0x7E8 ?c" "rx_buff ?c = []" "bus ?c = 0" "panda ?c = vin_panda" "sent ?c = []"
    "uds_timeout vin_client = 1" "response_pending_timeout vin_client = 10"
    by (simp_all add: vin_client_def CanClient_init_def conn_def plain_link_def vin_panda_def sent_def)
  have i: "inbox 0x7E8 ?c = isotp_frames 8 ?p @ isotp_frames 8 vin_response @ [[3]]"
    using c by (simp add: inbox_def vin_panda_def inbox_frames frame_ok_def [of _ _ "(_, _, _)"])
      (simp add: frame_data_def)
  have pr: "prompt (clock (panda ?c)) t" if "0 \<le> t" for t
    using that fl_of_int [of 0] by (simp add: prompt_def c vin_panda_def)
  have len: "length vin_response = 20" by (simp add: vin_response_def)
  have eff: "recv_effort 0x7E8 (Fresh False) ?c < 100"
    by (simp add: recv_effort_def i c(4) vin_panda_def isotp_frames_def len cf_count_def)
  have fr: "isotp_frames 8 [0x22, 0xF1, 0x90] = [[3, 0x22, 0xF1, 0x90, 0, 0, 0, 0]]"
    by (simp add: isotp_frames_def ljust_def numeral_eq_Suc)
  have "\<exists>u' fs. uds_request 100 0x22 None (Some [0xF1, 0x90]) vin_client = (Inr (tl vin_response), u') \<and>
      inbox 0x7E8 (uds_can u') = [[3]] \<and> sent (uds_can u') = sent ?c @ isotp_frames 8 [0x22, 0xF1, 0x90] @ fs"
  proof (rule uds_exchange [where pends = "[?p]" and resp = vin_response])
    show "conn 0x7E8 ?c" by (rule c)
    show "request_bytes 0x22 None (Some [0xF1, 0x90]) = Inr [0x22, 0xF1, 0x90]"
      by (simp add: request_bytes_def)
    show "request_bytes (0x22 + 0x40) None (Some (tl vin_response)) = Inr vin_response"
      by (simp add: request_bytes_def vin_response_def)
    show "\<forall>p\<in>set [?p]. pending_response p \<and> length p \<le> 4095" by (simp add: pending_response_def)
    show "inbox 0x7E8 ?c = flow_frames [0x22, 0xF1, 0x90] 0 [] @
        concat (map (isotp_frames 8) ([?p] @ [vin_response])) @ [[3]]"
      by (simp add: i flow_frames_def)
  qed (use c pr eff len in simp_all)
  then show ?thesis by (simp add: c fr)
qed

end
