(* ===== verification/UdsCorrect.thy ===== *)
theory UdsCorrect
  imports UdsExchange
begin

text \<open>
  Correctness of the request of \<^verbatim>\<open>UdsClient\<close> (\<^verbatim>\<open>opendbc/car/uds.py\<close>) and of the formats of its
  services: which responses are accepted, that every request ends, that silence is a timeout,
  and the round trips of the memory range, the transfer block length, response addresses and
  trouble codes.
\<close>

section \<open>Which responses are accepted\<close>

lemma opt_byte_at_Some: "opt_byte_at xs i = Some n \<longleftrightarrow> i < length xs \<and> uint (xs ! i) = n"
  by (auto simp: opt_byte_at_def)

lemma request_bytes_eq:
  "request_bytes st sf (Some d) = Inr resp \<longleftrightarrow>
   (\<exists>b. uint b = st \<and>
     (case sf of None \<Rightarrow> resp = b # d | Some f \<Rightarrow> \<exists>c. uint c = f \<and> resp = b # c # d))"
  by (auto simp: request_bytes_def ebind_eq_Inr py_byte_eq_Inr split: option.splits)

text \<open>a response is accepted exactly when it is the positive response. For every service but
the one whose positive identifier would be the negative one (0x3F), the data of a response is
returned if and only if the response is the service identifier plus 0x40, the echoed
sub-function where there is one, and that data.\<close>

theorem check_response_accepts:
  assumes "st \<noteq> 0x3F"
  shows "check_response st sf resp = Inr (Some d) \<longleftrightarrow> request_bytes (st + 0x40) sf (Some d) = Inr resp"
proof
  assume "request_bytes (st + 0x40) sf (Some d) = Inr resp"
  then show "check_response st sf resp = Inr (Some d)" using assms by (rule check_response_positive)
next
  assume a: "check_response st sf resp = Inr (Some d)"
  then have sid: "opt_byte_at resp 0 = Some (st + 0x40)"
    and sub: "case sf of None \<Rightarrow> d = drop 1 resp
      | Some f \<Rightarrow> opt_byte_at resp 1 = Some f \<and> d = drop 2 resp"
    by (auto simp: check_response_def Let_def split: if_splits option.splits)
  then obtain b r where r: "resp = b # r" "uint b = st + 0x40"
    by (cases resp) (auto simp: opt_byte_at_Some)
  show "request_bytes (st + 0x40) sf (Some d) = Inr resp"
  proof (cases sf)
    case None
    with sub r show ?thesis by (auto simp: request_bytes_eq)
  next
    case (Some f)
    with sub r show ?thesis by (cases r) (auto simp: request_bytes_eq opt_byte_at_Some)
  qed
qed

lemma check_response_accepts_witness:
  "check_response 0x3E (Some 0) [0x7E, 0, 5] = Inr (Some [5])"
  using check_response_accepts [where st = "0x3E" and sf = "Some 0" and resp = "[0x7E, 0, 5]" and d = "[5]"]
  by (simp add: request_bytes_def)

text \<open>a negative response is never taken for data. Whatever the request, a response that starts
with 0x7F makes the client wait when its code is 0x78, and otherwise raises
\<^verbatim>\<open>NegativeResponseError\<close> with the service and the code of the response (-1 where it is too short).\<close>

theorem check_response_negative:
  fixes tail :: bytes
  shows "\<exists>msg. check_response st sf (0x7F # tail) =
    (if 2 \<le> length tail \<and> uint (tail ! 1) = 0x78 then Inr None
     else Inl (NegativeResponseError msg
       (if 1 \<le> length tail then uint (tail ! 0) else - 1)
       (if 2 \<le> length tail then uint (tail ! 1) else - 1)))"
proof (cases tail)
  case Nil
  then show ?thesis by (simp add: check_response_def opt_byte_at_def Let_def)
next
  case (Cons a t)
  then show ?thesis by (cases t) (simp_all add: check_response_def opt_byte_at_def Let_def)
qed

section \<open>Every request ends\<close>

text \<open>A result that is there with some fuel is the same with more.\<close>

lemma sbind_mono:
  assumes "fst (sbind m f s) \<noteq> Inl OutOfFuel"
    and "\<And>x s'. m s = (Inr x, s') \<Longrightarrow> fst (f x s') \<noteq> Inl OutOfFuel \<Longrightarrow> g x s' = f x s'"
  shows "sbind m g s = sbind m f s"
  using assms by (auto simp: sbind_def split: prod.splits sum.splits)

lemma isotp_recv_loop_mono:
  "fst (isotp_recv_loop n tmo start prog gen s) \<noteq> Inl OutOfFuel \<Longrightarrow> n \<le> k \<Longrightarrow>
   isotp_recv_loop k tmo start prog gen s = isotp_recv_loop n tmo start prog gen s"
proof (induction n arbitrary: k start prog gen s)
  case 0
  then show ?case by (simp add: sraise_def)
next
  case (Suc n)
  then obtain k' where k: "k = Suc k'" "n \<le> k'" by (cases k) auto
  show ?case
    unfolding k isotp_recv_loop.simps
  proof (rule sbind_mono, goal_cases)
    case 1
    then show ?case using Suc.prems(1) by simp
  next
    case (2 x s1)
    show ?case
    proof (cases x)
      case None
      show ?thesis
      proof (cases "tmo = 0")
        case True
        then show ?thesis using None by simp
      next
        case False
        show ?thesis
          using 2(2) unfolding None option.case if_not_P [OF False]
          by (rule sbind_mono) (simp add: Suc.IH [OF _ k(2)] split: if_splits)
      qed
    next
      case (Some p)
      obtain msg gen' where p: "p = (msg, gen')" by (cases p)
      show ?thesis
        using 2(2) unfolding Some p option.case prod.case
      proof (rule sbind_mono, goal_cases)
        case (1 ft s2)
        from 1(2) show ?case
          by (rule sbind_mono) (simp add: Suc.IH [OF _ k(2)] split: if_splits)
      qed
    qed
  qed
qed

lemma isotp_recv_mono:
  assumes "fst (isotp_recv n tmo s) \<noteq> Inl OutOfFuel" "n \<le> k"
  shows "isotp_recv k tmo s = isotp_recv n tmo s"
  using assms unfolding isotp_recv_def by (intro sbind_mono isotp_recv_loop_mono) auto

text \<open>A response has used up at least one of the frames that were waiting.\<close>

lemma recv_next_pending: "recv_next g c = (r, c') \<Longrightarrow> pending c' \<le> pending c"
  by (cases g) (auto simp: sbind_def pop_buff_def pending_def dest!: recv_buffer_pending
      split: prod.splits sum.splits list.splits)

lemma isotp_recv_loop_pending:
  "isotp_recv_loop n tmo start prog gen s = (r, s') \<Longrightarrow>
   clock (panda (can_client s')) = clock (panda (can_client s)) \<and>
   pending (can_client s') \<le> pending (can_client s) \<and>
   (\<forall>d b. r = Inr (Some d, b) \<longrightarrow> pending (can_client s') < pending (can_client s)) \<and>
   (\<forall>b. r = Inr (None, b) \<longrightarrow> tmo = 0)"
proof (induction n arbitrary: start prog gen s)
  case 0
  then show ?case by (auto simp: sraise_def)
next
  case (Suc n)
  obtain r1 s1 where rn: "on_client (recv_next gen) s = (r1, s1)" by fastforce
  note f = on_client_recv_next [OF rn]
  have p1: "pending (can_client s1) \<le> pending (can_client s)"
    using rn recv_next_pending by (auto simp: on_client_def on_part_def split: prod.splits)
  show ?case
  proof (cases r1)
    case (Inl e)
    with Suc.prems rn f p1 show ?thesis by (auto simp: sbind_def)
  next
    case (Inr x)
    show ?thesis
    proof (cases x)
      case None
      obtain t s2 where now: "isotp_now s1 = (Inr t, s2)"
        and s2: "clock (panda (can_client s2)) = clock (panda (can_client s1))"
          "pending (can_client s2) = pending (can_client s1)"
        by (simp add: isotp_now_run pending_def)
      show ?thesis
        using Suc.prems rn Inr None f p1 s2 Suc.IH [of start prog "CanClient_recv False" s2]
        by (auto simp: sbind_def now sret_def sraise_def split: if_splits)
    next
      case (Some p)
      then obtain d g where p: "x = Some (d, g)" by (cases p) auto
      then have lt: "pending (can_client s1) < pending (can_client s)" using f Inr by auto
      obtain r2 s2 where nx: "isotp_rx_next d s1 = (r2, s2)" by fastforce
      have ok: "rx_frame_ok s1 (r2, s2)" using isotp_rx_next_frame [of s1 d] nx by simp
      obtain t s3 where now: "isotp_now s2 = (Inr t, s3)"
        and s3: "clock (panda (can_client s3)) = clock (panda (can_client s2))"
          "pending (can_client s3) = pending (can_client s2)"
        by (simp add: isotp_now_run pending_def)
      have le: "pending (can_client s3) < pending (can_client s)"
        "clock (panda (can_client s3)) = clock (panda (can_client s))"
        "pending (can_client s2) < pending (can_client s)"
        "clock (panda (can_client s2)) = clock (panda (can_client s))"
        using s3 ok lt f by (simp_all add: rx_frame_ok_def)
      show ?thesis
      proof (cases r2)
        case (Inl e)
        with Suc.prems rn \<open>r1 = Inr x\<close> p nx le show ?thesis by (auto simp: sbind_def)
      next
        case (Inr ft)
        have "(r, s') = (if tx_done s3 \<and> rx_done s3 then (Inr (Some (rx_dat s3), False), s3)
            else isotp_recv_loop n tmo t (ft \<in> {FIRST, CONSECUTIVE}) g s3)"
          using Suc.prems rn \<open>r1 = Inr x\<close> p nx Inr now by (simp add: sbind_def)
        then show ?thesis
          using Suc.IH [of t "ft \<in> {FIRST, CONSECUTIVE}" g s3] le
          by (cases "tx_done s3 \<and> rx_done s3") (auto simp: le(2))
      qed
    qed
  qed
qed

lemma isotp_recv_pending:
  assumes "isotp_recv n (Some tmo) s = (r, s')"
  shows "clock (panda (can_client s')) = clock (panda (can_client s)) \<and>
   (\<forall>d b. r = Inr (Some d, b) \<longrightarrow> pending (can_client s') < pending (can_client s)) \<and>
   (\<forall>b. r = Inr (None, b) \<longrightarrow> tmo = 0)"
proof -
  obtain t s1 where now: "isotp_now s = (Inr t, s1)"
    and s1: "clock (panda (can_client s1)) = clock (panda (can_client s))"
      "pending (can_client s1) = pending (can_client s)"
    by (simp add: isotp_now_run pending_def)
  have "isotp_recv_loop n tmo t False (CanClient_recv False) s1 = (r, s')"
    using assms by (simp add: isotp_recv_def sbind_run [where m = isotp_now, OF now])
  from isotp_recv_loop_pending [OF this] s1 show ?thesis by auto
qed

lemma check_response_no_fuel: "check_response st sf r \<noteq> Inl OutOfFuel"
  by (simp add: check_response_def Let_def split: option.splits)

lemma response_loop_returns:
  assumes "clock_advances (clock (panda (can_client s)))" "tmo \<noteq> 0" "rp \<noteq> 0"
  shows "\<exists>n. \<forall>k\<ge>n. \<forall>fuel\<ge>n. fst (response_loop k fuel tmo rp st sf b s) \<noteq> Inl OutOfFuel"
  using assms(1)
proof (induction "pending (can_client s)" arbitrary: s b rule: less_induct)
  case less
  let ?t = "if b then rp else tmo"
  obtain N where N: "\<forall>fuel\<ge>N. fst (isotp_recv fuel (Some ?t) s) \<noteq> Inl OutOfFuel"
    using isotp_recv_returns [OF less.prems] by blast
  obtain r s1 where r: "isotp_recv N (Some ?t) s = (r, s1)" by fastforce
  have same: "isotp_recv fuel (Some ?t) s = (r, s1)" if "N \<le> fuel" for fuel
    using isotp_recv_mono [OF _ that, of "Some ?t" s] N r by auto
  have step: "response_loop (Suc k) fuel tmo rp st sf b s =
      (case r of Inl e \<Rightarrow> (Inl e, s1)
       | Inr (resp, _) \<Rightarrow> (case resp of
           None \<Rightarrow> response_loop k fuel tmo rp st sf b s1
         | Some d \<Rightarrow> (case check_response st sf d of Inl e \<Rightarrow> (Inl e, s1)
             | Inr None \<Rightarrow> response_loop k fuel tmo rp st sf True s1
             | Inr (Some p) \<Rightarrow> (Inr p, s1))))" if "N \<le> fuel" for k fuel
    using same [OF that] by (auto simp: sbind_def slift_def sret_def split: sum.splits option.splits)
  note fr = isotp_recv_pending [OF r]
  have noof: "r \<noteq> Inl OutOfFuel" using N r by auto
  have tmo: "?t \<noteq> 0" using assms(2,3) by simp
  show ?case
  proof (cases "\<exists>d fl. r = Inr (Some d, fl) \<and> check_response st sf d = Inr None")
    case True
    then obtain d fl where d: "r = Inr (Some d, fl)" "check_response st sf d = Inr None" by blast
    then have lt: "pending (can_client s1) < pending (can_client s)" using fr by blast
    have clk: "clock_advances (clock (panda (can_client s1)))" using fr less.prems by simp
    obtain n where n: "\<forall>k\<ge>n. \<forall>fuel\<ge>n. fst (response_loop k fuel tmo rp st sf True s1) \<noteq> Inl OutOfFuel"
      using less.hyps [OF lt clk, of True] by blast
    have "fst (response_loop k fuel tmo rp st sf b s) \<noteq> Inl OutOfFuel"
      if k: "Suc (N + n) \<le> k" "Suc (N + n) \<le> fuel" for k fuel
      using k n d step [of fuel "k - 1"] by (cases k) auto
    then show ?thesis by blast
  next
    case False
    have "fst (response_loop k fuel tmo rp st sf b s) \<noteq> Inl OutOfFuel"
      if k: "Suc N \<le> k" "Suc N \<le> fuel" for k fuel
      using k noof False fr tmo step [of fuel "k - 1"] check_response_no_fuel
      by (cases k; cases r) (auto split: option.splits sum.splits)
    then show ?thesis by blast
  qed
qed

lemma with_message_fst: "fst (with_message m act u) = fst (act m)"
  by (simp add: with_message_def split: prod.splits)

lemma separation_time_byte_0: "separation_time_byte 0 = Inr 0"
  by code_simp

lemma IsoTpMessage_init_0:
  obtains m where "IsoTpMessage_init c tmo False 0 = Inr m" "can_client m = c"
  by (auto simp: IsoTpMessage_init_def separation_time_byte_0 Let_def)

lemma isotp_send_frame:
  assumes "isotp_send dat so m = (r, s)"
  shows "r \<noteq> Inl OutOfFuel \<and> clock (panda (can_client s)) = clock (panda (can_client m)) \<and>
    pending (can_client s) \<le> pending (can_client m)"
  using assms
  by (auto simp: isotp_send_def tx_first_frame_def reset_message_def Let_def py_byte_def pack_be_def
      dest: on_client_frame split: sum.splits if_splits)

lemma request_bytes_no_fuel: "request_bytes st sf d \<noteq> Inl OutOfFuel"
  by (auto simp: request_bytes_def ebind_eq_Inl py_byte_def split: option.splits if_splits)

text \<open>C10: every request ends. With non-zero timeouts and a clock that advances, whatever frames the
panda delivers - including any number of response-pending messages - there is a number of turns
after which the request has returned or raised.\<close>

theorem uds_request_returns:
  assumes "clock_advances (clock (panda (uds_can u)))"
    and "uds_timeout u \<noteq> 0" "response_pending_timeout u \<noteq> 0"
  shows "\<exists>n. \<forall>fuel\<ge>n. fst (uds_request fuel st sf data u) \<noteq> Inl OutOfFuel"
proof (cases "request_bytes st sf data")
  case (Inl e)
  then show ?thesis using request_bytes_no_fuel [of st sf data] by (simp add: uds_request_def)
next
  case (Inr req)
  obtain m where m: "IsoTpMessage_init (uds_can u) (uds_timeout u) False 0 = Inr m" "can_client m = uds_can u"
    by (rule IsoTpMessage_init_0)
  obtain r s where s: "isotp_send req False m = (r, s)" by fastforce
  note f = isotp_send_frame [OF s]
  have clk: "clock_advances (clock (panda (can_client s)))" using f m(2) assms(1) by simp
  obtain n where n: "\<forall>k\<ge>n. \<forall>fuel\<ge>n. fst (response_loop k fuel (uds_timeout u)
      (response_pending_timeout u) st sf False s) \<noteq> Inl OutOfFuel"
    using response_loop_returns [OF clk assms(2,3)] by blast
  have "fst (uds_request fuel st sf data u) \<noteq> Inl OutOfFuel" if "n \<le> fuel" for fuel
    using that n f Inr m(1) s
    by (cases r) (auto simp: uds_request_def with_message_fst sbind_def)
  then show ?thesis by blast
qed

lemma uds_request_returns_witness:
  "\<exists>n. \<forall>fuel\<ge>n. fst (uds_request fuel 0x3E (Some 0) None
     \<lparr>uds_can = idle_client, uds_timeout = 1, response_pending_timeout = 10\<rparr>) \<noteq> Inl OutOfFuel"
  by (rule uds_request_returns) simp_all

section \<open>Silence is a timeout\<close>

lemma recv_calls_silent: "\<forall>ms\<in>set sc. ms = [] \<Longrightarrow> \<exists>c'. recv_calls d sc c = (Inr (), c')"
  by (cases sc) (auto simp: Let_def)

lemma pending_0: "pending c = 0 \<longleftrightarrow> rx_buff c = [] \<and> (\<forall>ms\<in>set (rx_script (panda c)). ms = [])"
  by (auto simp: pending_def)

lemma recv_next_silent:
  assumes "pending c = 0"
  shows "\<exists>c'. recv_next g c = (Inr None, c') \<and> pending c' = 0 \<and> clock (panda c') = clock (panda c) \<and>
    ticks (panda c') = ticks (panda c)"
proof (cases g)
  case Resumed
  with assms show ?thesis by (simp add: pop_buff_def pending_0)
next
  case (Fresh d)
  obtain c1 where c1: "recv_buffer d c = (Inr (), c1)"
    using recv_calls_silent assms by (fastforce simp: recv_buffer_def pending_0)
  have "pending c1 = 0" using recv_buffer_pending [OF c1] assms by simp
  with recv_buffer_link [OF c1] c1 Fresh show ?thesis
    by (simp add: sbind_def pop_buff_def pending_0 same_link_def)
qed

lemma isotp_recv_loop_silent:
  "pending (can_client s) = 0 \<Longrightarrow> tmo \<noteq> 0 \<Longrightarrow>
   fst (isotp_recv_loop n tmo start prog gen s) \<in> {Inl OutOfFuel, Inl MessageTimeoutError}"
proof (induction n arbitrary: prog gen s)
  case 0
  then show ?case by (simp add: sraise_def)
next
  case (Suc n)
  obtain c' where c': "recv_next gen (can_client s) = (Inr None, c')" "pending c' = 0"
    using recv_next_silent [OF Suc.prems(1)] by blast
  have o: "on_client (recv_next gen) s = (Inr None, s\<lparr>can_client := c'\<rparr>)"
    using c'(1) by (simp add: on_client_def on_part_def)
  obtain t s2 where now: "isotp_now (s\<lparr>can_client := c'\<rparr>) = (Inr t, s2)" and s2: "pending (can_client s2) = 0"
    using c'(2) by (simp add: isotp_now_run pending_def)
  show ?case
    using Suc.IH [OF s2 Suc.prems(2), of prog "CanClient_recv False"] Suc.prems(2)
    by (auto simp: sbind_run [where m = "on_client (recv_next gen)", OF o]
        sbind_run [where m = isotp_now, OF now] sraise_def)
qed

text \<open>silence is a timeout. When no frame is waiting or arrives, a request that can be sent
raises \<^verbatim>\<open>MessageTimeoutError\<close>: it neither hangs nor returns data.\<close>

theorem uds_silent_times_out:
  assumes "pending (uds_can u) = 0" "plain_link (uds_can u)"
    and "clock_advances (clock (panda (uds_can u)))" "uds_timeout u \<noteq> 0"
    and "request_bytes st sf data = Inr req" "length req \<le> 4095"
  shows "\<exists>n. \<forall>fuel\<ge>n. fst (uds_request fuel st sf data u) = Inl MessageTimeoutError"
proof -
  obtain m where m: "IsoTpMessage_init (uds_can u) (uds_timeout u) False 0 = Inr m" "isotp_link m"
    "can_client m = uds_can u"
    using assms(2) by (rule IsoTpMessage_init_plain)
  obtain s where s: "isotp_send req False m = (Inr (), s)"
    using isotp_send_first [OF m(2) assms(6)] by blast
  have p: "pending (can_client s) = 0" "clock_advances (clock (panda (can_client s)))"
    using isotp_send_frame [OF s] m(3) assms(1,3) by simp_all
  obtain t s1 where now: "isotp_now s = (Inr t, s1)"
    and s1: "clock (panda (can_client s1)) = clock (panda (can_client s))" "pending (can_client s1) = 0"
    using p(1) by (simp add: isotp_now_run pending_def)
  let ?loop = "\<lambda>fuel. isotp_recv_loop fuel (uds_timeout u) t False (CanClient_recv False) s1"
  obtain n where "\<forall>fuel\<ge>n. fst (?loop fuel) \<noteq> Inl OutOfFuel"
    using isotp_recv_loop_returns [of s1 "uds_timeout u" t False "CanClient_recv False"] s1 p by auto
  then have to: "fst (?loop fuel) = Inl MessageTimeoutError" if "n \<le> fuel" for fuel
    using isotp_recv_loop_silent [OF s1(2) assms(4), of fuel t False "CanClient_recv False"] that by auto
  have "fst (uds_request fuel st sf data u) = Inl MessageTimeoutError" if k: "Suc n \<le> fuel" for fuel
  proof -
    obtain k where k: "fuel = Suc k" "n \<le> fuel" using k by (cases fuel) auto
    obtain s2 where l: "?loop fuel = (Inl MessageTimeoutError, s2)" using to [OF k(2)] by (metis prod.collapse)
    have r: "isotp_recv fuel (Some (uds_timeout u)) s = (Inl MessageTimeoutError, s2)"
      using l by (simp add: isotp_recv_def sbind_run [where m = isotp_now, OF now])
    have "response_loop fuel fuel (uds_timeout u) (response_pending_timeout u) st sf False s =
        (Inl MessageTimeoutError, s2)"
      unfolding k(1) response_loop.simps using r unfolding k(1)
      by (simp add: sbind_fail [where m = "isotp_recv (Suc k) (Some (uds_timeout u))"])
    then show ?thesis
      using m(1) assms(5)
      by (simp add: uds_request_def with_message_fst sbind_run [where m = "isotp_send req False", OF s])
  qed
  then show ?thesis by blast
qed

lemma uds_silent_times_out_witness:
  "\<exists>n. \<forall>fuel\<ge>n. fst (uds_request fuel 0x3E (Some 0) None
     \<lparr>uds_can = idle_client, uds_timeout = 1, response_pending_timeout = 10\<rparr>) = Inl MessageTimeoutError"
  by (rule uds_silent_times_out [where req = "[0x3E, 0]"])
    (simp_all add: request_bytes_def pending_def, simp_all add: idle_client_def idle_panda_def CanClient_init_def)

section \<open>Formats of the services\<close>

text \<open>A memory range as the format byte announces it: the nibbles are the lengths of the fields.\<close>

definition read_memory_range :: "bytes \<Rightarrow> (int \<times> int) option" where
  "read_memory_range bs = (case bs of [] \<Rightarrow> None | f # r \<Rightarrow>
     (let ab = nat (uint f mod 16); sb = nat (uint f div 16)
      in if length r = ab + sb then Some (be_int (take ab r), be_int (drop ab r)) else None))"

lemma pow_256: "(256::int) ^ n = 2 ^ (n * 8)"
  by (simp add: mult.commute [of n] power_mult)

lemma drop_be_bytes: "k \<le> n \<Longrightarrow> drop (n - k) (be_bytes n v) = be_bytes k v"
proof (induction n arbitrary: k v)
  case (Suc n)
  show ?case
  proof (cases k)
    case 0
    then show ?thesis by simp
  next
    case (Suc j)
    with Suc.prems Suc.IH [of j "v div 256"] show ?thesis by simp
  qed
qed simp

lemma memory_field_ok:
  assumes "1 \<le> n" "n \<le> 4" "0 \<le> v" "v < 2 ^ nat (n * 8)"
  shows "memory_field v n = Inr (be_bytes (nat n) v)"
proof -
  have "(2::int) ^ nat (n * 8) \<le> 2 ^ 32" using assms(2) by (intro power_increasing) auto
  then have "v < 256 ^ 4" using assms(4) by simp
  moreover have "nat (4 - n) = 4 - nat n" using assms(1,2) by simp
  ultimately show ?thesis
    using assms drop_be_bytes [of "nat n" 4 v]
    by (simp add: memory_field_def push_bit_eq_mult pack_be_def not_le)
qed

text \<open>a memory range is encoded exactly. For field lengths of 1 to 4 bytes and values that fit
them, the request data has the length the format byte announces, and reading it back by the
nibbles of that byte gives the address and the size.\<close>

theorem memory_data_round_trip:
  assumes "1 \<le> ab" "ab \<le> 4" "1 \<le> sb" "sb \<le> 4"
    and "0 \<le> address" "address < 2 ^ nat (ab * 8)" "0 \<le> nbytes" "nbytes < 2 ^ nat (sb * 8)"
  shows "\<exists>bs. memory_data address nbytes ab sb = Inr bs \<and> length bs = 1 + nat ab + nat sb \<and>
    read_memory_range bs = Some (address, nbytes)"
proof -
  obtain f where f: "f = (word_of_int (sb * 16 + ab) :: byte)" by simp
  have "push_bit 4 sb OR ab = sb * 16 + ab" using or_add_disjoint [of ab 4 sb] assms(1,2) by simp
  moreover have b: "0 \<le> sb * 16 + ab" "sb * 16 + ab < 256" using assms by linarith+
  ultimately have fb: "py_bytes [push_bit 4 sb OR ab] = Inr [f]" by (simp add: f)
  have uf: "uint f = sb * 16 + ab" using b by (simp only: f uint_of_int_byte mod_pos_pos_trivial)
  have lo: "uint f mod 16 = ab" and hi: "uint f div 16 = sb" unfolding uf using assms by simp_all
  have p: "256 ^ nat n = (2::int) ^ nat (n * 8)" if "0 \<le> n" for n
    using that pow_256 [of "nat n"] by (simp add: nat_mult_distrib)
  have "memory_data address nbytes ab sb = Inr (f # be_bytes (nat ab) address @ be_bytes (nat sb) nbytes)"
    using memory_field_ok [of ab address] memory_field_ok [of sb nbytes] assms
    by (simp add: memory_data_def fb del: py_bytes_simps)
  then show ?thesis
    using assms by (simp add: read_memory_range_def lo hi be_int_bytes p)
qed

lemma memory_data_round_trip_witness:
  "\<exists>bs. memory_data 0x12345678 0x100 4 2 = Inr bs \<and> length bs = 7 \<and>
    read_memory_range bs = Some (0x12345678, 0x100)"
  using memory_data_round_trip [of 4 2 "0x12345678" "0x100"] by simp

text \<open>the transfer block length. \<^verbatim>\<open>request_download\<close> and \<^verbatim>\<open>request_upload\<close> accept exactly the
responses that announce 1 to 4 length bytes and carry at least as many, and return the
big-endian number in them, which fits that many bytes.\<close>

theorem parse_max_num_bytes_result:
  "parse_max_num_bytes resp = Inr v \<longleftrightarrow>
   (\<exists>f r n. resp = f # r \<and> n = nat (uint f div 16) \<and> 1 \<le> n \<and> n \<le> 4 \<and> n \<le> length r \<and>
      v = be_int (take n r) \<and> 0 \<le> v \<and> v < 256 ^ n)"
proof (cases resp)
  case Nil
  then show ?thesis by (simp add: parse_max_num_bytes_def)
next
  case (Cons f r)
  obtain n where n: "uint f div 16 = int n" by (metis pos_imp_zdiv_nonneg_iff uint_ge_0 zero_less_numeral zero_le_imp_eq_int)
  have z: "be_int (replicate k 0 @ bs) = be_int bs" for k bs
    by (induction k) (simp_all add: be_int_Cons)
  have sl: "py_slice resp 1 (int n + 1) = take n r"
    using py_slice_of_nat [of resp 1 "n + 1"] Cons by (simp add: add.commute)
  have "be_int (take n r) < 256 ^ n" if "n \<le> length r"
    using be_int_lt [of "take n r"] that by (simp add: min_absorb2)
  then show ?thesis
    using n sl Cons by (auto simp: parse_max_num_bytes_def unpack_be_def drop_bit_4 z Let_def)
qed

lemma and_push_bit: "x AND push_bit k m = push_bit k (drop_bit k x AND m)" for x m :: int
  by (rule bit_eqI) (auto simp: bit_simps)

lemma and_65535: "(x::int) AND 65535 = x mod 65536"
proof -
  have "x AND mask 16 = take_bit 16 x" by (simp add: take_bit_eq_mask)
  then show ?thesis by (simp add: take_bit_int_def mask_eq_exp_minus_1)
qed

lemma push_8_and: "push_bit 8 x AND 0xFF00 = x mod 256 * (256::int)"
  using and_push_bit [of "push_bit 8 x" 8 "0xFF"] by (simp add: push_bit_eq_mult drop_bit_eq_div and_255)

lemma and_high_16: "x AND 0xFFFF0000 = x div 0x10000 mod 0x10000 * (0x10000::int)"
  using and_push_bit [of x 16 "0xFFFF"] by (simp add: push_bit_eq_mult drop_bit_eq_div and_65535)

lemma rx_addr_bytes:
  assumes "0x10000000 < x" "x < 0xFFFFFFFF" "x \<noteq> 0x18DB33F1"
  shows "get_rx_addr_for_tx_addr x k =
    Inr (Some (x div 0x10000 mod 0x10000 * 0x10000 + x mod 256 * 0x100 + x div 256 mod 256))"
  using assms
  by (simp add: get_rx_addr_for_tx_addr_def FUNCTIONAL_ADDRS_def push_8_and and_high_16 and_255 drop_bit_eq_div)

text \<open>29-bit response addresses swap source and target, so the unit's answer goes back where
the request came from: for every tester address whose two low bytes are \<open>t\<close> and \<open>s\<close>, the
response address has them swapped, and taking the response address twice gives the address
back - unless the swapped one is the functional address.\<close>

theorem rx_addr_29bit:
  assumes "0 \<le> t" "t < 256" "0 \<le> s" "s < 256" "0x1000 < h" "h < 0xFFFF"
    and "h * 0x10000 + t * 0x100 + s \<noteq> 0x18DB33F1" "h * 0x10000 + s * 0x100 + t \<noteq> 0x18DB33F1"
  shows "get_rx_addr_for_tx_addr (h * 0x10000 + t * 0x100 + s) k =
      Inr (Some (h * 0x10000 + s * 0x100 + t)) \<and>
    get_rx_addr_for_tx_addr (h * 0x10000 + s * 0x100 + t) k =
      Inr (Some (h * 0x10000 + t * 0x100 + s))"
proof -
  have "get_rx_addr_for_tx_addr (h * 0x10000 + a * 0x100 + b) k = Inr (Some (h * 0x10000 + b * 0x100 + a))"
    if ab: "0 \<le> a" "a < 256" "0 \<le> b" "b < 256" "h * 0x10000 + a * 0x100 + b \<noteq> 0x18DB33F1" for a b
  proof -
    let ?x = "h * 0x10000 + a * 0x100 + b"
    have x: "?x = (h * 256 + a) * 256 + b" by simp
    have dm: "(x * 256 + y) div 256 = x" "(x * 256 + y) mod 256 = y" if "0 \<le> y" "y < 256" for x y :: int
      using that by simp_all
    have lo: "?x div 256 mod 256 = a" "?x mod 256 = b"
      unfolding x dm [OF ab(3,4)] by (rule dm(2) [OF ab(1,2)], rule refl)
    have "?x div 0x10000 = h" using ab by linarith
    then have hi: "?x div 0x10000 mod 0x10000 = h" using assms(5,6) by simp
    have rg: "0x10000000 < ?x" "?x < 0xFFFFFFFF" using assms(5,6) ab by linarith+
    from rx_addr_bytes [OF rg ab(5)] show ?thesis unfolding hi lo .
  qed
  then show ?thesis using assms by simp
qed

lemma rx_addr_29bit_witness:
  "get_rx_addr_for_tx_addr (0x18DA * 0x10000 + 0x10 * 0x100 + 0xF1) 8 =
      Inr (Some (0x18DA * 0x10000 + 0xF1 * 0x100 + 0x10)) \<and>
    get_rx_addr_for_tx_addr (0x18DA * 0x10000 + 0xF1 * 0x100 + 0x10) 8 =
      Inr (Some (0x18DA * 0x10000 + 0x10 * 0x100 + 0xF1))"
  by (rule rx_addr_29bit) simp_all

text \<open>Trouble codes: the two hexadecimal digits of a byte determine it.\<close>

lemma hex_digit_inj:
  assumes "0 \<le> m" "m < 16" "0 \<le> n" "n < 16" "hex_digit m = hex_digit n"
  shows "m = n"
proof -
  have d: "distinct ''0123456789abcdef''" by simp
  have "nat m < length ''0123456789abcdef''" "nat n < length ''0123456789abcdef''" using assms by simp_all
  with d assms(5) have "nat m = nat n" by (simp only: hex_digit_def nth_eq_iff_index_eq)
  with assms show ?thesis by simp
qed

lemma hex_bytes_Cons:
  "hex_bytes (b # bs) = hex_digit (uint b div 16) # hex_digit (uint b mod 16) # hex_bytes bs"
  by (simp add: hex_bytes_def)

lemma hex_bytes_inj: "hex_bytes xs = hex_bytes ys \<Longrightarrow> xs = ys"
proof (induction xs arbitrary: ys)
  case Nil
  then show ?case by (cases ys) (simp_all add: hex_bytes_def)
next
  case (Cons x xs)
  then obtain y zs where ys: "ys = y # zs" by (cases ys) (simp_all add: hex_bytes_def)
  have nb: "0 \<le> uint b div 16" "uint b div 16 < 16" "0 \<le> uint b mod 16" "uint b mod 16 < 16" for b :: byte
    using uint_byte_lt [of b] uint_ge_0 [of b] byte_high_nibble [of b] by (simp_all add: pos_imp_zdiv_nonneg_iff)
  have "uint x div 16 = uint y div 16" "uint x mod 16 = uint y mod 16"
    using Cons.prems hex_digit_inj nb by (simp_all add: ys hex_bytes_Cons)
  then have "uint x = uint y" by (metis div_mult_mod_eq)
  then have "x = y" by (rule word_uint_eqI)
  then show ?case using Cons by (simp add: ys hex_bytes_Cons)
qed

lemma dtc_designator_inj:
  "dtc_designator m = Inr d \<Longrightarrow> dtc_designator n = Inr d' \<Longrightarrow> hd d = hd d' \<Longrightarrow> m = n \<and> length d = 1 \<and> length d' = 1"
  by (auto simp: dtc_designator_def split: if_splits)

lemma and_0x3F: "(x::int) AND 0x3F = x mod 64"
proof -
  have "x AND mask 6 = take_bit 6 x" by (simp add: take_bit_eq_mask)
  then show ?thesis by (simp add: take_bit_int_def mask_eq_exp_minus_1)
qed

lemma get_dtc_num_as_str_Cons:
  "\<exists>d. dtc_designator (uint b div 64) = Inr d \<and> length d = 1 \<and>
     get_dtc_num_as_str (b # bs) = Inr (d @ hex_bytes (word_of_int (uint b mod 64) # bs))"
proof -
  have "0 \<le> uint b div 64" "uint b div 64 < 4" using uint_byte_lt [of b] uint_ge_0 [of b] by linarith+
  then have "uint b div 64 \<in> {0, 1, 2, 3}" by auto
  then obtain d where d: "dtc_designator (uint b div 64) = Inr d" "length d = 1"
    by (auto simp: dtc_designator_def)
  have "uint b mod 64 < 256" by (rule less_trans [of _ 64]) simp_all
  with d show ?thesis by (simp add: get_dtc_num_as_str_def drop_bit_eq_div and_0x3F)
qed

text \<open>trouble codes are named unambiguously. Every non-empty code has a name - a designator
letter and two digits per byte - and two codes with the same name are equal.\<close>

theorem dtc_name_unique:
  fixes a b :: bytes
  assumes "a \<noteq> []" "b \<noteq> []"
  shows "\<exists>s. get_dtc_num_as_str a = Inr s \<and> length s = 1 + 2 * length a \<and>
    (get_dtc_num_as_str b = Inr s \<longrightarrow> a = b)"
proof -
  obtain x xs y ys where ab: "a = x # xs" "b = y # ys" using assms by (meson neq_Nil_conv)
  obtain d where d: "dtc_designator (uint x div 64) = Inr d" "length d = 1"
    "get_dtc_num_as_str a = Inr (d @ hex_bytes (word_of_int (uint x mod 64) # xs))"
    using get_dtc_num_as_str_Cons [of x xs] ab by auto
  obtain e where e: "dtc_designator (uint y div 64) = Inr e" "length e = 1"
    "get_dtc_num_as_str b = Inr (e @ hex_bytes (word_of_int (uint y mod 64) # ys))"
    using get_dtc_num_as_str_Cons [of y ys] ab by auto
  have "a = b" if eq: "get_dtc_num_as_str b = get_dtc_num_as_str a"
  proof -
    have p: "e = d" "(word_of_int (uint y mod 64) :: byte) # ys = word_of_int (uint x mod 64) # xs"
      using eq d e by (auto dest: hex_bytes_inj)
    then have "uint y div 64 = uint x div 64" using dtc_designator_inj [OF e(1) d(1)] by simp
    moreover have "uint y mod 64 mod 256 = uint x mod 64 mod 256"
      using p(2) by (metis list.inject uint_of_int_byte)
    then have "uint y mod 64 = uint x mod 64" by (simp add: mod_mod_cancel)
    ultimately have "uint y = uint x" by (metis div_mult_mod_eq)
    then have "y = x" by (rule word_uint_eqI)
    with p(2) ab show ?thesis by simp
  qed
  with d ab show ?thesis
    by (intro exI [of _ "d @ hex_bytes (word_of_int (uint x mod 64) # xs)"]) (auto simp: length_hex_bytes)
qed

lemma dtc_name_unique_witness:
  "\<exists>s. get_dtc_num_as_str [0x44, 0x20, 0x11] = Inr s \<and> length s = 7 \<and>
     (get_dtc_num_as_str [0x04, 0x20, 0x11] = Inr s \<longrightarrow> False)"
  using dtc_name_unique [of "[0x44, 0x20, 0x11]" "[0x04, 0x20, 0x11]"] by simp

end
