(* ===== verification/Events.thy ===== *)
theory Events
  imports PyFloat
begin

text \<open>
  Events and alerts: \<^verbatim>\<open>iqpilot/selfdrive/selfdrived/events_base.py\<close>. An event is a number; the table
  of a subclass gives the alert of every event type the event has. The set of active events is a
  list kept sorted, with a second list of events that survive \<^verbatim>\<open>clear\<close> and a counter per event.
\<close>

section \<open>Event types and alerts\<close>

datatype ET =
    ET_ENABLE | ET_PRE_ENABLE | ET_OVERRIDE_LATERAL | ET_OVERRIDE_LONGITUDINAL | ET_NO_ENTRY
  | ET_WARNING | ET_USER_DISABLE | ET_SOFT_DISABLE | ET_IMMEDIATE_DISABLE | ET_PERMANENT

primrec ET_value :: "ET \<Rightarrow> string" where
  "ET_value ET_ENABLE = ''enable''"
| "ET_value ET_PRE_ENABLE = ''preEnable''"
| "ET_value ET_OVERRIDE_LATERAL = ''overrideLateral''"
| "ET_value ET_OVERRIDE_LONGITUDINAL = ''overrideLongitudinal''"
| "ET_value ET_NO_ENTRY = ''noEntry''"
| "ET_value ET_WARNING = ''warning''"
| "ET_value ET_USER_DISABLE = ''userDisable''"
| "ET_value ET_SOFT_DISABLE = ''softDisable''"
| "ET_value ET_IMMEDIATE_DISABLE = ''immediateDisable''"
| "ET_value ET_PERMANENT = ''permanent''"

datatype Priority =
    Priority_LOWEST | Priority_LOWER | Priority_LOW | Priority_MID | Priority_HIGH | Priority_HIGHEST

primrec Priority_value :: "Priority \<Rightarrow> int" where
  "Priority_value Priority_LOWEST = 0"
| "Priority_value Priority_LOWER = 1"
| "Priority_value Priority_LOW = 2"
| "Priority_value Priority_MID = 3"
| "Priority_value Priority_HIGH = 4"
| "Priority_value Priority_HIGHEST = 5"

text \<open>Priorities are compared by their numbers, as an \<^verbatim>\<open>IntEnum\<close> is.\<close>

instantiation Priority :: linorder
begin

definition less_eq_Priority :: "Priority \<Rightarrow> Priority \<Rightarrow> bool" where
  "less_eq_Priority p q \<longleftrightarrow> Priority_value p \<le> Priority_value q"

definition less_Priority :: "Priority \<Rightarrow> Priority \<Rightarrow> bool" where
  "less_Priority p q \<longleftrightarrow> Priority_value p < Priority_value q"

instance
proof
  fix p q r :: Priority
  show "p < q \<longleftrightarrow> p \<le> q \<and> \<not> q \<le> p" by (auto simp: less_eq_Priority_def less_Priority_def)
  show "p \<le> p" by (simp add: less_eq_Priority_def)
  show "p \<le> q \<Longrightarrow> q \<le> r \<Longrightarrow> p \<le> r" by (simp add: less_eq_Priority_def)
  show "p \<le> q \<Longrightarrow> q \<le> p \<Longrightarrow> p = q" by (cases p; cases q) (simp_all add: less_eq_Priority_def)
  show "p \<le> q \<or> q \<le> p" by (auto simp: less_eq_Priority_def)
qed

end

datatype AlertStatus = Status_normal | Status_userPrompt | Status_critical
datatype AlertSize = Size_none | Size_small | Size_mid | Size_full
datatype VisualAlert =
    Visual_none | Visual_fcw | Visual_steerRequired | Visual_brakePressed | Visual_wrongGear
  | Visual_seatbeltUnbuckled | Visual_speedTooHigh | Visual_ldw
datatype AudibleAlert =
    Audible_none | Audible_engage | Audible_disengage | Audible_refuse | Audible_warningSoft
  | Audible_warningImmediate | Audible_prompt | Audible_promptRepeat | Audible_promptDistracted
  | Audible_promptSingleLow | Audible_promptSingleHigh

record alert =
  alert_text_1 :: string
  alert_text_2 :: string
  alert_status :: AlertStatus
  alert_size :: AlertSize
  priority :: Priority
  visual_alert :: VisualAlert
  audible_alert :: AudibleAlert
  duration :: int
  creation_delay :: rat
  alert_type :: string
  event_type :: "ET option"

text \<open>The step of the control loop: \<^verbatim>\<open>DT_CTRL = 0.01\<close>, a float.\<close>

definition DT_CTRL :: rat where
  "DT_CTRL = fl (1 / 100)"

definition Alert ::
    "string \<Rightarrow> string \<Rightarrow> AlertStatus \<Rightarrow> AlertSize \<Rightarrow> Priority \<Rightarrow> VisualAlert \<Rightarrow> AudibleAlert \<Rightarrow>
     rat \<Rightarrow> rat \<Rightarrow> alert" where
  "Alert t1 t2 status sz prio visual audible dur delay =
    \<lparr>alert_text_1 = t1, alert_text_2 = t2, alert_status = status, alert_size = sz, priority = prio,
     visual_alert = visual, audible_alert = audible,
     duration = py_trunc (fl (fl dur / DT_CTRL)), creation_delay = fl delay,
     alert_type = '''', event_type = None\<rparr>"

definition NoEntryAlert :: "bool \<Rightarrow> string \<Rightarrow> string \<Rightarrow> VisualAlert \<Rightarrow> alert" where
  "NoEntryAlert mici t2 t1 visual =
    (let (a, b) = (if mici then (t2, t1) else (t1, t2))
     in Alert a b Status_normal Size_mid Priority_LOW visual Audible_refuse 3 0)"

definition SoftDisableAlert :: "string \<Rightarrow> alert" where
  "SoftDisableAlert t2 =
    Alert ''TAKE CONTROL IMMEDIATELY'' t2 Status_userPrompt Size_full Priority_MID
      Visual_steerRequired Audible_warningSoft 2 0"

definition UserSoftDisableAlert :: "string \<Rightarrow> alert" where
  "UserSoftDisableAlert t2 = (SoftDisableAlert t2)\<lparr>alert_text_1 := ''openpilot will disengage''\<rparr>"

definition ImmediateDisableAlert :: "string \<Rightarrow> alert" where
  "ImmediateDisableAlert t2 =
    Alert ''TAKE CONTROL IMMEDIATELY'' t2 Status_critical Size_full Priority_HIGHEST
      Visual_steerRequired Audible_warningImmediate 4 0"

definition EngagementAlert :: "AudibleAlert \<Rightarrow> alert" where
  "EngagementAlert audible =
    Alert '''' '''' Status_normal Size_none Priority_MID Visual_none audible (1 / 5) 0"

definition NormalPermanentAlert :: "string \<Rightarrow> string \<Rightarrow> rat \<Rightarrow> Priority \<Rightarrow> rat \<Rightarrow> alert" where
  "NormalPermanentAlert t1 t2 dur prio delay =
    Alert t1 t2 Status_normal (if t2 \<noteq> '''' then Size_mid else Size_small) prio Visual_none
      Audible_none dur delay"

definition StartupAlert :: "bool \<Rightarrow> string \<Rightarrow> string \<Rightarrow> AlertStatus \<Rightarrow> alert" where
  "StartupAlert mici t1 t2 status =
    (let (t2', sz) =
       (if mici
        then (if t2 = ''Always keep hands on wheel and eyes on road'' then '''' else t2, Size_small)
        else (t2, Size_mid))
     in Alert t1 t2' status sz Priority_LOWER Visual_none Audible_none 5 0)"

definition EmptyAlert :: alert where
  "EmptyAlert =
    Alert '''' '''' Status_normal Size_none Priority_LOWEST Visual_none Audible_none 0 0"

section \<open>The table of alerts\<close>

text \<open>
  An entry is an alert or a callback. The two soft-disable callbacks depend only on the time that
  is left before the disengagement; the others read the message bus and are named.
\<close>

datatype alert_src =
    Fixed alert
  | SoftDisable string
  | UserSoftDisable string
  | Callback string

type_synonym events_table = "(int \<times> (ET \<times> alert_src) list) list"

definition soft_disable_alert :: "string \<Rightarrow> int \<Rightarrow> alert" where
  "soft_disable_alert t2 soft_disable_time =
    (if soft_disable_time < py_trunc (fl (1 / 2 / DT_CTRL)) then ImmediateDisableAlert t2
     else SoftDisableAlert t2)"

definition user_soft_disable_alert :: "string \<Rightarrow> int \<Rightarrow> alert" where
  "user_soft_disable_alert t2 soft_disable_time =
    (if soft_disable_time < py_trunc (fl (1 / 2 / DT_CTRL)) then ImmediateDisableAlert t2
     else UserSoftDisableAlert t2)"

definition resolve_alert :: "(string \<Rightarrow> alert) \<Rightarrow> int \<Rightarrow> alert_src \<Rightarrow> alert" where
  "resolve_alert callbacks soft_disable_time src =
    (case src of Fixed a \<Rightarrow> a
     | SoftDisable t \<Rightarrow> soft_disable_alert t soft_disable_time
     | UserSoftDisable t \<Rightarrow> user_soft_disable_alert t soft_disable_time
     | Callback f \<Rightarrow> callbacks f)"

definition event_types :: "events_table \<Rightarrow> int \<Rightarrow> ET list" where
  "event_types table e = (case map_of table e of None \<Rightarrow> [] | Some m \<Rightarrow> map fst m)"

section \<open>The set of active events\<close>

record events_base =
  events :: "int list"
  static_events :: "int list"
  event_counters :: "int \<rightharpoonup> int"

definition EventsBase_init :: "events_table \<Rightarrow> events_base" where
  "EventsBase_init table =
    \<lparr>events = [], static_events = [], event_counters = (map_of (map (\<lambda>(e, _). (e, 0)) table))\<rparr>"

definition events_add :: "int \<Rightarrow> bool \<Rightarrow> events_base \<Rightarrow> events_base" where
  "events_add e static b =
    (let b1 = (if static then b\<lparr>static_events := insort e (static_events b)\<rparr> else b)
     in b1\<lparr>events := insort e (events b1)\<rparr>)"

definition events_clear :: "events_base \<Rightarrow> events_base" where
  "events_clear b =
    b\<lparr>event_counters := (\<lambda>k. map_option (\<lambda>v. if k \<in> set (events b) then v + 1 else 0) (event_counters b k)),
      events := static_events b\<rparr>"

text \<open>
  \<^verbatim>\<open>contains\<close> looks its argument up among the string keys of the table. A caller that passes an
  event number instead of an event type gets \<open>False\<close>: a number is no key of the table.
\<close>

datatype type_arg = EventType ET | EventNumber int

definition events_contains :: "events_table \<Rightarrow> type_arg \<Rightarrow> events_base \<Rightarrow> bool" where
  "events_contains table arg b =
    (case arg of
       EventType et \<Rightarrow> list_ex (\<lambda>e. et \<in> set (event_types table e)) (events b)
     | EventNumber _ \<Rightarrow> False)"

definition events_has :: "int \<Rightarrow> events_base \<Rightarrow> bool" where
  "events_has e b \<longleftrightarrow> e \<in> set (events b)"

definition events_contains_in_list :: "int list \<Rightarrow> events_base \<Rightarrow> bool" where
  "events_contains_in_list es b = list_ex (\<lambda>e. events_has e b) es"

text \<open>\<^verbatim>\<open>list.remove\<close> removes the first occurrence; the counter of an unknown event raises.\<close>

definition events_remove :: "int \<Rightarrow> bool \<Rightarrow> events_base \<Rightarrow> events_base result" where
  "events_remove e static b =
    (let b1 = (if static \<and> e \<in> set (static_events b)
               then b\<lparr>static_events := remove1 e (static_events b)\<rparr> else b)
     in if e \<in> set (events b1)
        then (case event_counters b1 e of
                None \<Rightarrow> Inl KeyError
              | Some v \<Rightarrow> Inr (b1\<lparr>event_counters := (event_counters b1)(e \<mapsto> v + 1),
                                 events := remove1 e (events b1)\<rparr>))
        else Inr b1)"

definition events_add_from_msg :: "int list \<Rightarrow> events_base \<Rightarrow> events_base" where
  "events_add_from_msg es b = b\<lparr>events := fold insort es (events b)\<rparr>"

text \<open>The flags of each event in the message that is published.\<close>

definition events_to_msg :: "events_table \<Rightarrow> events_base \<Rightarrow> (int \<times> ET list) list" where
  "events_to_msg table b = map (\<lambda>e. (e, event_types table e)) (events b)"

text \<open>\<^verbatim>\<open>create_alerts\<close>, with the name of an event as an argument.\<close>

definition alert_due :: "int \<Rightarrow> alert \<Rightarrow> bool" where
  "alert_due counter a \<longleftrightarrow> creation_delay a \<le> fl (DT_CTRL * of_int (counter + 1))"

fun alerts_of_event ::
    "(ET \<times> alert_src) list \<Rightarrow> (alert_src \<Rightarrow> alert) \<Rightarrow> int option \<Rightarrow> string \<Rightarrow> ET list \<Rightarrow> alert list result" where
  "alerts_of_event m res counter name [] = Inr []"
| "alerts_of_event m res counter name (et # ets) =
    (case map_of m et of
       None \<Rightarrow> alerts_of_event m res counter name ets
     | Some src \<Rightarrow>
         (case counter of
            None \<Rightarrow> Inl KeyError
          | Some c \<Rightarrow>
              (let a = res src
               in ebind (alerts_of_event m res counter name ets) (\<lambda>rest.
                  Inr (if alert_due c a
                       then a\<lparr>alert_type := name @ ''/'' @ ET_value et, event_type := Some et\<rparr> # rest
                       else rest)))))"

definition create_alerts ::
    "events_table \<Rightarrow> (int \<Rightarrow> string) \<Rightarrow> (string \<Rightarrow> alert) \<Rightarrow> int \<Rightarrow> ET list \<Rightarrow> events_base \<Rightarrow>
     alert list result" where
  "create_alerts table event_name callbacks soft_disable_time types b =
    emap_concat (\<lambda>e. case map_of table e of
        None \<Rightarrow> Inl KeyError
      | Some m \<Rightarrow> alerts_of_event m (resolve_alert callbacks soft_disable_time)
                    (event_counters b e) (event_name e) types) (events b)"

section \<open>What the operations keep\<close>

text \<open>The lists stay sorted, which \<^verbatim>\<open>bisect.insort\<close> relies on, and the counted events stay the same.\<close>

definition events_ok :: "events_base \<Rightarrow> bool" where
  "events_ok b \<longleftrightarrow> sorted (events b) \<and> sorted (static_events b)"

lemma events_ok_init [simp]: "events_ok (EventsBase_init t)"
  by (simp add: events_ok_def EventsBase_init_def)

lemma events_ok_add: "events_ok b \<Longrightarrow> events_ok (events_add e st b)"
  by (simp add: events_ok_def events_add_def Let_def sorted_insort)

lemma events_ok_clear: "events_ok b \<Longrightarrow> events_ok (events_clear b)"
  by (simp add: events_ok_def events_clear_def)

lemma events_ok_remove: "events_ok b \<Longrightarrow> events_remove e st b = Inr b' \<Longrightarrow> events_ok b'"
  by (auto simp: events_ok_def events_remove_def Let_def sorted_remove1 split: if_splits option.splits)

lemma events_remove_known:
  assumes "event_counters b e \<noteq> None"
  obtains b' where "events_remove e False b = Inr b'" "events b' = remove1 e (events b)"
    "static_events b' = static_events b" "dom (event_counters b') = dom (event_counters b)"
proof -
  obtain v where "event_counters b e = Some v" using assms by blast
  then show ?thesis using that by (cases "e \<in> set (events b)") (auto simp: events_remove_def remove1_idem)
qed

lemma events_add_sel [simp]:
  "set (events (events_add e st b)) = insert e (set (events b))"
  "event_counters (events_add e st b) = event_counters b"
  by (simp_all add: events_add_def Let_def set_insort_key)

lemma contains_iff:
  "events_contains t (EventType et) b \<longleftrightarrow> (\<exists>e\<in>set (events b). et \<in> set (event_types t e))"
  by (simp add: events_contains_def list_ex_iff)

lemma contains_number [simp]: "\<not> events_contains t (EventNumber n) b"
  by (simp add: events_contains_def)

end
