(* ===== verification/EventTables.thy ===== *)
theory EventTables
  imports Events
begin

text \<open>
  The event names of \<^verbatim>\<open>cereal/log.capnp\<close> and \<^verbatim>\<open>cereal/custom.capnp\<close> with their numbers, and the two
  tables from events to alerts: \<^verbatim>\<open>EVENTS\<close> of \<^verbatim>\<open>selfdrive/selfdrived/events.py\<close> and \<^verbatim>\<open>EVENTS_IQ\<close> of
  \<^verbatim>\<open>iqpilot/selfdrive/selfdrived/events.py\<close>, entry by entry. The flag \<open>mici\<close> says whether the device
  type is \<^verbatim>\<open>mici\<close>, on which some entries are replaced. Alerts that a callback builds from the
  message bus are named (\<open>Callback\<close>); the rest are the alerts themselves.
\<close>

section \<open>Event names\<close>

abbreviation EventName_canError :: int where "EventName_canError \<equiv> 0"
abbreviation EventName_steerUnavailable :: int where "EventName_steerUnavailable \<equiv> 1"
abbreviation EventName_wrongGear :: int where "EventName_wrongGear \<equiv> 2"
abbreviation EventName_doorOpen :: int where "EventName_doorOpen \<equiv> 3"
abbreviation EventName_seatbeltNotLatched :: int where "EventName_seatbeltNotLatched \<equiv> 4"
abbreviation EventName_espDisabled :: int where "EventName_espDisabled \<equiv> 5"
abbreviation EventName_wrongCarMode :: int where "EventName_wrongCarMode \<equiv> 6"
abbreviation EventName_steerTempUnavailable :: int where "EventName_steerTempUnavailable \<equiv> 7"
abbreviation EventName_reverseGear :: int where "EventName_reverseGear \<equiv> 8"
abbreviation EventName_buttonCancel :: int where "EventName_buttonCancel \<equiv> 9"
abbreviation EventName_buttonEnable :: int where "EventName_buttonEnable \<equiv> 10"
abbreviation EventName_pedalPressed :: int where "EventName_pedalPressed \<equiv> 11"
abbreviation EventName_preEnableStandstill :: int where "EventName_preEnableStandstill \<equiv> 12"
abbreviation EventName_gasPressedOverride :: int where "EventName_gasPressedOverride \<equiv> 13"
abbreviation EventName_steerOverride :: int where "EventName_steerOverride \<equiv> 14"
abbreviation EventName_cruiseDisabled :: int where "EventName_cruiseDisabled \<equiv> 15"
abbreviation EventName_speedTooLow :: int where "EventName_speedTooLow \<equiv> 16"
abbreviation EventName_outOfSpace :: int where "EventName_outOfSpace \<equiv> 17"
abbreviation EventName_overheat :: int where "EventName_overheat \<equiv> 18"
abbreviation EventName_calibrationIncomplete :: int where "EventName_calibrationIncomplete \<equiv> 19"
abbreviation EventName_calibrationInvalid :: int where "EventName_calibrationInvalid \<equiv> 20"
abbreviation EventName_calibrationRecalibrating :: int where "EventName_calibrationRecalibrating \<equiv> 21"
abbreviation EventName_controlsMismatch :: int where "EventName_controlsMismatch \<equiv> 22"
abbreviation EventName_pcmEnable :: int where "EventName_pcmEnable \<equiv> 23"
abbreviation EventName_pcmDisable :: int where "EventName_pcmDisable \<equiv> 24"
abbreviation EventName_radarFault :: int where "EventName_radarFault \<equiv> 25"
abbreviation EventName_brakeHold :: int where "EventName_brakeHold \<equiv> 26"
abbreviation EventName_parkBrake :: int where "EventName_parkBrake \<equiv> 27"
abbreviation EventName_manualRestart :: int where "EventName_manualRestart \<equiv> 28"
abbreviation EventName_joystickDebug :: int where "EventName_joystickDebug \<equiv> 29"
abbreviation EventName_longitudinalManeuver :: int where "EventName_longitudinalManeuver \<equiv> 30"
abbreviation EventName_steerTempUnavailableSilent :: int where "EventName_steerTempUnavailableSilent \<equiv> 31"
abbreviation EventName_resumeRequired :: int where "EventName_resumeRequired \<equiv> 32"
abbreviation EventName_preDriverDistracted :: int where "EventName_preDriverDistracted \<equiv> 33"
abbreviation EventName_promptDriverDistracted :: int where "EventName_promptDriverDistracted \<equiv> 34"
abbreviation EventName_driverDistracted :: int where "EventName_driverDistracted \<equiv> 35"
abbreviation EventName_preDriverUnresponsive :: int where "EventName_preDriverUnresponsive \<equiv> 36"
abbreviation EventName_promptDriverUnresponsive :: int where "EventName_promptDriverUnresponsive \<equiv> 37"
abbreviation EventName_driverUnresponsive :: int where "EventName_driverUnresponsive \<equiv> 38"
abbreviation EventName_belowSteerSpeed :: int where "EventName_belowSteerSpeed \<equiv> 39"
abbreviation EventName_lowBattery :: int where "EventName_lowBattery \<equiv> 40"
abbreviation EventName_accFaulted :: int where "EventName_accFaulted \<equiv> 41"
abbreviation EventName_sensorDataInvalid :: int where "EventName_sensorDataInvalid \<equiv> 42"
abbreviation EventName_commIssue :: int where "EventName_commIssue \<equiv> 43"
abbreviation EventName_commIssueAvgFreq :: int where "EventName_commIssueAvgFreq \<equiv> 44"
abbreviation EventName_tooDistracted :: int where "EventName_tooDistracted \<equiv> 45"
abbreviation EventName_posenetInvalid :: int where "EventName_posenetInvalid \<equiv> 46"
abbreviation EventName_soundsUnavailableDEPRECATED :: int where "EventName_soundsUnavailableDEPRECATED \<equiv> 47"
abbreviation EventName_preLaneChangeLeft :: int where "EventName_preLaneChangeLeft \<equiv> 48"
abbreviation EventName_preLaneChangeRight :: int where "EventName_preLaneChangeRight \<equiv> 49"
abbreviation EventName_laneChange :: int where "EventName_laneChange \<equiv> 50"
abbreviation EventName_lowMemory :: int where "EventName_lowMemory \<equiv> 51"
abbreviation EventName_stockAeb :: int where "EventName_stockAeb \<equiv> 52"
abbreviation EventName_ldw :: int where "EventName_ldw \<equiv> 53"
abbreviation EventName_carUnrecognized :: int where "EventName_carUnrecognized \<equiv> 54"
abbreviation EventName_invalidLkasSetting :: int where "EventName_invalidLkasSetting \<equiv> 55"
abbreviation EventName_speedTooHigh :: int where "EventName_speedTooHigh \<equiv> 56"
abbreviation EventName_laneChangeBlocked :: int where "EventName_laneChangeBlocked \<equiv> 57"
abbreviation EventName_relayMalfunction :: int where "EventName_relayMalfunction \<equiv> 58"
abbreviation EventName_stockFcw :: int where "EventName_stockFcw \<equiv> 59"
abbreviation EventName_startup :: int where "EventName_startup \<equiv> 60"
abbreviation EventName_startupNoCar :: int where "EventName_startupNoCar \<equiv> 61"
abbreviation EventName_startupNoControl :: int where "EventName_startupNoControl \<equiv> 62"
abbreviation EventName_startupNoSecOcKey :: int where "EventName_startupNoSecOcKey \<equiv> 63"
abbreviation EventName_startupMaster :: int where "EventName_startupMaster \<equiv> 64"
abbreviation EventName_fcw :: int where "EventName_fcw \<equiv> 65"
abbreviation EventName_steerSaturated :: int where "EventName_steerSaturated \<equiv> 66"
abbreviation EventName_belowEngageSpeed :: int where "EventName_belowEngageSpeed \<equiv> 67"
abbreviation EventName_noGps :: int where "EventName_noGps \<equiv> 68"
abbreviation EventName_wrongCruiseMode :: int where "EventName_wrongCruiseMode \<equiv> 69"
abbreviation EventName_modeldLagging :: int where "EventName_modeldLagging \<equiv> 70"
abbreviation EventName_deviceFalling :: int where "EventName_deviceFalling \<equiv> 71"
abbreviation EventName_fanMalfunction :: int where "EventName_fanMalfunction \<equiv> 72"
abbreviation EventName_cameraMalfunction :: int where "EventName_cameraMalfunction \<equiv> 73"
abbreviation EventName_cameraFrameRate :: int where "EventName_cameraFrameRate \<equiv> 74"
abbreviation EventName_processNotRunning :: int where "EventName_processNotRunning \<equiv> 75"
abbreviation EventName_dashcamMode :: int where "EventName_dashcamMode \<equiv> 76"
abbreviation EventName_selfdriveInitializing :: int where "EventName_selfdriveInitializing \<equiv> 77"
abbreviation EventName_usbError :: int where "EventName_usbError \<equiv> 78"
abbreviation EventName_cruiseMismatch :: int where "EventName_cruiseMismatch \<equiv> 79"
abbreviation EventName_canBusMissing :: int where "EventName_canBusMissing \<equiv> 80"
abbreviation EventName_selfdrivedLagging :: int where "EventName_selfdrivedLagging \<equiv> 81"
abbreviation EventName_resumeBlocked :: int where "EventName_resumeBlocked \<equiv> 82"
abbreviation EventName_steerTimeLimit :: int where "EventName_steerTimeLimit \<equiv> 83"
abbreviation EventName_vehicleSensorsInvalid :: int where "EventName_vehicleSensorsInvalid \<equiv> 84"
abbreviation EventName_locationdTemporaryError :: int where "EventName_locationdTemporaryError \<equiv> 85"
abbreviation EventName_locationdPermanentError :: int where "EventName_locationdPermanentError \<equiv> 86"
abbreviation EventName_paramsdTemporaryError :: int where "EventName_paramsdTemporaryError \<equiv> 87"
abbreviation EventName_paramsdPermanentError :: int where "EventName_paramsdPermanentError \<equiv> 88"
abbreviation EventName_actuatorsApiUnavailable :: int where "EventName_actuatorsApiUnavailable \<equiv> 89"
abbreviation EventName_espActive :: int where "EventName_espActive \<equiv> 90"
abbreviation EventName_personalityChanged :: int where "EventName_personalityChanged \<equiv> 91"
abbreviation EventName_aeb :: int where "EventName_aeb \<equiv> 92"
abbreviation EventName_radarTempUnavailable :: int where "EventName_radarTempUnavailable \<equiv> 93"
abbreviation EventName_steerDisengage :: int where "EventName_steerDisengage \<equiv> 94"
abbreviation EventName_userBookmark :: int where "EventName_userBookmark \<equiv> 95"
abbreviation EventName_excessiveActuation :: int where "EventName_excessiveActuation \<equiv> 96"
abbreviation EventName_audioFeedback :: int where "EventName_audioFeedback \<equiv> 97"
abbreviation EventName_stockLkas :: int where "EventName_stockLkas \<equiv> 98"

abbreviation EventNameIQ_lkasEnable :: int where "EventNameIQ_lkasEnable \<equiv> 0"
abbreviation EventNameIQ_lkasDisable :: int where "EventNameIQ_lkasDisable \<equiv> 1"
abbreviation EventNameIQ_manualSteeringRequired :: int where "EventNameIQ_manualSteeringRequired \<equiv> 2"
abbreviation EventNameIQ_manualLongitudinalRequired :: int where "EventNameIQ_manualLongitudinalRequired \<equiv> 3"
abbreviation EventNameIQ_silentLkasEnable :: int where "EventNameIQ_silentLkasEnable \<equiv> 4"
abbreviation EventNameIQ_silentLkasDisable :: int where "EventNameIQ_silentLkasDisable \<equiv> 5"
abbreviation EventNameIQ_silentBrakeHold :: int where "EventNameIQ_silentBrakeHold \<equiv> 6"
abbreviation EventNameIQ_silentWrongGear :: int where "EventNameIQ_silentWrongGear \<equiv> 7"
abbreviation EventNameIQ_silentReverseGear :: int where "EventNameIQ_silentReverseGear \<equiv> 8"
abbreviation EventNameIQ_silentDoorOpen :: int where "EventNameIQ_silentDoorOpen \<equiv> 9"
abbreviation EventNameIQ_silentSeatbeltNotLatched :: int where "EventNameIQ_silentSeatbeltNotLatched \<equiv> 10"
abbreviation EventNameIQ_silentParkBrake :: int where "EventNameIQ_silentParkBrake \<equiv> 11"
abbreviation EventNameIQ_controlsMismatchLateral :: int where "EventNameIQ_controlsMismatchLateral \<equiv> 12"
abbreviation EventNameIQ_hyundaiRadarTracksConfirmed :: int where "EventNameIQ_hyundaiRadarTracksConfirmed \<equiv> 13"
abbreviation EventNameIQ_experimentalModeSwitched :: int where "EventNameIQ_experimentalModeSwitched \<equiv> 14"
abbreviation EventNameIQ_wrongCarModeAlertOnly :: int where "EventNameIQ_wrongCarModeAlertOnly \<equiv> 15"
abbreviation EventNameIQ_pedalPressedAlertOnly :: int where "EventNameIQ_pedalPressedAlertOnly \<equiv> 16"
abbreviation EventNameIQ_laneTurnLeft :: int where "EventNameIQ_laneTurnLeft \<equiv> 17"
abbreviation EventNameIQ_laneTurnRight :: int where "EventNameIQ_laneTurnRight \<equiv> 18"
abbreviation EventNameIQ_speedLimitPreActive :: int where "EventNameIQ_speedLimitPreActive \<equiv> 19"
abbreviation EventNameIQ_speedLimitActive :: int where "EventNameIQ_speedLimitActive \<equiv> 20"
abbreviation EventNameIQ_speedLimitChanged :: int where "EventNameIQ_speedLimitChanged \<equiv> 21"
abbreviation EventNameIQ_speedLimitPending :: int where "EventNameIQ_speedLimitPending \<equiv> 22"
abbreviation EventNameIQ_e2eChime :: int where "EventNameIQ_e2eChime \<equiv> 23"

section \<open>The stock table\<close>

definition EVENTS_part_1 :: "bool \<Rightarrow> events_table" where
  "EVENTS_part_1 mici =
    [(EventName_stockFcw,
      []),
     (EventName_actuatorsApiUnavailable,
      []),
     (EventName_joystickDebug,
      [(ET_WARNING, Callback ''joystick_alert''),
       (ET_PERMANENT, Fixed (NormalPermanentAlert ''Joystick Mode'' '''' (1 / 5) Priority_LOWER 0))]),
     (EventName_longitudinalManeuver,
      [(ET_WARNING, Callback ''longitudinal_maneuver_alert''),
       (ET_PERMANENT, Fixed (NormalPermanentAlert ''Longitudinal Maneuver Mode'' ''Ensure road ahead is clear'' (1 / 5) Priority_LOWER 0))]),
     (EventName_selfdriveInitializing,
      [(ET_NO_ENTRY, Fixed (NoEntryAlert mici ''IQ.Pilot Initializing'' ''openpilot Unavailable'' Visual_none))]),
     (EventName_startup,
      [(ET_PERMANENT, Fixed (StartupAlert mici ''Welcome to IQ.Pilot!'' ''Always keep hands on wheel and eyes on road'' Status_normal))]),
     (EventName_startupMaster,
      [(ET_PERMANENT, Fixed (StartupAlert mici ''Welcome to IQ.Pilot!'' ''Always keep hands on wheel and eyes on road'' Status_normal))]),
     (EventName_startupNoControl,
      [(ET_PERMANENT, Fixed (StartupAlert mici ''Dashcam mode'' ''Always keep hands on wheel and eyes on road'' Status_normal)),
       (ET_NO_ENTRY, Fixed (NoEntryAlert mici ''Dashcam mode'' ''openpilot Unavailable'' Visual_none))]),
     (EventName_startupNoCar,
      [(ET_PERMANENT, Fixed (StartupAlert mici ''IQ.Pilot Dashcam mode for unrecognized car'' ''Always keep hands on wheel and eyes on road'' Status_normal))]),
     (EventName_startupNoSecOcKey,
      [(ET_PERMANENT, Fixed (NormalPermanentAlert ''Dashcam Mode'' ''TSK Security Key Not Available'' (1 / 5) Priority_HIGH 0))]),
     (EventName_dashcamMode,
      [(ET_PERMANENT, Fixed (NormalPermanentAlert ''Dashcam Mode'' '''' (1 / 5) Priority_LOWEST 0))]),
     (EventName_invalidLkasSetting,
      [(ET_PERMANENT, Callback ''invalid_lkas_setting_alert''),
       (ET_NO_ENTRY, Callback ''invalid_lkas_setting_no_entry_alert'')]),
     (EventName_cruiseMismatch,
      []),
     (EventName_carUnrecognized,
      [(ET_PERMANENT, Fixed (NormalPermanentAlert ''Dashcam Mode'' ''Car Unrecognized'' (1 / 5) Priority_LOWEST 0))]),
     (EventName_aeb,
      [(ET_PERMANENT, Fixed (Alert ''BRAKE!'' ''Emergency Braking: Risk of Collision'' Status_critical Size_full Priority_HIGHEST Visual_fcw Audible_none 2 0)),
       (ET_NO_ENTRY, Fixed (NoEntryAlert mici ''AEB: Risk of Collision'' ''openpilot Unavailable'' Visual_none))]),
     (EventName_stockAeb,
      [(ET_PERMANENT, Fixed (Alert ''BRAKE!'' ''Stock AEB: Risk of Collision'' Status_critical Size_full Priority_HIGHEST Visual_fcw Audible_none 2 0)),
       (ET_NO_ENTRY, Fixed (NoEntryAlert mici ''Stock AEB: Risk of Collision'' ''openpilot Unavailable'' Visual_none))]),
     (EventName_stockLkas,
      [(ET_PERMANENT, Fixed (Alert ''Stock LKAS: Lane Departure Detected'' '''' Status_userPrompt Size_small Priority_LOW Visual_ldw Audible_prompt 3 0)),
       (ET_NO_ENTRY, Fixed (NoEntryAlert mici ''Stock LKAS: Lane Departure Detected'' ''openpilot Unavailable'' Visual_none))]),
     (EventName_fcw,
      [(ET_PERMANENT, Fixed (Alert ''BRAKE!'' ''Risk of Collision'' Status_critical Size_full Priority_HIGHEST Visual_fcw Audible_warningSoft 2 0))]),
     (EventName_ldw,
      [(ET_PERMANENT, Fixed (Alert ''Lane Departure Detected'' '''' Status_userPrompt Size_small Priority_LOW Visual_ldw Audible_prompt 3 0))]),
     (EventName_steerTempUnavailableSilent,
      [(ET_WARNING, Fixed (Alert ''Steering Assist Temporarily Unavailable'' '''' Status_userPrompt Size_small Priority_LOW Visual_steerRequired Audible_prompt (9 / 5) 0))]),
     (EventName_preDriverDistracted,
      [(ET_PERMANENT, Fixed (Alert ''Pay Attention'' '''' Status_normal Size_small Priority_LOW Visual_none Audible_none (1 / 10) 0))]),
     (EventName_promptDriverDistracted,
      [(ET_PERMANENT, Fixed (Alert ''Pay Attention'' ''Driver Distracted'' Status_userPrompt Size_mid Priority_MID Visual_steerRequired Audible_promptDistracted (1 / 10) 0))])]"

definition EVENTS_part_2 :: "bool \<Rightarrow> events_table" where
  "EVENTS_part_2 mici =
    [(EventName_driverDistracted,
      [(ET_PERMANENT, Fixed (Alert ''DISENGAGE IMMEDIATELY'' ''Driver Distracted'' Status_critical Size_full Priority_HIGH Visual_steerRequired Audible_warningImmediate (1 / 10) 0))]),
     (EventName_preDriverUnresponsive,
      [(ET_PERMANENT, Fixed (Alert ''Touch Steering Wheel: No Face Detected'' '''' Status_normal Size_small Priority_LOW Visual_steerRequired Audible_none (1 / 10) 0))]),
     (EventName_promptDriverUnresponsive,
      [(ET_PERMANENT, Fixed (Alert ''Touch Steering Wheel'' ''Driver Unresponsive'' Status_userPrompt Size_mid Priority_MID Visual_steerRequired Audible_promptDistracted (1 / 10) 0))]),
     (EventName_driverUnresponsive,
      [(ET_PERMANENT, Fixed (Alert ''DISENGAGE IMMEDIATELY'' ''Driver Unresponsive'' Status_critical Size_full Priority_HIGH Visual_steerRequired Audible_warningImmediate (1 / 10) 0))]),
     (EventName_manualRestart,
      [(ET_WARNING, Fixed (Alert ''TAKE CONTROL'' ''Resume Driving Manually'' Status_userPrompt Size_mid Priority_LOW Visual_none Audible_none (1 / 5) 0))]),
     (EventName_resumeRequired,
      [(ET_WARNING, Fixed (Alert ''Press Resume to Exit Standstill'' '''' Status_userPrompt Size_small Priority_LOW Visual_none Audible_none (1 / 5) 0))]),
     (EventName_belowSteerSpeed,
      [(ET_WARNING, Callback ''below_steer_speed_alert'')]),
     (EventName_preLaneChangeLeft,
      [(ET_WARNING, Fixed (Alert ''Steer Left to Start Lane Change Once Safe'' '''' Status_normal Size_small Priority_LOW Visual_none Audible_none (1 / 10) 0))]),
     (EventName_preLaneChangeRight,
      [(ET_WARNING, Fixed (Alert ''Steer Right to Start Lane Change Once Safe'' '''' Status_normal Size_small Priority_LOW Visual_none Audible_none (1 / 10) 0))]),
     (EventName_laneChangeBlocked,
      [(ET_WARNING, Fixed (Alert ''Car Detected in Blindspot'' '''' Status_userPrompt Size_small Priority_LOW Visual_none Audible_prompt (1 / 10) 0))]),
     (EventName_laneChange,
      [(ET_WARNING, Fixed (Alert ''Changing Lanes'' '''' Status_normal Size_small Priority_LOW Visual_none Audible_none (1 / 10) 0))]),
     (EventName_steerSaturated,
      [(ET_WARNING, Fixed (Alert ''Take Control'' ''Turn Exceeds Steering Limit'' Status_userPrompt Size_mid Priority_LOW Visual_steerRequired Audible_promptRepeat 2 0))]),
     (EventName_fanMalfunction,
      [(ET_PERMANENT, Fixed (NormalPermanentAlert ''Fan Malfunction'' ''Likely Hardware Issue'' (1 / 5) Priority_LOWER 0))]),
     (EventName_cameraMalfunction,
      [(ET_PERMANENT, Callback ''camera_malfunction_alert''),
       (ET_SOFT_DISABLE, SoftDisable ''Camera Malfunction''),
       (ET_NO_ENTRY, Fixed (NoEntryAlert mici ''Camera Malfunction: Reboot Your Device'' ''openpilot Unavailable'' Visual_none))]),
     (EventName_cameraFrameRate,
      [(ET_PERMANENT, Fixed (NormalPermanentAlert ''Camera Frame Rate Low'' ''Reboot your Device'' (1 / 5) Priority_LOWER 0)),
       (ET_SOFT_DISABLE, SoftDisable ''Camera Frame Rate Low''),
       (ET_NO_ENTRY, Fixed (NoEntryAlert mici ''Camera Frame Rate Low: Reboot Your Device'' ''openpilot Unavailable'' Visual_none))]),
     (EventName_locationdTemporaryError,
      [(ET_NO_ENTRY, Fixed (NoEntryAlert mici ''locationd Temporary Error'' ''openpilot Unavailable'' Visual_none)),
       (ET_SOFT_DISABLE, SoftDisable ''locationd Temporary Error'')]),
     (EventName_locationdPermanentError,
      [(ET_NO_ENTRY, Fixed (NoEntryAlert mici ''locationd Permanent Error'' ''openpilot Unavailable'' Visual_none)),
       (ET_IMMEDIATE_DISABLE, Fixed (ImmediateDisableAlert ''locationd Permanent Error'')),
       (ET_PERMANENT, Fixed (NormalPermanentAlert ''locationd Permanent Error'' '''' (1 / 5) Priority_LOWER 0))]),
     (EventName_paramsdTemporaryError,
      [(ET_NO_ENTRY, Callback ''paramsd_invalid_alert''),
       (ET_SOFT_DISABLE, SoftDisable ''paramsd Temporary Error'')])]"

definition EVENTS_part_3 :: "bool \<Rightarrow> events_table" where
  "EVENTS_part_3 mici =
    [(EventName_paramsdPermanentError,
      [(ET_NO_ENTRY, Fixed (NoEntryAlert mici ''paramsd Permanent Error'' ''openpilot Unavailable'' Visual_none)),
       (ET_IMMEDIATE_DISABLE, Fixed (ImmediateDisableAlert ''paramsd Permanent Error'')),
       (ET_PERMANENT, Fixed (NormalPermanentAlert ''paramsd Permanent Error'' '''' (1 / 5) Priority_LOWER 0))]),
     (EventName_pcmEnable,
      [(ET_ENABLE, Fixed (EngagementAlert Audible_engage))]),
     (EventName_buttonEnable,
      [(ET_ENABLE, Fixed (EngagementAlert Audible_engage))]),
     (EventName_pcmDisable,
      [(ET_USER_DISABLE, Fixed (EngagementAlert Audible_disengage))]),
     (EventName_buttonCancel,
      [(ET_USER_DISABLE, Fixed (EngagementAlert Audible_disengage)),
       (ET_NO_ENTRY, Fixed (NoEntryAlert mici ''Cancel Pressed'' ''openpilot Unavailable'' Visual_none))]),
     (EventName_brakeHold,
      [(ET_WARNING, Fixed (Alert ''Press Resume to Exit Brake Hold'' '''' Status_userPrompt Size_small Priority_LOW Visual_none Audible_none (1 / 5) 0))]),
     (EventName_parkBrake,
      [(ET_USER_DISABLE, Fixed (EngagementAlert Audible_disengage)),
       (ET_NO_ENTRY, Fixed (NoEntryAlert mici ''Parking Brake Engaged'' ''openpilot Unavailable'' Visual_none))]),
     (EventName_pedalPressed,
      [(ET_USER_DISABLE, Fixed (EngagementAlert Audible_disengage)),
       (ET_NO_ENTRY, Fixed (NoEntryAlert mici ''Pedal Pressed'' ''openpilot Unavailable'' Visual_brakePressed))]),
     (EventName_steerDisengage,
      [(ET_USER_DISABLE, Fixed (EngagementAlert Audible_disengage)),
       (ET_NO_ENTRY, Fixed (NoEntryAlert mici ''Steering Pressed'' ''openpilot Unavailable'' Visual_none))]),
     (EventName_preEnableStandstill,
      [(ET_PRE_ENABLE, Fixed (Alert ''Release Brake to Engage'' '''' Status_normal Size_small Priority_LOWEST Visual_none Audible_none (1 / 10) 1))]),
     (EventName_gasPressedOverride,
      [(ET_OVERRIDE_LONGITUDINAL, Fixed (Alert '''' '''' Status_normal Size_none Priority_LOWEST Visual_none Audible_none (1 / 10) 0))]),
     (EventName_steerOverride,
      [(ET_OVERRIDE_LATERAL, Fixed (Alert '''' '''' Status_normal Size_none Priority_LOWEST Visual_none Audible_none (1 / 10) 0))]),
     (EventName_wrongCarMode,
      [(ET_USER_DISABLE, Fixed (EngagementAlert Audible_disengage)),
       (ET_NO_ENTRY, Callback ''wrong_car_mode_alert'')]),
     (EventName_resumeBlocked,
      [(ET_NO_ENTRY, Fixed (NoEntryAlert mici ''Press Set to Engage'' ''openpilot Unavailable'' Visual_none))]),
     (EventName_wrongCruiseMode,
      [(ET_USER_DISABLE, Fixed (EngagementAlert Audible_disengage)),
       (ET_NO_ENTRY, Fixed (NoEntryAlert mici ''Adaptive Cruise Disabled'' ''openpilot Unavailable'' Visual_none))]),
     (EventName_steerTempUnavailable,
      [(ET_SOFT_DISABLE, SoftDisable ''Steering Assist Temporarily Unavailable''),
       (ET_NO_ENTRY, Fixed (NoEntryAlert mici ''Steering Temporarily Unavailable'' ''openpilot Unavailable'' Visual_none))]),
     (EventName_steerTimeLimit,
      [(ET_SOFT_DISABLE, SoftDisable ''Vehicle Steering Time Limit''),
       (ET_NO_ENTRY, Fixed (NoEntryAlert mici ''Vehicle Steering Time Limit'' ''openpilot Unavailable'' Visual_none))]),
     (EventName_outOfSpace,
      [(ET_PERMANENT, Callback ''out_of_space_alert''),
       (ET_NO_ENTRY, Fixed (NoEntryAlert mici ''Out of Storage'' ''openpilot Unavailable'' Visual_none))]),
     (EventName_belowEngageSpeed,
      [(ET_NO_ENTRY, Callback ''below_engage_speed_alert'')]),
     (EventName_sensorDataInvalid,
      [(ET_PERMANENT, Fixed (Alert ''Sensor Data Invalid'' ''Possible Hardware Issue'' Status_normal Size_mid Priority_LOWER Visual_none Audible_none (1 / 5) 1)),
       (ET_NO_ENTRY, Fixed (NoEntryAlert mici ''Sensor Data Invalid'' ''openpilot Unavailable'' Visual_none)),
       (ET_SOFT_DISABLE, SoftDisable ''Sensor Data Invalid'')]),
     (EventName_noGps,
      []),
     (EventName_tooDistracted,
      [(ET_NO_ENTRY, Fixed (NoEntryAlert mici ''Distraction Level Too High'' ''openpilot Unavailable'' Visual_none))]),
     (EventName_excessiveActuation,
      [(ET_SOFT_DISABLE, SoftDisable ''Excessive Actuation''),
       (ET_NO_ENTRY, Fixed (NoEntryAlert mici ''Excessive Actuation'' ''openpilot Unavailable'' Visual_none))]),
     (EventName_overheat,
      [(ET_PERMANENT, Callback ''overheat_alert''),
       (ET_SOFT_DISABLE, SoftDisable ''System Overheated''),
       (ET_NO_ENTRY, Fixed (NoEntryAlert mici ''System Overheated'' ''openpilot Unavailable'' Visual_none))]),
     (EventName_wrongGear,
      [(ET_SOFT_DISABLE, UserSoftDisable ''Gear not D''),
       (ET_NO_ENTRY, Fixed (NoEntryAlert mici ''Gear not D'' ''openpilot Unavailable'' Visual_none))])]"

definition EVENTS_part_4 :: "bool \<Rightarrow> events_table" where
  "EVENTS_part_4 mici =
    [(EventName_calibrationInvalid,
      [(ET_PERMANENT, Callback ''calibration_invalid_alert''),
       (ET_SOFT_DISABLE, SoftDisable ''Calibration Invalid: Remount Device & Recalibrate''),
       (ET_NO_ENTRY, Fixed (NoEntryAlert mici ''Calibration Invalid: Remount Device & Recalibrate'' ''openpilot Unavailable'' Visual_none))]),
     (EventName_calibrationIncomplete,
      [(ET_PERMANENT, Callback ''calibration_incomplete_alert''),
       (ET_SOFT_DISABLE, SoftDisable ''Calibration Incomplete''),
       (ET_NO_ENTRY, Fixed (NoEntryAlert mici ''Calibration in Progress'' ''openpilot Unavailable'' Visual_none))]),
     (EventName_calibrationRecalibrating,
      [(ET_PERMANENT, Callback ''calibration_incomplete_alert''),
       (ET_SOFT_DISABLE, SoftDisable ''Device Remount Detected: Recalibrating''),
       (ET_NO_ENTRY, Fixed (NoEntryAlert mici ''Remount Detected: Recalibrating'' ''openpilot Unavailable'' Visual_none))]),
     (EventName_doorOpen,
      [(ET_SOFT_DISABLE, UserSoftDisable ''Door Open''),
       (ET_NO_ENTRY, Fixed (NoEntryAlert mici ''Door Open'' ''openpilot Unavailable'' Visual_none))]),
     (EventName_seatbeltNotLatched,
      [(ET_SOFT_DISABLE, UserSoftDisable ''Seatbelt Unlatched''),
       (ET_NO_ENTRY, Fixed (NoEntryAlert mici ''Seatbelt Unlatched'' ''openpilot Unavailable'' Visual_none))]),
     (EventName_espDisabled,
      [(ET_SOFT_DISABLE, SoftDisable ''Electronic Stability Control Disabled''),
       (ET_NO_ENTRY, Fixed (NoEntryAlert mici ''Electronic Stability Control Disabled'' ''openpilot Unavailable'' Visual_none))]),
     (EventName_lowBattery,
      [(ET_SOFT_DISABLE, SoftDisable ''Low Battery''),
       (ET_NO_ENTRY, Fixed (NoEntryAlert mici ''Low Battery'' ''openpilot Unavailable'' Visual_none))]),
     (EventName_commIssue,
      [(ET_SOFT_DISABLE, SoftDisable ''Communication Issue Between Processes''),
       (ET_NO_ENTRY, Callback ''comm_issue_alert'')]),
     (EventName_commIssueAvgFreq,
      [(ET_SOFT_DISABLE, SoftDisable ''Low Communication Rate Between Processes''),
       (ET_NO_ENTRY, Fixed (NoEntryAlert mici ''Low Communication Rate Between Processes'' ''openpilot Unavailable'' Visual_none))]),
     (EventName_selfdrivedLagging,
      [(ET_SOFT_DISABLE, SoftDisable ''System Lagging''),
       (ET_NO_ENTRY, Fixed (NoEntryAlert mici ''Selfdrive Process Lagging: Reboot Your Device'' ''openpilot Unavailable'' Visual_none))]),
     (EventName_processNotRunning,
      [(ET_NO_ENTRY, Callback ''process_not_running_alert''),
       (ET_SOFT_DISABLE, SoftDisable ''Process Not Running'')]),
     (EventName_radarFault,
      [(ET_SOFT_DISABLE, SoftDisable ''Radar Error: Restart the Car''),
       (ET_NO_ENTRY, Fixed (NoEntryAlert mici ''Radar Error: Restart the Car'' ''openpilot Unavailable'' Visual_none))]),
     (EventName_radarTempUnavailable,
      [(ET_SOFT_DISABLE, SoftDisable ''Radar Temporarily Unavailable''),
       (ET_NO_ENTRY, Fixed (NoEntryAlert mici ''Radar Temporarily Unavailable'' ''openpilot Unavailable'' Visual_none))]),
     (EventName_modeldLagging,
      [(ET_SOFT_DISABLE, SoftDisable ''Driving Model Lagging''),
       (ET_NO_ENTRY, Fixed (NoEntryAlert mici ''Driving Model Lagging'' ''openpilot Unavailable'' Visual_none)),
       (ET_PERMANENT, Callback ''modeld_lagging_alert'')]),
     (EventName_posenetInvalid,
      [(ET_SOFT_DISABLE, SoftDisable ''Posenet Speed Invalid''),
       (ET_NO_ENTRY, Callback ''posenet_invalid_alert'')]),
     (EventName_deviceFalling,
      [(ET_SOFT_DISABLE, SoftDisable ''Device Fell Off Mount''),
       (ET_NO_ENTRY, Fixed (NoEntryAlert mici ''Device Fell Off Mount'' ''openpilot Unavailable'' Visual_none))]),
     (EventName_lowMemory,
      [(ET_SOFT_DISABLE, SoftDisable ''Low Memory: Reboot Your Device''),
       (ET_PERMANENT, Callback ''low_memory_alert''),
       (ET_NO_ENTRY, Fixed (NoEntryAlert mici ''Low Memory: Reboot Your Device'' ''openpilot Unavailable'' Visual_none))]),
     (EventName_accFaulted,
      [(ET_IMMEDIATE_DISABLE, Fixed (ImmediateDisableAlert ''Cruise Fault: Restart the Car'')),
       (ET_PERMANENT, Fixed (NormalPermanentAlert ''Cruise Fault: Restart the car to engage'' '''' (1 / 5) Priority_LOWER 0)),
       (ET_NO_ENTRY, Fixed (NoEntryAlert mici ''Cruise Fault: Restart the Car'' ''openpilot Unavailable'' Visual_none))]),
     (EventName_espActive,
      [(ET_SOFT_DISABLE, SoftDisable ''Electronic Stability Control Active''),
       (ET_NO_ENTRY, Fixed (NoEntryAlert mici ''Electronic Stability Control Active'' ''openpilot Unavailable'' Visual_none))]),
     (EventName_controlsMismatch,
      [(ET_IMMEDIATE_DISABLE, Fixed (ImmediateDisableAlert ''Controls Mismatch'')),
       (ET_NO_ENTRY, Fixed (NoEntryAlert mici ''Controls Mismatch'' ''openpilot Unavailable'' Visual_none))]),
     (EventName_usbError,
      [(ET_SOFT_DISABLE, SoftDisable ''USB Error: Reboot Your Device''),
       (ET_PERMANENT, Fixed (NormalPermanentAlert ''USB Error: Reboot Your Device'' '''' (1 / 5) Priority_LOWER 0)),
       (ET_NO_ENTRY, Fixed (NoEntryAlert mici ''USB Error: Reboot Your Device'' ''openpilot Unavailable'' Visual_none))])]"

definition EVENTS_part_5 :: "bool \<Rightarrow> events_table" where
  "EVENTS_part_5 mici =
    [(EventName_canError,
      [(ET_IMMEDIATE_DISABLE, Fixed (ImmediateDisableAlert ''Unknown Vehicle Variant'')),
       (ET_PERMANENT, Fixed (Alert ''Unknown Vehicle Variant'' '''' Status_normal Size_small Priority_LOW Visual_none Audible_none 1 1)),
       (ET_NO_ENTRY, Fixed (NoEntryAlert mici ''Unknown Vehicle Variant'' ''openpilot Unavailable'' Visual_none))]),
     (EventName_canBusMissing,
      [(ET_IMMEDIATE_DISABLE, Fixed (ImmediateDisableAlert ''CAN Bus Disconnected'')),
       (ET_PERMANENT, Fixed (Alert ''CAN Bus Disconnected: Likely Faulty Cable'' '''' Status_normal Size_small Priority_LOW Visual_none Audible_none 1 1)),
       (ET_NO_ENTRY, Fixed (NoEntryAlert mici ''CAN Bus Disconnected: Check Connections'' ''openpilot Unavailable'' Visual_none))]),
     (EventName_steerUnavailable,
      [(ET_IMMEDIATE_DISABLE, Fixed (ImmediateDisableAlert ''LKAS Fault: Restart the Car'')),
       (ET_PERMANENT, Fixed (NormalPermanentAlert ''LKAS Fault: Restart the car to engage'' '''' (1 / 5) Priority_LOWER 0)),
       (ET_NO_ENTRY, Fixed (NoEntryAlert mici ''LKAS Fault: Restart the Car'' ''openpilot Unavailable'' Visual_none))]),
     (EventName_reverseGear,
      [(ET_PERMANENT, Fixed (Alert (''Reverse'' @ [CHR 0x0A] @ ''Gear'') '''' Status_normal Size_full Priority_LOWEST Visual_none Audible_none (1 / 5) (1 / 2))),
       (ET_USER_DISABLE, Fixed (ImmediateDisableAlert ''Reverse Gear'')),
       (ET_NO_ENTRY, Fixed (NoEntryAlert mici ''Reverse Gear'' ''openpilot Unavailable'' Visual_none))]),
     (EventName_cruiseDisabled,
      [(ET_IMMEDIATE_DISABLE, Fixed (ImmediateDisableAlert ''Cruise Is Off''))]),
     (EventName_relayMalfunction,
      [(ET_IMMEDIATE_DISABLE, Fixed (ImmediateDisableAlert ''Harness Relay Malfunction'')),
       (ET_PERMANENT, Fixed (NormalPermanentAlert ''Harness Relay Malfunction'' ''Check Hardware'' (1 / 5) Priority_LOWER 0)),
       (ET_NO_ENTRY, Fixed (NoEntryAlert mici ''Harness Relay Malfunction'' ''openpilot Unavailable'' Visual_none))]),
     (EventName_speedTooLow,
      [(ET_IMMEDIATE_DISABLE, Fixed (Alert ''openpilot Canceled'' ''Speed too low'' Status_normal Size_mid Priority_HIGH Visual_none Audible_disengage 3 0))]),
     (EventName_speedTooHigh,
      [(ET_WARNING, Fixed (Alert ''Speed Too High'' ''Model uncertain at this speed'' Status_userPrompt Size_mid Priority_HIGH Visual_steerRequired Audible_promptRepeat 4 0)),
       (ET_NO_ENTRY, Fixed (NoEntryAlert mici ''Slow down to engage'' ''openpilot Unavailable'' Visual_none))]),
     (EventName_vehicleSensorsInvalid,
      [(ET_IMMEDIATE_DISABLE, Fixed (ImmediateDisableAlert ''Vehicle Sensors Invalid'')),
       (ET_PERMANENT, Fixed (NormalPermanentAlert ''Vehicle Sensors Calibrating'' ''Drive to Calibrate'' (1 / 5) Priority_LOWER 0)),
       (ET_NO_ENTRY, Fixed (NoEntryAlert mici ''Vehicle Sensors Calibrating'' ''openpilot Unavailable'' Visual_none))]),
     (EventName_personalityChanged,
      [(ET_WARNING, Callback ''personality_changed_alert'')]),
     (EventName_userBookmark,
      [(ET_PERMANENT, Fixed (NormalPermanentAlert ''Bookmark Saved'' '''' (3 / 2) Priority_LOWER 0))]),
     (EventName_audioFeedback,
      [(ET_PERMANENT, Callback ''audio_feedback_alert'')])]"

text \<open>The replacements on the small device.\<close>

definition EVENTS_mici :: "bool \<Rightarrow> events_table" where
  "EVENTS_mici mici =
    [(EventName_preDriverDistracted,
      [(ET_PERMANENT, Fixed (Alert ''Pay Attention'' '''' Status_normal Size_small Priority_LOW Visual_none Audible_none 2 0))]),
     (EventName_promptDriverDistracted,
      [(ET_PERMANENT, Fixed (Alert ''Pay Attention'' ''Driver Distracted'' Status_userPrompt Size_mid Priority_MID Visual_steerRequired Audible_promptDistracted 1 0))]),
     (EventName_resumeRequired,
      [(ET_WARNING, Fixed (Alert ''Press Resume'' '''' Status_userPrompt Size_small Priority_LOW Visual_none Audible_none (1 / 5) 0))]),
     (EventName_preLaneChangeLeft,
      [(ET_WARNING, Fixed (Alert ''Steer Left'' ''Confirm Lane Change'' Status_normal Size_mid Priority_LOW Visual_none Audible_none (1 / 10) 0))]),
     (EventName_preLaneChangeRight,
      [(ET_WARNING, Fixed (Alert ''Steer Right'' ''Confirm Lane Change'' Status_normal Size_mid Priority_LOW Visual_none Audible_none (1 / 10) 0))]),
     (EventName_laneChangeBlocked,
      [(ET_WARNING, Fixed (Alert ''Car in Blindspot'' '''' Status_userPrompt Size_small Priority_LOW Visual_none Audible_prompt (1 / 10) 0))]),
     (EventName_steerSaturated,
      [(ET_WARNING, Fixed (Alert ''take control'' ''turn exceeds limit'' Status_userPrompt Size_mid Priority_LOW Visual_steerRequired Audible_promptRepeat 2 0))]),
     (EventName_calibrationIncomplete,
      [(ET_PERMANENT, Callback ''calibration_incomplete_alert''),
       (ET_SOFT_DISABLE, SoftDisable ''Calibration Incomplete''),
       (ET_NO_ENTRY, Fixed (NoEntryAlert mici ''Calibrating'' ''openpilot Unavailable'' Visual_none))]),
     (EventName_reverseGear,
      [(ET_PERMANENT, Fixed (Alert ''Reverse'' '''' Status_normal Size_full Priority_LOWEST Visual_none Audible_none (1 / 5) (1 / 2))),
       (ET_USER_DISABLE, Fixed (ImmediateDisableAlert ''Reverse'')),
       (ET_NO_ENTRY, Fixed (NoEntryAlert mici ''Reverse'' ''openpilot Unavailable'' Visual_none))])]"

definition EVENTS :: "bool \<Rightarrow> events_table" where
  "EVENTS mici = (if mici then EVENTS_mici mici else []) @ EVENTS_part_1 mici @ EVENTS_part_2 mici @ EVENTS_part_3 mici @ EVENTS_part_4 mici @ EVENTS_part_5 mici"

section \<open>The table of the fork\<close>

definition EVENTS_IQ_1 :: "bool \<Rightarrow> events_table" where
  "EVENTS_IQ_1 mici =
    [(EventNameIQ_lkasEnable,
      [(ET_ENABLE, Fixed (EngagementAlert Audible_engage))]),
     (EventNameIQ_lkasDisable,
      [(ET_USER_DISABLE, Fixed (EngagementAlert Audible_disengage))]),
     (EventNameIQ_manualSteeringRequired,
      [(ET_USER_DISABLE, Fixed (Alert ''Automatic Lane Centering is OFF'' ''Manual Steering Required'' Status_normal Size_mid Priority_LOW Visual_none Audible_disengage 1 0))]),
     (EventNameIQ_manualLongitudinalRequired,
      [(ET_WARNING, Fixed (Alert ''Smart/Adaptive Cruise Control: OFF'' ''Manual Speed Control Required'' Status_normal Size_mid Priority_LOW Visual_none Audible_none 1 0))]),
     (EventNameIQ_silentLkasEnable,
      [(ET_ENABLE, Fixed (EngagementAlert Audible_none))]),
     (EventNameIQ_silentLkasDisable,
      [(ET_USER_DISABLE, Fixed (EngagementAlert Audible_none))]),
     (EventNameIQ_silentBrakeHold,
      [(ET_WARNING, Fixed (EngagementAlert Audible_none)),
       (ET_NO_ENTRY, Fixed (NoEntryAlert mici ''Brake Hold Active'' ''openpilot Unavailable'' Visual_none))]),
     (EventNameIQ_silentWrongGear,
      [(ET_WARNING, Fixed (Alert '''' '''' Status_normal Size_none Priority_LOWEST Visual_none Audible_none 0 0)),
       (ET_NO_ENTRY, Fixed (Alert ''Gear not D'' ''openpilot Unavailable'' Status_normal Size_mid Priority_LOW Visual_none Audible_none 0 0))]),
     (EventNameIQ_silentReverseGear,
      [(ET_PERMANENT, Fixed (Alert (''Reverse'' @ [CHR 0x0A] @ ''Gear'') '''' Status_normal Size_full Priority_LOWEST Visual_none Audible_none (1 / 5) (1 / 2))),
       (ET_NO_ENTRY, Fixed (NoEntryAlert mici ''Reverse Gear'' ''openpilot Unavailable'' Visual_none))]),
     (EventNameIQ_silentDoorOpen,
      [(ET_WARNING, Fixed (Alert '''' '''' Status_normal Size_none Priority_LOWEST Visual_none Audible_none 0 0)),
       (ET_NO_ENTRY, Fixed (NoEntryAlert mici ''Door Open'' ''openpilot Unavailable'' Visual_none))]),
     (EventNameIQ_silentSeatbeltNotLatched,
      [(ET_WARNING, Fixed (Alert '''' '''' Status_normal Size_none Priority_LOWEST Visual_none Audible_none 0 0)),
       (ET_NO_ENTRY, Fixed (NoEntryAlert mici ''Seatbelt Unlatched'' ''openpilot Unavailable'' Visual_none))]),
     (EventNameIQ_silentParkBrake,
      [(ET_WARNING, Fixed (Alert '''' '''' Status_normal Size_none Priority_LOWEST Visual_none Audible_none 0 0)),
       (ET_NO_ENTRY, Fixed (NoEntryAlert mici ''Parking Brake Engaged'' ''openpilot Unavailable'' Visual_none))]),
     (EventNameIQ_controlsMismatchLateral,
      [(ET_IMMEDIATE_DISABLE, Fixed (ImmediateDisableAlert ''Controls Mismatch: Lateral'')),
       (ET_NO_ENTRY, Fixed (NoEntryAlert mici ''Controls Mismatch: Lateral'' ''openpilot Unavailable'' Visual_none))]),
     (EventNameIQ_experimentalModeSwitched,
      [(ET_WARNING, Fixed (NormalPermanentAlert ''Experimental Mode Switched'' '''' (3 / 2) Priority_LOWER 0))]),
     (EventNameIQ_wrongCarModeAlertOnly,
      [(ET_WARNING, Callback ''wrong_car_mode_alert'')]),
     (EventNameIQ_pedalPressedAlertOnly,
      [(ET_WARNING, Fixed (NoEntryAlert mici ''Pedal Pressed'' ''openpilot Unavailable'' Visual_none))]),
     (EventNameIQ_laneTurnLeft,
      [(ET_WARNING, Fixed (Alert ''Turning Left'' '''' Status_normal Size_small Priority_LOW Visual_none Audible_none 1 0))]),
     (EventNameIQ_laneTurnRight,
      [(ET_WARNING, Fixed (Alert ''Turning Right'' '''' Status_normal Size_small Priority_LOW Visual_none Audible_none 1 0))]),
     (EventNameIQ_speedLimitActive,
      [(ET_WARNING, Fixed (Alert ''Automatically adjusting to the posted speed limit'' '''' Status_normal Size_small Priority_LOW Visual_none Audible_promptSingleHigh 5 0))]),
     (EventNameIQ_speedLimitChanged,
      [(ET_WARNING, Fixed (Alert ''Set speed changed'' '''' Status_normal Size_small Priority_LOW Visual_none Audible_promptSingleHigh 5 0))]),
     (EventNameIQ_speedLimitPreActive,
      [(ET_WARNING, Callback ''speed_limit_pre_active_alert'')]),
     (EventNameIQ_speedLimitPending,
      [(ET_WARNING, Fixed (Alert ''Automatically adjusting to the last speed limit'' '''' Status_normal Size_small Priority_LOW Visual_none Audible_promptSingleHigh 5 0))])]"

definition EVENTS_IQ_2 :: "bool \<Rightarrow> events_table" where
  "EVENTS_IQ_2 mici =
    [(EventNameIQ_e2eChime,
      [(ET_PERMANENT, Fixed (Alert '''' '''' Status_normal Size_none Priority_MID Visual_none Audible_prompt 3 0))])]"

definition EVENTS_IQ :: "bool \<Rightarrow> events_table" where
  "EVENTS_IQ mici = EVENTS_IQ_1 mici @ EVENTS_IQ_2 mici"

end
