(* ===== verification/SelfdriveState.thy ===== *)
theory SelfdriveState
  imports EventTables
begin

text \<open>
  \<^verbatim>\<open>class StateMachine\<close> of \<^verbatim>\<open>selfdrive/selfdrived/state.py\<close>: the engagement state of the driving
  assistant, stepped once per control cycle with the active events. The machine sees the events
  only through \<^verbatim>\<open>events.contains\<close>, so its step takes the predicate on event types; the method
  of the class instantiates it with the stock table.
\<close>

section \<open>State\<close>

datatype OpenpilotState = disabled | preEnabled | enabled | softDisabling | overriding

text \<open>\<^verbatim>\<open>int(SOFT_DISABLE_TIME / DT_CTRL)\<close>, the grace period in control cycles.\<close>

definition SOFT_DISABLE_TIME :: rat where
  "SOFT_DISABLE_TIME = 3"

definition soft_disable_steps :: int where
  "soft_disable_steps = py_trunc (fl (SOFT_DISABLE_TIME / DT_CTRL))"

lemma soft_disable_steps_300: "soft_disable_steps = 300"
  unfolding soft_disable_steps_def SOFT_DISABLE_TIME_def DT_CTRL_def by code_simp

definition ACTIVE_STATES :: "OpenpilotState list" where
  "ACTIVE_STATES = [enabled, softDisabling, overriding]"

definition ENABLED_STATES :: "OpenpilotState list" where
  "ENABLED_STATES = preEnabled # ACTIVE_STATES"

record state_machine =
  current_alert_types :: "ET list"
  state :: OpenpilotState
  soft_disable_timer :: int

definition StateMachine_init :: state_machine where
  "StateMachine_init =
    \<lparr>current_alert_types = [ET_PERMANENT], state = disabled, soft_disable_timer = 0\<rparr>"

section \<open>The step\<close>

abbreviation add_alert :: "ET \<Rightarrow> state_machine \<Rightarrow> state_machine" where
  "add_alert et m \<equiv> m\<lparr>current_alert_types := current_alert_types m @ [et]\<rparr>"

definition overrides :: "(ET \<Rightarrow> bool) \<Rightarrow> bool" where
  "overrides has \<longleftrightarrow> has ET_OVERRIDE_LATERAL \<or> has ET_OVERRIDE_LONGITUDINAL"

definition start_soft_disable :: "state_machine \<Rightarrow> state_machine" where
  "start_soft_disable m =
     add_alert ET_SOFT_DISABLE (m\<lparr>state := softDisabling, soft_disable_timer := soft_disable_steps\<rparr>)"

definition add_overrides :: "state_machine \<Rightarrow> state_machine" where
  "add_overrides m =
     m\<lparr>current_alert_types := current_alert_types m @ [ET_OVERRIDE_LATERAL, ET_OVERRIDE_LONGITUDINAL]\<rparr>"

definition step_enabled :: "(ET \<Rightarrow> bool) \<Rightarrow> state_machine \<Rightarrow> state_machine" where
  "step_enabled has m =
    (if has ET_SOFT_DISABLE then start_soft_disable m
     else if overrides has then add_overrides (m\<lparr>state := overriding\<rparr>)
     else m)"

definition step_soft_disabling :: "(ET \<Rightarrow> bool) \<Rightarrow> state_machine \<Rightarrow> state_machine" where
  "step_soft_disabling has m =
    (if \<not> has ET_SOFT_DISABLE then m\<lparr>state := enabled\<rparr>
     else if 0 < soft_disable_timer m then add_alert ET_SOFT_DISABLE m
     else if soft_disable_timer m \<le> 0 then m\<lparr>state := disabled\<rparr>
     else m)"

definition step_pre_enabled :: "(ET \<Rightarrow> bool) \<Rightarrow> state_machine \<Rightarrow> state_machine" where
  "step_pre_enabled has m =
    (if \<not> has ET_PRE_ENABLE then m\<lparr>state := enabled\<rparr> else add_alert ET_PRE_ENABLE m)"

definition step_overriding :: "(ET \<Rightarrow> bool) \<Rightarrow> state_machine \<Rightarrow> state_machine" where
  "step_overriding has m =
    (if has ET_SOFT_DISABLE then start_soft_disable m
     else if \<not> overrides has then m\<lparr>state := enabled\<rparr>
     else add_overrides m)"

definition step_disabled :: "(ET \<Rightarrow> bool) \<Rightarrow> state_machine \<Rightarrow> state_machine" where
  "step_disabled has m =
    (if has ET_ENABLE
     then (if has ET_NO_ENTRY then add_alert ET_NO_ENTRY m
           else add_alert ET_ENABLE
             (m\<lparr>state := (if has ET_PRE_ENABLE then preEnabled
                         else if overrides has then overriding else enabled)\<rparr>))
     else m)"

definition step_state :: "(ET \<Rightarrow> bool) \<Rightarrow> state_machine \<Rightarrow> state_machine" where
  "step_state has m =
    (if state m \<noteq> disabled then
       (if has ET_USER_DISABLE then add_alert ET_USER_DISABLE (m\<lparr>state := disabled\<rparr>)
        else if has ET_IMMEDIATE_DISABLE then add_alert ET_IMMEDIATE_DISABLE (m\<lparr>state := disabled\<rparr>)
        else (case state m of
                enabled \<Rightarrow> step_enabled has m
              | softDisabling \<Rightarrow> step_soft_disabling has m
              | preEnabled \<Rightarrow> step_pre_enabled has m
              | overriding \<Rightarrow> step_overriding has m
              | disabled \<Rightarrow> m))
     else step_disabled has m)"

definition machine_update :: "(ET \<Rightarrow> bool) \<Rightarrow> state_machine \<Rightarrow> (bool \<times> bool) \<times> state_machine" where
  "machine_update has m =
    (let m1 = m\<lparr>soft_disable_timer := max 0 (soft_disable_timer m - 1),
                current_alert_types := [ET_PERMANENT]\<rparr>;
         m2 = step_state has m1;
         en = state m2 \<in> set ENABLED_STATES;
         act = state m2 \<in> set ACTIVE_STATES
     in ((en, act), if act then add_alert ET_WARNING m2 else m2))"

definition StateMachine_update ::
    "events_table \<Rightarrow> events_base \<Rightarrow> state_machine \<Rightarrow> (bool \<times> bool) \<times> state_machine" where
  "StateMachine_update table ev = machine_update (\<lambda>et. events_contains table (EventType et) ev)"

section \<open>The machine as a transition system\<close>

text \<open>One step on the state and the timer alone.\<close>

abbreviation next_machine :: "(ET \<Rightarrow> bool) \<Rightarrow> state_machine \<Rightarrow> state_machine" where
  "next_machine has m \<equiv> snd (machine_update has m)"

lemmas step_defs = step_state_def step_enabled_def step_soft_disabling_def step_pre_enabled_def
  step_overriding_def step_disabled_def start_soft_disable_def add_overrides_def

definition machine_inv :: "state_machine \<Rightarrow> bool" where
  "machine_inv m \<longleftrightarrow>
     0 \<le> soft_disable_timer m \<and> soft_disable_timer m \<le> soft_disable_steps \<and>
     ET_PERMANENT \<in> set (current_alert_types m) \<and>
     (ET_WARNING \<in> set (current_alert_types m) \<longleftrightarrow> state m \<in> set ACTIVE_STATES)"

lemma machine_inv_step: "machine_inv m \<Longrightarrow> machine_inv (next_machine has m)"
  by (cases "state m")
    (auto simp: machine_inv_def machine_update_def step_defs ACTIVE_STATES_def ENABLED_STATES_def
      soft_disable_steps_300 Let_def)

interpretation machine: invariant_step next_machine machine_inv
  by unfold_locales (rule machine_inv_step)

lemma machine_inv_init: "machine_inv StateMachine_init"
  by (simp add: machine_inv_def StateMachine_init_def soft_disable_steps_300 ACTIVE_STATES_def)

abbreviation run_machine :: "(ET \<Rightarrow> bool) list \<Rightarrow> state_machine \<Rightarrow> state_machine" where
  "run_machine \<equiv> fold next_machine"

definition cut_off :: "(ET \<Rightarrow> bool) \<Rightarrow> bool" where
  "cut_off has \<longleftrightarrow> has ET_USER_DISABLE \<or> has ET_IMMEDIATE_DISABLE"

lemma next_disabled:
  "state m = disabled \<Longrightarrow> state (next_machine has m) \<noteq> disabled \<longleftrightarrow> has ET_ENABLE \<and> \<not> has ET_NO_ENTRY"
  by (auto simp: machine_update_def step_defs Let_def)

lemma next_cut_off: "state m \<noteq> disabled \<Longrightarrow> cut_off has \<Longrightarrow> state (next_machine has m) = disabled"
  by (auto simp: machine_update_def step_defs Let_def cut_off_def ACTIVE_STATES_def)

section \<open>Properties\<close>

text \<open>C4: the outputs and alerts agree with the state in every reachable state. After any sequence of
event sets, \<^verbatim>\<open>update\<close> reports enabled exactly when the state is not \<^verbatim>\<open>disabled\<close> and active exactly
when it is also not \<^verbatim>\<open>preEnabled\<close>; the warning alerts are requested exactly when active, the
permanent ones always, and the soft-disable timer stays between 0 and 300.\<close>

theorem state_machine_outputs:
  "let m = run_machine hs StateMachine_init; ((en, act), m') = machine_update has m
   in (en \<longleftrightarrow> state m' \<noteq> disabled) \<and> (act \<longleftrightarrow> state m' \<noteq> disabled \<and> state m' \<noteq> preEnabled) \<and>
      (ET_WARNING \<in> set (current_alert_types m') \<longleftrightarrow> act) \<and> ET_PERMANENT \<in> set (current_alert_types m') \<and>
      0 \<le> soft_disable_timer m' \<and> soft_disable_timer m' \<le> 300"
proof -
  obtain m where m: "m = run_machine hs StateMachine_init" by simp
  obtain en act m' where u: "machine_update has m = ((en, act), m')" by (metis surj_pair)
  have "machine_inv m'"
    using machine_inv_step [OF machine.run_inv [OF machine_inv_init, of hs], of has] u m by simp
  moreover have "en = (state m' \<in> set ENABLED_STATES)" "act = (state m' \<in> set ACTIVE_STATES)"
    using u by (auto simp: machine_update_def Let_def)
  ultimately show ?thesis
    using u m by (cases "state m'")
      (simp_all add: machine_inv_def ACTIVE_STATES_def ENABLED_STATES_def soft_disable_steps_300 Let_def)
qed

text \<open>C3: engagement has a cause. Whenever the machine is engaged after some sequence of event sets,
there is a step in that sequence at which it was disabled, an enabling event was present and no
event that blocks entry, and since which no user or immediate disable event has occurred.\<close>

theorem engaged_has_cause:
  assumes "state (run_machine hs StateMachine_init) \<noteq> disabled"
  shows "\<exists>pre h post. hs = pre @ h # post \<and> state (run_machine pre StateMachine_init) = disabled \<and>
    h ET_ENABLE \<and> \<not> h ET_NO_ENTRY \<and> (\<forall>d\<in>set post. \<not> cut_off d)"
  using assms
proof (induction hs rule: rev_induct)
  case Nil
  then show ?case by (simp add: StateMachine_init_def)
next
  case (snoc h hs)
  let ?m = "run_machine hs StateMachine_init"
  show ?case
  proof (cases "state ?m = disabled")
    case True
    with snoc.prems next_disabled [OF True, of h] show ?thesis by fastforce
  next
    case False
    then obtain pre g post where "hs = pre @ g # post"
      "state (run_machine pre StateMachine_init) = disabled" "g ET_ENABLE" "\<not> g ET_NO_ENTRY"
      "\<forall>d\<in>set post. \<not> cut_off d"
      using snoc.IH by blast
    moreover have "\<not> cut_off h" using snoc.prems next_cut_off [OF False, of h] by auto
    ultimately show ?thesis by (intro exI [of _ pre] exI [of _ g] exI [of _ "post @ [h]"]) auto
  qed
qed

lemma engaged_has_cause_witness:
  "\<exists>pre h post. [\<lambda>et. et = ET_ENABLE] = pre @ h # post \<and>
     state (run_machine pre StateMachine_init) = disabled \<and>
     h ET_ENABLE \<and> \<not> h ET_NO_ENTRY \<and> (\<forall>d\<in>set post. \<not> cut_off d)"
  by (rule engaged_has_cause) (simp add: machine_update_def step_defs StateMachine_init_def overrides_def Let_def
      ACTIVE_STATES_def)

text \<open>C7: disengaging events win at once. From every engaged state, a user or immediate disable event
makes the very next update report neither enabled nor active, whatever else is present.\<close>

theorem disable_wins:
  assumes "state m \<noteq> disabled" "has ET_USER_DISABLE \<or> has ET_IMMEDIATE_DISABLE"
  shows "fst (machine_update has m) = (False, False) \<and> state (next_machine has m) = disabled"
  using next_cut_off [OF assms(1), of has] assms
  by (auto simp: machine_update_def step_defs Let_def cut_off_def ACTIVE_STATES_def ENABLED_STATES_def)

lemma disable_wins_witness:
  "fst (machine_update (\<lambda>_. True) (StateMachine_init\<lparr>state := overriding\<rparr>)) = (False, False)"
  using disable_wins [of "StateMachine_init\<lparr>state := overriding\<rparr>" "\<lambda>_. True"] by simp

text \<open>The countdown: while the soft-disable condition lasts and nothing cuts off.\<close>

definition soft_disable_only :: "(ET \<Rightarrow> bool) \<Rightarrow> bool" where
  "soft_disable_only has \<longleftrightarrow> has ET_SOFT_DISABLE \<and> \<not> cut_off has"

lemma soft_disable_entry:
  assumes "state m = enabled \<or> state m = overriding" "soft_disable_only has"
  shows "state (next_machine has m) = softDisabling" "soft_disable_timer (next_machine has m) = 300"
  using assms by (auto simp: machine_update_def step_defs Let_def soft_disable_only_def cut_off_def
      soft_disable_steps_300 ACTIVE_STATES_def)

lemma soft_disable_tick:
  assumes "state m = softDisabling" "soft_disable_only has" "0 < soft_disable_timer m"
  shows "state (next_machine has m) = (if soft_disable_timer m = 1 then disabled else softDisabling) \<and>
    soft_disable_timer (next_machine has m) = soft_disable_timer m - 1"
  using assms by (auto simp: machine_update_def step_defs Let_def soft_disable_only_def cut_off_def
      ACTIVE_STATES_def)

lemma soft_disable_countdown:
  assumes "state m = softDisabling" "\<forall>h\<in>set hs. soft_disable_only h" "int (length hs) < soft_disable_timer m"
  shows "state (run_machine hs m) = softDisabling \<and>
    soft_disable_timer (run_machine hs m) = soft_disable_timer m - int (length hs)"
  using assms(2,3)
proof (induction hs rule: rev_induct)
  case Nil
  then show ?case using assms(1) by simp
next
  case (snoc h hs)
  let ?m = "run_machine hs m"
  have m: "state ?m = softDisabling" "soft_disable_timer ?m = soft_disable_timer m - int (length hs)"
    using snoc by simp_all
  have t: "0 < soft_disable_timer ?m" "soft_disable_timer ?m \<noteq> 1" using snoc.prems(2) m(2) by simp_all
  show ?case using soft_disable_tick [OF m(1) _ t(1), of h] snoc.prems(1) m(2) t(2) by simp
qed

text \<open>C20: the grace period is exactly three seconds. When a soft-disable condition appears while
engaged and lasts, with nothing that cuts off at once, the machine stays active for 300 control
cycles and is disabled after the 301st.\<close>

theorem soft_disable_grace:
  assumes "state m = enabled \<or> state m = overriding"
    and "\<forall>h\<in>set hs. h ET_SOFT_DISABLE \<and> \<not> h ET_USER_DISABLE \<and> \<not> h ET_IMMEDIATE_DISABLE"
  shows "(1 \<le> length hs \<and> length hs \<le> 300 \<longrightarrow> state (run_machine hs m) = softDisabling) \<and>
    (length hs = 301 \<longrightarrow> state (run_machine hs m) = disabled)"
proof (cases hs)
  case Nil
  then show ?thesis by simp
next
  case (Cons h tl)
  have only: "soft_disable_only d" if "d \<in> set hs" for d
    using assms(2) that by (auto simp: soft_disable_only_def cut_off_def)
  obtain m1 where m1: "m1 = next_machine h m" by simp
  have s: "state m1 = softDisabling" "soft_disable_timer m1 = 300"
    using soft_disable_entry [OF assms(1) only, of h] Cons m1 by simp_all
  have tl: "\<forall>d\<in>set tl. soft_disable_only d" using only Cons by simp
  have run: "run_machine hs m = run_machine tl m1" using Cons m1 by simp
  show ?thesis
  proof (intro conjI impI)
    assume "1 \<le> length hs \<and> length hs \<le> 300"
    then have "int (length tl) < soft_disable_timer m1" using s Cons by simp
    with soft_disable_countdown [OF s(1) tl] run show "state (run_machine hs m) = softDisabling" by simp
  next
    assume l: "length hs = 301"
    then obtain ys d where ys: "tl = ys @ [d]" using Cons by (cases tl rule: rev_cases) auto
    have "int (length ys) = 299" using l Cons ys by simp
    then have "state (run_machine ys m1) = softDisabling" "soft_disable_timer (run_machine ys m1) = 1"
      using soft_disable_countdown [OF s(1), of ys] tl ys s(2) by simp_all
    with soft_disable_tick [of "run_machine ys m1" d] tl ys run
    show "state (run_machine hs m) = disabled" by simp
  qed
qed

lemma soft_disable_grace_witness:
  "state (run_machine (replicate 301 (\<lambda>et. et = ET_SOFT_DISABLE)) (StateMachine_init\<lparr>state := enabled\<rparr>)) = disabled"
  using soft_disable_grace [of "StateMachine_init\<lparr>state := enabled\<rparr>" "replicate 301 (\<lambda>et. et = ET_SOFT_DISABLE)"]
  by simp

section \<open>The machine over the stock table\<close>

definition entry_blocked :: "(ET \<times> alert_src) list \<Rightarrow> bool" where
  "entry_blocked m \<longleftrightarrow> (ET_SOFT_DISABLE \<in> set (map fst m) \<longrightarrow> ET_NO_ENTRY \<in> set (map fst m))"

lemma entry_blocked_parts:
  "list_all (\<lambda>(e, m). entry_blocked m) (EVENTS_part_1 mici)"
  "list_all (\<lambda>(e, m). entry_blocked m) (EVENTS_part_2 mici)"
  "list_all (\<lambda>(e, m). entry_blocked m) (EVENTS_part_3 mici)"
  "list_all (\<lambda>(e, m). entry_blocked m) (EVENTS_part_4 mici)"
  "list_all (\<lambda>(e, m). entry_blocked m) (EVENTS_part_5 mici)"
  "list_all (\<lambda>(e, m). entry_blocked m) (EVENTS_mici mici)"
  by (simp_all add: entry_blocked_def EVENTS_part_1_def EVENTS_part_2_def EVENTS_part_3_def
      EVENTS_part_4_def EVENTS_part_5_def EVENTS_mici_def)

lemma entry_blocked_EVENTS: "(e, m) \<in> set (EVENTS mici) \<Longrightarrow> entry_blocked m"
  using entry_blocked_parts [of mici] by (fastforce simp: EVENTS_def list_all_iff split: if_splits)

lemma soft_disable_no_entry:
  "ET_SOFT_DISABLE \<in> set (event_types (EVENTS mici) e) \<Longrightarrow> ET_NO_ENTRY \<in> set (event_types (EVENTS mici) e)"
proof (cases "map_of (EVENTS mici) e")
  case (Some m)
  then have "entry_blocked m" using entry_blocked_EVENTS map_of_SomeD by metis
  moreover assume "ET_SOFT_DISABLE \<in> set (event_types (EVENTS mici) e)"
  ultimately show ?thesis using Some by (simp add: event_types_def entry_blocked_def)
qed (simp add: event_types_def)

text \<open>what would disengage also blocks engagement. On either device, whatever events are active:
while any event of the stock table that soft-disables is among them, the machine that is
disabled stays disabled, and reports neither enabled nor active.\<close>

theorem soft_disable_blocks_entry:
  assumes "state m = disabled" "e \<in> set (events ev)" "ET_SOFT_DISABLE \<in> set (event_types (EVENTS mici) e)"
  shows "fst (StateMachine_update (EVENTS mici) ev m) = (False, False) \<and>
    state (snd (StateMachine_update (EVENTS mici) ev m)) = disabled"
proof -
  have "events_contains (EVENTS mici) (EventType ET_NO_ENTRY) ev"
    using soft_disable_no_entry [OF assms(3)] assms(2) by (auto simp: contains_iff)
  with assms(1) show ?thesis
    by (auto simp: StateMachine_update_def machine_update_def step_defs Let_def ACTIVE_STATES_def ENABLED_STATES_def)
qed

lemma map_of_append_case:
  "map_of (xs @ ys) e = (case map_of xs e of None \<Rightarrow> map_of ys e | Some v \<Rightarrow> Some v)"
  by (simp add: map_of_append map_add_def split: option.splits)

lemma soft_disable_blocks_entry_witness:
  "state (snd (StateMachine_update (EVENTS False)
     \<lparr>events = [EventName_buttonEnable, EventName_cameraMalfunction], static_events = [], event_counters = Map.empty\<rparr>
     StateMachine_init)) = disabled"
proof -
  have "ET_SOFT_DISABLE \<in> set (event_types (EVENTS False) EventName_cameraMalfunction)"
    by (simp add: event_types_def EVENTS_def map_of_append_case EVENTS_part_1_def EVENTS_part_2_def
        del: map_of_append)
  then show ?thesis
    using soft_disable_blocks_entry [of StateMachine_init EventName_cameraMalfunction
        "\<lparr>events = [EventName_buttonEnable, EventName_cameraMalfunction], static_events = [], event_counters = Map.empty\<rparr>" False]
    by (simp add: StateMachine_init_def)
qed

end
