(* ===== verification/AolEngine.thy ===== *)
theory AolEngine
  imports SelfdriveState
begin

text \<open>
  \<^verbatim>\<open>iqpilot/aol/engine.py\<close>: the state machine of always-on lateral control, which can steer while
  the main machine is disengaged. It shares the soft-disable timer and the alert list of the main
  machine, and touches them only when the main machine is not enabled (with two exceptions in the
  code, kept here).
\<close>

section \<open>State\<close>

datatype AolState = aol_disabled | aol_paused | aol_enabled | aol_softDisabling | aol_overriding

definition TORQUE_DELIVERING_STATES :: "AolState list" where
  "TORQUE_DELIVERING_STATES = [aol_enabled, aol_softDisabling, aol_overriding]"

definition LATERAL_CONTROLLED_STATES :: "AolState list" where
  "LATERAL_CONTROLLED_STATES = aol_paused # TORQUE_DELIVERING_STATES"

definition PAUSE_WITH_IQ_EVENTS :: "int list" where
  "PAUSE_WITH_IQ_EVENTS =
    [EventNameIQ_silentWrongGear, EventNameIQ_silentReverseGear, EventNameIQ_silentBrakeHold,
     EventNameIQ_silentDoorOpen, EventNameIQ_silentSeatbeltNotLatched, EventNameIQ_silentParkBrake]"

definition PAUSE_WITH_STOCK_EVENTS :: "int list" where
  "PAUSE_WITH_STOCK_EVENTS =
    [EventName_wrongGear, EventName_reverseGear, EventName_brakeHold, EventName_doorOpen,
     EventName_seatbeltNotLatched, EventName_parkBrake]"

record AolPulse =
  wake_ping :: bool
  gate_closed :: bool
  cooldown_call :: bool
  driver_kill :: bool
  hard_cut :: bool
  hands_on_wheel :: bool
  hush_cut :: bool
  pit_stop_ready :: bool

text \<open>The part of the process that the engine works on.\<close>

record aol_machine =
  sd_machine :: state_machine
  sd_enabled :: bool
  sd_events :: events_base
  sd_events_iq :: events_base
  aol_state :: AolState

section \<open>The pulse\<close>

definition sees_event :: "bool \<Rightarrow> aol_machine \<Rightarrow> ET \<Rightarrow> bool" where
  "sees_event mici m et \<longleftrightarrow>
     events_contains (EVENTS mici) (EventType et) (sd_events m) \<or>
     events_contains (EVENTS_IQ mici) (EventType et) (sd_events_iq m)"

definition can_take_pit_stop :: "aol_machine \<Rightarrow> bool" where
  "can_take_pit_stop m \<longleftrightarrow>
     events_contains_in_list PAUSE_WITH_STOCK_EVENTS (sd_events m) \<or>
     events_contains_in_list PAUSE_WITH_IQ_EVENTS (sd_events_iq m)"

definition capture_pulse :: "bool \<Rightarrow> aol_machine \<Rightarrow> AolPulse" where
  "capture_pulse mici m =
    \<lparr>wake_ping = sees_event mici m ET_ENABLE, gate_closed = sees_event mici m ET_NO_ENTRY,
     cooldown_call = sees_event mici m ET_SOFT_DISABLE, driver_kill = sees_event mici m ET_USER_DISABLE,
     hard_cut = sees_event mici m ET_IMMEDIATE_DISABLE,
     hands_on_wheel = sees_event mici m ET_OVERRIDE_LATERAL,
     hush_cut = events_has EventNameIQ_silentLkasDisable (sd_events_iq m),
     pit_stop_ready = can_take_pit_stop m\<rparr>"

section \<open>The handlers\<close>

definition on_machine :: "(state_machine \<Rightarrow> state_machine) \<Rightarrow> aol_machine \<Rightarrow> aol_machine" where
  "on_machine f m = m\<lparr>sd_machine := f (sd_machine m)\<rparr>"

definition queue_alert_if_solo :: "ET \<Rightarrow> aol_machine \<Rightarrow> aol_machine" where
  "queue_alert_if_solo et m = (if \<not> sd_enabled m then on_machine (add_alert et) m else m)"

definition start_grace_period :: "aol_machine \<Rightarrow> aol_machine" where
  "start_grace_period m =
    (if \<not> sd_enabled m
     then on_machine (\<lambda>s. add_alert ET_SOFT_DISABLE (s\<lparr>soft_disable_timer := soft_disable_steps\<rparr>)) m
     else m)"

text \<open>Each handler returns the next state and the machine with its alerts; a cut-off comes first.\<close>

definition run_global_cutoffs :: "AolPulse \<Rightarrow> aol_machine \<Rightarrow> AolState option \<times> aol_machine" where
  "run_global_cutoffs p m =
    (if driver_kill p
     then (Some (if hush_cut p then aol_paused else aol_disabled), on_machine (add_alert ET_USER_DISABLE) m)
     else if hard_cut p then (Some aol_disabled, queue_alert_if_solo ET_IMMEDIATE_DISABLE m)
     else (None, m))"

definition handle_disabled :: "AolPulse \<Rightarrow> aol_machine \<Rightarrow> AolState \<times> aol_machine" where
  "handle_disabled p m =
    (if \<not> wake_ping p then (aol_disabled, m)
     else if gate_closed p
     then (if pit_stop_ready p then aol_paused else aol_disabled, queue_alert_if_solo ET_NO_ENTRY m)
     else (if hands_on_wheel p then aol_overriding else aol_enabled, queue_alert_if_solo ET_ENABLE m))"

definition handle_enabled :: "AolPulse \<Rightarrow> aol_machine \<Rightarrow> AolState \<times> aol_machine" where
  "handle_enabled p m =
    (case run_global_cutoffs p m of
       (Some s, m1) \<Rightarrow> (s, m1)
     | (None, m1) \<Rightarrow>
         (if cooldown_call p then (aol_softDisabling, start_grace_period m1)
          else if hands_on_wheel p then (aol_overriding, queue_alert_if_solo ET_OVERRIDE_LATERAL m1)
          else (aol_enabled, m1)))"

definition handle_soft_disabling :: "AolPulse \<Rightarrow> aol_machine \<Rightarrow> AolState \<times> aol_machine" where
  "handle_soft_disabling p m =
    (case run_global_cutoffs p m of
       (Some s, m1) \<Rightarrow> (s, m1)
     | (None, m1) \<Rightarrow>
         (if \<not> cooldown_call p then (aol_enabled, m1)
          else if 0 < soft_disable_timer (sd_machine m1)
          then (aol_softDisabling, queue_alert_if_solo ET_SOFT_DISABLE m1)
          else (aol_disabled, m1)))"

definition handle_paused :: "AolPulse \<Rightarrow> aol_machine \<Rightarrow> AolState \<times> aol_machine" where
  "handle_paused p m =
    (case run_global_cutoffs p m of
       (Some s, m1) \<Rightarrow> (s, m1)
     | (None, m1) \<Rightarrow>
         (if \<not> wake_ping p then (aol_paused, m1)
          else if gate_closed p then (aol_paused, queue_alert_if_solo ET_NO_ENTRY m1)
          else (if hands_on_wheel p then aol_overriding else aol_enabled, queue_alert_if_solo ET_ENABLE m1)))"

definition handle_overriding :: "AolPulse \<Rightarrow> aol_machine \<Rightarrow> AolState \<times> aol_machine" where
  "handle_overriding p m =
    (case run_global_cutoffs p m of
       (Some s, m1) \<Rightarrow> (s, m1)
     | (None, m1) \<Rightarrow>
         (if cooldown_call p then (aol_softDisabling, start_grace_period m1)
          else if hands_on_wheel p then (aol_overriding, on_machine (add_alert ET_OVERRIDE_LATERAL) m1)
          else (aol_enabled, m1)))"

definition aol_handler :: "AolState \<Rightarrow> AolPulse \<Rightarrow> aol_machine \<Rightarrow> AolState \<times> aol_machine" where
  "aol_handler s =
    (case s of aol_disabled \<Rightarrow> handle_disabled | aol_enabled \<Rightarrow> handle_enabled
     | aol_softDisabling \<Rightarrow> handle_soft_disabling | aol_paused \<Rightarrow> handle_paused
     | aol_overriding \<Rightarrow> handle_overriding)"

definition AolStateMachine_update :: "bool \<Rightarrow> aol_machine \<Rightarrow> (bool \<times> bool) \<times> aol_machine" where
  "AolStateMachine_update mici m =
    (let (s, m1) = aol_handler (aol_state m) (capture_pulse mici m) m;
         m2 = m1\<lparr>aol_state := s\<rparr>;
         en = s \<in> set LATERAL_CONTROLLED_STATES;
         act = s \<in> set TORQUE_DELIVERING_STATES
     in ((en, act), if act then queue_alert_if_solo ET_WARNING m2 else m2))"

section \<open>What a step does\<close>

lemmas aol_handler_defs = handle_disabled_def handle_enabled_def handle_soft_disabling_def
  handle_paused_def handle_overriding_def run_global_cutoffs_def

lemmas aol_effect_defs = queue_alert_if_solo_def start_grace_period_def on_machine_def

text \<open>A handler changes only the alerts and the timer of the main machine.\<close>

definition aol_frame :: "aol_machine \<Rightarrow> aol_machine \<Rightarrow> bool" where
  "aol_frame m m' \<longleftrightarrow>
     sd_enabled m' = sd_enabled m \<and> sd_events m' = sd_events m \<and> sd_events_iq m' = sd_events_iq m \<and>
     state (sd_machine m') = state (sd_machine m) \<and>
     (soft_disable_timer (sd_machine m') = soft_disable_timer (sd_machine m) \<or>
      \<not> sd_enabled m \<and> soft_disable_timer (sd_machine m') = soft_disable_steps)"

lemma aol_handler_frame: "aol_handler s p m = (s', m') \<Longrightarrow> aol_frame m m' \<and> aol_state m' = aol_state m"
  by (cases s)
    (auto simp: aol_handler_def aol_handler_defs aol_effect_defs aol_frame_def split: if_splits)

lemma AolStateMachine_update_frame:
  "AolStateMachine_update mici m = ((en, act), m') \<Longrightarrow> aol_frame m m'"
  by (auto simp: AolStateMachine_update_def aol_effect_defs aol_frame_def Let_def
      dest!: aol_handler_frame split: prod.splits if_splits)

lemma AolStateMachine_update_state:
  "AolStateMachine_update mici m = ((en, act), m') \<Longrightarrow>
   aol_state m' = fst (aol_handler (aol_state m) (capture_pulse mici m) m) \<and>
   en = (aol_state m' \<noteq> aol_disabled) \<and>
   act = (aol_state m' \<noteq> aol_disabled \<and> aol_state m' \<noteq> aol_paused)"
  by (cases "fst (aol_handler (aol_state m) (capture_pulse mici m) m)")
    (auto simp: AolStateMachine_update_def aol_effect_defs LATERAL_CONTROLLED_STATES_def
      TORQUE_DELIVERING_STATES_def Let_def split: prod.splits if_splits)

section \<open>Properties\<close>

text \<open>C11: lateral control stops when it must. Whatever state the engine is in other than disabled, a
user disable event makes the next update deliver no torque - the engine is paused if the disable
is the silent one of the pause logic and disabled otherwise - and an immediate disable event
without it makes the engine disabled.\<close>

theorem aol_cutoffs:
  assumes "aol_state m \<noteq> aol_disabled"
  shows "(sees_event mici m ET_USER_DISABLE \<longrightarrow>
      snd (fst (AolStateMachine_update mici m)) = False \<and>
      aol_state (snd (AolStateMachine_update mici m)) =
        (if events_has EventNameIQ_silentLkasDisable (sd_events_iq m) then aol_paused else aol_disabled)) \<and>
    (\<not> sees_event mici m ET_USER_DISABLE \<and> sees_event mici m ET_IMMEDIATE_DISABLE \<longrightarrow>
      fst (AolStateMachine_update mici m) = (False, False) \<and>
      aol_state (snd (AolStateMachine_update mici m)) = aol_disabled)"
  using assms
  by (cases "aol_state m")
    (auto simp: AolStateMachine_update_def aol_handler_def aol_handler_defs aol_effect_defs
      capture_pulse_def LATERAL_CONTROLLED_STATES_def TORQUE_DELIVERING_STATES_def Let_def)

definition quiet_events :: "int list \<Rightarrow> events_base" where
  "quiet_events es = \<lparr>events = es, static_events = [], event_counters = Map.empty\<rparr>"

lemma quiet_events_simps [simp]:
  "events (quiet_events es) = es"
  by (simp add: quiet_events_def)

lemma lkasDisable_types: "event_types (EVENTS_IQ mici) EventNameIQ_lkasDisable = [ET_USER_DISABLE]"
  by (simp add: event_types_def EVENTS_IQ_def EVENTS_IQ_1_def)

lemma aol_cutoffs_witness:
  "aol_state (snd (AolStateMachine_update False
     \<lparr>sd_machine = StateMachine_init, sd_enabled = False, sd_events = quiet_events [],
      sd_events_iq = quiet_events [EventNameIQ_lkasDisable], aol_state = aol_overriding\<rparr>)) = aol_disabled"
  using aol_cutoffs [of "\<lparr>sd_machine = StateMachine_init, sd_enabled = False, sd_events = quiet_events [],
      sd_events_iq = quiet_events [EventNameIQ_lkasDisable], aol_state = aol_overriding\<rparr>" False]
  by (simp add: sees_event_def contains_iff lkasDisable_types events_has_def)

section \<open>Control cycles\<close>

text \<open>
  One control cycle of \<^verbatim>\<open>SelfdriveD.step\<close>: the main machine runs on the events \<open>ev\<close>; then the
  lateral engine runs on the events \<open>ev'\<close> and \<open>iq\<close> that its event logic leaves.
\<close>

type_synonym cycle = "events_base \<times> events_base \<times> events_base"

definition selfdrive_cycle :: "bool \<Rightarrow> cycle \<Rightarrow> aol_machine \<Rightarrow> aol_machine" where
  "selfdrive_cycle mici c m =
    (case c of (ev, ev', iq) \<Rightarrow>
      (let ((en, act), sm) = StateMachine_update (EVENTS mici) ev (sd_machine m)
       in snd (AolStateMachine_update mici
            (m\<lparr>sd_machine := sm, sd_enabled := en, sd_events := ev', sd_events_iq := iq\<rparr>))))"

definition aol_sees :: "bool \<Rightarrow> cycle \<Rightarrow> ET \<Rightarrow> bool" where
  "aol_sees mici c et \<longleftrightarrow>
     events_contains (EVENTS mici) (EventType et) (fst (snd c)) \<or>
     events_contains (EVENTS_IQ mici) (EventType et) (snd (snd c))"

definition main_sees :: "bool \<Rightarrow> cycle \<Rightarrow> ET \<Rightarrow> bool" where
  "main_sees mici c et = events_contains (EVENTS mici) (EventType et) (fst c)"

text \<open>A cycle with a lasting soft-disable condition for the engine and nothing that cuts off.\<close>

definition aol_soft_only :: "bool \<Rightarrow> cycle \<Rightarrow> bool" where
  "aol_soft_only mici c \<longleftrightarrow>
     aol_sees mici c ET_SOFT_DISABLE \<and> \<not> aol_sees mici c ET_USER_DISABLE \<and>
     \<not> aol_sees mici c ET_IMMEDIATE_DISABLE"

text \<open>What one such cycle does while the main machine is disabled and nothing enables it.\<close>

lemma main_update_disabled:
  assumes "state s = disabled" "\<not> events_contains t (EventType ET_ENABLE) ev"
  shows "StateMachine_update t ev s =
    ((False, False), s\<lparr>soft_disable_timer := max 0 (soft_disable_timer s - 1), current_alert_types := [ET_PERMANENT]\<rparr>)"
  using assms by (simp add: StateMachine_update_def machine_update_def step_defs Let_def ACTIVE_STATES_def ENABLED_STATES_def)

lemma aol_soft_cycle:
  assumes "state (sd_machine m) = disabled" "\<not> main_sees mici c ET_ENABLE" "aol_soft_only mici c"
  shows "state (sd_machine (selfdrive_cycle mici c m)) = disabled"
    and "aol_state m = aol_enabled \<or> aol_state m = aol_overriding \<Longrightarrow>
      aol_state (selfdrive_cycle mici c m) = aol_softDisabling \<and>
      soft_disable_timer (sd_machine (selfdrive_cycle mici c m)) = 300"
    and "aol_state m = aol_softDisabling \<Longrightarrow> 0 < soft_disable_timer (sd_machine m) \<Longrightarrow>
      aol_state (selfdrive_cycle mici c m) =
        (if soft_disable_timer (sd_machine m) = 1 then aol_disabled else aol_softDisabling) \<and>
      soft_disable_timer (sd_machine (selfdrive_cycle mici c m)) = soft_disable_timer (sd_machine m) - 1"
proof -
  obtain ev ev' iq where c: "c = (ev, ev', iq)" by (cases c)
  have main: "StateMachine_update (EVENTS mici) ev (sd_machine m) =
    ((False, False), (sd_machine m)\<lparr>soft_disable_timer := max 0 (soft_disable_timer (sd_machine m) - 1),
       current_alert_types := [ET_PERMANENT]\<rparr>)"
    using assms(1,2) c by (intro main_update_disabled) (simp_all add: main_sees_def)
  obtain m1 where m1: "m1 = m\<lparr>sd_machine := (sd_machine m)\<lparr>soft_disable_timer := max 0 (soft_disable_timer (sd_machine m) - 1),
       current_alert_types := [ET_PERMANENT]\<rparr>, sd_enabled := False, sd_events := ev', sd_events_iq := iq\<rparr>" by simp
  have cyc: "selfdrive_cycle mici c m = snd (AolStateMachine_update mici m1)"
    by (simp add: selfdrive_cycle_def c main m1)
  have p: "cooldown_call (capture_pulse mici m1)" "\<not> driver_kill (capture_pulse mici m1)"
    "\<not> hard_cut (capture_pulse mici m1)"
    using assms(3) by (simp_all add: aol_soft_only_def capture_pulse_def sees_event_def aol_sees_def c m1)
  obtain en act m2 where u: "AolStateMachine_update mici m1 = ((en, act), m2)" by (metis surj_pair)
  show "state (sd_machine (selfdrive_cycle mici c m)) = disabled"
    using AolStateMachine_update_frame [OF u] u assms(1) by (simp add: cyc aol_frame_def m1)
  show "aol_state (selfdrive_cycle mici c m) = aol_softDisabling \<and>
      soft_disable_timer (sd_machine (selfdrive_cycle mici c m)) = 300"
    if "aol_state m = aol_enabled \<or> aol_state m = aol_overriding"
  proof -
    have "aol_state m1 = aol_state m" "\<not> sd_enabled m1" by (simp_all add: m1)
    with that p show ?thesis
      by (auto simp: cyc AolStateMachine_update_def aol_handler_def aol_handler_defs aol_effect_defs
          TORQUE_DELIVERING_STATES_def soft_disable_steps_300 Let_def)
  qed
  show "aol_state (selfdrive_cycle mici c m) =
        (if soft_disable_timer (sd_machine m) = 1 then aol_disabled else aol_softDisabling) \<and>
      soft_disable_timer (sd_machine (selfdrive_cycle mici c m)) = soft_disable_timer (sd_machine m) - 1"
    if "aol_state m = aol_softDisabling" "0 < soft_disable_timer (sd_machine m)"
  proof -
    have "aol_state m1 = aol_softDisabling" "\<not> sd_enabled m1"
      "soft_disable_timer (sd_machine m1) = soft_disable_timer (sd_machine m) - 1"
      using that by (simp_all add: m1)
    with that p show ?thesis
      by (auto simp: cyc AolStateMachine_update_def aol_handler_def aol_handler_defs aol_effect_defs
          TORQUE_DELIVERING_STATES_def Let_def)
  qed
qed

abbreviation run_cycles :: "bool \<Rightarrow> cycle list \<Rightarrow> aol_machine \<Rightarrow> aol_machine" where
  "run_cycles mici \<equiv> fold (selfdrive_cycle mici)"

definition lone_soft :: "bool \<Rightarrow> cycle \<Rightarrow> bool" where
  "lone_soft mici c \<longleftrightarrow> \<not> main_sees mici c ET_ENABLE \<and> aol_soft_only mici c"

lemma aol_countdown:
  assumes "state (sd_machine m) = disabled" "aol_state m = aol_softDisabling"
    and "\<forall>c\<in>set cs. lone_soft mici c" "int (length cs) < soft_disable_timer (sd_machine m)"
  shows "state (sd_machine (run_cycles mici cs m)) = disabled \<and>
    aol_state (run_cycles mici cs m) = aol_softDisabling \<and>
    soft_disable_timer (sd_machine (run_cycles mici cs m)) = soft_disable_timer (sd_machine m) - int (length cs)"
  using assms(3,4)
proof (induction cs rule: rev_induct)
  case Nil
  then show ?case using assms(1,2) by simp
next
  case (snoc c cs)
  let ?m = "run_cycles mici cs m"
  have m: "state (sd_machine ?m) = disabled" "aol_state ?m = aol_softDisabling"
    "soft_disable_timer (sd_machine ?m) = soft_disable_timer (sd_machine m) - int (length cs)"
    using snoc by simp_all
  have c: "\<not> main_sees mici c ET_ENABLE" "aol_soft_only mici c" using snoc.prems(1) by (simp_all add: lone_soft_def)
  have t: "0 < soft_disable_timer (sd_machine ?m)" "soft_disable_timer (sd_machine ?m) \<noteq> 1"
    using snoc.prems(2) m(3) by simp_all
  show ?case using aol_soft_cycle(1,3) [OF m(1) c] m(2,3) t by simp
qed

text \<open>the engine alone has the same grace period. While the main machine is disabled and nothing
enables it, an engine that is steering and meets a lasting soft-disable condition with nothing
that cuts off keeps delivering torque for 300 control cycles and is disabled after the 301st.\<close>

theorem aol_grace:
  assumes "state (sd_machine m) = disabled" "aol_state m = aol_enabled \<or> aol_state m = aol_overriding"
    and "\<forall>c\<in>set cs. lone_soft mici c"
  shows "(1 \<le> length cs \<and> length cs \<le> 300 \<longrightarrow> aol_state (run_cycles mici cs m) = aol_softDisabling) \<and>
    (length cs = 301 \<longrightarrow> aol_state (run_cycles mici cs m) = aol_disabled)"
proof (cases cs)
  case Nil
  then show ?thesis by simp
next
  case (Cons c tl)
  obtain m1 where m1: "m1 = selfdrive_cycle mici c m" by simp
  have c: "\<not> main_sees mici c ET_ENABLE" "aol_soft_only mici c" using assms(3) Cons by (simp_all add: lone_soft_def)
  have s: "state (sd_machine m1) = disabled" "aol_state m1 = aol_softDisabling"
    "soft_disable_timer (sd_machine m1) = 300"
    using aol_soft_cycle(1,2) [OF assms(1) c] assms(2) m1 by simp_all
  have tl: "\<forall>c\<in>set tl. lone_soft mici c" using assms(3) Cons by simp
  have run: "run_cycles mici cs m = run_cycles mici tl m1" using Cons m1 by simp
  show ?thesis
  proof (intro conjI impI)
    assume "1 \<le> length cs \<and> length cs \<le> 300"
    then have "int (length tl) < soft_disable_timer (sd_machine m1)" using s(3) Cons by simp
    with aol_countdown [OF s(1,2) tl] run show "aol_state (run_cycles mici cs m) = aol_softDisabling" by simp
  next
    assume l: "length cs = 301"
    then obtain ys d where ys: "tl = ys @ [d]" using Cons by (cases tl rule: rev_cases) auto
    have "int (length ys) = 299" using l Cons ys by simp
    then have y: "state (sd_machine (run_cycles mici ys m1)) = disabled"
      "aol_state (run_cycles mici ys m1) = aol_softDisabling"
      "soft_disable_timer (sd_machine (run_cycles mici ys m1)) = 1"
      using aol_countdown [OF s(1,2), of ys] tl ys s(3) by simp_all
    have d: "\<not> main_sees mici d ET_ENABLE" "aol_soft_only mici d" using tl ys by (simp_all add: lone_soft_def)
    show "aol_state (run_cycles mici cs m) = aol_disabled"
      using aol_soft_cycle(3) [OF y(1) d] y(2,3) ys run by simp
  qed
qed

lemma cameraMalfunction_types:
  "event_types (EVENTS False) EventName_cameraMalfunction = [ET_PERMANENT, ET_SOFT_DISABLE, ET_NO_ENTRY]"
  by (simp add: event_types_def EVENTS_def map_of_append_case EVENTS_part_1_def EVENTS_part_2_def
      del: map_of_append)

definition camera_cycle :: cycle where
  "camera_cycle =
    (quiet_events [EventName_cameraMalfunction], quiet_events [EventName_cameraMalfunction], quiet_events [])"

lemma camera_cycle_sees:
  "aol_sees False camera_cycle et \<longleftrightarrow> et \<in> {ET_PERMANENT, ET_SOFT_DISABLE, ET_NO_ENTRY}"
  "main_sees False camera_cycle et \<longleftrightarrow> et \<in> {ET_PERMANENT, ET_SOFT_DISABLE, ET_NO_ENTRY}"
  by (auto simp: aol_sees_def main_sees_def camera_cycle_def contains_iff cameraMalfunction_types)

definition solo_machine :: aol_machine where
  "solo_machine =
    \<lparr>sd_machine = StateMachine_init, sd_enabled = False, sd_events = quiet_events [],
     sd_events_iq = quiet_events [], aol_state = aol_enabled\<rparr>"

lemma aol_grace_witness:
  "aol_state (run_cycles False (replicate 301 camera_cycle) solo_machine) = aol_disabled"
proof -
  have "\<forall>c\<in>set (replicate 301 camera_cycle). lone_soft False c"
    by (simp add: lone_soft_def aol_soft_only_def camera_cycle_sees)
  then show ?thesis
    using aol_grace [of solo_machine "replicate 301 camera_cycle" False]
    by (simp add: solo_machine_def StateMachine_init_def)
qed

text \<open>A cycle in which the main machine stays in \<open>preEnabled\<close>.\<close>

definition held_pre_enabled :: "bool \<Rightarrow> cycle \<Rightarrow> bool" where
  "held_pre_enabled mici c \<longleftrightarrow>
     main_sees mici c ET_PRE_ENABLE \<and> \<not> main_sees mici c ET_USER_DISABLE \<and>
     \<not> main_sees mici c ET_IMMEDIATE_DISABLE"

lemma pre_enabled_cycle:
  assumes "state (sd_machine m) = preEnabled" "held_pre_enabled mici c" "aol_soft_only mici c"
  shows "state (sd_machine (selfdrive_cycle mici c m)) = preEnabled \<and>
    soft_disable_timer (sd_machine (selfdrive_cycle mici c m)) = max 0 (soft_disable_timer (sd_machine m) - 1) \<and>
    ET_SOFT_DISABLE \<notin> set (current_alert_types (sd_machine (selfdrive_cycle mici c m))) \<and>
    (aol_state m = aol_enabled \<longrightarrow> aol_state (selfdrive_cycle mici c m) = aol_softDisabling) \<and>
    (aol_state m = aol_softDisabling \<and> soft_disable_timer (sd_machine m) \<le> 1 \<longrightarrow>
      aol_state (selfdrive_cycle mici c m) = aol_disabled)"
proof -
  obtain ev ev' iq where c: "c = (ev, ev', iq)" by (cases c)
  let ?t = "max 0 (soft_disable_timer (sd_machine m) - 1)"
  let ?sm = "(sd_machine m)\<lparr>soft_disable_timer := ?t, current_alert_types := [ET_PERMANENT, ET_PRE_ENABLE]\<rparr>"
  have main: "StateMachine_update (EVENTS mici) ev (sd_machine m) = ((True, False), ?sm)"
    using assms(1,2)
    by (simp add: StateMachine_update_def machine_update_def step_defs held_pre_enabled_def main_sees_def c
        ACTIVE_STATES_def ENABLED_STATES_def Let_def)
  obtain m1 where m1: "m1 = m\<lparr>sd_machine := ?sm, sd_enabled := True, sd_events := ev', sd_events_iq := iq\<rparr>" by simp
  have cyc: "selfdrive_cycle mici c m = snd (AolStateMachine_update mici m1)"
    by (simp add: selfdrive_cycle_def c main m1)
  have p: "cooldown_call (capture_pulse mici m1)" "\<not> driver_kill (capture_pulse mici m1)"
    "\<not> hard_cut (capture_pulse mici m1)"
    using assms(3) by (simp_all add: aol_soft_only_def capture_pulse_def sees_event_def aol_sees_def c m1)
  have e: "sd_enabled m1" "aol_state m1 = aol_state m" "sd_machine m1 = ?sm" by (simp_all add: m1)
  show ?thesis
    using p e assms(1)
    by (cases "aol_state m")
      (auto simp: cyc AolStateMachine_update_def aol_handler_def aol_handler_defs aol_effect_defs
        TORQUE_DELIVERING_STATES_def Let_def)
qed

text \<open>there is no grace period while the main machine is held in \<^verbatim>\<open>preEnabled\<close>. There the main
machine is enabled but does not react to soft-disable events, and the engine neither starts the
timer nor requests the soft-disable alert: an engine that is steering stops after two cycles,
and no soft-disable alert is requested in either of them.\<close>

theorem aol_no_grace_in_pre_enabled:
  assumes "state (sd_machine m) = preEnabled" "aol_state m = aol_enabled"
    and "soft_disable_timer (sd_machine m) \<le> 2"
    and "\<forall>c\<in>{c1, c2}. held_pre_enabled mici c \<and> aol_soft_only mici c"
  shows "aol_state (run_cycles mici [c1, c2] m) = aol_disabled \<and>
    ET_SOFT_DISABLE \<notin> set (current_alert_types (sd_machine (run_cycles mici [c1] m))) \<and>
    ET_SOFT_DISABLE \<notin> set (current_alert_types (sd_machine (run_cycles mici [c1, c2] m)))"
  using pre_enabled_cycle [OF assms(1), of mici c1]
    pre_enabled_cycle [of "selfdrive_cycle mici c1 m" mici c2] assms
  by auto

lemma preEnableStandstill_types:
  "event_types (EVENTS False) EventName_preEnableStandstill = [ET_PRE_ENABLE]"
  by (simp add: event_types_def EVENTS_def map_of_append_case EVENTS_part_1_def EVENTS_part_2_def
      EVENTS_part_3_def del: map_of_append)

definition standstill_cycle :: cycle where
  "standstill_cycle =
    (quiet_events [EventName_preEnableStandstill, EventName_cameraMalfunction],
     quiet_events [EventName_cameraMalfunction], quiet_events [])"

lemma aol_no_grace_in_pre_enabled_witness:
  "aol_state (run_cycles False [standstill_cycle, standstill_cycle]
     (solo_machine\<lparr>sd_machine := StateMachine_init\<lparr>state := preEnabled\<rparr>\<rparr>)) = aol_disabled"
proof -
  have "held_pre_enabled False standstill_cycle" "aol_soft_only False standstill_cycle"
    by (auto simp: held_pre_enabled_def aol_soft_only_def main_sees_def aol_sees_def standstill_cycle_def
        contains_iff cameraMalfunction_types preEnableStandstill_types)
  then show ?thesis
    using aol_no_grace_in_pre_enabled [of "solo_machine\<lparr>sd_machine := StateMachine_init\<lparr>state := preEnabled\<rparr>\<rparr>"
        standstill_cycle standstill_cycle False]
    by (simp add: solo_machine_def StateMachine_init_def)
qed

end
