(* ===== verification/AlwaysOnLateral.thy ===== *)
theory AlwaysOnLateral
  imports AolEngine
begin

text \<open>
  \<^verbatim>\<open>class AlwaysOnLateral\<close> of \<^verbatim>\<open>iqpilot/aol/aol.py\<close> with \<^verbatim>\<open>iqpilot/aol/imahelper.py\<close>: the event logic
  around the engine. It rewrites the active events once per control cycle, after the main machine
  has seen them and before the engine does. Attributes read with \<^verbatim>\<open>getattr\<close> and a default are
  options: \<open>None\<close> stands for an attribute the car state does not have.
\<close>

section \<open>Car state and preferences\<close>

datatype GearShifter =
    gear_unknown | gear_park | gear_drive | gear_neutral | gear_reverse | gear_sport | gear_low
  | gear_brake | gear_eco | gear_manumatic

datatype ButtonType =
    button_unknown | button_leftBlinker | button_rightBlinker | button_accelCruise | button_decelCruise
  | button_cancel | button_lkas | button_altButton2 | button_mainCruise | button_setCruise
  | button_resumeCruise | button_gapAdjustCruise

record car_state =
  gasPressed :: bool
  standstill :: bool
  vEgo :: rat
  gearShifter :: GearShifter
  buttonEvents :: "(ButtonType \<times> bool) list"
  cruise_available :: bool
  lateralAvailable :: "bool option"
  started :: "bool option"
  doorOpen :: "bool option"
  seatbeltUnlatched :: "bool option"

definition getattr :: "'a option \<Rightarrow> 'a \<Rightarrow> 'a" where
  "getattr a d = (case a of None \<Rightarrow> d | Some v \<Rightarrow> v)"

definition lateral_available :: "car_state \<Rightarrow> bool" where
  "lateral_available cs = getattr (lateralAvailable cs) (cruise_available cs)"

datatype BrakeInterventionMode = CONTINUE | SUSPEND | CANCEL

definition BRANDS_WITHOUT_MAIN_CRUISE_TOGGLE :: "string list" where
  "BRANDS_WITHOUT_MAIN_CRUISE_TOGGLE = [''rivian'', ''tesla'']"

definition forces_brake_cancel :: "string \<Rightarrow> bool" where
  "forces_brake_cancel brand = (brand = ''rivian'')"

definition resolve_brake_intervention_mode :: "string \<Rightarrow> BrakeInterventionMode \<Rightarrow> BrakeInterventionMode" where
  "resolve_brake_intervention_mode brand pref = (if forces_brake_cancel brand then CANCEL else pref)"

text \<open>The fixed parameters of the object, read once or by \<^verbatim>\<open>read_params\<close>.\<close>

record aol_config =
  mici :: bool
  brand :: string
  car_passive :: bool
  enabled_toggle :: bool
  main_enabled_toggle :: bool
  unified_engagement_mode :: bool
  no_main_cruise :: bool
  disengage_on_accelerator :: bool
  steering_mode_on_brake :: BrakeInterventionMode

definition AlwaysOnLateral_config ::
    "bool \<Rightarrow> string \<Rightarrow> bool \<Rightarrow> bool \<Rightarrow> bool \<Rightarrow> bool \<Rightarrow> bool \<Rightarrow> BrakeInterventionMode \<Rightarrow> aol_config" where
  "AlwaysOnLateral_config mi b pas aol_on main_on unified accel pref =
    \<lparr>mici = mi, brand = b, car_passive = pas, enabled_toggle = aol_on, main_enabled_toggle = main_on,
     unified_engagement_mode = unified, no_main_cruise = b \<in> set BRANDS_WITHOUT_MAIN_CRUISE_TOGGLE,
     disengage_on_accelerator = accel, steering_mode_on_brake = resolve_brake_intervention_mode b pref\<rparr>"

record aol =
  aol_machine :: aol_machine
  aol_is_enabled :: bool
  aol_is_active :: bool
  sd_enabled_prev :: bool
  joystick_debug :: bool
  joystick_request :: "string option"

abbreviation aol_events :: "aol \<Rightarrow> events_base" where
  "aol_events a \<equiv> sd_events (aol_machine a)"

abbreviation aol_events_iq :: "aol \<Rightarrow> events_base" where
  "aol_events_iq a \<equiv> sd_events_iq (aol_machine a)"

abbreviation aol_main_enabled :: "aol \<Rightarrow> bool" where
  "aol_main_enabled a \<equiv> sd_enabled (aol_machine a)"

section \<open>Operations on the events\<close>

definition ev_remove :: "int \<Rightarrow> (aol, unit) meth" where
  "ev_remove e a =
    (case events_remove e False (aol_events a) of
       Inl x \<Rightarrow> (Inl x, a)
     | Inr b \<Rightarrow> (Inr (), a\<lparr>aol_machine := (aol_machine a)\<lparr>sd_events := b\<rparr>\<rparr>))"

definition iq_remove :: "int \<Rightarrow> (aol, unit) meth" where
  "iq_remove e a =
    (case events_remove e False (aol_events_iq a) of
       Inl x \<Rightarrow> (Inl x, a)
     | Inr b \<Rightarrow> (Inr (), a\<lparr>aol_machine := (aol_machine a)\<lparr>sd_events_iq := b\<rparr>\<rparr>))"

definition iq_add :: "int \<Rightarrow> (aol, unit) meth" where
  "iq_add e a =
    (Inr (), a\<lparr>aol_machine := (aol_machine a)\<lparr>sd_events_iq := events_add e False (aol_events_iq a)\<rparr>\<rparr>)"

abbreviation has_event :: "int \<Rightarrow> aol \<Rightarrow> bool" where
  "has_event e a \<equiv> events_has e (aol_events a)"

text \<open>A conditional statement, tested in the state it is reached in, and a sequence of statements.\<close>

definition swhen :: "('s \<Rightarrow> bool) \<Rightarrow> ('s, unit) meth \<Rightarrow> ('s, unit) meth" where
  "swhen c m s = (if c s then m s else (Inr (), s))"

fun sseq :: "('s, unit) meth list \<Rightarrow> ('s, unit) meth" where
  "sseq [] = sret ()"
| "sseq (m # ms) = sbind m (\<lambda>_. sseq ms)"

section \<open>The event logic\<close>

definition is_space :: "char \<Rightarrow> bool" where
  "is_space c \<longleftrightarrow> (of_char c :: int) \<in> {9, 10, 11, 12, 13, 28, 29, 30, 31, 32}"

definition to_lower :: "char \<Rightarrow> char" where
  "to_lower c = (let n = of_char c :: int in if 65 \<le> n \<and> n \<le> 90 then char_of (n + 32) else c)"

definition py_strip_lower :: "string \<Rightarrow> string" where
  "py_strip_lower s = map to_lower (rev (dropWhile is_space (rev (dropWhile is_space s))))"

text \<open>The joystick request is consumed, then checked. Its text is taken as ASCII.\<close>

definition consume_joystick_aol_request :: "car_state \<Rightarrow> (aol, string option) meth" where
  "consume_joystick_aol_request cs a =
    (if \<not> joystick_debug a then (Inr None, a)
     else (case joystick_request a of
        None \<Rightarrow> (Inr None, a)
      | Some raw \<Rightarrow>
          (if raw = '''' then (Inr None, a)
           else (let a1 = a\<lparr>joystick_request := None\<rparr>; request = py_strip_lower raw
             in if request \<noteq> ''enable'' \<and> request \<noteq> ''disable'' then (Inr None, a1)
                else if \<not> getattr (started cs) False then (Inr None, a1)
                else if getattr (doorOpen cs) False \<or> getattr (seatbeltUnlatched cs) False then (Inr None, a1)
                else if gearShifter cs = gear_park \<or> gearShifter cs = gear_reverse then (Inr None, a1)
                else (Inr (Some request), a1)))))"

definition pedal_pressed_non_gas_pressed :: "aol_config \<Rightarrow> car_state \<Rightarrow> car_state \<Rightarrow> aol \<Rightarrow> bool" where
  "pedal_pressed_non_gas_pressed cfg cs prev a \<longleftrightarrow>
     has_event EventName_pedalPressed a \<and>
     \<not> (gasPressed cs \<and> \<not> gasPressed prev \<and> disengage_on_accelerator cfg)"

definition should_silent_lkas_enable :: "aol_config \<Rightarrow> car_state \<Rightarrow> car_state \<Rightarrow> aol \<Rightarrow> bool" where
  "should_silent_lkas_enable cfg cs prev a \<longleftrightarrow>
     \<not> (steering_mode_on_brake cfg = SUSPEND \<and> pedal_pressed_non_gas_pressed cfg cs prev a) \<and>
     \<not> events_contains_in_list PAUSE_WITH_IQ_EVENTS (aol_events_iq a)"

definition block_unified_engagement_mode :: "aol_config \<Rightarrow> aol \<Rightarrow> bool" where
  "block_unified_engagement_mode cfg a \<longleftrightarrow>
     \<not> unified_engagement_mode cfg \<or> aol_is_enabled a \<or> aol_main_enabled a \<and> sd_enabled_prev a"

definition replace_event :: "int \<Rightarrow> int \<Rightarrow> (aol, unit) meth" where
  "replace_event old new = sbind (ev_remove old) (\<lambda>_. iq_add new)"

definition transition_paused_state :: "(aol, unit) meth" where
  "transition_paused_state =
    swhen (\<lambda>a. aol_state (aol_machine a) \<noteq> aol_paused) (iq_add EventNameIQ_silentLkasDisable)"

definition get_wrong_car_mode :: "bool \<Rightarrow> (aol, unit) meth" where
  "get_wrong_car_mode alert_only =
    (if alert_only
     then swhen (has_event EventName_wrongCarMode)
            (replace_event EventName_wrongCarMode EventNameIQ_wrongCarModeAlertOnly)
     else ev_remove EventName_wrongCarMode)"

definition has_runtime_lkas_toggle :: "aol_config \<Rightarrow> car_state \<Rightarrow> bool" where
  "has_runtime_lkas_toggle cfg cs \<longleftrightarrow> lateral_available cs \<or> brand cfg = ''tesla''"

definition SET_SPEED_BUTTONS :: "ButtonType list" where
  "SET_SPEED_BUTTONS = [button_accelCruise, button_resumeCruise, button_decelCruise, button_setCruise]"

text \<open>The first block: conditions that pause the engine while only lateral control is on.\<close>

definition pause_on :: "int \<Rightarrow> int \<Rightarrow> (aol, unit) meth" where
  "pause_on old new = sbind (replace_event old new) (\<lambda>_. transition_paused_state)"

definition lateral_only_events :: "aol_config \<Rightarrow> car_state \<Rightarrow> car_state \<Rightarrow> (aol, unit) meth" where
  "lateral_only_events cfg cs prev = sseq
    [swhen (\<lambda>a. standstill cs \<and> has_event EventName_doorOpen a)
       (pause_on EventName_doorOpen EventNameIQ_silentDoorOpen),
     swhen (\<lambda>a. standstill cs \<and> has_event EventName_seatbeltNotLatched a)
       (pause_on EventName_seatbeltNotLatched EventNameIQ_silentSeatbeltNotLatched),
     swhen (\<lambda>a. has_event EventName_wrongGear a \<and> (vEgo cs < 5 / 2 \<or> gearShifter cs = gear_reverse))
       (pause_on EventName_wrongGear EventNameIQ_silentWrongGear),
     swhen (has_event EventName_reverseGear) (pause_on EventName_reverseGear EventNameIQ_silentReverseGear),
     swhen (has_event EventName_brakeHold) (pause_on EventName_brakeHold EventNameIQ_silentBrakeHold),
     swhen (has_event EventName_parkBrake) (pause_on EventName_parkBrake EventNameIQ_silentParkBrake),
     swhen (\<lambda>a. steering_mode_on_brake cfg = SUSPEND \<and> pedal_pressed_non_gas_pressed cfg cs prev a)
       transition_paused_state,
     ev_remove EventName_preEnableStandstill,
     ev_remove EventName_belowEngageSpeed,
     ev_remove EventName_speedTooLow,
     ev_remove EventName_cruiseDisabled,
     ev_remove EventName_manualRestart]"

text \<open>The engagement requests of the main machine.\<close>

definition engagement_events :: "aol_config \<Rightarrow> car_state \<Rightarrow> car_state \<Rightarrow> (aol, unit) meth" where
  "engagement_events cfg cs prev a =
    (let selfdrive_enable_events = has_event EventName_pcmEnable a \<or> has_event EventName_buttonEnable a;
         set_speed_btns_enable = list_ex (\<lambda>(ty, _). ty \<in> set SET_SPEED_BUTTONS) (buttonEvents cs)
     in sbind (get_wrong_car_mode (selfdrive_enable_events \<or> set_speed_btns_enable)) (\<lambda>_.
        if selfdrive_enable_events
        then sseq
          [swhen (pedal_pressed_non_gas_pressed cfg cs prev) (iq_add EventNameIQ_pedalPressedAlertOnly),
           swhen (block_unified_engagement_mode cfg)
             (sseq [ev_remove EventName_pcmEnable, ev_remove EventName_buttonEnable])]
        else swhen (\<lambda>_. main_enabled_toggle cfg \<and> lateral_available cs \<and> \<not> lateral_available prev)
               (iq_add EventNameIQ_lkasEnable)) a)"

definition button_event :: "aol_config \<Rightarrow> car_state \<Rightarrow> ButtonType \<times> bool \<Rightarrow> (aol, unit) meth" where
  "button_event cfg cs be =
    (case be of (ty, pressed) \<Rightarrow> sseq
      [swhen (\<lambda>a. ty = button_cancel \<and> \<not> aol_main_enabled a \<and> sd_enabled_prev a)
         (iq_add EventNameIQ_manualLongitudinalRequired),
       swhen (\<lambda>a. ty = button_lkas \<and> pressed \<and> has_runtime_lkas_toggle cfg cs)
         (\<lambda>a. (if aol_is_enabled a
               then (if aol_main_enabled a then iq_add EventNameIQ_manualSteeringRequired
                     else iq_add EventNameIQ_lkasDisable)
               else iq_add EventNameIQ_lkasEnable) a)])"

text \<open>
  With brake mode \<open>CANCEL\<close>, the code looks for the enable request by passing an event number to
  \<^verbatim>\<open>contains\<close>, which expects an event type.
\<close>

definition brake_cancel_events :: "aol_config \<Rightarrow> car_state \<Rightarrow> car_state \<Rightarrow> (aol, unit) meth" where
  "brake_cancel_events cfg cs prev =
    swhen (\<lambda>a. steering_mode_on_brake cfg = CANCEL \<and> pedal_pressed_non_gas_pressed cfg cs prev a)
      (\<lambda>a. (if aol_is_enabled a then iq_add EventNameIQ_lkasDisable
            else if events_contains (EVENTS_IQ (mici cfg)) (EventNumber EventNameIQ_lkasEnable) (aol_events_iq a)
            then sseq [iq_remove EventNameIQ_lkasEnable, iq_add EventNameIQ_pedalPressedAlertOnly]
            else sret ()) a)"

definition aol_update_events :: "aol_config \<Rightarrow> car_state \<Rightarrow> car_state \<Rightarrow> (aol, unit) meth" where
  "aol_update_events cfg cs prev =
    sbind (consume_joystick_aol_request cs) (\<lambda>request. sseq
      ([if request = Some ''enable'' then iq_add EventNameIQ_lkasEnable
        else if request = Some ''disable'' then iq_add EventNameIQ_lkasDisable else sret (),
        swhen (\<lambda>a. \<not> aol_main_enabled a \<and> aol_is_enabled a) (lateral_only_events cfg cs prev),
        engagement_events cfg cs prev] @
       map (button_event cfg cs) (buttonEvents cs) @
       [swhen (\<lambda>_. \<not> lateral_available cs \<and> \<not> no_main_cruise cfg)
          (sseq [ev_remove EventName_buttonEnable,
                 swhen (\<lambda>_. lateral_available prev) (iq_add EventNameIQ_lkasDisable)]),
        brake_cancel_events cfg cs prev,
        swhen (\<lambda>a. should_silent_lkas_enable cfg cs prev a \<and> aol_state (aol_machine a) = aol_paused)
          (iq_add EventNameIQ_silentLkasEnable),
        ev_remove EventName_pcmDisable,
        ev_remove EventName_buttonCancel,
        ev_remove EventName_pedalPressed,
        ev_remove EventName_wrongCruiseMode]))"

definition AlwaysOnLateral_update :: "aol_config \<Rightarrow> bool \<Rightarrow> car_state \<Rightarrow> car_state \<Rightarrow> (aol, unit) meth" where
  "AlwaysOnLateral_update cfg initialized cs prev =
    (if \<not> enabled_toggle cfg then sret ()
     else sseq
      [aol_update_events cfg cs prev,
       swhen (\<lambda>_. \<not> car_passive cfg \<and> initialized)
         (\<lambda>a. let ((en, act), m) = AolStateMachine_update (mici cfg) (aol_machine a)
              in (Inr (), a\<lparr>aol_machine := m, aol_is_enabled := en, aol_is_active := act\<rparr>)),
       smodify (\<lambda>a. a\<lparr>sd_enabled_prev := aol_main_enabled a\<rparr>)])"

section \<open>No step of the event logic raises\<close>

text \<open>A method that from every state with \<open>P\<close> ends without an exception in a state with \<open>P\<close>.\<close>

definition keeps :: "('s \<Rightarrow> bool) \<Rightarrow> ('s, 'a) meth \<Rightarrow> bool" where
  "keeps P m \<longleftrightarrow> (\<forall>s. P s \<longrightarrow> (\<exists>x s'. m s = (Inr x, s') \<and> P s'))"

named_theorems keeps_intros

lemma keepsD: "keeps P m \<Longrightarrow> P s \<Longrightarrow> \<exists>x s'. m s = (Inr x, s') \<and> P s'"
  by (simp add: keeps_def)

lemma keeps_sret [keeps_intros]: "keeps P (sret x)"
  by (simp add: keeps_def sret_def)

lemma keeps_sbind [keeps_intros]: "keeps P m \<Longrightarrow> (\<And>x. keeps P (f x)) \<Longrightarrow> keeps P (sbind m f)"
  unfolding keeps_def sbind_def by fastforce

lemma keeps_swhen [keeps_intros]: "keeps P m \<Longrightarrow> keeps P (swhen c m)"
  by (simp add: keeps_def swhen_def)

lemma keeps_if [keeps_intros]: "keeps P m \<Longrightarrow> keeps P m' \<Longrightarrow> keeps P (if c then m else m')"
  by simp

lemma keeps_if_state: "keeps P m \<Longrightarrow> keeps P m' \<Longrightarrow> keeps P (\<lambda>s. (if c s then m else m') s)"
  by (simp add: keeps_def)

lemma keeps_apply: "(\<And>s. keeps P (m s)) \<Longrightarrow> keeps P (\<lambda>s. m s s)"
  by (simp add: keeps_def)

lemma keeps_sseq_all: "list_all (keeps P) ms \<Longrightarrow> keeps P (sseq ms)"
  by (induction ms) (auto intro: keeps_sret keeps_sbind)

text \<open>The invariant: every event of the stock table has a counter, the lists are sorted, the flags
agree with the engine, and (for \<open>want = True\<close>) a request to enable lateral control is present.\<close>

definition aol_inv :: "aol_config \<Rightarrow> bool \<Rightarrow> aol \<Rightarrow> bool" where
  "aol_inv cfg want a \<longleftrightarrow>
     fst ` set (EVENTS (mici cfg)) \<subseteq> dom (event_counters (aol_events a)) \<and>
     events_ok (aol_events a) \<and> events_ok (aol_events_iq a) \<and>
     aol_is_enabled a = (aol_state (aol_machine a) \<noteq> aol_disabled) \<and>
     aol_is_active a = (aol_state (aol_machine a) \<noteq> aol_disabled \<and> aol_state (aol_machine a) \<noteq> aol_paused) \<and>
     (want \<longrightarrow> EventNameIQ_lkasEnable \<in> set (events (aol_events_iq a)))"

definition removed_events :: "int list" where
  "removed_events =
    [EventName_doorOpen, EventName_seatbeltNotLatched, EventName_wrongGear, EventName_reverseGear,
     EventName_brakeHold, EventName_parkBrake, EventName_preEnableStandstill, EventName_belowEngageSpeed,
     EventName_speedTooLow, EventName_cruiseDisabled, EventName_manualRestart, EventName_wrongCarMode,
     EventName_pcmEnable, EventName_buttonEnable, EventName_pcmDisable, EventName_buttonCancel,
     EventName_pedalPressed, EventName_wrongCruiseMode]"

lemma removed_events_parts:
  "set removed_events \<subseteq>
   set (map fst (EVENTS_part_2 mi @ EVENTS_part_3 mi @ EVENTS_part_4 mi @ EVENTS_part_5 mi))"
  unfolding removed_events_def EVENTS_part_2_def EVENTS_part_3_def EVENTS_part_4_def EVENTS_part_5_def
    append.simps list.map fst_conv
  by simp

lemma removed_events_known: "e \<in> set removed_events \<Longrightarrow> e \<in> fst ` set (EVENTS mi)"
  using removed_events_parts [of mi] by (auto simp: EVENTS_def)

lemma keeps_ev_remove [keeps_intros]:
  assumes "e \<in> set removed_events"
  shows "keeps (aol_inv cfg want) (ev_remove e)"
  unfolding keeps_def
proof (intro allI impI)
  fix a assume a: "aol_inv cfg want a"
  have "event_counters (aol_events a) e \<noteq> None"
    using a removed_events_known [OF assms, of "mici cfg"] unfolding aol_inv_def by blast
  then obtain b where b: "events_remove e False (aol_events a) = Inr b"
    "dom (event_counters b) = dom (event_counters (aol_events a))"
    by (rule events_remove_known)
  have "events_ok b" using a events_ok_remove [OF _ b(1)] by (simp add: aol_inv_def)
  with a b show "\<exists>x s'. ev_remove e a = (Inr x, s') \<and> aol_inv cfg want s'"
    by (simp add: ev_remove_def aol_inv_def)
qed

lemma keeps_iq_add [keeps_intros]: "keeps (aol_inv cfg want) (iq_add e)"
  by (auto simp: keeps_def iq_add_def aol_inv_def events_ok_add)

lemma keeps_consume [keeps_intros]: "keeps (aol_inv cfg want) (consume_joystick_aol_request cs)"
  by (auto simp: keeps_def consume_joystick_aol_request_def aol_inv_def Let_def split: option.splits)

lemma removed_events_simps [simp]:
  "EventName_doorOpen \<in> set removed_events" "EventName_seatbeltNotLatched \<in> set removed_events"
  "EventName_wrongGear \<in> set removed_events" "EventName_reverseGear \<in> set removed_events"
  "EventName_brakeHold \<in> set removed_events" "EventName_parkBrake \<in> set removed_events"
  "EventName_preEnableStandstill \<in> set removed_events" "EventName_belowEngageSpeed \<in> set removed_events"
  "EventName_speedTooLow \<in> set removed_events" "EventName_cruiseDisabled \<in> set removed_events"
  "EventName_manualRestart \<in> set removed_events" "EventName_wrongCarMode \<in> set removed_events"
  "EventName_pcmEnable \<in> set removed_events" "EventName_buttonEnable \<in> set removed_events"
  "EventName_pcmDisable \<in> set removed_events" "EventName_buttonCancel \<in> set removed_events"
  "EventName_pedalPressed \<in> set removed_events" "EventName_wrongCruiseMode \<in> set removed_events"
  by (simp_all add: removed_events_def)

lemma keeps_pause_on [keeps_intros]:
  "e \<in> set removed_events \<Longrightarrow> keeps (aol_inv cfg want) (pause_on e e')"
  unfolding pause_on_def replace_event_def transition_paused_state_def by (intro keeps_intros)

lemma keeps_transition [keeps_intros]: "keeps (aol_inv cfg want) transition_paused_state"
  unfolding transition_paused_state_def by (intro keeps_intros)

lemma keeps_lateral_only [keeps_intros]: "keeps (aol_inv cfg want) (lateral_only_events cfg cs prev)"
  unfolding lateral_only_events_def
  by (rule keeps_sseq_all) (simp add: keeps_intros)

lemma keeps_wrong_car_mode [keeps_intros]: "keeps (aol_inv cfg want) (get_wrong_car_mode b)"
  unfolding get_wrong_car_mode_def replace_event_def by (simp add: keeps_intros)

lemma keeps_engagement [keeps_intros]: "keeps (aol_inv cfg want) (engagement_events cfg cs prev)"
  unfolding engagement_events_def Let_def
  by (rule keeps_apply, rule keeps_sbind [OF keeps_wrong_car_mode])
    (simp add: keeps_intros keeps_sseq_all)

lemma keeps_button [keeps_intros]: "keeps (aol_inv cfg want) (button_event cfg cs be)"
proof (cases be)
  case (Pair ty pressed)
  have "keeps (aol_inv cfg want) (\<lambda>a. (if aol_is_enabled a
      then (if aol_main_enabled a then iq_add EventNameIQ_manualSteeringRequired
            else iq_add EventNameIQ_lkasDisable)
      else iq_add EventNameIQ_lkasEnable) a)"
    by (rule keeps_apply) (intro keeps_if keeps_iq_add)
  then show ?thesis
    unfolding button_event_def Pair prod.case
    by (intro keeps_sseq_all) (simp add: keeps_swhen keeps_iq_add)
qed

lemma keeps_brake_cancel [keeps_intros]: "keeps (aol_inv cfg want) (brake_cancel_events cfg cs prev)"
  unfolding brake_cancel_events_def
  by (rule keeps_swhen, rule keeps_apply) (simp add: keeps_intros)

lemma keeps_update_events: "keeps (aol_inv cfg want) (aol_update_events cfg cs prev)"
  unfolding aol_update_events_def
  by (rule keeps_sbind [OF keeps_consume], rule keeps_sseq_all)
    (simp add: keeps_intros keeps_sseq_all list_all_iff)

lemma keeps_engine:
  "keeps (aol_inv cfg False)
     (\<lambda>a. let ((en, act), m) = AolStateMachine_update (mici cfg) (aol_machine a)
          in (Inr (), a\<lparr>aol_machine := m, aol_is_enabled := en, aol_is_active := act\<rparr>))"
  unfolding keeps_def
proof (intro allI impI)
  fix a assume a: "aol_inv cfg False a"
  obtain en act m where u: "AolStateMachine_update (mici cfg) (aol_machine a) = ((en, act), m)"
    by (metis surj_pair)
  with a AolStateMachine_update_frame [OF u] AolStateMachine_update_state [OF u]
  have "aol_inv cfg False (a\<lparr>aol_machine := m, aol_is_enabled := en, aol_is_active := act\<rparr>)"
    by (auto simp: aol_inv_def aol_frame_def)
  with u show "\<exists>x s'. (let ((en, act), m) = AolStateMachine_update (mici cfg) (aol_machine a)
      in (Inr (), a\<lparr>aol_machine := m, aol_is_enabled := en, aol_is_active := act\<rparr>)) = (Inr x, s') \<and>
      aol_inv cfg False s'"
    by simp
qed

section \<open>Properties\<close>

text \<open>an update of always-on lateral control never raises and keeps its flags true to its engine.
From every state in which the events of the stock table have counters, for every car state and
configuration, \<^verbatim>\<open>update\<close> ends without an exception in such a state; there, enabled means that the
engine is not disabled and active that it is also not paused, and both event lists are sorted.\<close>

theorem aol_update_total:
  assumes "aol_inv cfg False a"
  shows "\<exists>a'. AlwaysOnLateral_update cfg initialized cs prev a = (Inr (), a') \<and> aol_inv cfg False a'"
proof -
  have prev: "keeps (aol_inv cfg False) (smodify (\<lambda>a. a\<lparr>sd_enabled_prev := aol_main_enabled a\<rparr>))"
    by (simp add: keeps_def smodify_def aol_inv_def)
  have "keeps (aol_inv cfg False) (AlwaysOnLateral_update cfg initialized cs prev)"
    unfolding AlwaysOnLateral_update_def
    by (rule keeps_if [OF keeps_sret], rule keeps_sseq_all)
      (simp only: list.pred_inject keeps_update_events keeps_swhen [OF keeps_engine] prev simp_thms)
  then show ?thesis using assms by (auto dest: keepsD)
qed

text \<open>A fresh process, for the witnesses: events as the constructors make them.\<close>

definition fresh_aol :: "bool \<Rightarrow> aol" where
  "fresh_aol mi =
    \<lparr>aol_machine = \<lparr>sd_machine = StateMachine_init, sd_enabled = False,
       sd_events = EventsBase_init (EVENTS mi), sd_events_iq = EventsBase_init (EVENTS_IQ mi),
       aol_state = aol_disabled\<rparr>,
     aol_is_enabled = False, aol_is_active = False, sd_enabled_prev = False,
     joystick_debug = False, joystick_request = None\<rparr>"

lemma fresh_aol_inv: "aol_inv cfg False (fresh_aol (mici cfg))"
  by (auto simp: aol_inv_def fresh_aol_def EventsBase_init_def events_ok_def dom_map_of_conv_image_fst
      image_image case_prod_beta)

definition parked :: car_state where
  "parked =
    \<lparr>gasPressed = False, standstill = True, vEgo = 0, gearShifter = gear_drive,
     buttonEvents = [(button_lkas, True)], cruise_available = True, lateralAvailable = Some True,
     started = None, doorOpen = Some False, seatbeltUnlatched = Some False\<rparr>"

lemma aol_update_total_witness:
  "\<exists>a'. AlwaysOnLateral_update (AlwaysOnLateral_config False ''toyota'' False True True False False CANCEL)
     True parked parked (fresh_aol False) = (Inr (), a')"
proof -
  let ?cfg = "AlwaysOnLateral_config False ''toyota'' False True True False False CANCEL"
  have "aol_inv ?cfg False (fresh_aol False)"
    using fresh_aol_inv [of ?cfg] by (simp add: AlwaysOnLateral_config_def)
  from aol_update_total [OF this] show ?thesis by blast
qed

text \<open>pressing the brake does not cancel a request to enable lateral control. In no configuration
does the event logic withdraw an enabling request that is already among the fork's events: the
branch meant to replace it by an alert when the pedal is pressed and the brake mode is \<^verbatim>\<open>CANCEL\<close>
passes the number of the event to \<^verbatim>\<open>contains\<close>, which looks for an event type, and never runs.\<close>

theorem brake_does_not_cancel_request:
  assumes "aol_inv cfg False a" "EventNameIQ_lkasEnable \<in> set (events (aol_events_iq a))"
  shows "\<exists>a'. aol_update_events cfg cs prev a = (Inr (), a') \<and>
    EventNameIQ_lkasEnable \<in> set (events (aol_events_iq a'))"
proof -
  have "aol_inv cfg True a" using assms by (simp add: aol_inv_def)
  then obtain x a' where "aol_update_events cfg cs prev a = (Inr x, a')" "aol_inv cfg True a'"
    using keepsD [OF keeps_update_events] by blast
  then show ?thesis by (auto simp: aol_inv_def)
qed

lemma brake_does_not_cancel_request_witness:
  "\<exists>a'. aol_update_events (AlwaysOnLateral_config False ''toyota'' False True True False False CANCEL)
       parked parked
       ((fresh_aol False)\<lparr>aol_machine := (aol_machine (fresh_aol False))
          \<lparr>sd_events := events_add EventName_pedalPressed False (EventsBase_init (EVENTS False)),
           sd_events_iq := events_add EventNameIQ_lkasEnable False (EventsBase_init (EVENTS_IQ False))\<rparr>\<rparr>)
     = (Inr (), a') \<and> EventNameIQ_lkasEnable \<in> set (events (aol_events_iq a'))"
proof -
  let ?cfg = "AlwaysOnLateral_config False ''toyota'' False True True False False CANCEL"
  have "aol_inv ?cfg False (fresh_aol False)"
    using fresh_aol_inv [of ?cfg] by (simp add: AlwaysOnLateral_config_def)
  then show ?thesis
    by (intro brake_does_not_cancel_request) (simp_all add: aol_inv_def fresh_aol_def events_ok_add)
qed

end
