(* ===== verification/AlertManager.thy ===== *)
theory AlertManager
  imports Events
begin

text \<open>
  \<^verbatim>\<open>class AlertManager\<close> of \<^verbatim>\<open>selfdrive/selfdrived/alertmanager.py\<close>: which alert the driver sees. The
  dictionary of entries is an association list in insertion order, the order in which the loop of
  \<^verbatim>\<open>process_alerts\<close> goes through it.
\<close>

section \<open>Entries\<close>

record alert_entry =
  entry_alert :: "alert option"
  start_frame :: int
  end_frame :: int
  added_frame :: int

definition AlertEntry_init :: alert_entry where
  "AlertEntry_init = \<lparr>entry_alert = None, start_frame = - 1, end_frame = - 1, added_frame = - 1\<rparr>"

definition entry_active :: "int \<Rightarrow> alert_entry \<Rightarrow> bool" where
  "entry_active frame e \<longleftrightarrow> frame \<le> end_frame e"

definition just_added :: "int \<Rightarrow> alert_entry \<Rightarrow> bool" where
  "just_added frame e \<longleftrightarrow> entry_active frame e \<and> frame = added_frame e + 1"

record alert_manager =
  alerts :: "(string \<times> alert_entry) list"
  current_alert :: alert

definition AlertManager_init :: alert_manager where
  "AlertManager_init = \<lparr>alerts = [], current_alert = EmptyAlert\<rparr>"

section \<open>Adding alerts\<close>

definition entry_add :: "int \<Rightarrow> alert \<Rightarrow> alert_entry \<Rightarrow> alert_entry" where
  "entry_add frame a e =
    (let st = (if \<not> just_added frame e then frame else start_frame e)
     in \<lparr>entry_alert = Some a, start_frame = st, end_frame = max (frame + 1) (st + duration a),
         added_frame = frame\<rparr>)"

text \<open>A \<^verbatim>\<open>defaultdict\<close>: a missing key is inserted at the end with a fresh entry.\<close>

fun alist_add :: "int \<Rightarrow> alert \<Rightarrow> (string \<times> alert_entry) list \<Rightarrow> (string \<times> alert_entry) list" where
  "alist_add frame a [] = [(alert_type a, entry_add frame a AlertEntry_init)]"
| "alist_add frame a ((k, e) # es) =
    (if k = alert_type a then (k, entry_add frame a e) # es else (k, e) # alist_add frame a es)"

definition add_many :: "int \<Rightarrow> alert list \<Rightarrow> alert_manager \<Rightarrow> alert_manager" where
  "add_many frame as m = m\<lparr>alerts := fold (alist_add frame) as (alerts m)\<rparr>"

section \<open>Choosing the alert\<close>

definition clear_entry :: "ET set \<Rightarrow> alert_entry \<Rightarrow> alert_entry" where
  "clear_entry cleared e =
    (case entry_alert e of
       None \<Rightarrow> e
     | Some a \<Rightarrow> (case event_type a of
         None \<Rightarrow> e | Some et \<Rightarrow> if et \<in> cleared then e\<lparr>end_frame := - 1\<rparr> else e))"

definition alert_rank :: "alert_entry \<Rightarrow> int \<times> int" where
  "alert_rank e = (case entry_alert e of
     None \<Rightarrow> (- 1, start_frame e) | Some a \<Rightarrow> (Priority_value (priority a), start_frame e))"

definition rank_gt :: "int \<times> int \<Rightarrow> int \<times> int \<Rightarrow> bool" where
  "rank_gt p q \<longleftrightarrow> fst p > fst q \<or> (fst p = fst q \<and> snd p > snd q)"

definition pick :: "int \<Rightarrow> alert_entry \<Rightarrow> alert_entry \<Rightarrow> alert_entry" where
  "pick frame v ae =
    (if entry_alert v = None then ae
     else if entry_active frame v \<and> (entry_alert ae = None \<or> rank_gt (alert_rank v) (alert_rank ae)) then v
     else ae)"

definition process_alerts :: "int \<Rightarrow> ET set \<Rightarrow> alert_manager \<Rightarrow> alert_manager" where
  "process_alerts frame cleared m =
    (let es = map (\<lambda>(k, e). (k, clear_entry cleared e)) (alerts m);
         ae = fold (pick frame) (map snd es) AlertEntry_init
     in \<lparr>alerts = es, current_alert = (case entry_alert ae of None \<Rightarrow> EmptyAlert | Some a \<Rightarrow> a)\<rparr>)"

section \<open>The chosen entry\<close>

definition candidate :: "int \<Rightarrow> alert_entry \<Rightarrow> bool" where
  "candidate frame e \<longleftrightarrow> entry_alert e \<noteq> None \<and> entry_active frame e"

text \<open>The loop keeps the first of the best entries it has seen.\<close>

definition best_of :: "int \<Rightarrow> alert_entry list \<Rightarrow> alert_entry \<Rightarrow> bool" where
  "best_of frame es ae \<longleftrightarrow>
     (if \<exists>e\<in>set es. candidate frame e
      then ae \<in> set es \<and> candidate frame ae \<and>
           (\<forall>e\<in>set es. candidate frame e \<longrightarrow> \<not> rank_gt (alert_rank e) (alert_rank ae))
      else entry_alert ae = None)"

lemma rank_gt_trans: "rank_gt p q \<Longrightarrow> rank_gt q r \<Longrightarrow> rank_gt p r"
  by (auto simp: rank_gt_def)

lemma rank_gt_mix: "rank_gt p q \<Longrightarrow> \<not> rank_gt r q \<Longrightarrow> \<not> rank_gt r p"
  by (auto simp: rank_gt_def)

lemma rank_gt_irrefl [simp]: "\<not> rank_gt p p"
  by (simp add: rank_gt_def)

lemma best_of_fold: "best_of frame es (fold (pick frame) es AlertEntry_init)"
proof (induction es rule: rev_induct)
  case Nil
  then show ?case by (simp add: best_of_def AlertEntry_init_def)
next
  case (snoc v es)
  then show ?case
    by (auto simp: best_of_def pick_def candidate_def split: if_splits dest: rank_gt_trans rank_gt_mix)
qed

section \<open>Properties\<close>

text \<open>C38: the driver sees the most important active alert. After the cleared event types have been
taken out, the current alert is the empty one if no alert is active; otherwise it is the alert of
an active entry, and no active entry has a higher priority, or the same priority and a later
start.\<close>

theorem process_alerts_best:
  fixes m :: alert_manager
  shows "let m' = process_alerts frame cleared m; es = map snd (alerts m')
   in (if \<exists>e\<in>set es. candidate frame e
       then \<exists>ae\<in>set es. candidate frame ae \<and> entry_alert ae = Some (current_alert m') \<and>
         (\<forall>e\<in>set es. candidate frame e \<longrightarrow> \<not> rank_gt (alert_rank e) (alert_rank ae))
       else current_alert m' = EmptyAlert)"
proof -
  let ?m' = "process_alerts frame cleared m"
  let ?es = "map snd (alerts ?m')"
  let ?ae = "fold (pick frame) ?es AlertEntry_init"
  have b: "best_of frame ?es ?ae" by (rule best_of_fold)
  have c: "current_alert ?m' = (case entry_alert ?ae of None \<Rightarrow> EmptyAlert | Some a \<Rightarrow> a)"
    by (simp add: process_alerts_def Let_def)
  show ?thesis
  proof (cases "\<exists>e\<in>set ?es. candidate frame e")
    case True
    with b have ae: "?ae \<in> set ?es" "candidate frame ?ae"
      "\<forall>e\<in>set ?es. candidate frame e \<longrightarrow> \<not> rank_gt (alert_rank e) (alert_rank ?ae)"
      by (simp_all add: best_of_def)
    from ae(2) c have "entry_alert ?ae = Some (current_alert ?m')" by (auto simp: candidate_def)
    with ae True show ?thesis unfolding Let_def by (simp only: if_True) blast
  next
    case False
    with b c have "current_alert ?m' = EmptyAlert" by (simp add: best_of_def)
    with False show ?thesis unfolding Let_def by (simp only: if_False)
  qed
qed

definition sample_alert :: alert where
  "sample_alert = (ImmediateDisableAlert ''Controls Mismatch'')
     \<lparr>alert_type := ''controlsMismatch/immediateDisable'', event_type := Some ET_IMMEDIATE_DISABLE\<rparr>"

lemma process_alerts_best_witness:
  "current_alert (process_alerts 7 {ET_WARNING} (add_many 7 [sample_alert] AlertManager_init)) = sample_alert"
proof -
  let ?m = "process_alerts 7 {ET_WARNING} (add_many 7 [sample_alert] AlertManager_init)"
  have es: "map snd (alerts ?m) = [entry_add 7 sample_alert AlertEntry_init]"
    by (simp add: process_alerts_def add_many_def AlertManager_init_def clear_entry_def entry_add_def
        sample_alert_def Let_def)
  have "candidate 7 (entry_add 7 sample_alert AlertEntry_init)"
    by (simp add: candidate_def entry_active_def entry_add_def Let_def)
  then show ?thesis
    using process_alerts_best [of 7 "{ET_WARNING}" "add_many 7 [sample_alert] AlertManager_init"]
    unfolding Let_def es by (simp add: entry_add_def Let_def)
qed

text \<open>An alert that is added is in the dictionary, and active until at least the next frame.\<close>

lemma entry_add_active: "entry_alert (entry_add frame a e) = Some a" "frame < end_frame (entry_add frame a e)"
  by (simp_all add: entry_add_def Let_def)

lemma alist_add_new: "\<exists>e. (alert_type a, entry_add frame a e) \<in> set (alist_add frame a es)"
  by (induction es) auto

lemma alist_add_other: "(k, e) \<in> set es \<Longrightarrow> k \<noteq> alert_type b \<Longrightarrow> (k, e) \<in> set (alist_add frame b es)"
  by (induction es) auto

lemma add_many_entry:
  assumes "a \<in> set as" "distinct (map alert_type as)"
  shows "\<exists>e. (alert_type a, entry_add frame a e) \<in> set (fold (alist_add frame) as es)"
  using assms
proof (induction as rule: rev_induct)
  case (snoc b as)
  show ?case
  proof (cases "a = b")
    case True
    then show ?thesis using alist_add_new [of b frame] by simp
  next
    case False
    with snoc.prems(1) have a: "a \<in> set as" by simp
    with snoc.prems(2) have "alert_type a \<noteq> alert_type b" "distinct (map alert_type as)"
      by (force simp: image_iff)+
    with a snoc.IH show ?thesis using alist_add_other by fastforce
  qed
qed simp

text \<open>a new alert is not hidden by a lesser one. When alerts with different names are added in a
control cycle and the display is updated in the same cycle, then for every one of them whose
event type is not cleared, the alert that the driver sees has at least its priority.\<close>

theorem added_alert_not_hidden:
  assumes "a \<in> set as" "distinct (map alert_type as)" "\<forall>et. event_type a = Some et \<longrightarrow> et \<notin> cleared"
  shows "priority a \<le> priority (current_alert (process_alerts frame cleared (add_many frame as m)))"
proof -
  let ?m = "process_alerts frame cleared (add_many frame as m)"
  let ?es = "map snd (alerts ?m)"
  obtain e where e: "(alert_type a, e) \<in> set (fold (alist_add frame) as (alerts m))"
    "entry_alert e = Some a" "frame < end_frame e"
    using add_many_entry [OF assms(1,2), of frame "alerts m"] entry_add_active by metis
  have "clear_entry cleared e = e" using e(2) assms(3) by (auto simp: clear_entry_def split: option.splits)
  with e(1) have mem: "e \<in> set ?es" by (force simp: process_alerts_def add_many_def Let_def)
  have cand: "candidate frame e" using e by (simp add: candidate_def entry_active_def)
  have b: "best_of frame ?es (fold (pick frame) ?es AlertEntry_init)" (is "best_of _ _ ?ae") by (rule best_of_fold)
  then have ae: "candidate frame ?ae" "\<not> rank_gt (alert_rank e) (alert_rank ?ae)"
    using mem cand by (auto simp: best_of_def split: if_splits)
  then obtain c where c: "entry_alert ?ae = Some c" by (auto simp: candidate_def)
  have "current_alert ?m = c" using c by (simp add: process_alerts_def Let_def)
  with ae(2) c e(2) show ?thesis by (auto simp: rank_gt_def alert_rank_def less_eq_Priority_def)
qed

lemma added_alert_not_hidden_witness:
  "priority (current_alert (process_alerts 7 {ET_WARNING} (add_many 7 [sample_alert] AlertManager_init))) = Priority_HIGHEST"
proof -
  have p: "priority sample_alert = Priority_HIGHEST" by (simp add: sample_alert_def ImmediateDisableAlert_def Alert_def)
  have "priority sample_alert \<le> priority (current_alert (process_alerts 7 {ET_WARNING} (add_many 7 [sample_alert] AlertManager_init)))"
    by (rule added_alert_not_hidden [where a = sample_alert]) (simp_all add: sample_alert_def)
  then show ?thesis unfolding p
    by (cases "priority (current_alert (process_alerts 7 {ET_WARNING} (add_many 7 [sample_alert] AlertManager_init)))")
      (simp_all add: less_eq_Priority_def)
qed

end
