(* ===== verification/CanSignal.thy ===== *)
theory CanSignal
  imports PyBytes PyFloat
begin

text \<open>
  Signals of a CAN message: \<^verbatim>\<open>class Signal\<close> of \<^verbatim>\<open>opendbc/can/dbc.py\<close>, \<^verbatim>\<open>set_value\<close> of \<^verbatim>\<open>packer.py\<close> and
  \<^verbatim>\<open>get_raw_value\<close> of \<^verbatim>\<open>parser.py\<close>. The lemmas describe the two loops bit by bit: a well-formed
  signal that fits in the message occupies the positions \<open>sig_pos\<close>, writing it changes exactly
  these bits, and reading it gives back the number they hold.
\<close>

section \<open>Signals\<close>

text \<open>The checksum functions of the car modules that \<^verbatim>\<open>dbc.py\<close> refers to.\<close>

datatype checksum_fn =
    honda_checksum | toyota_checksum | body_checksum | volkswagen_mqb_meb_checksum | xor_checksum
  | subaru_checksum | chrysler_checksum | hkg_can_fd_checksum | fca_giorgio_checksum | tesla_checksum
  | psa_checksum | volkswagen_mlb_checksum | volkswagen_mqb_meb_gen2_checksum

abbreviation (input) SignalType_DEFAULT :: int where "SignalType_DEFAULT \<equiv> 0"
abbreviation (input) SignalType_COUNTER :: int where "SignalType_COUNTER \<equiv> 1"

text \<open>\<^verbatim>\<open>SignalType\<close> of each checksum.\<close>

primrec SignalType_of :: "checksum_fn \<Rightarrow> int" where
  "SignalType_of honda_checksum = 2"
| "SignalType_of toyota_checksum = 3"
| "SignalType_of body_checksum = 4"
| "SignalType_of volkswagen_mqb_meb_checksum = 5"
| "SignalType_of xor_checksum = 6"
| "SignalType_of subaru_checksum = 7"
| "SignalType_of chrysler_checksum = 8"
| "SignalType_of hkg_can_fd_checksum = 9"
| "SignalType_of fca_giorgio_checksum = 10"
| "SignalType_of tesla_checksum = 11"
| "SignalType_of psa_checksum = 12"
| "SignalType_of volkswagen_mlb_checksum = 13"
| "SignalType_of volkswagen_mqb_meb_gen2_checksum = 14"

record signal =
  sig_name :: string
  start_bit :: nat
  sig_msb :: int
  sig_lsb :: int
  sig_size :: nat
  is_signed :: bool
  factor :: rat
  sig_offset :: rat
  is_little_endian :: bool
  sig_type :: int
  calc_checksum :: "checksum_fn option"

section \<open>Writing a signal\<close>

definition set_byte :: "nat \<Rightarrow> nat \<Rightarrow> int \<Rightarrow> byte \<Rightarrow> byte" where
  "set_byte sh n ival b =
    (b AND NOT (push_bit sh (mask n))) OR word_of_int (push_bit sh (ival AND mask n))"

definition set_shift :: "signal \<Rightarrow> int \<Rightarrow> nat" where
  "set_shift sg i = (if sig_lsb sg div 8 = i then nat (sig_lsb sg mod 8) else 0)"

definition set_count :: "signal \<Rightarrow> int \<Rightarrow> nat \<Rightarrow> nat" where
  "set_count sg i bits = min bits (8 - set_shift sg i)"

lemma set_count_pos: "0 < bits \<Longrightarrow> 0 < set_count sg i bits"
  by (auto simp: set_count_def set_shift_def)

function set_loop :: "signal \<Rightarrow> bytes \<Rightarrow> int \<Rightarrow> nat \<Rightarrow> int \<Rightarrow> bytes" where
  "set_loop sg dat i bits ival =
    (if 0 \<le> i \<and> i < int (length dat) \<and> 0 < bits
     then set_loop sg
            (dat[nat i := set_byte (set_shift sg i) (set_count sg i bits) ival (dat ! nat i)])
            (if is_little_endian sg then i + 1 else i - 1) (bits - set_count sg i bits)
            (drop_bit (set_count sg i bits) ival)
     else dat)"
  by pat_completeness auto
termination
  by (relation "measure (\<lambda>(sg, dat, i, bits, ival). bits)") (simp_all add: set_count_pos)

declare set_loop.simps [simp del]

definition set_value :: "bytes \<Rightarrow> signal \<Rightarrow> int \<Rightarrow> bytes" where
  "set_value dat sg ival =
    set_loop sg dat (sig_lsb sg div 8) (sig_size sg)
      (if sig_size sg < 64 then ival AND mask (sig_size sg) else ival)"

section \<open>Reading a signal\<close>

text \<open>Shifts by a negative count raise \<^verbatim>\<open>ValueError\<close>.\<close>

function get_loop :: "signal \<Rightarrow> bytes \<Rightarrow> int \<Rightarrow> int \<Rightarrow> int \<Rightarrow> int result" where
  "get_loop sg dat i bits ret =
    (if 0 \<le> i \<and> i < int (length dat) \<and> 0 < bits
     then let lo = (if sig_lsb sg div 8 = i then sig_lsb sg else i * 8);
              hi = (if sig_msb sg div 8 = i then sig_msb sg else (i + 1) * 8 - 1);
              n = hi - lo + 1
          in if n < 0 \<or> bits < n then Inl ValueError
             else get_loop sg dat (if is_little_endian sg then i - 1 else i + 1) (bits - n)
                    (ret OR push_bit (nat (bits - n))
                       (drop_bit (nat (lo - i * 8)) (uint (dat ! nat i)) AND mask (nat n)))
     else Inr ret)"
  by pat_completeness auto
termination
  by (relation "measure (\<lambda>(sg, dat, i, bits, ret).
        nat (if is_little_endian sg then i + 1 else int (length dat) - i))") auto

declare get_loop.simps [simp del]

definition get_raw_value :: "bytes \<Rightarrow> signal \<Rightarrow> int result" where
  "get_raw_value dat sg = get_loop sg dat (sig_msb sg div 8) (int (sig_size sg)) 0"

section \<open>The positions of a signal\<close>

definition bit_at :: "bytes \<Rightarrow> nat \<Rightarrow> bool" where
  "bit_at dat p \<longleftrightarrow> p div 8 < length dat \<and> bit (dat ! (p div 8)) (p mod 8)"

text \<open>Big-endian signals run through the bits in the order 7, 6, ..., 0, 15, 14, ...\<close>

definition be_index :: "nat \<Rightarrow> nat" where
  "be_index p = 8 * (p div 8) + (7 - p mod 8)"

definition sig_pos :: "signal \<Rightarrow> nat \<Rightarrow> nat" where
  "sig_pos sg k =
    (if is_little_endian sg then nat (sig_lsb sg) + k
     else be_index (be_index (nat (sig_lsb sg)) - k))"

definition sig_wf :: "signal \<Rightarrow> bool" where
  "sig_wf sg \<longleftrightarrow> 0 < sig_size sg \<and> 0 \<le> sig_lsb sg \<and> 0 \<le> sig_msb sg \<and>
     (if is_little_endian sg then sig_msb sg = sig_lsb sg + int (sig_size sg) - 1
      else be_index (nat (sig_lsb sg)) + 1 = be_index (nat (sig_msb sg)) + sig_size sg)"

definition sig_fits :: "signal \<Rightarrow> nat \<Rightarrow> bool" where
  "sig_fits sg n \<longleftrightarrow> (\<forall>k < sig_size sg. sig_pos sg k < 8 * n)"

definition sig_bits :: "signal \<Rightarrow> nat set" where
  "sig_bits sg = sig_pos sg ` {..< sig_size sg}"

lemma byte_split: "r < 8 \<Longrightarrow> (8 * q + r) div 8 = (q::nat)" "r < 8 \<Longrightarrow> (8 * q + r) mod 8 = r"
  by simp_all

lemma mod8_le [simp]: "p mod 8 \<le> (7::nat)"
  using mod_less_divisor [of 8 p] by linarith

lemma be_index_div [simp]: "be_index p div 8 = p div 8"
  unfolding be_index_def by (rule byte_split) (simp add: less_Suc_eq_le)

lemma be_index_mod: "be_index p mod 8 = 7 - p mod 8"
  unfolding be_index_def by (rule byte_split) (simp add: less_Suc_eq_le)

lemma be_index_be_index [simp]: "be_index (be_index p) = p"
proof -
  have "p mod 8 < 8" by simp
  then have "7 - (7 - p mod 8) = p mod 8" by linarith
  then show ?thesis
    unfolding be_index_def [of "be_index p"] be_index_div be_index_mod
    by (metis mult_div_mod_eq)
qed

lemma be_index_inj: "be_index p = be_index q \<Longrightarrow> p = q"
  by (metis be_index_be_index)

lemma sig_wf_lsb: "sig_wf sg \<Longrightarrow> \<not> is_little_endian sg \<Longrightarrow> sig_size sg \<le> be_index (nat (sig_lsb sg)) + 1"
  by (simp add: sig_wf_def)

lemma sig_pos_0: "sig_pos sg 0 = nat (sig_lsb sg)"
  by (simp add: sig_pos_def)

lemma sig_pos_last: "sig_wf sg \<Longrightarrow> sig_pos sg (sig_size sg - 1) = nat (sig_msb sg)"
proof (cases "is_little_endian sg")
  case True
  then show "sig_wf sg \<Longrightarrow> ?thesis" by (simp add: sig_wf_def sig_pos_def) linarith
next
  case False
  assume wf: "sig_wf sg"
  with False have "be_index (nat (sig_lsb sg)) - (sig_size sg - 1) = be_index (nat (sig_msb sg))"
    by (simp add: sig_wf_def)
  with False show ?thesis by (simp add: sig_pos_def)
qed

lemma sig_msb_pos: "sig_wf sg \<Longrightarrow> sig_msb sg = int (sig_pos sg (sig_size sg - 1))"
  by (simp only: sig_pos_last) (simp add: sig_wf_def)

lemma sig_msb_div: "sig_wf sg \<Longrightarrow> sig_msb sg div 8 = int (sig_pos sg (sig_size sg - 1) div 8)"
  by (simp only: sig_msb_pos zdiv_int) simp

lemma sig_pos_inj:
  assumes "sig_wf sg" "j < sig_size sg" "k < sig_size sg" "sig_pos sg j = sig_pos sg k"
  shows "j = k"
  using assms sig_wf_lsb [of sg] by (cases "is_little_endian sg") (auto simp: sig_pos_def dest!: be_index_inj)

text \<open>Inside a byte, the value bits of a signal are at increasing bit numbers, in both byte orders.\<close>

lemma sig_pos_run:
  assumes "sig_wf sg" "k + j < sig_size sg" "sig_pos sg k mod 8 + j < 8"
  shows "sig_pos sg (k + j) = sig_pos sg k + j"
proof (cases "is_little_endian sg")
  case True
  then show ?thesis by (simp add: sig_pos_def)
next
  case False
  define q where "q = be_index (nat (sig_lsb sg)) - k"
  have k: "sig_pos sg k = be_index q" "sig_pos sg (k + j) = be_index (q - j)"
    using False by (simp_all add: sig_pos_def q_def)
  have "k + j < sig_size sg" "sig_size sg \<le> be_index (nat (sig_lsb sg)) + 1"
    using assms sig_wf_lsb False by auto
  then have "j \<le> q" by (simp add: q_def)
  have jq: "j \<le> q mod 8" using assms(3) k(1) by (simp add: be_index_mod)
  have q: "q = 8 * (q div 8) + q mod 8" by simp
  have "q - j = 8 * (q div 8) + (q mod 8 - j)" using jq q by linarith
  moreover have "q mod 8 - j < 8" by (simp add: less_imp_diff_less)
  ultimately have "(q - j) div 8 = q div 8" "(q - j) mod 8 = q mod 8 - j" by simp_all
  moreover have "7 - (q mod 8 - j) = 7 - q mod 8 + j" using jq mod8_le [of q] by linarith
  ultimately show ?thesis unfolding k be_index_def by (simp only: add.assoc)
qed

text \<open>The next byte of a signal.\<close>

lemma sig_pos_next:
  assumes "sig_wf sg" "k + n < sig_size sg" "sig_pos sg k mod 8 + n = 8"
  shows "sig_pos sg (k + n) mod 8 = 0" (is ?A)
    and "int (sig_pos sg (k + n) div 8) =
      (if is_little_endian sg then int (sig_pos sg k div 8) + 1 else int (sig_pos sg k div 8) - 1)" (is ?B)
proof -
  have "?A \<and> ?B"
  proof (cases "is_little_endian sg")
    case True
    have "sig_pos sg (k + n) = sig_pos sg k + n" using True by (simp add: sig_pos_def)
    moreover have "sig_pos sg k + n = 8 * (sig_pos sg k div 8) + (sig_pos sg k mod 8 + n)"
      by (subst add.assoc [symmetric]) simp
    ultimately show ?thesis using True unfolding assms(3) by simp
  next
    case False
    define q where "q = be_index (nat (sig_lsb sg)) - k"
    have k: "sig_pos sg k = be_index q" "sig_pos sg (k + n) = be_index (q - n)"
      using False by (simp_all add: sig_pos_def q_def)
    have "k + n < sig_size sg" "sig_size sg \<le> be_index (nat (sig_lsb sg)) + 1"
      using assms sig_wf_lsb False by auto
    then have nq: "n \<le> q" by (simp add: q_def)
    have n: "n = q mod 8 + 1" using assms(3) k(1) by (simp add: be_index_mod)
    have pos: "0 < q div 8" using nq n mult_div_mod_eq [of 8 q] by linarith
    have "q - n = 8 * (q div 8 - 1) + 7"
      using n pos mult_div_mod_eq [of 8 q] by (cases "q div 8") simp_all
    then have "(q - n) div 8 = q div 8 - 1" "(q - n) mod 8 = 7" by simp_all
    then show ?thesis using False k pos by (simp add: be_index_mod int_ops(6))
  qed
  then show ?A ?B by blast+
qed

lemma sig_pos_byte:
  assumes "sig_wf sg" "j < sig_size sg" "k < sig_size sg" "j \<le> k"
  shows "if is_little_endian sg then sig_pos sg j div 8 \<le> sig_pos sg k div 8
    else sig_pos sg k div 8 \<le> sig_pos sg j div 8"
  using assms by (auto simp: sig_pos_def intro!: div_le_mono)

section \<open>What writing does\<close>

lemma bit_set_byte:
  assumes "sh + n \<le> 8" "r < 8"
  shows "bit (set_byte sh n ival b) r = (if sh \<le> r \<and> r < sh + n then bit ival (r - sh) else bit b r)"
  using assms
  by (auto simp: set_byte_def bit_or_iff bit_and_iff bit_not_iff bit_push_bit_iff bit_mask_iff
      bit_word_of_int_iff)

lemma bit_at_update:
  assumes "i < length dat" "sh + n \<le> 8"
  shows "bit_at (dat[i := set_byte sh n ival (dat ! i)]) p =
    (if p div 8 = i \<and> sh \<le> p mod 8 \<and> p mod 8 < sh + n then bit ival (p mod 8 - sh) else bit_at dat p)"
  using assms by (auto simp: bit_at_def bit_set_byte nth_list_update)

text \<open>The run of bits that one iteration handles: \<open>n\<close> value bits from \<open>k\<close> on.\<close>

lemma sig_run_iff:
  assumes "sig_wf sg" "k + n \<le> sig_size sg" "sig_pos sg k mod 8 + n \<le> 8"
  shows "(p div 8 = sig_pos sg k div 8 \<and> sig_pos sg k mod 8 \<le> p mod 8 \<and> p mod 8 < sig_pos sg k mod 8 + n)
    \<longleftrightarrow> (\<exists>j<n. p = sig_pos sg (k + j))" (is "?l \<longleftrightarrow> ?r")
    and "j < n \<Longrightarrow> sig_pos sg (k + j) mod 8 - sig_pos sg k mod 8 = j"
proof -
  let ?q = "sig_pos sg k"
  have run: "sig_pos sg (k + j) = ?q + j" if "j < n" for j
    using sig_pos_run [of sg k j] assms that by simp
  have dm: "(?q + j) div 8 = ?q div 8 \<and> (?q + j) mod 8 = ?q mod 8 + j" if "j < n" for j
  proof -
    have "?q + j = 8 * (?q div 8) + (?q mod 8 + j)" by (subst add.assoc [symmetric]) simp
    moreover have "?q mod 8 + j < 8" using that assms(3) by linarith
    ultimately show ?thesis by (metis byte_split)
  qed
  show "?l \<longleftrightarrow> ?r"
  proof
    assume l: ?l
    let ?j = "p mod 8 - ?q mod 8"
    have j: "?j < n" using l by linarith
    have "p = 8 * (?q div 8) + (?q mod 8 + ?j)" using l mult_div_mod_eq [of 8 p] by simp
    also have "\<dots> = ?q + ?j" by (subst add.assoc [symmetric]) simp
    finally show ?r using run [OF j] j by auto
  next
    assume ?r
    then show ?l using run dm by auto
  qed
  show "j < n \<Longrightarrow> sig_pos sg (k + j) mod 8 - ?q mod 8 = j"
    using run dm by simp
qed

lemma set_shift_next:
  assumes "sig_wf sg" "k + n < sig_size sg" "sig_pos sg k mod 8 + n = 8" "0 < n"
    and "i = (if is_little_endian sg then int (sig_pos sg k div 8) + 1 else int (sig_pos sg k div 8) - 1)"
  shows "i = int (sig_pos sg (k + n) div 8)" "set_shift sg i = sig_pos sg (k + n) mod 8"
proof -
  show i: "i = int (sig_pos sg (k + n) div 8)" using assms(5) sig_pos_next(2) [OF assms(1-3)] by simp
  have "sig_lsb sg div 8 = int (sig_pos sg 0 div 8)"
    using assms(1) by (simp add: sig_pos_0 sig_wf_def zdiv_int)
  moreover have "int (sig_pos sg 0 div 8) \<noteq> i"
    using sig_pos_byte [OF assms(1), of 0 k] assms by (auto split: if_splits)
  ultimately show "set_shift sg i = sig_pos sg (k + n) mod 8"
    using sig_pos_next(1) [OF assms(1-3)] by (simp add: set_shift_def)
qed

text \<open>The result \<open>res\<close> of writing the \<open>n\<close> value bits from \<open>k\<close> on into \<open>dat\<close>.\<close>

definition wrote :: "signal \<Rightarrow> nat \<Rightarrow> nat \<Rightarrow> int \<Rightarrow> bytes \<Rightarrow> bytes \<Rightarrow> bool" where
  "wrote sg k n v dat res \<longleftrightarrow>
     length res = length dat \<and> (\<forall>j<n. bit_at res (sig_pos sg (k + j)) = bit v j) \<and>
     (\<forall>p. p \<notin> sig_pos sg ` {k..<k + n} \<longrightarrow> bit_at res p = bit_at dat p)"

lemma wrote_0 [simp]: "wrote sg k 0 v dat dat"
  by (simp add: wrote_def)

lemma wrote_byte:
  assumes "sig_wf sg" "k + n \<le> sig_size sg" "sig_pos sg k mod 8 + n \<le> 8" "sig_pos sg k div 8 < length dat"
  shows "wrote sg k n v dat
    (dat[sig_pos sg k div 8 := set_byte (sig_pos sg k mod 8) n v (dat ! (sig_pos sg k div 8))])"
    (is "wrote _ _ _ _ _ ?res")
proof -
  have upd: "bit_at ?res p = (if \<exists>j<n. p = sig_pos sg (k + j) then bit v (p mod 8 - sig_pos sg k mod 8) else bit_at dat p)" for p
    using bit_at_update [OF assms(4,3), of v p] sig_run_iff(1) [OF assms(1-3), of p] by simp
  have "bit_at ?res (sig_pos sg (k + j)) = bit v j" if "j < n" for j
    using that sig_run_iff(2) [OF assms(1-3) that] by (subst upd) auto
  moreover have "bit_at ?res p = bit_at dat p" if "p \<notin> sig_pos sg ` {k..<k + n}" for p
    using that by (subst upd) force
  ultimately show ?thesis by (simp add: wrote_def)
qed

lemma wrote_trans:
  assumes "sig_wf sg" "k + n + m \<le> sig_size sg"
    and 1: "wrote sg k n v dat d1" and 2: "wrote sg (k + n) m (drop_bit n v) d1 d2"
  shows "wrote sg k (n + m) v dat d2"
  unfolding wrote_def
proof (intro conjI allI impI)
  show "length d2 = length dat" using 1 2 by (simp add: wrote_def)
next
  fix j assume j: "j < n + m"
  show "bit_at d2 (sig_pos sg (k + j)) = bit v j"
  proof (cases "j < n")
    case True
    have "sig_pos sg (k + j) \<notin> sig_pos sg ` {k + n..<k + n + m}"
    proof
      assume "sig_pos sg (k + j) \<in> sig_pos sg ` {k + n..<k + n + m}"
      then obtain t where t: "k + n \<le> t" "t < k + n + m" "sig_pos sg (k + j) = sig_pos sg t" by auto
      then have "k + j = t" using sig_pos_inj [OF assms(1) _ _ t(3)] assms(2) True by linarith
      with t True show False by linarith
    qed
    then have "bit_at d2 (sig_pos sg (k + j)) = bit_at d1 (sig_pos sg (k + j))"
      using 2 by (simp add: wrote_def)
    then show ?thesis using 1 True by (simp add: wrote_def)
  next
    case False
    then have "j - n < m" using j by linarith
    then have "bit_at d2 (sig_pos sg (k + n + (j - n))) = bit (drop_bit n v) (j - n)"
      using 2 unfolding wrote_def by blast
    then show ?thesis using False by (simp add: bit_drop_bit_eq)
  qed
next
  fix p assume p: "p \<notin> sig_pos sg ` {k..<k + (n + m)}"
  then have "p \<notin> sig_pos sg ` {k + n..<k + n + m}" "p \<notin> sig_pos sg ` {k..<k + n}" by force+
  then show "bit_at d2 p = bit_at dat p" using 1 2 by (simp add: wrote_def)
qed

text \<open>The byte index and the shift at the value bit \<open>k\<close>.\<close>

definition at_byte :: "signal \<Rightarrow> nat \<Rightarrow> int \<Rightarrow> bool" where
  "at_byte sg k i \<longleftrightarrow> i = int (sig_pos sg k div 8) \<and> set_shift sg i = sig_pos sg k mod 8"

lemma at_byte_0: "sig_wf sg \<Longrightarrow> at_byte sg 0 (sig_lsb sg div 8)"
  by (simp add: at_byte_def sig_pos_0 sig_wf_def zdiv_int set_shift_def nat_mod_distrib)

lemma at_byte_next:
  assumes "sig_wf sg" "at_byte sg k i" "k + (8 - sig_pos sg k mod 8) < sig_size sg"
  shows "at_byte sg (k + (8 - sig_pos sg k mod 8)) (if is_little_endian sg then i + 1 else i - 1)"
  unfolding at_byte_def
proof -
  let ?i = "if is_little_endian sg then int (sig_pos sg k div 8) + 1 else int (sig_pos sg k div 8) - 1"
  have "sig_pos sg k mod 8 + (8 - sig_pos sg k mod 8) = 8" "0 < 8 - sig_pos sg k mod 8"
    using mod8_le [of "sig_pos sg k"] by linarith+
  from set_shift_next [OF assms(1,3) this refl]
  show "(if is_little_endian sg then i + 1 else i - 1) = int (sig_pos sg (k + (8 - sig_pos sg k mod 8)) div 8) \<and>
    set_shift sg (if is_little_endian sg then i + 1 else i - 1) = sig_pos sg (k + (8 - sig_pos sg k mod 8)) mod 8"
    using assms(2) unfolding at_byte_def by metis
qed

lemma set_loop_spec:
  assumes "sig_wf sg" "sig_fits sg (length dat)" "k + bits = sig_size sg" "0 < bits \<Longrightarrow> at_byte sg k i"
  shows "wrote sg k bits v dat (set_loop sg dat i bits v)"
  using assms
proof (induction bits arbitrary: k dat i v rule: less_induct)
  case (less bits)
  show ?case
  proof (cases "bits = 0")
    case True
    then show ?thesis by (subst set_loop.simps) simp
  next
    case False
    define n where "n = min bits (8 - sig_pos sg k mod 8)"
    have i: "i = int (sig_pos sg k div 8)" "set_shift sg i = sig_pos sg k mod 8"
      using less.prems(4) False by (auto simp: at_byte_def)
    have n: "set_count sg i bits = n" by (simp only: set_count_def i(2) n_def)
    have n0: "0 < n" "sig_pos sg k mod 8 + n \<le> 8" "k + n \<le> sig_size sg" "n \<le> bits"
      using False less.prems(3) mod8_le [of "sig_pos sg k"] by (auto simp: n_def less_Suc_eq_le)
    have il: "sig_pos sg k div 8 < length dat"
      using less.prems(2,3) False by (auto simp: sig_fits_def intro: less_mult_imp_div_less simp: mult.commute)
    define d1 where "d1 = dat[sig_pos sg k div 8 := set_byte (sig_pos sg k mod 8) n v (dat ! (sig_pos sg k div 8))]"
    define i1 where "i1 = (if is_little_endian sg then i + 1 else i - 1)"
    have step: "set_loop sg dat i bits v = set_loop sg d1 i1 (bits - n) (drop_bit n v)"
      using il False by (subst set_loop.simps) (simp only: n i(2), simp add: i(1) d1_def i1_def)
    have w1: "wrote sg k n v dat d1"
      unfolding d1_def by (rule wrote_byte [OF less.prems(1) n0(3,2) il])
    have "at_byte sg (k + n) i1" if "0 < bits - n"
    proof -
      have "n = 8 - sig_pos sg k mod 8" "k + n < sig_size sg" using that less.prems(3) by (auto simp: n_def)
      then show ?thesis
        using at_byte_next [OF less.prems(1), of k i] less.prems(4) False by (simp add: i1_def)
    qed
    then have "wrote sg (k + n) (bits - n) (drop_bit n v) d1 (set_loop sg d1 i1 (bits - n) (drop_bit n v))"
      using less.IH [of "bits - n" d1 "k + n" i1] less.prems(1-3) n0 w1 by (simp add: wrote_def)
    from wrote_trans [OF less.prems(1) _ w1 this] show ?thesis
      unfolding step using n0(4) less.prems(3) by simp
  qed
qed

lemma set_value_spec:
  fixes v :: int
  assumes "sig_wf sg" "sig_fits sg (length dat)"
  shows "length (set_value dat sg v) = length dat"
    and "\<And>j. j < sig_size sg \<Longrightarrow> bit_at (set_value dat sg v) (sig_pos sg j) = bit v j"
    and "\<And>p. p \<notin> sig_bits sg \<Longrightarrow> bit_at (set_value dat sg v) p = bit_at dat p"
proof -
  let ?v = "if sig_size sg < 64 then v AND mask (sig_size sg) else v"
  have w: "wrote sg 0 (sig_size sg) ?v dat (set_value dat sg v)"
    unfolding set_value_def by (rule set_loop_spec [OF assms]) (simp_all add: at_byte_0 assms(1))
  show "length (set_value dat sg v) = length dat" using w by (simp add: wrote_def)
  show "bit_at (set_value dat sg v) (sig_pos sg j) = bit v j" if "j < sig_size sg" for j
    using w that by (simp add: wrote_def bit_and_iff bit_mask_iff)
  show "bit_at (set_value dat sg v) p = bit_at dat p" if "p \<notin> sig_bits sg" for p
    using w that by (simp add: wrote_def sig_bits_def lessThan_atLeast0)
qed

section \<open>What reading does\<close>

text \<open>The number that the lowest \<open>r\<close> bits of a signal hold.\<close>

definition raw_bits :: "bytes \<Rightarrow> signal \<Rightarrow> nat \<Rightarrow> int" where
  "raw_bits dat sg r = horner_sum of_bool 2 (map (\<lambda>k. bit_at dat (sig_pos sg k)) [0..<r])"

lemma bit_raw_bits: "bit (raw_bits dat sg r) k \<longleftrightarrow> k < r \<and> bit_at dat (sig_pos sg k)"
  by (auto simp: raw_bits_def bit_horner_sum_bit_iff)

lemma mod8_diff: "a = b + d \<Longrightarrow> a div 8 = b div 8 \<Longrightarrow> a mod 8 = b mod 8 + (d::nat)"
  using mult_div_mod_eq [of 8 a] mult_div_mod_eq [of 8 b] by (metis add.assoc add_left_cancel)

lemma sub7: "x = y + d \<Longrightarrow> x \<le> 7 \<Longrightarrow> 7 - y = 7 - x + (d::nat)"
  by simp

lemma suc_byte: "Suc x mod 8 = 0 \<Longrightarrow> x mod 8 = 7 \<and> Suc x div 8 = Suc (x div 8)"
  by (simp add: mod_Suc div_Suc split: if_splits)

lemma sig_pos_same_byte:
  assumes "sig_wf sg" "k \<le> j" "j < sig_size sg" "sig_pos sg k div 8 = sig_pos sg j div 8"
  shows "sig_pos sg j = sig_pos sg k + (j - k)"
proof (cases "is_little_endian sg")
  case True
  then show ?thesis using assms(2) by (simp add: sig_pos_def)
next
  case False
  let ?l = "be_index (nat (sig_lsb sg))"
  have "sig_size sg \<le> ?l + 1" using sig_wf_lsb assms(1) False by auto
  then have jk: "?l - k = (?l - j) + (j - k)" using assms(2,3) by linarith
  have same: "(?l - k) div 8 = (?l - j) div 8" using assms(4) False by (simp add: sig_pos_def)
  have "(?l - k) mod 8 = (?l - j) mod 8 + (j - k)" by (rule mod8_diff [OF jk same])
  then have "7 - (?l - j) mod 8 = 7 - (?l - k) mod 8 + (j - k)" by (rule sub7) simp
  moreover have "sig_pos sg t = 8 * ((?l - t) div 8) + (7 - (?l - t) mod 8)" for t
    using False by (simp only: sig_pos_def be_index_def if_False)
  ultimately show ?thesis by (simp only: same add.assoc)
qed

lemma sig_pos_prev:
  assumes "sig_wf sg" "0 < m" "m < sig_size sg" "sig_pos sg m mod 8 = 0"
  shows "sig_pos sg (m - 1) mod 8 = 7"
    and "int (sig_pos sg (m - 1) div 8) =
      (if is_little_endian sg then int (sig_pos sg m div 8) - 1 else int (sig_pos sg m div 8) + 1)"
proof -
  have "sig_pos sg (m - 1) mod 8 = 7 \<and> int (sig_pos sg (m - 1) div 8) =
    (if is_little_endian sg then int (sig_pos sg m div 8) - 1 else int (sig_pos sg m div 8) + 1)"
  proof (cases "is_little_endian sg")
    case True
    have "sig_pos sg m = Suc (sig_pos sg (m - 1))" using True assms(2) by (simp add: sig_pos_def)
    then have "sig_pos sg (m - 1) mod 8 = 7 \<and> sig_pos sg m div 8 = sig_pos sg (m - 1) div 8 + 1"
      using assms(4) suc_byte [of "sig_pos sg (m - 1)"] by simp
    then show ?thesis using True by simp
  next
    case False
    define q where "q = be_index (nat (sig_lsb sg)) - m"
    have "sig_size sg \<le> be_index (nat (sig_lsb sg)) + 1" using sig_wf_lsb assms(1) False by auto
    then have "be_index (nat (sig_lsb sg)) - (m - 1) = Suc q" using assms(2,3) by (simp add: q_def)
    then have pos: "sig_pos sg m = be_index q" "sig_pos sg (m - 1) = be_index (Suc q)"
      using False by (simp_all add: sig_pos_def q_def)
    have "q mod 8 = 7" using assms(4) mod8_le [of q] by (simp add: pos be_index_mod)
    then have "Suc q mod 8 = 0" "Suc q div 8 = Suc (q div 8)" by (simp_all add: mod_Suc div_Suc)
    then show ?thesis using False unfolding pos be_index_mod be_index_div by simp
  qed
  then show "sig_pos sg (m - 1) mod 8 = 7"
    and "int (sig_pos sg (m - 1) div 8) =
      (if is_little_endian sg then int (sig_pos sg m div 8) - 1 else int (sig_pos sg m div 8) + 1)"
    by blast+
qed

lemma le_floor8: "l div 8 < (b::nat) \<Longrightarrow> l < 8 * b"
  by (metis div_less_iff_less_mult mult.commute zero_less_numeral)

lemma ge_ceil8: "(b::nat) < l div 8 \<Longrightarrow> 8 * b + 8 \<le> l"
proof -
  assume "b < l div 8"
  then have "8 * Suc b \<le> 8 * (l div 8)" by (intro mult_le_mono2) simp
  also have "\<dots> \<le> l" by simp
  finally show ?thesis by simp
qed

text \<open>A byte of a signal that is not its first is read down to bit 0.\<close>

lemma sig_pos_floor:
  assumes "sig_wf sg" "k < sig_size sg" "sig_pos sg k div 8 \<noteq> sig_pos sg 0 div 8"
  shows "sig_pos sg k mod 8 < k \<and> sig_pos sg (k - sig_pos sg k mod 8) = 8 * (sig_pos sg k div 8)"
proof (cases "is_little_endian sg")
  case True
  let ?l = "nat (sig_lsb sg)"
  have k: "sig_pos sg k = ?l + k" "sig_pos sg 0 = ?l" using True by (simp_all add: sig_pos_def)
  have "?l div 8 < (?l + k) div 8" using assms(3) unfolding k by (metis div_le_mono le_add1 le_neq_implies_less)
  then have l: "?l < 8 * ((?l + k) div 8)" by (rule le_floor8)
  have "?l + k = 8 * ((?l + k) div 8) + (?l + k) mod 8" by simp
  with l have "(?l + k) mod 8 < k" "?l + (k - (?l + k) mod 8) = 8 * ((?l + k) div 8)" by linarith+
  then show ?thesis using True by (simp add: sig_pos_def)
next
  case False
  let ?l = "be_index (nat (sig_lsb sg))"
  define q where "q = ?l - k"
  have k: "sig_pos sg k = be_index q" "sig_pos sg 0 = be_index ?l"
    using False by (simp_all add: sig_pos_def q_def)
  have lk: "?l = q + k" using sig_wf_lsb [of sg] assms(1,2) False by (simp add: q_def)
  have "q div 8 \<le> ?l div 8" using lk by (intro div_le_mono) simp
  moreover have "q div 8 \<noteq> ?l div 8" using assms(3) by (simp only: k be_index_div) simp
  ultimately have "q div 8 < ?l div 8" by (rule le_neq_implies_less)
  then have l: "8 * (q div 8) + 8 \<le> ?l" by (rule ge_ceil8)
  have q: "q = 8 * (q div 8) + q mod 8" by simp
  have h: "sig_pos sg k mod 8 = 7 - q mod 8" by (simp only: k be_index_mod)
  have lt: "7 - q mod 8 < k" using l lk q mod8_le [of q] by linarith
  have "?l - (k - (7 - q mod 8)) = 8 * (q div 8) + 7" using lt lk q mod8_le [of q] by linarith
  then have "sig_pos sg (k - (7 - q mod 8)) = be_index (8 * (q div 8) + 7)"
    using False by (simp only: sig_pos_def if_False)
  also have "\<dots> = 8 * (q div 8)" by (simp add: be_index_def)
  finally show ?thesis using lt by (simp only: h) (simp only: k be_index_div)
qed

text \<open>The byte index and the highest position of the remaining \<open>r\<close> bits.\<close>

definition top_byte :: "signal \<Rightarrow> nat \<Rightarrow> int \<Rightarrow> bool" where
  "top_byte sg r i \<longleftrightarrow> i = int (sig_pos sg (r - 1) div 8) \<and>
     (if sig_msb sg div 8 = i then sig_msb sg else (i + 1) * 8 - 1) = int (sig_pos sg (r - 1))"

lemma top_byte_0: "sig_wf sg \<Longrightarrow> top_byte sg (sig_size sg) (sig_msb sg div 8)"
  unfolding top_byte_def by (simp only: sig_msb_div if_True simp_thms) (rule sig_msb_pos)

lemma top_byte_next:
  assumes "sig_wf sg" "0 < m" "m < r" "r \<le> sig_size sg" "sig_pos sg m mod 8 = 0"
    and "sig_pos sg m div 8 = sig_pos sg (r - 1) div 8" "top_byte sg r i"
  shows "top_byte sg m (if is_little_endian sg then i - 1 else i + 1)"
proof -
  let ?i = "if is_little_endian sg then i - 1 else i + 1"
  have i: "i = int (sig_pos sg m div 8)" using assms(6,7) by (simp add: top_byte_def)
  note prev = sig_pos_prev [OF assms(1,2) _ assms(5)]
  have i': "?i = int (sig_pos sg (m - 1) div 8)" using prev(2) assms(3,4) i by simp
  note sig_msb_div [OF assms(1)]
  moreover have "int (sig_pos sg (sig_size sg - 1) div 8) \<noteq> ?i"
  proof -
    have "m \<le> sig_size sg - 1" using assms(3,4) by linarith
    then show ?thesis
      using sig_pos_byte [OF assms(1), of m "sig_size sg - 1"] assms(3,4) i by (auto split: if_splits)
  qed
  moreover have "(?i + 1) * 8 - 1 = int (sig_pos sg (m - 1))"
  proof -
    have "int (sig_pos sg (m - 1)) = 8 * int (sig_pos sg (m - 1) div 8) + int (sig_pos sg (m - 1) mod 8)"
      by (metis mult_div_mod_eq of_nat_add of_nat_mult of_nat_numeral)
    then show ?thesis unfolding i' using prev(1) assms(3,4) by simp
  qed
  ultimately show ?thesis unfolding top_byte_def using i' by simp
qed

text \<open>The bits that one iteration reads: from \<open>m\<close> to the top.\<close>

lemma read_run:
  assumes "sig_wf sg" "0 < r" "r \<le> sig_size sg" "top_byte sg r i"
  obtains m where "m < r" "(if sig_lsb sg div 8 = i then sig_lsb sg else i * 8) = int (sig_pos sg m)"
    "sig_pos sg m div 8 = sig_pos sg (r - 1) div 8" "0 < m \<Longrightarrow> sig_pos sg m mod 8 = 0"
proof (cases "sig_lsb sg div 8 = i")
  case True
  have "sig_lsb sg = int (sig_pos sg 0)" using assms(1) by (simp add: sig_pos_0 sig_wf_def)
  with True assms show ?thesis by (intro that [of 0]) (simp_all add: top_byte_def zdiv_int [symmetric])
next
  case False
  have "sig_lsb sg div 8 = int (sig_pos sg 0 div 8)" using assms(1) by (simp add: sig_pos_0 sig_wf_def zdiv_int)
  with False assms(4) have "sig_pos sg (r - 1) div 8 \<noteq> sig_pos sg 0 div 8" by (simp add: top_byte_def)
  then have *: "sig_pos sg (r - 1) mod 8 < r - 1 \<and>
      sig_pos sg (r - 1 - sig_pos sg (r - 1) mod 8) = 8 * (sig_pos sg (r - 1) div 8)"
    using sig_pos_floor [OF assms(1), of "r - 1"] assms(2,3) by linarith
  show ?thesis
  proof (rule that [of "r - 1 - sig_pos sg (r - 1) mod 8"])
    show "(if sig_lsb sg div 8 = i then sig_lsb sg else i * 8) =
        int (sig_pos sg (r - 1 - sig_pos sg (r - 1) mod 8))"
        unfolding if_not_P [OF False] using * assms(4) by (simp only: top_byte_def)
  qed (use * assms(2) in simp_all)
qed

lemma chunk_raw_bits:
  assumes "m < r" "sig_pos sg m div 8 < length dat"
    and byte: "\<And>t. m \<le> t \<Longrightarrow> t < r \<Longrightarrow> sig_pos sg t div 8 = sig_pos sg m div 8"
    and run: "\<And>t. m \<le> t \<Longrightarrow> t < r \<Longrightarrow> sig_pos sg t = sig_pos sg m + (t - m)"
  shows "push_bit m (drop_bit (sig_pos sg m mod 8) (uint (dat ! (sig_pos sg m div 8))) AND mask (r - m))
    OR raw_bits dat sg m = raw_bits dat sg r"
proof (rule bit_eqI)
  fix t
  have "bit (uint (dat ! (sig_pos sg m div 8))) (sig_pos sg m mod 8 + (t - m)) = bit_at dat (sig_pos sg t)"
    if t: "m \<le> t" "t < r"
  proof -
    have "sig_pos sg t mod 8 = sig_pos sg m mod 8 + (t - m)" by (rule mod8_diff [OF run byte]) (fact t)+
    then show ?thesis using assms(2) byte [OF t] mod8_le [of "sig_pos sg t"]
      by (simp add: bit_at_def bit_uint_iff less_Suc_eq_le)
  qed
  then show "bit (push_bit m (drop_bit (sig_pos sg m mod 8) (uint (dat ! (sig_pos sg m div 8))) AND mask (r - m))
      OR raw_bits dat sg m) t = bit (raw_bits dat sg r) t"
    using assms(1)
    by (cases "t < m") (auto simp: bit_or_iff bit_push_bit_iff bit_and_iff bit_mask_iff bit_drop_bit_eq bit_raw_bits)
qed

lemma get_loop_spec:
  assumes "sig_wf sg" "sig_fits sg (length dat)" "r \<le> sig_size sg" "0 < r \<Longrightarrow> top_byte sg r i"
  shows "get_loop sg dat i (int r) ret = Inr (ret OR raw_bits dat sg r)"
  using assms
proof (induction r arbitrary: i ret rule: less_induct)
  case (less r)
  show ?case
  proof (cases "r = 0")
    case True
    then show ?thesis by (subst get_loop.simps) (simp add: raw_bits_def)
  next
    case False
    then have top: "top_byte sg r i" using less.prems(4) by simp
    obtain m where m: "m < r" "(if sig_lsb sg div 8 = i then sig_lsb sg else i * 8) = int (sig_pos sg m)"
      "sig_pos sg m div 8 = sig_pos sg (r - 1) div 8" "0 < m \<Longrightarrow> sig_pos sg m mod 8 = 0"
      using read_run [OF less.prems(1) _ less.prems(3) top] False by auto
    have i: "i = int (sig_pos sg m div 8)"
      and hi: "(if sig_msb sg div 8 = i then sig_msb sg else (i + 1) * 8 - 1) = int (sig_pos sg (r - 1))"
      using top unfolding top_byte_def m(3) by blast+
    have byte: "sig_pos sg t div 8 = sig_pos sg m div 8" if "m \<le> t" "t < r" for t
      using sig_pos_byte [OF less.prems(1), of m t] sig_pos_byte [OF less.prems(1), of t "r - 1"]
        that less.prems(3) m(3) by (auto split: if_splits)
    have run: "sig_pos sg t = sig_pos sg m + (t - m)" if "m \<le> t" "t < r" for t
      using sig_pos_same_byte [OF less.prems(1) that(1)] byte [OF that] that less.prems(3) by simp
    have n: "int (sig_pos sg (r - 1)) - int (sig_pos sg m) + 1 = int (r - m)"
      using run [of "r - 1"] m(1) by simp
    have il: "sig_pos sg m div 8 < length dat"
      using less.prems(2,3) m(1) by (auto simp: sig_fits_def intro: less_mult_imp_div_less simp: mult.commute)
    define chunk where "chunk = push_bit m
      (drop_bit (sig_pos sg m mod 8) (uint (dat ! (sig_pos sg m div 8))) AND mask (r - m))"
    define i1 where "i1 = (if is_little_endian sg then i - 1 else i + 1)"
    have sh: "nat (int (sig_pos sg m) - i * 8) = sig_pos sg m mod 8"
      unfolding i zdiv_int of_nat_numeral minus_div_mult_eq_mod by (simp add: nat_mod_distrib)
    have step: "get_loop sg dat i (int r) ret = get_loop sg dat i1 (int m) (ret OR chunk)"
    proof -
      have cond: "0 \<le> i \<and> i < int (length dat) \<and> 0 < int r" using False il by (simp add: i)
      have arith: "int r - int (r - m) = int m" "\<not> (int (r - m) < 0 \<or> int r < int (r - m))" "nat i = sig_pos sg m div 8"
        using m(1) by (simp_all add: i)
      show ?thesis
        unfolding chunk_def i1_def
        by (subst get_loop.simps) (simp only: if_P [OF cond] Let_def hi m(2) n if_not_P [OF arith(2)] arith(1,3) sh nat_int)
    qed
    have "top_byte sg m i1" if "0 < m"
      unfolding i1_def using top_byte_next [OF less.prems(1) that m(1) less.prems(3) m(4) [OF that] m(3) top] .
    then have "get_loop sg dat i1 (int m) (ret OR chunk) = Inr ((ret OR chunk) OR raw_bits dat sg m)"
      using less.IH [OF m(1)] less.prems m(1) by simp
    moreover have "chunk OR raw_bits dat sg m = raw_bits dat sg r"
      unfolding chunk_def using m(1) il byte run by (rule chunk_raw_bits)
    ultimately show ?thesis unfolding step by (simp add: or.assoc)
  qed
qed

text \<open>Reading never raises and gives the number in the signal's bits.\<close>

lemma get_raw_value_spec:
  assumes "sig_wf sg" "sig_fits sg (length dat)"
  shows "get_raw_value dat sg = Inr (raw_bits dat sg (sig_size sg))"
  using get_loop_spec [OF assms order_refl top_byte_0 [OF assms(1)], of 0]
  by (simp add: get_raw_value_def)

lemma raw_bits_set_value:
  assumes "sig_wf sg" "sig_fits sg (length dat)"
  shows "raw_bits (set_value dat sg v) sg (sig_size sg) = take_bit (sig_size sg) v"
  by (rule bit_eqI) (auto simp: bit_raw_bits set_value_spec(2) [OF assms] bit_take_bit_iff)

lemma raw_bits_cong:
  "(\<And>p. p \<in> sig_bits sg \<Longrightarrow> bit_at dat p = bit_at dat' p) \<Longrightarrow>
   raw_bits dat sg (sig_size sg) = raw_bits dat' sg (sig_size sg)"
  by (rule bit_eqI) (auto simp: bit_raw_bits sig_bits_def)

lemma raw_bits_set_other:
  assumes "sig_wf sg" "sig_fits sg (length dat)" "sig_bits sg \<inter> sig_bits sg' = {}"
  shows "raw_bits (set_value dat sg v) sg' (sig_size sg') = raw_bits dat sg' (sig_size sg')"
  using assms(3) by (intro raw_bits_cong set_value_spec(3) [OF assms(1,2)]) blast

lemma raw_bits_nonneg [simp]: "0 \<le> raw_bits dat sg r"
proof -
  have "\<not> raw_bits dat sg r < 0"
  proof
    assume neg: "raw_bits dat sg r < 0"
    have "raw_bits dat sg r = take_bit r (raw_bits dat sg r)"
      by (rule bit_eqI) (auto simp: bit_take_bit_iff bit_raw_bits)
    with neg show False by (metis take_bit_nonnegative not_less)
  qed
  then show ?thesis by simp
qed

lemma raw_bits_take_bit [simp]: "take_bit r (raw_bits dat sg r) = raw_bits dat sg r"
  by (rule bit_eqI) (auto simp: bit_take_bit_iff bit_raw_bits)

lemma raw_bits_lt: "raw_bits dat sg r < 2 ^ r"
  by (metis raw_bits_take_bit take_bit_int_less_exp)

section \<open>The interface of a field of a message\<close>

text \<open>
  What the packer and the parser rely on: a field that is written can be read back, other fields
  keep their values, and the message keeps its length.
\<close>

locale message_field =
  fixes store :: "'m \<Rightarrow> 'f \<Rightarrow> int \<Rightarrow> 'm"
    and load :: "'m \<Rightarrow> 'f \<Rightarrow> int"
    and width :: "'f \<Rightarrow> nat"
    and fits :: "'f \<Rightarrow> 'm \<Rightarrow> bool"
    and apart :: "'f \<Rightarrow> 'f \<Rightarrow> bool"
  assumes load_store: "fits f m \<Longrightarrow> load (store m f v) f = take_bit (width f) v"
    and load_store_other: "fits f m \<Longrightarrow> apart f g \<Longrightarrow> load (store m f v) g = load m g"
    and fits_store: "fits f m \<Longrightarrow> fits g (store m f v) \<longleftrightarrow> fits g m"
begin

text \<open>Writing a list of fields: every field ends up with the value that was written last.\<close>

lemma fits_fold: "(\<forall>(f, v)\<in>set fvs. fits f m) \<Longrightarrow> fits g (fold (\<lambda>(f, v) m. store m f v) fvs m) \<longleftrightarrow> fits g m"
  by (induction fvs arbitrary: m) (auto simp: fits_store)

lemma load_fold_other:
  "(\<forall>(f, v)\<in>set fvs. fits f m \<and> apart f g) \<Longrightarrow> load (fold (\<lambda>(f, v) m. store m f v) fvs m) g = load m g"
  by (induction fvs arbitrary: m) (auto simp: fits_store load_store_other)

lemma load_fold:
  assumes "\<forall>(f, v)\<in>set fvs. fits f m" "(g, v) \<in> set fvs" "distinct (map fst fvs)"
    and "\<And>f. f \<in> fst ` set fvs \<Longrightarrow> f \<noteq> g \<Longrightarrow> apart f g"
  shows "load (fold (\<lambda>(f, v) m. store m f v) fvs m) g = take_bit (width g) v"
  using assms
proof (induction fvs arbitrary: m)
  case (Cons fv fvs)
  obtain f w where fv: "fv = (f, w)" by (cases fv)
  have fits: "\<forall>(f', v)\<in>set fvs. fits f' (store m f w)" using Cons.prems(1) by (auto simp: fv fits_store)
  show ?case
  proof (cases "(g, v) = fv")
    case True
    have "\<forall>(f', v)\<in>set fvs. fits f' (store m f w) \<and> apart f' g"
      using Cons.prems(3,4) fits True by (fastforce simp: fv)
    then show ?thesis using load_fold_other [of fvs "store m f w" g] True Cons.prems(1) by (simp add: fv load_store)
  next
    case False
    then have "(g, v) \<in> set fvs" using Cons.prems(2) by simp
    from Cons.IH [OF fits this] Cons.prems(3,4) show ?thesis by (simp add: fv)
  qed
qed simp

end

text \<open>The model's signals are such fields.\<close>

definition sig_ok :: "signal \<Rightarrow> nat \<Rightarrow> bool" where
  "sig_ok sg n \<longleftrightarrow> sig_wf sg \<and> sig_fits sg n"

interpretation sig_field: message_field set_value "\<lambda>dat sg. raw_bits dat sg (sig_size sg)" sig_size
  "\<lambda>sg dat. sig_ok sg (length dat)" "\<lambda>f g. sig_bits f \<inter> sig_bits g = {}"
  by unfold_locales
    (simp_all add: sig_ok_def raw_bits_set_value raw_bits_set_other set_value_spec(1))

end
