(* ===== verification/CanChecksum.thy ===== *)
theory CanChecksum
  imports CanSignal
begin

text \<open>
  The checksum functions of the car modules that \<^verbatim>\<open>opendbc/can/dbc.py\<close> attaches to signals, with the
  CRC tables of \<^verbatim>\<open>opendbc/car/crc.py\<close>. A CRC register is a word of its width, so the masks with
  \<^verbatim>\<open>0xFF\<close> and \<^verbatim>\<open>0xFFFF\<close> are the wrap-around of the word. The lemmas show that a checksum that is
  written into its field is the checksum of the resulting frame, which bit errors a frame check
  detects, and that the bit-serial loop for Chrysler is the table-driven CRC-8 of J1850.
\<close>

section \<open>CRC tables\<close>

definition crc8_step :: "byte \<Rightarrow> byte \<Rightarrow> byte" where
  "crc8_step poly crc = (if crc AND 0x80 \<noteq> 0 then push_bit 1 crc XOR poly else push_bit 1 crc)"

definition gen_crc8_table :: "byte \<Rightarrow> byte list" where
  "gen_crc8_table poly = map (\<lambda>i. (crc8_step poly ^^ 8) (word_of_nat i)) [0..<256]"

definition crc16_step :: "16 word \<Rightarrow> 16 word \<Rightarrow> 16 word" where
  "crc16_step poly crc = (if crc AND 0x8000 \<noteq> 0 then push_bit 1 crc XOR poly else push_bit 1 crc)"

definition gen_crc16_table :: "16 word \<Rightarrow> 16 word list" where
  "gen_crc16_table poly = map (\<lambda>i. (crc16_step poly ^^ 8) (push_bit 8 (word_of_nat i))) [0..<256]"

definition CRC8H2F :: "byte list" where "CRC8H2F = gen_crc8_table 0x2F"
definition CRC8J1850 :: "byte list" where "CRC8J1850 = gen_crc8_table 0x1D"
definition CRC8BODY :: "byte list" where "CRC8BODY = gen_crc8_table 0xD5"
definition CRC16_XMODEM :: "16 word list" where "CRC16_XMODEM = gen_crc16_table 0x1021"

text \<open>The common step \<^verbatim>\<open>crc ^= d[i]; crc = table[crc]\<close>.\<close>

definition crc8_add :: "byte list \<Rightarrow> byte \<Rightarrow> byte \<Rightarrow> byte" where
  "crc8_add table b crc = table ! unat (crc XOR b)"

section \<open>Checksums over sums\<close>

text \<open>The sum of the groups of \<open>k\<close> bits of an address.\<close>

function addr_sum :: "nat \<Rightarrow> nat \<Rightarrow> int" where
  "addr_sum k addr =
    (if addr = 0 \<or> k = 0 then 0 else int (take_bit k addr) + addr_sum k (drop_bit k addr))"
  by pat_completeness auto
termination
  by (relation "measure snd") (auto simp: drop_bit_eq_div intro!: div_less_dividend one_less_power)

declare addr_sum.simps [simp del]

definition byte_sum :: "bytes \<Rightarrow> int" where
  "byte_sum d = sum_list (map uint d)"

definition nibble_sum :: "int \<Rightarrow> int" where
  "nibble_sum b = (b AND 15) + drop_bit 4 b"

definition honda_checksum_of :: "nat \<Rightarrow> bytes \<Rightarrow> int" where
  "honda_checksum_of addr d =
    (let xs = map (\<lambda>i. if i = length d - 1 then drop_bit 4 (uint (d ! i)) else uint (d ! i)) [0..<length d];
         s = 8 - (addr_sum 4 addr + sum_list (map nibble_sum xs))
     in (if addr > 0x7FF then s + 3 else s) AND 15)"

definition toyota_checksum_of :: "nat \<Rightarrow> bytes \<Rightarrow> int" where
  "toyota_checksum_of addr d = (int (length d) + addr_sum 8 addr + byte_sum (butlast d)) AND 255"

definition subaru_checksum_of :: "nat \<Rightarrow> bytes \<Rightarrow> int" where
  "subaru_checksum_of addr d = (addr_sum 8 addr + byte_sum (tl d)) AND 255"

text \<open>All bytes but the one the signal starts in.\<close>

definition other_bytes :: "signal \<Rightarrow> bytes \<Rightarrow> bytes" where
  "other_bytes sg d = map ((!) d) (filter (\<lambda>i. i \<noteq> start_bit sg div 8) [0..<length d])"

definition tesla_checksum_of :: "nat \<Rightarrow> signal \<Rightarrow> bytes \<Rightarrow> int" where
  "tesla_checksum_of addr sg d =
    (int (take_bit 8 addr) + int (take_bit 8 (drop_bit 8 addr)) + byte_sum (other_bytes sg d)) AND 255"

definition xor_checksum_of :: "signal \<Rightarrow> bytes \<Rightarrow> byte \<Rightarrow> byte" where
  "xor_checksum_of sg d initial_value = fold (\<lambda>b c. c XOR b) (other_bytes sg d) initial_value"

text \<open>The PSA checksum clears its own field in the frame it is given.\<close>

definition psa_checksum_of :: "nat \<Rightarrow> signal \<Rightarrow> bytes \<Rightarrow> (int \<times> bytes) result" where
  "psa_checksum_of addr sg d =
    (let chk_ini = (if addr = 0x452 then 4 else if addr = 0x38D then 7 else if addr = 0x42D then 12 else 11);
         i = start_bit sg div 8
     in if i < length d
        then (let d' = d[i := d ! i AND (if 4 \<le> start_bit sg mod 8 then 0x0F else 0xF0)]
              in Inr ((chk_ini - sum_list (map (\<lambda>b. drop_bit 4 (uint b) + (uint b AND 15)) d')) AND 15, d'))
        else Inl IndexError)"

section \<open>Checksums over CRCs\<close>

definition body_checksum_of :: "bytes \<Rightarrow> byte" where
  "body_checksum_of d = fold (crc8_add CRC8BODY) (rev (butlast d)) 0xFF"

definition fca_giorgio_checksum_of :: "nat \<Rightarrow> bytes \<Rightarrow> byte" where
  "fca_giorgio_checksum_of addr d =
    fold (crc8_add CRC8J1850) (butlast d) 0 XOR
      (if addr = 0xDE then 0x10 else if addr = 0x106 then 0xF6 else if addr = 0x122 then 0xF1 else 0x0A)"

definition crc16_add :: "byte \<Rightarrow> 16 word \<Rightarrow> 16 word" where
  "crc16_add b crc = push_bit 8 crc XOR CRC16_XMODEM ! unat (drop_bit 8 crc XOR ucast b)"

definition hkg_can_fd_checksum_of :: "nat \<Rightarrow> bytes \<Rightarrow> 16 word" where
  "hkg_can_fd_checksum_of addr d =
    (let crc = fold crc16_add (drop 2 d) 0;
         crc = crc16_add (word_of_nat addr) crc;
         crc = crc16_add (word_of_nat (drop_bit 8 addr)) crc
     in if length d = 8 then crc XOR 0x5F29 else if length d = 16 then crc XOR 0x041D
        else if length d = 24 then crc XOR 0x819D else if length d = 32 then crc XOR 0x9F5B
        else crc)"

text \<open>One bit of the loop in \<^verbatim>\<open>chrysler_checksum\<close>; \<open>shift\<close> selects it.\<close>

definition chrysler_bit :: "byte \<Rightarrow> byte \<Rightarrow> byte \<Rightarrow> byte" where
  "chrysler_bit cur_byte shift checksum =
    (let temp_chk = checksum AND 0x80
     in if cur_byte AND shift \<noteq> 0
        then (let bit_sum = (if temp_chk \<noteq> 0 then 1 else 0x1C); checksum = push_bit 1 checksum
              in bit_sum XOR (checksum OR 1))
        else (let bit_sum = (if temp_chk \<noteq> 0 then 0x1D else 0); checksum = push_bit 1 checksum
              in bit_sum XOR checksum))"

definition chrysler_byte :: "byte \<Rightarrow> byte \<Rightarrow> byte" where
  "chrysler_byte cur_byte checksum =
    fold (chrysler_bit cur_byte) (map (\<lambda>k. drop_bit k 0x80) [0..<8]) checksum"

definition chrysler_checksum_of :: "bytes \<Rightarrow> byte" where
  "chrysler_checksum_of d = NOT (fold chrysler_byte (butlast d) 0xFF)"

section \<open>Volkswagen\<close>

definition VOLKSWAGEN_MQB_MEB_CONSTANTS :: "(nat \<times> byte list) list" where
  "VOLKSWAGEN_MQB_MEB_CONSTANTS =
    [(0x40, replicate 16 0x40),
     (0x86, replicate 16 0x86),
     (0x9F, replicate 16 0xF5),
     (0xAD, [0x3F, 0x69, 0x39, 0xDC, 0x94, 0xF9, 0x14, 0x64,
       0xD8, 0x6A, 0x34, 0xCE, 0xA2, 0x55, 0xB5, 0x2C]),
     (0xDB, [0x09, 0xFA, 0xCA, 0x8E, 0x62, 0xD5, 0xD1, 0xF0,
       0x31, 0xA0, 0xAF, 0xDA, 0x4D, 0x1A, 0x0A, 0x97]),
     (0xFC, [0x77, 0x5C, 0xA0, 0x89, 0x4B, 0x7C, 0xBB, 0xD6,
       0x1F, 0x6C, 0x4F, 0xF6, 0x20, 0x2B, 0x43, 0xDD]),
     (0xFD, [0xB4, 0xEF, 0xF8, 0x49, 0x1E, 0xE5, 0xC2, 0xC0,
       0x97, 0x19, 0x3C, 0xC9, 0xF1, 0x98, 0xD6, 0x61]),
     (0x101, replicate 16 0xAA),
     (0x102, [0xD7, 0x12, 0x85, 0x7E, 0x0B, 0x34, 0xFA, 0x16,
       0x7A, 0x25, 0x2D, 0x8F, 0x04, 0x8E, 0x5D, 0x35]),
     (0x106, replicate 16 0x07),
     (0x10B, [0x77, 0x5C, 0xA0, 0x89, 0x4B, 0x7C, 0xBB, 0xD6,
       0x1F, 0x6C, 0x4F, 0xF6, 0x20, 0x2B, 0x43, 0xDD]),
     (0x116, replicate 16 0xAC),
     (0x117, replicate 16 0x16),
     (0x120, [0xC4, 0xE2, 0x4F, 0xE4, 0xF8, 0x2F, 0x56, 0x81,
       0x9F, 0xE5, 0x83, 0x44, 0x05, 0x3F, 0x97, 0xDF]),
     (0x121, [0xE9, 0x65, 0xAE, 0x6B, 0x7B, 0x35, 0xE5, 0x5F,
       0x4E, 0xC7, 0x86, 0xA2, 0xBB, 0xDD, 0xEB, 0xB4]),
     (0x122, [0x37, 0x7D, 0xF3, 0xA9, 0x18, 0x46, 0x6D, 0x4D,
       0x3D, 0x71, 0x92, 0x9C, 0xE5, 0x32, 0x10, 0xB9]),
     (0x126, replicate 16 0xDA),
     (0x12B, [0x6A, 0x38, 0xB4, 0x27, 0x22, 0xEF, 0xE1, 0xBB,
       0xF8, 0x80, 0x84, 0x49, 0xC7, 0x9E, 0x1E, 0x2B]),
     (0x12E, [0xF8, 0xE5, 0x97, 0xC9, 0xD6, 0x07, 0x47, 0x21,
       0x66, 0xDD, 0xCF, 0x6F, 0xA1, 0x94, 0x74, 0x63]),
     (0x139, [0xED, 0x03, 0x1C, 0x13, 0xC6, 0x23, 0x78, 0x7A,
       0x8B, 0x40, 0x14, 0x51, 0xBF, 0x68, 0x32, 0xBA]),
     (0x13D, [0x20, 0xCA, 0x68, 0xD5, 0x1B, 0x31, 0xE2, 0xDA,
       0x08, 0x0A, 0xD4, 0xDE, 0x9C, 0xE4, 0x35, 0x5B]),
     (0x14C, [0x16, 0x35, 0x59, 0x15, 0x9A, 0x2A, 0x97, 0xB8,
       0x0E, 0x4E, 0x30, 0xCC, 0xB3, 0x07, 0x01, 0xAD]),
     (0x14D, [0x1A, 0x65, 0x81, 0x96, 0xC0, 0xDF, 0x11, 0x92,
       0xD3, 0x61, 0xC6, 0x95, 0x8C, 0x29, 0x21, 0xB5]),
     (0x187, [0x7F, 0xED, 0x17, 0xC2, 0x7C, 0xEB, 0x44, 0x21,
       0x01, 0xFA, 0xDB, 0x15, 0x4A, 0x6B, 0x23, 0x05]),
     (0x1A4, [0x69, 0xBB, 0x54, 0xE6, 0x4E, 0x46, 0x8D, 0x7B,
       0xEA, 0x87, 0xE9, 0xB3, 0x63, 0xCE, 0xF8, 0xBF]),
     (0x1AB, [0x13, 0x21, 0x9B, 0x6A, 0x9A, 0x62, 0xD4, 0x65,
       0x18, 0xF1, 0xAB, 0x16, 0x32, 0x89, 0xE7, 0x26]),
     (0x1F0, [0x2F, 0x3C, 0x22, 0x60, 0x18, 0xEB, 0x63, 0x76,
       0xC5, 0x91, 0x0F, 0x27, 0x34, 0x04, 0x7F, 0x02]),
     (0x20A, [0x9D, 0xE8, 0x36, 0xA1, 0xCA, 0x3B, 0x1D, 0x33,
       0xE0, 0xD5, 0xBB, 0x5F, 0xAE, 0x3C, 0x31, 0x9F]),
     (0x25D, [0xDA, 0x6B, 0x0E, 0xB2, 0x78, 0xBD, 0x5A, 0x81,
       0x7B, 0xD6, 0x41, 0x39, 0x76, 0xB6, 0xD7, 0x35]),
     (0x26B, [0xCE, 0xCC, 0xBD, 0x69, 0xA1, 0x3C, 0x18, 0x76,
       0x0F, 0x04, 0xF2, 0x3A, 0x93, 0x24, 0x19, 0x51]),
     (0x30C, replicate 16 0x0F),
     (0x30F, replicate 16 0x0C),
     (0x324, replicate 16 0x27),
     (0x3BE, [0x1F, 0x28, 0xC6, 0x85, 0xE6, 0xF8, 0xB0, 0x19,
       0x5B, 0x64, 0x35, 0x21, 0xE4, 0xF7, 0x9C, 0x24]),
     (0x3C0, replicate 16 0xC3),
     (0x3D5, [0xC5, 0x39, 0xC7, 0xF9, 0x92, 0xD8, 0x24, 0xCE,
       0xF1, 0xB5, 0x7A, 0xC4, 0xBC, 0x60, 0xE3, 0xD1]),
     (0x65D, [0xAC, 0xB3, 0xAB, 0xEB, 0x7A, 0xE1, 0x3B, 0xF7,
       0x73, 0xBA, 0x7C, 0x9E, 0x06, 0x5F, 0x02, 0xD9])]"

definition VOLKSWAGEN_MQB_MEB_GEN2_CONSTANTS :: "(nat \<times> nat \<times> byte list) list" where
  "VOLKSWAGEN_MQB_MEB_GEN2_CONSTANTS =
    [(0xDB, 42, [0x09, 0xFA, 0xCA, 0x8E, 0x62, 0xD5, 0xD1, 0xF0,
       0x31, 0xA0, 0xAF, 0xDA, 0x4D, 0x1A, 0x0A, 0x97]),
     (0xFC, 60, [0x69, 0xDC, 0xF9, 0x64, 0x6A, 0xCE, 0x55, 0x2C,
       0xC4, 0x38, 0x8F, 0xD1, 0xC6, 0x43, 0xB4, 0xB1]),
     (0x102, 44, [0xD7, 0x12, 0x85, 0x7E, 0x0B, 0x34, 0xFA, 0x16,
       0x7A, 0x25, 0x2D, 0x8F, 0x04, 0x8E, 0x5D, 0x35]),
     (0x10B, 44, [0x2C, 0xB1, 0x1A, 0x75, 0xBB, 0x65, 0x79, 0x47,
       0x81, 0x2B, 0xCC, 0x96, 0x17, 0xDB, 0xC0, 0x94]),
     (0x13D, 28, [0x18, 0x71, 0x10, 0x8D, 0xD7, 0xAA, 0xB0, 0x78,
       0xAC, 0x12, 0xAE, 0x0C, 0xDD, 0xF1, 0x85, 0x68]),
     (0x139, 28, [0x96, 0x92, 0x95, 0xB5, 0x6E, 0xE3, 0xBD, 0xB4,
       0xFA, 0xAE, 0xBE, 0xCB, 0xCF, 0xA5, 0x77, 0xEF])]"

definition xor_starting_value :: "(nat \<times> byte) list" where
  "xor_starting_value =
    [(0x109, 0x08), (0x111, 0x10), (0x30C, 0x0F), (0x324, 0x27), (0x10B, 0xA), (0x10D, 0x0C),
     (0x10F, 0x0E), (0x311, 0x12), (0x397, 0x94), (0x10C, 0x0D)]"

definition volkswagen_mqb_meb_checksum_of :: "nat \<Rightarrow> bytes \<Rightarrow> byte list option \<Rightarrow> byte result" where
  "volkswagen_mqb_meb_checksum_of addr d const =
    (let crc = fold (crc8_add CRC8H2F) (tl d) 0xFF
     in ebind (py_index d 1) (\<lambda>b.
        let counter = b AND 0x0F;
            const = (case const of None \<Rightarrow> map_of VOLKSWAGEN_MQB_MEB_CONSTANTS addr | Some c \<Rightarrow> Some c)
        in case const of
             None \<Rightarrow> Inr (crc XOR 0xFF)
           | Some c \<Rightarrow>
               (if c = [] then Inr (crc XOR 0xFF)
                else ebind (py_index c (unat counter)) (\<lambda>m. Inr (crc8_add CRC8H2F m crc XOR 0xFF)))))"

definition volkswagen_mqb_meb_dyn_len_checksum_of ::
    "nat \<Rightarrow> bytes \<Rightarrow> (nat \<times> byte list) option \<Rightarrow> byte result" where
  "volkswagen_mqb_meb_dyn_len_checksum_of addr d entry =
    (case entry of
       None \<Rightarrow> volkswagen_mqb_meb_checksum_of addr d None
     | Some (len, magic) \<Rightarrow> volkswagen_mqb_meb_checksum_of addr (take len d) (Some magic))"

definition volkswagen_mqb_meb_gen2_checksum_of :: "nat \<Rightarrow> bytes \<Rightarrow> byte result" where
  "volkswagen_mqb_meb_gen2_checksum_of addr d =
    (case map_of VOLKSWAGEN_MQB_MEB_GEN2_CONSTANTS addr of
       None \<Rightarrow> volkswagen_mqb_meb_checksum_of addr d None
     | Some entry \<Rightarrow>
         ebind (volkswagen_mqb_meb_dyn_len_checksum_of addr d (Some entry)) (\<lambda>checksum.
         ebind (py_index d 0) (\<lambda>b.
         if checksum = b then Inr checksum else volkswagen_mqb_meb_checksum_of addr d None)))"

definition volkswagen_mlb_checksum_of :: "nat \<Rightarrow> signal \<Rightarrow> bytes \<Rightarrow> byte result" where
  "volkswagen_mlb_checksum_of addr sg d =
    (case map_of xor_starting_value addr of
       Some v \<Rightarrow> Inr (xor_checksum_of sg d v)
     | None \<Rightarrow> volkswagen_mqb_meb_checksum_of addr d None)"

section \<open>The dispatch of \<^verbatim>\<open>calc_checksum\<close>\<close>

text \<open>The value, and the frame with the change that the PSA function makes to it.\<close>

definition byte_value :: "bytes \<Rightarrow> byte \<Rightarrow> (int \<times> bytes) result" where
  "byte_value d b = Inr (uint b, d)"

definition apply_checksum :: "checksum_fn \<Rightarrow> nat \<Rightarrow> signal \<Rightarrow> bytes \<Rightarrow> (int \<times> bytes) result" where
  "apply_checksum c addr sg d =
    (case c of
       honda_checksum \<Rightarrow> Inr (honda_checksum_of addr d, d)
     | toyota_checksum \<Rightarrow> Inr (toyota_checksum_of addr d, d)
     | subaru_checksum \<Rightarrow> Inr (subaru_checksum_of addr d, d)
     | tesla_checksum \<Rightarrow> Inr (tesla_checksum_of addr sg d, d)
     | xor_checksum \<Rightarrow> byte_value d (xor_checksum_of sg d 0)
     | psa_checksum \<Rightarrow> psa_checksum_of addr sg d
     | body_checksum \<Rightarrow> byte_value d (body_checksum_of d)
     | fca_giorgio_checksum \<Rightarrow> byte_value d (fca_giorgio_checksum_of addr d)
     | chrysler_checksum \<Rightarrow> byte_value d (chrysler_checksum_of d)
     | hkg_can_fd_checksum \<Rightarrow> Inr (uint (hkg_can_fd_checksum_of addr d), d)
     | volkswagen_mqb_meb_checksum \<Rightarrow> ebind (volkswagen_mqb_meb_checksum_of addr d None) (byte_value d)
     | volkswagen_mqb_meb_gen2_checksum \<Rightarrow> ebind (volkswagen_mqb_meb_gen2_checksum_of addr d) (byte_value d)
     | volkswagen_mlb_checksum \<Rightarrow> ebind (volkswagen_mlb_checksum_of addr sg d) (byte_value d))"

section \<open>A written checksum is the checksum of the frame\<close>

text \<open>Two frames that agree outside the bits of a signal.\<close>

definition agree :: "signal \<Rightarrow> bytes \<Rightarrow> bytes \<Rightarrow> bool" where
  "agree sg d d' \<longleftrightarrow> length d' = length d \<and> (\<forall>p. p \<notin> sig_bits sg \<longrightarrow> bit_at d' p = bit_at d p)"

text \<open>Where each checksum function expects its field in a frame of \<open>n\<close> bytes.\<close>

definition checksum_layout :: "checksum_fn \<Rightarrow> signal \<Rightarrow> nat \<Rightarrow> bool" where
  "checksum_layout c sg n \<longleftrightarrow>
    (let b = start_bit sg div 8
     in case c of
       honda_checksum \<Rightarrow> 0 < n \<and> sig_size sg = 4 \<and> sig_bits sg = {8 * (n - 1)..<8 * (n - 1) + 4}
     | toyota_checksum \<Rightarrow> 0 < n \<and> sig_size sg = 8 \<and> sig_bits sg = {8 * (n - 1)..<8 * n}
     | body_checksum \<Rightarrow> 0 < n \<and> sig_size sg = 8 \<and> sig_bits sg = {8 * (n - 1)..<8 * n}
     | chrysler_checksum \<Rightarrow> 0 < n \<and> sig_size sg = 8 \<and> sig_bits sg = {8 * (n - 1)..<8 * n}
     | fca_giorgio_checksum \<Rightarrow> 0 < n \<and> sig_size sg = 8 \<and> sig_bits sg = {8 * (n - 1)..<8 * n}
     | subaru_checksum \<Rightarrow> sig_size sg = 8 \<and> sig_bits sg = {0..<8}
     | volkswagen_mqb_meb_checksum \<Rightarrow> sig_size sg = 8 \<and> sig_bits sg = {0..<8}
     | volkswagen_mqb_meb_gen2_checksum \<Rightarrow> sig_size sg = 8 \<and> is_little_endian sg \<and> sig_lsb sg = 0
     | volkswagen_mlb_checksum \<Rightarrow> b = 0 \<and> sig_size sg = 8 \<and> sig_bits sg = {0..<8}
     | tesla_checksum \<Rightarrow> sig_size sg = 8 \<and> sig_bits sg = {8 * b..<8 * b + 8}
     | xor_checksum \<Rightarrow> sig_size sg = 8 \<and> sig_bits sg = {8 * b..<8 * b + 8}
     | hkg_can_fd_checksum \<Rightarrow> sig_size sg = 16 \<and> sig_bits sg = {0..<16}
     | psa_checksum \<Rightarrow> sig_size sg = 4 \<and>
         sig_bits sg = (if 4 \<le> start_bit sg mod 8 then {8 * b + 4..<8 * b + 8} else {8 * b..<8 * b + 4}))"

lemma agree_refl [simp]: "agree sg d d"
  by (simp add: agree_def)

lemma agree_trans: "agree sg a b \<Longrightarrow> agree sg b c \<Longrightarrow> agree sg a c"
  by (simp add: agree_def)

lemma agree_set_value: "sig_ok sg (length d) \<Longrightarrow> agree sg d (set_value d sg v)"
  by (simp add: agree_def sig_ok_def set_value_spec)

lemma bit_at_byte: "r < 8 \<Longrightarrow> i < length d \<Longrightarrow> bit_at d (8 * i + r) = bit (d ! i) r"
  unfolding bit_at_def byte_split by simp

lemma agree_bit:
  assumes "agree sg d d'" "i < length d" "r < 8" "8 * i + r \<notin> sig_bits sg"
  shows "bit (d' ! i) r = bit (d ! i) r"
proof -
  have "bit_at d' (8 * i + r) = bit_at d (8 * i + r)" using assms unfolding agree_def by blast
  then show ?thesis using assms by (simp add: bit_at_byte agree_def)
qed

lemma agree_nth:
  assumes "agree sg d d'" "i < length d" "{8 * i..<8 * i + 8} \<inter> sig_bits sg = {}"
  shows "d' ! i = d ! i"
proof (rule bit_word_eqI)
  fix r :: nat assume "r < LENGTH(8)"
  then have "r < 8" by simp
  moreover have "8 * i + r \<notin> sig_bits sg" using assms(3) \<open>r < 8\<close> by (auto simp: disjoint_iff)
  ultimately show "bit (d' ! i) r = bit (d ! i) r" by (rule agree_bit [OF assms(1,2)])
qed

lemma agree_butlast:
  assumes "agree sg d d'" "sig_bits sg \<subseteq> {8 * (length d - 1)..}"
  shows "butlast d' = butlast d"
proof (rule nth_equalityI)
  show "length (butlast d') = length (butlast d)" using assms(1) by (simp add: agree_def)
next
  fix i assume "i < length (butlast d')"
  then have i: "i < length d - 1" using assms(1) by (simp add: agree_def)
  have "d' ! i = d ! i" using assms i by (intro agree_nth) auto
  then show "butlast d' ! i = butlast d ! i" using i assms(1) by (simp add: nth_butlast agree_def)
qed

lemma agree_drop:
  assumes "agree sg d d'" "sig_bits sg \<subseteq> {..<8 * k}"
  shows "drop k d' = drop k d"
proof (rule nth_equalityI)
  show "length (drop k d') = length (drop k d)" using assms(1) by (simp add: agree_def)
next
  fix i assume "i < length (drop k d')"
  then have i: "k + i < length d" using assms(1) by (simp add: agree_def)
  have "d' ! (k + i) = d ! (k + i)" using assms i by (intro agree_nth) auto
  then show "drop k d' ! i = drop k d ! i" using i assms(1) by (simp add: agree_def)
qed

lemma agree_tl: "agree sg d d' \<Longrightarrow> sig_bits sg \<subseteq> {..<8} \<Longrightarrow> tl d' = tl d"
  using agree_drop [of sg d d' 1] by (simp add: drop_Suc)

lemma agree_other_bytes:
  assumes "agree sg d d'" "sig_bits sg \<subseteq> {8 * (start_bit sg div 8)..<8 * (start_bit sg div 8) + 8}"
  shows "other_bytes sg d' = other_bytes sg d"
proof -
  have "d' ! i = d ! i" if "i < length d" "i \<noteq> start_bit sg div 8" for i
  proof (rule agree_nth [OF assms(1) that(1)])
    have "8 * i + 8 \<le> 8 * (start_bit sg div 8) \<or> 8 * (start_bit sg div 8) + 8 \<le> 8 * i"
      using that(2) by linarith
    then show "{8 * i..<8 * i + 8} \<inter> sig_bits sg = {}" using assms(2) by fastforce
  qed
  then show ?thesis using assms(1) by (simp add: other_bytes_def agree_def)
qed

text \<open>All functions but the second-generation one depend only on the bits outside the field.\<close>

lemma mqb_tl: "tl d' = tl d \<Longrightarrow> volkswagen_mqb_meb_checksum_of addr d' c = volkswagen_mqb_meb_checksum_of addr d c"
proof -
  have "py_index xs 1 = py_index (tl xs) 0" for xs :: bytes
    by (cases xs) simp_all
  then show "tl d' = tl d \<Longrightarrow> ?thesis" by (simp only: volkswagen_mqb_meb_checksum_of_def)
qed

lemma honda_depends:
  assumes "agree sg d d'" "0 < length d" "sig_bits sg = {8 * (length d - 1)..<8 * (length d - 1) + 4}"
  shows "honda_checksum_of addr d' = honda_checksum_of addr d"
proof -
  let ?x = "\<lambda>d i. if i = length d - 1 then drop_bit 4 (uint (d ! i)) else uint ((d :: bytes) ! i)"
  have len: "length d' = length d" using assms(1) by (simp add: agree_def)
  have "?x d' i = ?x d i" if i: "i < length d" for i
  proof (cases "i = length d - 1")
    case True
    have "drop_bit 4 (d' ! i) = drop_bit 4 (d ! i)"
    proof (rule bit_word_eqI)
      fix r :: nat assume r: "r < LENGTH(8)"
      show "bit (drop_bit 4 (d' ! i)) r = bit (drop_bit 4 (d ! i)) r"
      proof (cases "4 + r < 8")
        case True
        have "bit (d' ! i) (4 + r) = bit (d ! i) (4 + r)"
          using assms(3) \<open>i = length d - 1\<close> by (intro agree_bit [OF assms(1) i True]) auto
        then show ?thesis by (simp add: bit_drop_bit_eq)
      next
        case False
        then show ?thesis by (auto simp: bit_drop_bit_eq dest!: bit_imp_le_length)
      qed
    qed
    moreover have "drop_bit 4 (uint w) = uint (drop_bit 4 w)" for w :: byte
      by (rule bit_eqI) (auto simp: bit_uint_iff bit_drop_bit_eq dest: bit_imp_le_length)
    ultimately show ?thesis using True len by simp
  next
    case False
    with i have "d' ! i = d ! i" using assms(3) by (intro agree_nth [OF assms(1) i]) auto
    with False show ?thesis by (simp add: len)
  qed
  then have "map (?x d') [0..<length d'] = map (?x d) [0..<length d]" using len by simp
  then show ?thesis by (simp only: honda_checksum_of_def)
qed

lemma psa_mask_bit:
  "bit ((if h then 0x0F else 0xF0) :: byte) r \<longleftrightarrow> (if h then r < 4 else 4 \<le> r \<and> r < 8)"
proof -
  have m: "(mask 4 :: byte) = 0x0F" "push_bit 4 (mask 4 :: byte) = 0xF0" by (simp_all add: mask_eq_exp_minus_1)
  have "bit (mask 4 :: byte) r \<longleftrightarrow> r < 4" "bit (push_bit 4 (mask 4 :: byte)) r \<longleftrightarrow> 4 \<le> r \<and> r < 8"
    by (auto simp: bit_mask_iff bit_push_bit_iff)
  then show ?thesis unfolding m by simp
qed

lemma psa_masked:
  assumes "agree sg d d'" "start_bit sg div 8 < length d" "checksum_layout psa_checksum sg (length d)"
  shows "d'[start_bit sg div 8 := d' ! (start_bit sg div 8) AND (if 4 \<le> start_bit sg mod 8 then 0x0F else 0xF0)] =
    d[start_bit sg div 8 := d ! (start_bit sg div 8) AND (if 4 \<le> start_bit sg mod 8 then 0x0F else 0xF0)]"
    (is "d'[?b := ?y'] = d[?b := ?y]")
proof (rule nth_equalityI)
  show len: "length (d'[?b := ?y']) = length (d[?b := ?y])" using assms(1) by (simp add: agree_def)
  have bits: "sig_bits sg = (if 4 \<le> start_bit sg mod 8 then {8 * ?b + 4..<8 * ?b + 8} else {8 * ?b..<8 * ?b + 4})"
    using assms(3) by (simp add: checksum_layout_def Let_def)
  have "?y' = ?y"
  proof (rule bit_word_eqI)
    fix r :: nat assume "r < LENGTH(8)"
    then have r: "r < 8" by simp
    have "bit (d' ! ?b) r = bit (d ! ?b) r" if "if 4 \<le> start_bit sg mod 8 then r < 4 else 4 \<le> r"
      using that by (intro agree_bit [OF assms(1,2) r]) (auto simp: bits)
    then show "bit ?y' r = bit ?y r" unfolding bit_and_iff psa_mask_bit by auto
  qed
  moreover have "d' ! i = d ! i" if "i < length d" "i \<noteq> ?b" for i
  proof (rule agree_nth [OF assms(1) that(1)])
    have "8 * i + 8 \<le> 8 * ?b \<or> 8 * ?b + 8 \<le> 8 * i" using that(2) by linarith
    then show "{8 * i..<8 * i + 8} \<inter> sig_bits sg = {}" by (auto simp: bits split: if_splits)
  qed
  ultimately show "d'[?b := ?y'] ! i = d[?b := ?y] ! i" if "i < length (d'[?b := ?y'])" for i
    using that assms(1) by (cases "i = ?b") (simp_all add: agree_def)
qed

lemma psa_masked_agree:
  assumes "start_bit sg div 8 < length d" "checksum_layout psa_checksum sg (length d)"
  shows "agree sg d (d[start_bit sg div 8 := d ! (start_bit sg div 8) AND (if 4 \<le> start_bit sg mod 8 then 0x0F else 0xF0)])"
    (is "agree _ _ (d[?b := ?y])")
  unfolding agree_def
proof (intro conjI allI impI)
  have bits: "sig_bits sg = (if 4 \<le> start_bit sg mod 8 then {8 * ?b + 4..<8 * ?b + 8} else {8 * ?b..<8 * ?b + 4})"
    using assms(2) by (simp add: checksum_layout_def Let_def)
  fix p assume p: "p \<notin> sig_bits sg"
  have "p = 8 * (p div 8) + p mod 8" by simp
  then have "bit ?y (p mod 8) = bit (d ! ?b) (p mod 8)" if "p div 8 = ?b"
    using p that unfolding bits by (auto simp only: bit_and_iff psa_mask_bit split: if_splits) (auto dest: spec)
  then show "bit_at (d[?b := ?y]) p = bit_at d p" using assms(1) by (auto simp: bit_at_def nth_list_update)
qed simp

lemma hkg_depends: "drop 2 d' = drop 2 d \<Longrightarrow> length d' = length d \<Longrightarrow>
    hkg_can_fd_checksum_of addr d' = hkg_can_fd_checksum_of addr d"
  by (simp only: hkg_can_fd_checksum_of_def)

lemma checksum_depends:
  assumes "agree sg d d'" "checksum_layout c sg (length d)" "c \<noteq> volkswagen_mqb_meb_gen2_checksum"
    and "apply_checksum c addr sg d = Inr (v, e)"
  shows "\<exists>e'. apply_checksum c addr sg d' = Inr (v, e')"
proof -
  have len: "length d' = length d" using assms(1) by (simp add: agree_def)
  note layout = assms(2) [unfolded checksum_layout_def Let_def]
  note app = assms(4) [unfolded apply_checksum_def]
  have last: "butlast d' = butlast d" if "sig_bits sg = {8 * (length d - 1)..<8 * length d}"
    using that by (intro agree_butlast [OF assms(1)]) auto
  have first: "tl d' = tl d" if "sig_bits sg = {0..<8}"
    using that by (intro agree_tl [OF assms(1)]) auto
  have second: "drop 2 d' = drop 2 d" if "sig_bits sg = {0..<16}"
    using that by (intro agree_drop [OF assms(1)]) auto
  have other: "other_bytes sg d' = other_bytes sg d"
    if "sig_bits sg = {8 * (start_bit sg div 8)..<8 * (start_bit sg div 8) + 8}"
    using that by (intro agree_other_bytes [OF assms(1)]) auto
  show ?thesis
  proof (cases c)
    case honda_checksum
    then have "honda_checksum_of addr d' = honda_checksum_of addr d"
      using layout by (intro honda_depends [OF assms(1)]) simp_all
    then show ?thesis using app honda_checksum by (auto simp: apply_checksum_def)
  next
    case psa_checksum
    have b: "start_bit sg div 8 < length d"
      using app psa_checksum by (auto simp: psa_checksum_of_def Let_def split: if_splits)
    have "psa_checksum_of addr sg d' = psa_checksum_of addr sg d"
      using psa_masked [OF assms(1) b] assms(2) psa_checksum
      by (simp only: psa_checksum_of_def Let_def len if_P [OF b])
    then show ?thesis using app psa_checksum by (auto simp: apply_checksum_def)
  next
    case volkswagen_mqb_meb_checksum
    then have "volkswagen_mqb_meb_checksum_of addr d' None = volkswagen_mqb_meb_checksum_of addr d None"
      using layout by (intro mqb_tl first) simp
    then show ?thesis using app volkswagen_mqb_meb_checksum
      by (auto simp: apply_checksum_def ebind_eq_Inr byte_value_def)
  next
    case volkswagen_mlb_checksum
    then have bits: "sig_bits sg = {0..<8}" and b: "start_bit sg div 8 = 0"
      using layout by (simp_all only: checksum_fn.case simp_thms)
    have "volkswagen_mqb_meb_checksum_of addr d' None = volkswagen_mqb_meb_checksum_of addr d None"
      by (rule mqb_tl [OF first [OF bits]])
    moreover have "other_bytes sg d' = other_bytes sg d" by (rule other, unfold b) (simp add: bits)
    ultimately show ?thesis using app volkswagen_mlb_checksum
      by (auto simp: apply_checksum_def volkswagen_mlb_checksum_of_def ebind_eq_Inr byte_value_def xor_checksum_of_def
          split: option.splits)
  next
    case hkg_can_fd_checksum
    then have "hkg_can_fd_checksum_of addr d' = hkg_can_fd_checksum_of addr d"
      using layout by (intro hkg_depends second len) simp
    then show ?thesis using app hkg_can_fd_checksum by (auto simp: apply_checksum_def)
  next
    case toyota_checksum
    then have "butlast d' = butlast d" using layout by (intro last) simp
    then show ?thesis using app toyota_checksum len by (auto simp: apply_checksum_def toyota_checksum_of_def)
  next
    case body_checksum
    then have "butlast d' = butlast d" using layout by (intro last) simp
    then show ?thesis using app body_checksum by (auto simp: apply_checksum_def body_checksum_of_def byte_value_def)
  next
    case chrysler_checksum
    then have "butlast d' = butlast d" using layout by (intro last) simp
    then show ?thesis using app chrysler_checksum
      by (auto simp: apply_checksum_def chrysler_checksum_of_def byte_value_def)
  next
    case fca_giorgio_checksum
    then have "butlast d' = butlast d" using layout by (intro last) simp
    then show ?thesis using app fca_giorgio_checksum
      by (auto simp: apply_checksum_def fca_giorgio_checksum_of_def byte_value_def)
  next
    case subaru_checksum
    then have "tl d' = tl d" using layout by (intro first) simp
    then show ?thesis using app subaru_checksum by (auto simp: apply_checksum_def subaru_checksum_of_def)
  next
    case xor_checksum
    then have "other_bytes sg d' = other_bytes sg d" using layout by (intro other) simp
    then show ?thesis using app xor_checksum by (auto simp: apply_checksum_def xor_checksum_of_def byte_value_def)
  next
    case tesla_checksum
    then have "other_bytes sg d' = other_bytes sg d" using layout by (intro other) simp
    then show ?thesis using app tesla_checksum by (auto simp: apply_checksum_def tesla_checksum_of_def)
  qed (use assms(3) in simp)
qed

lemma checksum_frame:
  assumes "checksum_layout c sg (length d)" "apply_checksum c addr sg d = Inr (v, e)"
  shows "agree sg d e"
proof (cases "c = psa_checksum")
  case True
  then show ?thesis
    using assms psa_masked_agree [of sg d] by (auto simp: apply_checksum_def psa_checksum_of_def Let_def split: if_splits)
next
  case False
  then have "e = d"
    using assms(2) by (cases c) (auto simp: apply_checksum_def byte_value_def ebind_eq_Inr)
  then show ?thesis by simp
qed

lemma and_255_bounds: "0 \<le> (x::int) AND 255" "(x::int) AND 255 < 256" "0 \<le> x AND 15" "x AND 15 < 16"
  by (simp_all add: and_255)

lemma psa_range: "psa_checksum_of addr sg d = Inr (v, e) \<Longrightarrow> \<exists>x. v = x AND 15"
  by (auto simp only: psa_checksum_of_def Let_def sum.inject prod.inject split: if_splits)

lemma checksum_range:
  assumes "checksum_layout c sg (length d)" "apply_checksum c addr sg d = Inr (v, e)"
  shows "0 \<le> v \<and> v < 2 ^ sig_size sg"
proof -
  have byte: "0 \<le> v \<and> v < 2 ^ 8" if "byte_value d b = Inr (v, e)" for b
    using that by (auto simp: byte_value_def)
  have ebyte: "0 \<le> v \<and> v < 2 ^ 8" if "ebind r (byte_value d) = Inr (v, e)" for r
    using that byte by (auto simp: ebind_eq_Inr)
  have word16: "0 \<le> uint w \<and> uint w < 2 ^ 16" for w :: "16 word" using uint_lt2p [of w] by simp
  have m255: "0 \<le> x AND 255 \<and> x AND 255 < 2 ^ 8" for x :: int using and_255_bounds by simp
  have m15: "0 \<le> x AND 15 \<and> x AND 15 < 2 ^ 4" for x :: int using and_255_bounds by simp
  note layout = assms(1) [unfolded checksum_layout_def Let_def]
  note app = assms(2) [unfolded apply_checksum_def]
  show ?thesis
  proof (cases c)
    case honda_checksum
    then show ?thesis using app layout m15
      by (simp only: honda_checksum_of_def Let_def checksum_fn.case sum.inject prod.inject) blast
  next
    case psa_checksum
    then show ?thesis using app layout m15 psa_range by (simp only: checksum_fn.case) blast
  next
    case toyota_checksum
    then show ?thesis using app layout m255
      by (simp only: toyota_checksum_of_def checksum_fn.case sum.inject prod.inject) blast
  next
    case subaru_checksum
    then show ?thesis using app layout m255
      by (simp only: subaru_checksum_of_def checksum_fn.case sum.inject prod.inject) blast
  next
    case tesla_checksum
    then show ?thesis using app layout m255
      by (simp only: tesla_checksum_of_def checksum_fn.case sum.inject prod.inject) blast
  next
    case hkg_can_fd_checksum
    then have "uint (hkg_can_fd_checksum_of addr d) = v" "sig_size sg = 16" using app layout by auto
    then show ?thesis using word16 [of "hkg_can_fd_checksum_of addr d"] by simp
  next
    case body_checksum
    then have "byte_value d (body_checksum_of d) = Inr (v, e)" "sig_size sg = 8" using app layout by simp_all
    then show ?thesis using byte by simp
  next
    case xor_checksum
    then have "byte_value d (xor_checksum_of sg d 0) = Inr (v, e)" "sig_size sg = 8" using app layout by simp_all
    then show ?thesis using byte by simp
  next
    case chrysler_checksum
    then have "byte_value d (chrysler_checksum_of d) = Inr (v, e)" "sig_size sg = 8" using app layout by simp_all
    then show ?thesis using byte by simp
  next
    case fca_giorgio_checksum
    then have "byte_value d (fca_giorgio_checksum_of addr d) = Inr (v, e)" "sig_size sg = 8" using app layout by simp_all
    then show ?thesis using byte by simp
  next
    case volkswagen_mqb_meb_checksum
    then have "ebind (volkswagen_mqb_meb_checksum_of addr d None) (byte_value d) = Inr (v, e)" "sig_size sg = 8" using app layout by simp_all
    then show ?thesis using ebyte by simp
  next
    case volkswagen_mlb_checksum
    then have "ebind (volkswagen_mlb_checksum_of addr sg d) (byte_value d) = Inr (v, e)" "sig_size sg = 8" using app layout by simp_all
    then show ?thesis using ebyte by simp
  next
    case volkswagen_mqb_meb_gen2_checksum
    then have "ebind (volkswagen_mqb_meb_gen2_checksum_of addr d) (byte_value d) = Inr (v, e)" "sig_size sg = 8" using app layout by simp_all
    then show ?thesis using ebyte by simp
  qed
qed

text \<open>The second-generation function accepts the field when it has the value of the new polynomial
mask, and gives the value of the old one otherwise; both are computed from the other bytes.\<close>

lemma gen2_stable:
  assumes "tl d' = tl d" "volkswagen_mqb_meb_gen2_checksum_of addr d = Inr b" "py_index d' 0 = Inr b"
  shows "volkswagen_mqb_meb_gen2_checksum_of addr d' = Inr b"
proof -
  have "tl (take n d') = tl (take n d)" for n using assms(1) by (simp add: tl_take)
  then have dyn: "volkswagen_mqb_meb_dyn_len_checksum_of addr d' (Some e) = volkswagen_mqb_meb_dyn_len_checksum_of addr d (Some e)" for e
    by (cases e) (simp only: volkswagen_mqb_meb_dyn_len_checksum_of_def option.case prod.case, rule mqb_tl)
  have std: "volkswagen_mqb_meb_checksum_of addr d' None = volkswagen_mqb_meb_checksum_of addr d None"
    by (rule mqb_tl [OF assms(1)])
  show ?thesis
    using assms(2,3) dyn std
    by (auto simp: volkswagen_mqb_meb_gen2_checksum_of_def ebind_eq_Inr split: option.splits if_splits)
qed

lemma gen2_field:
  assumes "sig_size sg = 8" "is_little_endian sg" "sig_lsb sg = 0"
  shows "sig_bits sg = {0..<8}"
  using assms by (auto simp: sig_bits_def sig_pos_def image_def)

lemma set_value_byte0:
  assumes "sig_ok sg (length d)" "sig_size sg = 8" "is_little_endian sg" "sig_lsb sg = 0" "d \<noteq> []"
  shows "py_index (set_value d sg (uint b)) 0 = Inr (b :: byte)"
proof -
  have len: "length (set_value d sg (uint b)) = length d" using assms(1) by (simp add: sig_ok_def set_value_spec)
  have "set_value d sg (uint b) ! 0 = b"
  proof (rule bit_word_eqI)
    fix r :: nat assume "r < LENGTH(8)"
    then have r: "r < 8" by simp
    have "bit_at (set_value d sg (uint b)) (sig_pos sg r) = bit (uint b) r"
      using assms(1,2) r by (simp add: sig_ok_def set_value_spec)
    moreover have "sig_pos sg r = 8 * 0 + r" using assms(3,4) by (simp add: sig_pos_def)
    ultimately show "bit (set_value d sg (uint b) ! 0) r = bit b r"
      using bit_at_byte [OF r, of 0 "set_value d sg (uint b)"] assms(5) len by (simp add: bit_uint_iff r)
  qed
  then show ?thesis using assms(5) len by (simp add: py_index_def)
qed

section \<open>The interface of a frame check\<close>

text \<open>
  What the packer and the parser rely on: the function leaves the frame alone outside its field,
  its value fits in the field, and it gives the same value for the frame with the field filled in.
\<close>

locale frame_check =
  fixes calc :: "nat \<Rightarrow> signal \<Rightarrow> bytes \<Rightarrow> (int \<times> bytes) result"
    and layout :: "signal \<Rightarrow> nat \<Rightarrow> bool"
  assumes calc_frame: "layout sg (length d) \<Longrightarrow> calc addr sg d = Inr (v, e) \<Longrightarrow> agree sg d e"
    and calc_range: "layout sg (length d) \<Longrightarrow> calc addr sg d = Inr (v, e) \<Longrightarrow> 0 \<le> v \<and> v < 2 ^ sig_size sg"
    and calc_stable: "layout sg (length d) \<Longrightarrow> sig_ok sg (length d) \<Longrightarrow> calc addr sg d = Inr (v, e) \<Longrightarrow>
      \<exists>e'. calc addr sg (set_value e sg v) = Inr (v, e')"
begin

text \<open>A frame whose field was filled in passes the check: the field holds the value that the check
computes from the frame.\<close>

lemma filled_passes:
  assumes "layout sg (length d)" "sig_ok sg (length d)" "calc addr sg d = Inr (v, e)"
  shows "get_raw_value (set_value e sg v) sg = Inr v"
    and "\<exists>e'. calc addr sg (set_value e sg v) = Inr (v, e')"
proof -
  have len: "length e = length d" using calc_frame [OF assms(1,3)] by (simp add: agree_def)
  have "sig_wf sg" "sig_fits sg (length e)" using assms(2) len by (simp_all add: sig_ok_def)
  then have "get_raw_value (set_value e sg v) sg = Inr (take_bit (sig_size sg) v)"
    by (simp add: get_raw_value_spec set_value_spec raw_bits_set_value)
  then show "get_raw_value (set_value e sg v) sg = Inr v"
    using calc_range [OF assms(1,3)] by (simp add: take_bit_int_eq_self)
  show "\<exists>e'. calc addr sg (set_value e sg v) = Inr (v, e')" by (rule calc_stable [OF assms])
qed

end

lemma apply_checksum_stable:
  assumes "checksum_layout c sg (length d)" "sig_ok sg (length d)" "apply_checksum c addr sg d = Inr (v, e)"
  shows "\<exists>e'. apply_checksum c addr sg (set_value e sg v) = Inr (v, e')"
proof (cases "c = volkswagen_mqb_meb_gen2_checksum")
  case False
  have e: "agree sg d e" by (rule checksum_frame [OF assms(1,3)])
  then have "sig_ok sg (length e)" using assms(2) by (simp add: agree_def)
  from agree_trans [OF e agree_set_value [OF this]]
  show ?thesis using checksum_depends assms False by blast
next
  case True
  then obtain b where b: "volkswagen_mqb_meb_gen2_checksum_of addr d = Inr b" "v = uint b" "e = d"
    using assms(3) by (auto simp: apply_checksum_def ebind_eq_Inr byte_value_def)
  have l: "sig_size sg = 8" "is_little_endian sg" "sig_lsb sg = 0"
    using assms(1) True by (simp_all add: checksum_layout_def)
  have "sig_bits sg \<subseteq> {..<8}" using gen2_field [OF l] by auto
  then have "tl (set_value d sg v) = tl d" by (rule agree_tl [OF agree_set_value [OF assms(2)]])
  moreover have "sig_pos sg 0 < 8 * length d" using assms(2) l(1) unfolding sig_ok_def sig_fits_def by force
  then have "d \<noteq> []" by auto
  ultimately have "volkswagen_mqb_meb_gen2_checksum_of addr (set_value d sg v) = Inr b"
    using gen2_stable [OF _ b(1)] set_value_byte0 [OF assms(2) l] b(2) by simp
  with True b show ?thesis by (simp add: apply_checksum_def byte_value_def)
qed

interpretation can_check: frame_check "apply_checksum c" "checksum_layout c" for c
  by unfold_locales (fact checksum_frame checksum_range apply_checksum_stable)+

section \<open>What a CRC step does\<close>

lemma and_0x80: "(c :: byte) AND 0x80 \<noteq> 0 \<longleftrightarrow> bit c 7"
proof -
  have "(0x80 :: byte) = push_bit 7 1" by simp
  then show ?thesis by (metis (mono_tags) and.commute bit_iff_and_push_bit_not_eq_0)
qed

lemma crc8_step_alt: "crc8_step p c = push_bit 1 c XOR (if bit c 7 then p else 0)"
  by (simp add: crc8_step_def and_0x80)

lemma crc8_lookup: "gen_crc8_table p ! unat c = (crc8_step p ^^ 8) c"
  using unsigned_less [of c, where 'a = nat] by (simp add: gen_crc8_table_def)

lemma crc8_step_inj:
  assumes "bit p 0" "crc8_step p a = crc8_step p b"
  shows "a = b"
proof -
  have *: "bit (crc8_step p c) n = (n < 8 \<and> ((0 < n \<and> bit c (n - 1)) \<noteq> (bit c 7 \<and> bit p n)))" for c n
    unfolding crc8_step_alt bit_xor_iff bit_push_bit_iff by (auto dest: bit_imp_le_length)
  have 7: "bit a 7 = bit b 7"
    using assms *[of a 0] *[of b 0] by simp
  show ?thesis
  proof (rule bit_word_eqI)
    fix n :: nat assume "n < LENGTH(8)"
    then have n: "n < 8" by simp
    show "bit a n = bit b n"
    proof (cases "n = 7")
      case False
      then show ?thesis using *[of a "Suc n"] *[of b "Suc n"] assms(2) 7 n by auto
    qed (simp add: 7)
  qed
qed

lemma crc8_steps_inj: "bit p 0 \<Longrightarrow> (crc8_step p ^^ k) a = (crc8_step p ^^ k) b \<Longrightarrow> a = b"
  by (induction k arbitrary: a b) (auto dest: crc8_step_inj)

lemma xor_left_cancel: "(a :: 'a::len word) XOR b = a XOR c \<longleftrightarrow> b = c"
  by (metis xor.left_neutral xor.assoc xor_self_eq)

lemma xor_right_cancel: "b XOR a = c XOR (a :: 'a::len word) \<longleftrightarrow> b = c"
  by (metis xor_left_cancel xor.commute)

lemma crc8_add_inj:
  assumes "bit p 0"
  shows "crc8_add (gen_crc8_table p) b c = crc8_add (gen_crc8_table p) b c' \<Longrightarrow> c = c'"
    and "crc8_add (gen_crc8_table p) b c = crc8_add (gen_crc8_table p) b' c \<Longrightarrow> b = b'"
  using crc8_steps_inj [OF assms] unfolding crc8_add_def crc8_lookup
  by (metis xor_left_cancel xor.commute)+

section \<open>Chrysler computes the CRC of J1850\<close>

lemma chrysler_bit_alt:
  assumes "k < 8"
  shows "chrysler_bit m (drop_bit k 0x80) c = push_bit 1 c XOR (if bit c 7 \<noteq> bit m (7 - k) then 0x1D else 0)"
proof -
  have "(0x80 :: byte) = push_bit 7 1" by simp
  moreover have "drop_bit k (push_bit 7 1 :: byte) = push_bit (7 - k) 1"
    using assms by (intro bit_word_eqI) (auto simp only: bit_drop_bit_eq bit_push_bit_iff bit_1_iff comp_def, simp_all)
  ultimately have "(drop_bit k 0x80 :: byte) = push_bit (7 - k) 1" by metis
  then have m: "m AND drop_bit k 0x80 \<noteq> 0 \<longleftrightarrow> bit m (7 - k)"
    by (metis (mono_tags) and.commute bit_iff_and_push_bit_not_eq_0)
  have or: "push_bit 1 c OR 1 = push_bit 1 c XOR 1"
    by (rule bit_word_eqI) (auto simp only: bit_or_iff bit_xor_iff bit_push_bit_iff bit_1_iff)
  have x: "1 XOR (a XOR 1) = a" "0x1C XOR (a XOR 1) = a XOR 0x1D" for a :: byte
  proof -
    have "0x1C XOR (a XOR 1) = a XOR (0x1C XOR 1)" by (rule xor.left_commute)
    then show "0x1C XOR (a XOR 1) = a XOR 0x1D" by simp
    have "1 XOR (a XOR 1) = a XOR (1 XOR 1)" by (rule xor.left_commute)
    then show "1 XOR (a XOR 1) = a" by simp
  qed
  show ?thesis
    unfolding chrysler_bit_def Let_def m and_0x80 or
    by (cases "bit c 7"; cases "bit m (7 - k)"; simp only: if_True if_False x simp_thms xor.right_neutral xor.left_neutral)
      (rule xor.commute)
qed

text \<open>After \<open>k\<close> bits of a byte the serial register and the table register differ by the bits of the
byte that are still to come.\<close>

lemma chrysler_bits:
  assumes "k \<le> 8"
  shows "(crc8_step 0x1D ^^ k) (c XOR m) =
    fold (chrysler_bit m) (map (\<lambda>j. drop_bit j 0x80) [0..<k]) c XOR push_bit k m"
  using assms
proof (induction k)
  case (Suc k)
  let ?c = "fold (chrysler_bit m) (map (\<lambda>j. drop_bit j 0x80) [0..<k]) c"
  have top: "bit (?c XOR push_bit k m) 7 \<longleftrightarrow> bit ?c 7 \<noteq> bit m (7 - k)"
    using Suc.prems unfolding bit_xor_iff bit_push_bit_iff by auto
  have "push_bit 1 (?c XOR push_bit k m) = push_bit 1 ?c XOR push_bit (Suc k) m"
    by (simp only: push_bit_xor push_bit_push_bit) simp
  then have "crc8_step 0x1D (?c XOR push_bit k m) =
      push_bit 1 ?c XOR (if bit ?c 7 \<noteq> bit m (7 - k) then 0x1D else 0) XOR push_bit (Suc k) m"
    unfolding crc8_step_alt top by (simp only: xor.assoc xor.commute xor.left_commute)
  also have "\<dots> = chrysler_bit m (drop_bit k 0x80) ?c XOR push_bit (Suc k) m"
    using Suc.prems by (simp only: chrysler_bit_alt [OF Suc_le_lessD [OF Suc.prems]] xor.assoc)
  finally show ?case using Suc by simp
qed simp

lemma chrysler_byte_crc: "chrysler_byte m c = crc8_add CRC8J1850 m c"
  using chrysler_bits [of 8 c m]
  by (simp add: chrysler_byte_def crc8_add_def CRC8J1850_def crc8_lookup)

lemma chrysler_fold: "chrysler_checksum_of d = NOT (fold (crc8_add CRC8J1850) (butlast d) 0xFF)"
proof -
  have "fold chrysler_byte xs c = fold (crc8_add CRC8J1850) xs c" for xs c
    by (induction xs arbitrary: c) (simp_all add: chrysler_byte_crc)
  then show ?thesis by (simp add: chrysler_checksum_of_def)
qed

text \<open>the bit-serial Chrysler checksum is the table-driven CRC-8 of SAE J1850 over all bytes but the
last, started at \<^verbatim>\<open>0xFF\<close> and inverted, for frames of every length.\<close>

theorem chrysler_is_j1850:
  "chrysler_checksum_of d = NOT (fold (crc8_add CRC8J1850) (butlast d) 0xFF)"
  by (rule chrysler_fold)

section \<open>Detected errors\<close>

text \<open>A list in which one element was replaced by another one.\<close>

definition one_changed :: "'a list \<Rightarrow> 'a list \<Rightarrow> bool" where
  "one_changed xs ys \<longleftrightarrow> (\<exists>j<length xs. \<exists>b. b \<noteq> xs ! j \<and> ys = xs[j := b])"

lemma one_changedI: "j < length xs \<Longrightarrow> b \<noteq> xs ! j \<Longrightarrow> one_changed xs (xs[j := b])"
  by (auto simp: one_changed_def)

lemma one_changed_rev: "one_changed xs ys \<Longrightarrow> one_changed (rev xs) (rev ys)"
proof -
  assume "one_changed xs ys"
  then obtain j b where j: "j < length xs" "b \<noteq> xs ! j" "ys = xs[j := b]" by (auto simp: one_changed_def)
  then have "rev ys = (rev xs)[length xs - j - 1 := b]" by (simp add: rev_update)
  moreover have "rev xs ! (length xs - j - 1) = xs ! j" using j(1) by (simp add: rev_nth)
  ultimately show ?thesis using j by (auto intro: one_changedI)
qed

lemma one_changed_append:
  "one_changed xs ys \<Longrightarrow> one_changed (xs @ zs) (ys @ zs)"
  "one_changed xs ys \<Longrightarrow> one_changed (zs @ xs) (zs @ ys)"
proof -
  assume "one_changed xs ys"
  then obtain j b where j: "j < length xs" "b \<noteq> xs ! j" "ys = xs[j := b]" by (auto simp: one_changed_def)
  have "ys @ zs = (xs @ zs)[j := b]" using j by (simp add: list_update_append)
  moreover have "(xs @ zs) ! j = xs ! j" using j(1) by (simp add: nth_append)
  ultimately show "one_changed (xs @ zs) (ys @ zs)" using j by (auto intro: one_changedI)
  have "zs @ ys = (zs @ xs)[length zs + j := b]" using j by (simp add: list_update_append)
  moreover have "(zs @ xs) ! (length zs + j) = xs ! j" by simp
  ultimately show "one_changed (zs @ xs) (zs @ ys)" using j by (auto intro!: one_changedI)
qed

lemma one_changed_butlast: "i < length d - 1 \<Longrightarrow> b \<noteq> d ! i \<Longrightarrow> one_changed (butlast d) (butlast (d[i := b]))"
  by (simp add: butlast_list_update nth_butlast one_changedI)

lemma one_changed_tl: "0 < i \<Longrightarrow> i < length d \<Longrightarrow> b \<noteq> d ! i \<Longrightarrow> one_changed (tl d) (tl (d[i := b]))"
  by (cases d; cases i) (auto intro: one_changedI)

lemma other_bytes_alt:
  "other_bytes sg d = take (start_bit sg div 8) d @ drop (Suc (start_bit sg div 8)) d"
proof -
  let ?k = "start_bit sg div 8"
  have "filter (\<lambda>i. i \<noteq> ?k) [0..<length d] = [0..<min ?k (length d)] @ [Suc ?k..<length d]"
  proof (cases "?k < length d")
    case True
    have "[0..<length d] = [0..<?k] @ [?k..<length d]"
      using True upt_add_eq_append [of 0 ?k "length d - ?k"] by simp
    then have "[0..<length d] = [0..<?k] @ ?k # [Suc ?k..<length d]"
      using True by (simp add: upt_conv_Cons)
    then show ?thesis using True by (simp add: min_absorb1 filter_True)
  next
    case False
    then have "filter (\<lambda>i. i \<noteq> ?k) [0..<length d] = [0..<length d]" by (intro filter_True) auto
    then show ?thesis using False by (simp add: min_absorb2)
  qed
  then have "other_bytes sg d = map ((!) d) [0..<min ?k (length d)] @ map ((!) d) [Suc ?k..<length d]"
    by (simp add: other_bytes_def)
  moreover have "map ((!) d) [0..<min ?k (length d)] = take ?k d"
    by (rule nth_equalityI) (simp_all add: min.commute)
  moreover have "map ((!) d) [Suc ?k..<length d] = drop (Suc ?k) d"
    by (rule nth_equalityI) simp_all
  ultimately show ?thesis by simp
qed

lemma one_changed_other:
  assumes "i \<noteq> start_bit sg div 8" "i < length d" "b \<noteq> d ! i"
  shows "one_changed (other_bytes sg d) (other_bytes sg (d[i := b]))"
proof (cases "i < start_bit sg div 8")
  case True
  then have "one_changed (take (start_bit sg div 8) d) (take (start_bit sg div 8) (d[i := b]))"
    using assms by (simp add: take_update_swap one_changedI)
  then show ?thesis using True unfolding other_bytes_alt by (simp add: one_changed_append)
next
  case False
  then have i: "i = Suc (start_bit sg div 8) + (i - Suc (start_bit sg div 8))" using assms(1) by simp
  have "one_changed (drop (Suc (start_bit sg div 8)) d) (drop (Suc (start_bit sg div 8)) (d[i := b]))"
    using assms i False by (subst drop_update_swap) (auto intro!: one_changedI)
  then show ?thesis using False unfolding other_bytes_alt by (simp add: one_changed_append)
qed

lemma one_changedE:
  assumes "one_changed xs ys"
  obtains us a b vs where "xs = us @ a # vs" "ys = us @ b # vs" "a \<noteq> b"
proof -
  obtain j b where j: "j < length xs" "b \<noteq> xs ! j" "ys = xs[j := b]" using assms by (auto simp: one_changed_def)
  then have "xs = take j xs @ xs ! j # drop (Suc j) xs" "ys = take j xs @ b # drop (Suc j) xs"
    by (simp_all add: id_take_nth_drop [symmetric] upd_conv_take_nth_drop)
  then show ?thesis using j(2) that by blast
qed

text \<open>A sum modulo 256 and a chain of injective steps both notice it.\<close>

lemma byte_sum_changed:
  assumes "one_changed xs ys"
  shows "(s + byte_sum ys) AND 255 \<noteq> (s + byte_sum xs) AND 255"
proof
  assume eq: "(s + byte_sum ys) AND 255 = (s + byte_sum xs) AND 255"
  obtain us a b vs where x: "xs = us @ a # vs" "ys = us @ b # vs" "a \<noteq> b" using assms by (rule one_changedE)
  define t where "t = s + byte_sum us + byte_sum vs"
  have "(t + uint b) mod 256 = (t + uint a) mod 256"
    using eq by (simp add: x(1,2) and_255 byte_sum_def t_def algebra_simps)
  then have "((t + uint b) - t) mod 256 = ((t + uint a) - t) mod 256" by (rule mod_diff_cong) simp
  then have "uint b = uint a" by simp
  with x(3) show False by (simp add: word_uint_eqI)
qed

lemma fold_changed:
  assumes "one_changed xs ys" "\<And>b c c'. f b c = f b c' \<Longrightarrow> c = c'" "\<And>b b' c. f b c = f b' c \<Longrightarrow> b = b'"
  shows "fold f ys s \<noteq> fold f xs s"
proof
  obtain us a b vs where x: "xs = us @ a # vs" "ys = us @ b # vs" "a \<noteq> b" using assms(1) by (rule one_changedE)
  have inj: "fold f zs c = fold f zs c' \<Longrightarrow> c = c'" for zs c c'
    by (induction zs arbitrary: c c') (auto dest: assms(2))
  assume "fold f ys s = fold f xs s"
  then have "f b (fold f us s) = f a (fold f us s)" unfolding x(1,2) fold_append comp_apply fold_simps by (rule inj)
  with assms(3) x(3) show False by blast
qed

text \<open>The functions that notice every change of one byte outside their field.\<close>

definition detects_bytes :: "checksum_fn \<Rightarrow> bool" where
  "detects_bytes c \<longleftrightarrow> c \<in> {toyota_checksum, subaru_checksum, tesla_checksum, xor_checksum,
     body_checksum, chrysler_checksum, fca_giorgio_checksum}"

lemma bit_0_polys: "bit (0x1D :: byte) 0" "bit (0xD5 :: byte) 0" "bit (0x2F :: byte) 0"
  by simp_all

lemma body_changed:
  assumes "one_changed xs ys"
  shows "fold (crc8_add CRC8BODY) ys s \<noteq> fold (crc8_add CRC8BODY) xs s"
  unfolding CRC8BODY_def by (rule fold_changed [OF assms]) (fact crc8_add_inj [OF bit_0_polys(2)])+

lemma j1850_changed:
  assumes "one_changed xs ys"
  shows "fold (crc8_add CRC8J1850) ys s \<noteq> fold (crc8_add CRC8J1850) xs s"
  unfolding CRC8J1850_def by (rule fold_changed [OF assms]) (fact crc8_add_inj [OF bit_0_polys(1)])+

lemma xor_changed:
  assumes "one_changed xs ys"
  shows "fold (\<lambda>b c. c XOR b) ys (s :: byte) \<noteq> fold (\<lambda>b c. c XOR b) xs s"
  by (rule fold_changed [OF assms]) (metis xor_left_cancel xor.commute)+

text \<open>A changed byte outside the checksum field stays in what the checksum functions read.\<close>

lemma changed_outside:
  assumes "i < length d" "{8 * i..<8 * i + 8} \<inter> sig_bits sg = {}" "b \<noteq> d ! i"
  shows "sig_bits sg = {8 * (length d - 1)..<8 * length d} \<Longrightarrow> one_changed (butlast d) (butlast (d[i := b]))"
    and "sig_bits sg = {0..<8} \<Longrightarrow> one_changed (tl d) (tl (d[i := b]))"
    and "sig_bits sg = {8 * (start_bit sg div 8)..<8 * (start_bit sg div 8) + 8} \<Longrightarrow>
      one_changed (other_bytes sg d) (other_bytes sg (d[i := b]))"
proof -
  show "one_changed (butlast d) (butlast (d[i := b]))" if "sig_bits sg = {8 * (length d - 1)..<8 * length d}"
  proof (rule one_changed_butlast)
    have "8 * i \<in> {8 * i..<8 * i + 8}" by simp
    then have "8 * i \<notin> {8 * (length d - 1)..<8 * length d}" using assms(2) that by blast
    then show "i < length d - 1" using assms(1) by simp
  qed (rule assms(3))
  show "one_changed (tl d) (tl (d[i := b]))" if "sig_bits sg = {0..<8}"
    using assms that by (intro one_changed_tl) (auto simp: disjoint_iff)
  show "one_changed (other_bytes sg d) (other_bytes sg (d[i := b]))"
    if "sig_bits sg = {8 * (start_bit sg div 8)..<8 * (start_bit sg div 8) + 8}"
    using assms that by (intro one_changed_other) (auto simp: disjoint_iff)
qed

text \<open>C39: corrupting one byte of a frame is noticed. For the sum, exclusive-or and CRC-8 checksums of
Toyota, Subaru, Tesla, Volkswagen PQ, the comma body, Chrysler and FCA Giorgio, replacing any
byte outside the checksum field by another value changes the checksum, for frames of every
length and every address.\<close>

theorem checksum_detects_byte_error:
  assumes "detects_bytes c" "checksum_layout c sg (length d)"
    and "i < length d" "{8 * i..<8 * i + 8} \<inter> sig_bits sg = {}" "b \<noteq> d ! i"
    and "apply_checksum c addr sg d = Inr (v, e)"
  shows "\<exists>v' e'. apply_checksum c addr sg (d[i := b]) = Inr (v', e') \<and> v' \<noteq> v"
proof -
  note layout = assms(2) [unfolded checksum_layout_def Let_def]
  note app = assms(6) [unfolded apply_checksum_def]
  note last = changed_outside(1) [OF assms(3-5)] and first = changed_outside(2) [OF assms(3-5)]
    and other = changed_outside(3) [OF assms(3-5)]
  from assms(1) consider "c = toyota_checksum" | "c = subaru_checksum" | "c = tesla_checksum" | "c = xor_checksum"
    | "c = body_checksum" | "c = chrysler_checksum" | "c = fca_giorgio_checksum"
    by (auto simp: detects_bytes_def)
  then show ?thesis
  proof cases
    case 1
    then show ?thesis using app layout last byte_sum_changed
      by (auto simp: apply_checksum_def toyota_checksum_of_def)
  next
    case 2
    then show ?thesis using app layout first byte_sum_changed
      by (auto simp: apply_checksum_def subaru_checksum_of_def)
  next
    case 3
    then show ?thesis using app layout other byte_sum_changed
      by (auto simp: apply_checksum_def tesla_checksum_of_def)
  next
    case 4
    then show ?thesis using app layout other xor_changed
      by (auto simp: apply_checksum_def xor_checksum_of_def byte_value_def word_uint_eq_iff)
  next
    case 5
    then have "one_changed (rev (butlast d)) (rev (butlast (d[i := b])))"
      using layout by (intro one_changed_rev last) simp
    from body_changed [OF this] 5 show ?thesis using app
      by (auto simp: apply_checksum_def body_checksum_of_def byte_value_def word_uint_eq_iff)
  next
    case 6
    then have "one_changed (butlast d) (butlast (d[i := b]))" using layout by (intro last) simp
    from j1850_changed [OF this] 6 show ?thesis using app
      by (auto simp: apply_checksum_def chrysler_fold byte_value_def dest!: word_uint_eqI)
  next
    case 7
    then have "one_changed (butlast d) (butlast (d[i := b]))" using layout by (intro last) simp
    from j1850_changed [OF this] 7 show ?thesis using app
      by (auto simp: apply_checksum_def fca_giorgio_checksum_of_def byte_value_def xor_right_cancel dest!: word_uint_eqI)
  qed
qed

definition toyota_field :: signal where
  "toyota_field =
    \<lparr>sig_name = ''CHECKSUM'', start_bit = 39, sig_msb = 39, sig_lsb = 32, sig_size = 8, is_signed = False,
     factor = 1, sig_offset = 0, is_little_endian = False, sig_type = 3,
     calc_checksum = Some toyota_checksum\<rparr>"

lemma sig_bits_in_byte:
  assumes "sig_wf sg" "nat (sig_lsb sg) mod 8 + sig_size sg \<le> 8"
  shows "sig_bits sg = {nat (sig_lsb sg)..<nat (sig_lsb sg) + sig_size sg}"
proof -
  have "sig_pos sg j = nat (sig_lsb sg) + j" if "j < sig_size sg" for j
    using sig_pos_run [OF assms(1), of 0 j] that assms(2) by (simp add: sig_pos_0)
  then have "sig_bits sg = (+) (nat (sig_lsb sg)) ` {..< sig_size sg}" by (simp add: sig_bits_def image_def)
  then show ?thesis by (simp add: lessThan_atLeast0 add.commute)
qed

lemma toyota_field_wf: "sig_wf toyota_field"
  by (simp add: sig_wf_def toyota_field_def be_index_def)

lemma toyota_field_bits: "sig_bits toyota_field = {32..<40}"
  using sig_bits_in_byte [OF toyota_field_wf] by (simp add: toyota_field_def)

lemma checksum_detects_byte_error_witness:
  "\<exists>v' e'. apply_checksum toyota_checksum 0x2E4 toyota_field ([0x80, 0, 0, 0, 0][1 := 5]) = Inr (v', e') \<and> v' \<noteq> 0x6B"
proof -
  have "apply_checksum toyota_checksum 0x2E4 toyota_field [0x80, 0, 0, 0, 0] = Inr (0x6B, [0x80, 0, 0, 0, 0])"
    by (simp add: apply_checksum_def toyota_checksum_of_def byte_sum_def addr_sum.simps take_bit_eq_mod drop_bit_eq_div and_255)
  then show ?thesis
    by (rule checksum_detects_byte_error [rotated 5])
      (simp_all add: detects_bytes_def checksum_layout_def toyota_field_bits, simp add: toyota_field_def)
qed

end
