(* ===== verification/Dbc.thy ===== *)
theory Dbc
  imports CanChecksum "HOL-Library.Sublist" "HOL-Library.AList"
begin

text \<open>
  The message database: \<^verbatim>\<open>opendbc/can/dbc.py\<close>. A line of a DBC file enters as the groups of the
  regular expression it matches (\<open>dbc_line\<close>), already converted to numbers; everything after that -
  bit positions, checksum and counter types, the dictionaries - is the code. Messages are objects
  that two dictionaries refer to, so they live in a store and the dictionaries hold indices.
\<close>

section \<open>Checksum conventions of a database\<close>

record checksum_state =
  checksum_size :: int
  counter_size :: int
  checksum_start_bit :: int
  counter_start_bit :: int
  little_endian :: bool
  checksum_type :: int
  chk_calc_checksum :: checksum_fn
  tesla_setup :: bool

definition ChecksumState :: "int \<Rightarrow> int \<Rightarrow> int \<Rightarrow> int \<Rightarrow> bool \<Rightarrow> checksum_fn \<Rightarrow> bool \<Rightarrow> checksum_state" where
  "ChecksumState cs ns cb nb le f tesla =
    \<lparr>checksum_size = cs, counter_size = ns, checksum_start_bit = cb, counter_start_bit = nb,
     little_endian = le, checksum_type = SignalType_of f, chk_calc_checksum = f, tesla_setup = tesla\<rparr>"

definition starts_with :: "string list \<Rightarrow> string \<Rightarrow> bool" where
  "starts_with ps s = list_ex (\<lambda>p. prefix p s) ps"

definition get_checksum_state :: "string \<Rightarrow> checksum_state option" where
  "get_checksum_state dbc_name =
    (if starts_with [''honda_'', ''acura_''] dbc_name
     then Some (ChecksumState 4 2 3 5 False honda_checksum False)
     else if starts_with [''toyota_'', ''lexus_''] dbc_name
     then Some (ChecksumState 8 (- 1) 7 (- 1) False toyota_checksum False)
     else if starts_with [''hyundai_canfd_generated''] dbc_name
     then Some (ChecksumState 16 (- 1) 0 (- 1) True hkg_can_fd_checksum False)
     else if starts_with [''vw_meb_2024''] dbc_name
     then Some (ChecksumState 8 4 0 0 True volkswagen_mqb_meb_gen2_checksum False)
     else if starts_with [''vw_mqb'', ''vw_mqbevo'', ''vw_meb''] dbc_name
     then Some (ChecksumState 8 4 0 0 True volkswagen_mqb_meb_checksum False)
     else if starts_with [''vw_mlb''] dbc_name
     then Some (ChecksumState 8 4 0 0 True volkswagen_mlb_checksum False)
     else if starts_with [''vw_pq''] dbc_name
     then Some (ChecksumState 8 4 0 (- 1) True xor_checksum False)
     else if starts_with [''subaru_global_''] dbc_name
     then Some (ChecksumState 8 (- 1) 0 (- 1) True subaru_checksum False)
     else if starts_with [''chrysler_''] dbc_name
     then Some (ChecksumState 8 (- 1) 7 (- 1) False chrysler_checksum False)
     else if starts_with [''fca_giorgio''] dbc_name
     then Some (ChecksumState 8 (- 1) 7 (- 1) False fca_giorgio_checksum False)
     else if starts_with [''comma_body''] dbc_name
     then Some (ChecksumState 8 4 7 3 False body_checksum False)
     else if starts_with [''tesla_model3_party''] dbc_name
     then Some (ChecksumState 8 (- 1) 0 (- 1) True tesla_checksum True)
     else if starts_with [''psa_''] dbc_name
     then Some (ChecksumState 4 4 7 3 False psa_checksum False)
     else None)"

definition tesla_setup_signal :: "signal \<Rightarrow> signal" where
  "tesla_setup_signal sg =
    (if suffix ''Counter'' (sig_name sg) then sg\<lparr>sig_type := SignalType_COUNTER\<rparr>
     else if suffix ''Checksum'' (sig_name sg)
     then sg\<lparr>sig_type := SignalType_of tesla_checksum, calc_checksum := Some tesla_checksum\<rparr>
     else sg)"

definition set_signal_type :: "signal \<Rightarrow> checksum_state option \<Rightarrow> signal" where
  "set_signal_type sg chk =
    (let sg = sg\<lparr>calc_checksum := None\<rparr>
     in case chk of
          None \<Rightarrow> sg
        | Some c \<Rightarrow>
            (let sg = (if tesla_setup c then tesla_setup_signal sg else sg)
             in if sig_name sg = ''CHECKSUM''
                then sg\<lparr>sig_type := checksum_type c, calc_checksum := Some (chk_calc_checksum c)\<rparr>
                else if sig_name sg = ''COUNTER'' then sg\<lparr>sig_type := SignalType_COUNTER\<rparr> else sg))"

section \<open>Lines, messages, signals\<close>

datatype dbc_line =
    BO nat string nat
  | SG string nat nat bool bool rat rat
  | VAL nat string string
  | OtherLine

record msg =
  msg_name :: string
  msg_address :: nat
  msg_size :: nat
  msg_sigs :: "(string \<times> signal) list"

record dbc =
  dbc_name :: string
  msg_store :: "msg list"
  addr_index :: "(nat \<times> nat) list"
  name_index :: "(string \<times> nat) list"
  vals_defs :: "(string \<times> nat \<times> string) list"
  cur_address :: nat

definition be_bits :: "nat list" where
  "be_bits = concat (map (\<lambda>i. map (\<lambda>j. j + i * 8) (rev [0..<8])) [0..<64])"

text \<open>\<^verbatim>\<open>list.index\<close> raises \<^verbatim>\<open>ValueError\<close>, indexing past the end \<^verbatim>\<open>IndexError\<close>, and the index -1 is the last.\<close>

fun list_index :: "'a \<Rightarrow> 'a list \<Rightarrow> nat result" where
  "list_index x [] = Inl ValueError"
| "list_index x (y # ys) = (if x = y then Inr 0 else ebind (list_index x ys) (\<lambda>i. Inr (Suc i)))"

definition be_lsb :: "nat \<Rightarrow> nat \<Rightarrow> nat result" where
  "be_lsb start sz =
    ebind (list_index start be_bits) (\<lambda>idx.
      if idx + sz = 0 then Inr (last be_bits) else py_index be_bits (idx + sz - 1))"

definition make_signal :: "string \<Rightarrow> nat \<Rightarrow> nat \<Rightarrow> bool \<Rightarrow> bool \<Rightarrow> rat \<Rightarrow> rat \<Rightarrow> signal result" where
  "make_signal name start sz le sgd fac off =
    (let sg = \<lparr>sig_name = name, start_bit = start, sig_msb = 0, sig_lsb = 0, sig_size = sz, is_signed = sgd,
               factor = fac, sig_offset = off, is_little_endian = le, sig_type = SignalType_DEFAULT,
               calc_checksum = None\<rparr>
     in if le then Inr (sg\<lparr>sig_lsb := int start, sig_msb := int start + int sz - 1\<rparr>)
        else ebind (be_lsb start sz) (\<lambda>lsb. Inr (sg\<lparr>sig_lsb := int lsb, sig_msb := int start\<rparr>)))"

definition dbc_line_step :: "checksum_state option \<Rightarrow> dbc_line \<Rightarrow> dbc \<Rightarrow> dbc result" where
  "dbc_line_step chk line d =
    (case line of
       BO address name sz \<Rightarrow>
         (let i = length (msg_store d);
              m = \<lparr>msg_name = name, msg_address = address, msg_size = sz, msg_sigs = []\<rparr>
          in Inr (d\<lparr>cur_address := address, msg_store := msg_store d @ [m],
                   addr_index := AList.update address i (addr_index d),
                   name_index := AList.update name i (name_index d)\<rparr>))
     | SG name start sz le sgd fac off \<Rightarrow>
         ebind (make_signal name start sz le sgd fac off) (\<lambda>sg.
         case map_of (addr_index d) (cur_address d) of
           None \<Rightarrow> Inl KeyError
         | Some i \<Rightarrow>
             (let m = msg_store d ! i
              in Inr (d\<lparr>msg_store := (msg_store d)[i := m\<lparr>msg_sigs :=
                   AList.update name (set_signal_type sg chk) (msg_sigs m)\<rparr>]\<rparr>)))
     | VAL address sgname defs \<Rightarrow> Inr (d\<lparr>vals_defs := vals_defs d @ [(sgname, address, defs)]\<rparr>)
     | OtherLine \<Rightarrow> Inr d)"

fun dbc_lines :: "checksum_state option \<Rightarrow> dbc_line list \<Rightarrow> dbc \<Rightarrow> dbc result" where
  "dbc_lines chk [] d = Inr d"
| "dbc_lines chk (l # ls) d = ebind (dbc_line_step chk l d) (dbc_lines chk ls)"

definition DBC_parse :: "string \<Rightarrow> dbc_line list \<Rightarrow> dbc result" where
  "DBC_parse name ls =
    dbc_lines (get_checksum_state name) ls
      \<lparr>dbc_name = name, msg_store = [], addr_index = [], name_index = [], vals_defs = [], cur_address = 0\<rparr>"

definition addr_to_msg :: "dbc \<Rightarrow> nat \<Rightarrow> msg option" where
  "addr_to_msg d address = map_option ((!) (msg_store d)) (map_of (addr_index d) address)"

definition name_to_msg :: "dbc \<Rightarrow> string \<Rightarrow> msg option" where
  "name_to_msg d name = map_option ((!) (msg_store d)) (map_of (name_index d) name)"

section \<open>What a parsed database guarantees\<close>

lemma be_index_split: "k < 8 \<Longrightarrow> be_index (8 * n + k) = 8 * n + (7 - k)"
  unfolding be_index_def byte_split ..

lemma be_bits_rows:
  "concat (map (\<lambda>i. map (\<lambda>j. j + i * 8) (rev [0..<8])) [0..<n]) = map be_index [0..<8 * n]"
proof (induction n)
  case (Suc n)
  have row: "map be_index (map ((+) (8 * n)) [0..<8]) = map (\<lambda>j. j + n * 8) (rev [0..<8])"
  proof (rule nth_equalityI)
    fix k assume "k < length (map be_index (map ((+) (8 * n)) [0..<8]))"
    then have k: "k < 8" by simp
    then have "map be_index (map ((+) (8 * n)) [0..<8]) ! k = 8 * n + (7 - k)" by (simp add: be_index_split)
    also have "\<dots> = map (\<lambda>j. j + n * 8) (rev [0..<8]) ! k" using k by (simp add: rev_nth)
    finally show "map be_index (map ((+) (8 * n)) [0..<8]) ! k = map (\<lambda>j. j + n * 8) (rev [0..<8]) ! k" .
  qed simp
  have "[8 * n..<8 * n + 8] = map ((+) (8 * n)) [0..<8]" by (rule nth_equalityI) simp_all
  then have "[0..<8 * Suc n] = [0..<8 * n] @ map ((+) (8 * n)) [0..<8]"
    using upt_add_eq_append [of 0 "8 * n" 8] by (simp add: add.commute)
  with Suc row show ?case by (simp only: upt_Suc map_append concat_append list.map concat.simps append_Nil2) simp
qed simp

lemma be_bits_eq: "be_bits = map be_index [0..<512]"
  using be_bits_rows [of 64] by (simp add: be_bits_def)

lemma be_bits_nth: "k < 512 \<Longrightarrow> be_bits ! k = be_index k" and be_bits_length: "length be_bits = 512"
  by (simp_all add: be_bits_eq)

lemma list_index_Inr: "list_index x xs = Inr i \<Longrightarrow> i < length xs \<and> xs ! i = x"
  by (induction xs arbitrary: i) (auto simp: ebind_eq_Inr split: if_splits)

lemma list_index_nth: "distinct xs \<Longrightarrow> i < length xs \<Longrightarrow> list_index (xs ! i) xs = Inr i"
  by (induction xs arbitrary: i) (auto simp: nth_Cons split: nat.splits)

lemma be_lsb_eq:
  assumes "start < 512" "0 < sz" "be_index start + sz \<le> 512"
  shows "be_lsb start sz = Inr (be_index (be_index start + sz - 1))"
proof -
  have "start div 8 < 64" using assms(1) by (simp add: less_mult_imp_div_less)
  then have "be_index start < 512" unfolding be_index_def by linarith
  moreover have "be_bits ! be_index start = start" using calculation by (simp add: be_bits_nth)
  moreover have "distinct be_bits" by (auto simp: be_bits_eq distinct_map inj_on_def dest: be_index_inj)
  ultimately have "list_index start be_bits = Inr (be_index start)"
    using list_index_nth [of be_bits "be_index start"] by (simp add: be_bits_length)
  then show ?thesis using assms by (simp add: be_lsb_def py_index_def be_bits_length be_bits_nth)
qed

text \<open>A signal line of positive size gives a well-formed signal.\<close>

lemma make_signal_wf:
  assumes "make_signal name start sz le sgd fac off = Inr sg" "0 < sz"
  shows "sig_wf sg" "sig_name sg = name" "sig_size sg = sz" "calc_checksum sg = None"
proof -
  have "sig_wf sg \<and> sig_name sg = name \<and> sig_size sg = sz \<and> calc_checksum sg = None"
  proof (cases le)
    case True
    then show ?thesis using assms by (auto simp: make_signal_def sig_wf_def)
  next
    case False
    then obtain idx lsb where i: "list_index start be_bits = Inr idx" "py_index be_bits (idx + sz - 1) = Inr lsb"
      and sg: "sig_lsb sg = int lsb" "sig_msb sg = int start" "sig_size sg = sz" "\<not> is_little_endian sg"
        "sig_name sg = name" "calc_checksum sg = None"
      using assms by (auto simp: make_signal_def be_lsb_def Let_def ebind_eq_Inr split: if_splits)
    have start: "be_index start = idx" "idx < 512"
      using list_index_Inr [OF i(1)] be_bits_nth be_bits_length by auto
    have "be_index lsb = idx + sz - 1"
      using i(2) be_bits_nth be_bits_length by (auto simp: py_index_def split: if_splits)
    then show ?thesis using sg start assms(2) by (simp add: sig_wf_def)
  qed
  then show "sig_wf sg" "sig_name sg = name" "sig_size sg = sz" "calc_checksum sg = None" by blast+
qed

definition typed_signal :: "checksum_state option \<Rightarrow> signal \<Rightarrow> bool" where
  "typed_signal chk sg \<longleftrightarrow>
    (case calc_checksum sg of
       None \<Rightarrow> sig_type sg \<in> {SignalType_DEFAULT, SignalType_COUNTER}
     | Some f \<Rightarrow> sig_type sg = SignalType_of f \<and> (\<exists>c. chk = Some c \<and> f = chk_calc_checksum c))"

definition msg_ok :: "checksum_state option \<Rightarrow> msg \<Rightarrow> bool" where
  "msg_ok chk m \<longleftrightarrow> distinct (map fst (msg_sigs m)) \<and>
     (\<forall>(n, sg)\<in>set (msg_sigs m). sig_name sg = n \<and> sig_wf sg \<and> typed_signal chk sg)"

definition dbc_ok :: "checksum_state option \<Rightarrow> dbc \<Rightarrow> bool" where
  "dbc_ok chk d \<longleftrightarrow>
     (\<forall>m\<in>set (msg_store d). msg_ok chk m) \<and>
     (\<forall>(a, i)\<in>set (addr_index d). i < length (msg_store d) \<and> msg_address (msg_store d ! i) = a) \<and>
     (\<forall>(n, i)\<in>set (name_index d). i < length (msg_store d) \<and> msg_name (msg_store d ! i) = n)"

definition positive_size :: "dbc_line \<Rightarrow> bool" where
  "positive_size l = (case l of SG name start sz le sgd fac off \<Rightarrow> 0 < sz | _ \<Rightarrow> True)"

lemma tesla_setup_checksum:
  "get_checksum_state name = Some c \<Longrightarrow> tesla_setup c \<Longrightarrow> chk_calc_checksum c = tesla_checksum"
  "get_checksum_state name = Some c \<Longrightarrow> checksum_type c = SignalType_of (chk_calc_checksum c)"
  by (auto simp: get_checksum_state_def ChecksumState_def split: if_splits)

lemma not_suffix: "\<not> suffix ''Checksum'' ''COUNTER''"
  by (simp add: suffix_to_prefix)

lemma set_signal_type_typed:
  assumes "sig_type sg = SignalType_DEFAULT"
  shows "typed_signal (get_checksum_state name) (set_signal_type sg (get_checksum_state name))"
proof (cases "get_checksum_state name")
  case None
  then show ?thesis using assms by (simp add: typed_signal_def set_signal_type_def)
next
  case (Some c)
  then show ?thesis
    using assms tesla_setup_checksum [OF Some] not_suffix
    by (auto simp: typed_signal_def set_signal_type_def tesla_setup_signal_def Let_def split: if_splits)
qed

lemma set_signal_type_sel [simp]:
  "sig_name (set_signal_type sg chk) = sig_name sg" "sig_wf (set_signal_type sg chk) = sig_wf sg"
  by (auto simp: set_signal_type_def tesla_setup_signal_def Let_def sig_wf_def split: option.splits)

lemma make_signal_type: "make_signal name start sz le sgd fac off = Inr sg \<Longrightarrow> sig_type sg = SignalType_DEFAULT"
  by (auto simp: make_signal_def Let_def ebind_eq_Inr split: if_splits)

lemma set_update: "set (AList.update k v xs) \<subseteq> insert (k, v) (set xs)"
  by (induction xs) auto

lemma msg_ok_update:
  assumes "msg_ok chk m" "sig_name sg = n" "sig_wf sg" "typed_signal chk sg"
  shows "msg_ok chk (m\<lparr>msg_sigs := AList.update n sg (msg_sigs m)\<rparr>)"
proof -
  have "distinct (map fst (AList.update n sg (msg_sigs m)))"
    using assms(1) by (simp add: msg_ok_def distinct_update)
  then show ?thesis using assms set_update [of n sg "msg_sigs m"] by (fastforce simp: msg_ok_def)
qed

lemma dbc_line_step_ok:
  assumes "dbc_ok (get_checksum_state name) d" "positive_size l"
    and "dbc_line_step (get_checksum_state name) l d = Inr d'"
  shows "dbc_ok (get_checksum_state name) d'"
proof (cases l)
  case (BO a n sz)
  let ?m = "\<lparr>msg_name = n, msg_address = a, msg_size = sz, msg_sigs = []\<rparr>"
  have d': "d' = d\<lparr>cur_address := a, msg_store := msg_store d @ [?m],
      addr_index := AList.update a (length (msg_store d)) (addr_index d),
      name_index := AList.update n (length (msg_store d)) (name_index d)\<rparr>"
    using assms(3) BO by (simp add: dbc_line_step_def Let_def)
  have "\<forall>(k, i)\<in>set (AList.update a (length (msg_store d)) (addr_index d)).
      i < Suc (length (msg_store d)) \<and> msg_address ((msg_store d @ [?m]) ! i) = k"
    using assms(1) set_update [of a "length (msg_store d)" "addr_index d"]
    by (fastforce simp: dbc_ok_def nth_append)
  moreover have "\<forall>(k, i)\<in>set (AList.update n (length (msg_store d)) (name_index d)).
      i < Suc (length (msg_store d)) \<and> msg_name ((msg_store d @ [?m]) ! i) = k"
    using assms(1) set_update [of n "length (msg_store d)" "name_index d"]
    by (fastforce simp: dbc_ok_def nth_append)
  ultimately show ?thesis using assms(1) unfolding d' by (simp add: dbc_ok_def msg_ok_def)
next
  case (SG n start sz le sgd fac off)
  then obtain sg i where sg: "make_signal n start sz le sgd fac off = Inr sg"
    and i: "map_of (addr_index d) (cur_address d) = Some i"
    and d': "d' = d\<lparr>msg_store := (msg_store d)[i := (msg_store d ! i)\<lparr>msg_sigs :=
      AList.update n (set_signal_type sg (get_checksum_state name)) (msg_sigs (msg_store d ! i))\<rparr>]\<rparr>"
    using assms(3) by (auto simp: dbc_line_step_def ebind_eq_Inr Let_def split: option.splits)
  have "0 < sz" using assms(2) SG by (simp add: positive_size_def)
  note wf = make_signal_wf [OF sg this]
  have il: "i < length (msg_store d)" using assms(1) map_of_SomeD [OF i] by (auto simp: dbc_ok_def)
  then have "msg_ok (get_checksum_state name) (msg_store d ! i)" using assms(1) by (simp add: dbc_ok_def)
  then have "msg_ok (get_checksum_state name) ((msg_store d ! i)\<lparr>msg_sigs :=
      AList.update n (set_signal_type sg (get_checksum_state name)) (msg_sigs (msg_store d ! i))\<rparr>)"
    using wf set_signal_type_typed [OF make_signal_type [OF sg]] by (intro msg_ok_update) simp_all
  then have "\<forall>m\<in>set (msg_store d'). msg_ok (get_checksum_state name) m"
    using assms(1) unfolding d' by (auto simp: dbc_ok_def dest!: set_update_subset_insert [THEN subsetD])
  moreover have "msg_address (msg_store d' ! k) = msg_address (msg_store d ! k)"
    "msg_name (msg_store d' ! k) = msg_name (msg_store d ! k)" if "k < length (msg_store d)" for k
    using that il unfolding d' by (cases "k = i"; simp)+
  ultimately show ?thesis using assms(1) unfolding dbc_ok_def d' by auto
qed (use assms in \<open>auto simp: dbc_line_step_def dbc_ok_def\<close>)

lemma dbc_lines_ok:
  "dbc_ok (get_checksum_state name) d \<Longrightarrow> list_all positive_size ls \<Longrightarrow>
   dbc_lines (get_checksum_state name) ls d = Inr d' \<Longrightarrow> dbc_ok (get_checksum_state name) d'"
  by (induction ls arbitrary: d) (auto simp: ebind_eq_Inr intro: dbc_line_step_ok)

text \<open>C40: a parsed database is consistent. Whatever lines a file has, if every signal has a positive
size and the parser does not raise, then both dictionaries lead to messages with the key they
are stored under; every message has distinct signal names; and every signal is well-formed,
with a checksum function only if its type is the type of that function and the function is the
one of the database's name.\<close>

theorem dbc_parse_consistent:
  assumes "DBC_parse name ls = Inr d" "list_all positive_size ls"
  shows "(addr_to_msg d a = Some m \<longrightarrow> msg_address m = a \<and> msg_ok (get_checksum_state name) m) \<and>
    (name_to_msg d n = Some m \<longrightarrow> msg_name m = n \<and> msg_ok (get_checksum_state name) m)"
proof -
  have ok: "dbc_ok (get_checksum_state name) d"
    using dbc_lines_ok [OF _ assms(2) assms(1) [unfolded DBC_parse_def]] by (simp add: dbc_ok_def)
  then show ?thesis
    by (fastforce simp: addr_to_msg_def name_to_msg_def dbc_ok_def dest!: map_of_SomeD)
qed

lemma dbc_parse_consistent_witness:
  "\<exists>d m. DBC_parse ''toyota_nodsu_pt_generated''
      [BO 740 ''STEERING_LKA'' 5, SG ''STEER_REQUEST'' 0 1 False False 1 0, SG ''CHECKSUM'' 39 8 False False 1 0] = Inr d \<and>
    addr_to_msg d 740 = Some m \<and> msg_ok (get_checksum_state ''toyota_nodsu_pt_generated'') m"
proof -
  let ?ls = "[BO 740 ''STEERING_LKA'' 5, SG ''STEER_REQUEST'' 0 1 False False 1 0, SG ''CHECKSUM'' 39 8 False False 1 0]"
  have idx: "be_lsb 0 1 = Inr 0" "be_lsb 39 8 = Inr 32"
    by (simp_all add: be_lsb_eq be_index_def)
  then obtain d where d: "DBC_parse ''toyota_nodsu_pt_generated'' ?ls = Inr d" "addr_to_msg d 740 \<noteq> None"
    by (simp add: DBC_parse_def dbc_line_step_def make_signal_def addr_to_msg_def)
  moreover have "list_all positive_size ?ls" by (simp add: positive_size_def)
  ultimately show ?thesis using dbc_parse_consistent [OF d(1)] by blast
qed

end
