(* ===== verification/CanPacker.thy ===== *)
theory CanPacker
  imports Dbc
begin

text \<open>
  \<^verbatim>\<open>class CANPacker\<close> of \<^verbatim>\<open>opendbc/can/packer.py\<close>: building a CAN frame from signal values, with the
  automatic counter and the checksum. Signal values are floats (or integers a float can hold).
  Log messages have no effect in the model.
\<close>

record can_packer =
  packer_dbc :: dbc
  counters :: "nat \<rightharpoonup> int"

definition CANPacker_init :: "dbc \<Rightarrow> can_packer" where
  "CANPacker_init d = \<lparr>packer_dbc = d, counters = Map.empty\<rparr>"

section \<open>Packing\<close>

text \<open>\<^verbatim>\<open>int(math.floor((value - sig.offset) / sig.factor + 0.5))\<close>, each operation rounded.\<close>

definition quantise :: "rat \<Rightarrow> signal \<Rightarrow> int" where
  "quantise value sg = \<lfloor>fl (fl (fl (value - sig_offset sg) / factor sg) + 1 / 2)\<rfloor>"

definition pack_raw :: "rat \<Rightarrow> signal \<Rightarrow> int result" where
  "pack_raw value sg =
    (if factor sg = 0 then Inl ZeroDivisionError
     else let ival = quantise value sg
          in Inr (if ival < 0 then 2 ^ sig_size sg + ival else ival))"

definition is_counter :: "signal \<Rightarrow> bool" where
  "is_counter sg \<longleftrightarrow> sig_type sg = SignalType_COUNTER \<or> sig_name sg = ''COUNTER''"

definition is_checksum :: "signal \<Rightarrow> bool" where
  "is_checksum sg \<longleftrightarrow> sig_type sg > SignalType_COUNTER"

fun pack_values ::
    "nat \<Rightarrow> msg \<Rightarrow> (string \<times> rat) list \<Rightarrow> bytes \<Rightarrow> bool \<Rightarrow> (can_packer, bytes \<times> bool) meth" where
  "pack_values address m [] dat counter_set = sret (dat, counter_set)"
| "pack_values address m ((name, value) # vs) dat counter_set =
    (case map_of (msg_sigs m) name of
       None \<Rightarrow> pack_values address m vs dat counter_set
     | Some sg \<Rightarrow>
         sbind (slift (pack_raw value sg)) (\<lambda>ival.
         sbind (if is_counter sg then smodify (\<lambda>p. p\<lparr>counters := (counters p)(address \<mapsto> py_trunc value)\<rparr>)
                else sret ()) (\<lambda>_.
         pack_values address m vs (set_value dat sg ival) (counter_set \<or> is_counter sg))))"

definition auto_counter :: "nat \<Rightarrow> msg \<Rightarrow> bytes \<Rightarrow> bool \<Rightarrow> (can_packer, bytes) meth" where
  "auto_counter address m dat counter_set p =
    (case find is_counter (map snd (msg_sigs m)) of
       None \<Rightarrow> (Inr dat, p)
     | Some sg \<Rightarrow>
         (if counter_set then (Inr dat, p)
          else let c = (case counters p address of None \<Rightarrow> 0 | Some c \<Rightarrow> c)
               in (Inr (set_value dat sg c),
                   p\<lparr>counters := (counters p)(address \<mapsto> (c + 1) mod 2 ^ sig_size sg)\<rparr>)))"

definition fill_checksum :: "nat \<Rightarrow> msg \<Rightarrow> bytes \<Rightarrow> bytes result" where
  "fill_checksum address m dat =
    (case find is_checksum (map snd (msg_sigs m)) of
       None \<Rightarrow> Inr dat
     | Some sg \<Rightarrow>
         (case calc_checksum sg of
            None \<Rightarrow> Inr dat
          | Some c \<Rightarrow> ebind (apply_checksum c address sg dat) (\<lambda>(checksum, dat'). Inr (set_value dat' sg checksum))))"

definition pack :: "nat \<Rightarrow> (string \<times> rat) list \<Rightarrow> (can_packer, bytes) meth" where
  "pack address vs p =
    (case addr_to_msg (packer_dbc p) address of
       None \<Rightarrow> (Inr [], p)
     | Some m \<Rightarrow>
         sbind (pack_values address m vs (replicate (msg_size m) 0) False) (\<lambda>(dat, counter_set).
         sbind (auto_counter address m dat counter_set) (\<lambda>dat.
         slift (fill_checksum address m dat))) p)"

datatype msg_key = ByAddr nat | ByName string

definition key_to_msg :: "dbc \<Rightarrow> msg_key \<Rightarrow> msg option" where
  "key_to_msg d k = (case k of ByAddr a \<Rightarrow> addr_to_msg d a | ByName n \<Rightarrow> name_to_msg d n)"

definition make_can_msg :: "msg_key \<Rightarrow> int \<Rightarrow> (string \<times> rat) list \<Rightarrow> (can_packer, nat \<times> bytes \<times> int) meth" where
  "make_can_msg key bus vs p =
    (let addr = (case key of
        ByAddr a \<Rightarrow> Some a
      | ByName n \<Rightarrow> map_option msg_address (name_to_msg (packer_dbc p) n))
     in case addr of
          None \<Rightarrow> (Inr (0, [], bus), p)
        | Some a \<Rightarrow> sbind (pack a vs) (\<lambda>dat.
            if dat = [] then sret (0, [], bus) else sret (a, dat, bus)) p)"

section \<open>A frame is a sequence of writes\<close>

text \<open>The writes of the loop, in order.\<close>

fun pack_writes :: "msg \<Rightarrow> (string \<times> rat) list \<Rightarrow> (signal \<times> int) list result" where
  "pack_writes m [] = Inr []"
| "pack_writes m ((name, value) # vs) =
    (case map_of (msg_sigs m) name of
       None \<Rightarrow> pack_writes m vs
     | Some sg \<Rightarrow> ebind (pack_raw value sg) (\<lambda>ival. ebind (pack_writes m vs) (\<lambda>ws. Inr ((sg, ival) # ws))))"

abbreviation write_all :: "(signal \<times> int) list \<Rightarrow> bytes \<Rightarrow> bytes" where
  "write_all ws dat \<equiv> fold (\<lambda>(sg, v) d. set_value d sg v) ws dat"

text \<open>The counter that the loop leaves: that of the last counter value it was given.\<close>

fun pack_counter :: "msg \<Rightarrow> (string \<times> rat) list \<Rightarrow> int option" where
  "pack_counter m [] = None"
| "pack_counter m ((name, value) # vs) =
    (case pack_counter m vs of
       Some c \<Rightarrow> Some c
     | None \<Rightarrow> (case map_of (msg_sigs m) name of
         Some sg \<Rightarrow> (if is_counter sg then Some (py_trunc value) else None)
       | None \<Rightarrow> None))"

definition put_counter :: "nat \<Rightarrow> int option \<Rightarrow> can_packer \<Rightarrow> can_packer" where
  "put_counter address c p =
    (case c of None \<Rightarrow> p | Some v \<Rightarrow> p\<lparr>counters := (counters p)(address \<mapsto> v)\<rparr>)"

lemma put_counter_None [simp]: "put_counter a None p = p"
  by (simp add: put_counter_def)

lemma put_counter_dbc [simp]: "packer_dbc (put_counter a c p) = packer_dbc p"
  by (simp add: put_counter_def split: option.splits)

lemma put_counter_put [simp]: "put_counter a (Some c) (p\<lparr>counters := (counters p)(a \<mapsto> v)\<rparr>) = put_counter a (Some c) p"
  by (simp add: put_counter_def)

lemma pack_values_run:
  assumes "pack_values a m vs dat cs p = (Inr (dat', cs'), p')"
  shows "\<exists>ws. pack_writes m vs = Inr ws \<and> dat' = write_all ws dat \<and>
    cs' = (cs \<or> pack_counter m vs \<noteq> None) \<and> p' = put_counter a (pack_counter m vs) p"
  using assms
proof (induction vs arbitrary: dat cs p)
  case Nil
  then show ?case by (simp add: sret_def)
next
  case (Cons nv vs)
  obtain n v where nv: "nv = (n, v)" by (cases nv)
  show ?case
  proof (cases "map_of (msg_sigs m) n")
    case None
    with Cons.prems have "pack_values a m vs dat cs p = (Inr (dat', cs'), p')" by (simp add: nv)
    from Cons.IH [OF this] show ?thesis by (cases "pack_counter m vs") (simp_all add: nv None)
  next
    case (Some sg)
    then obtain ival where ival: "pack_raw v sg = Inr ival"
      using Cons.prems by (cases "pack_raw v sg") (auto simp: nv sbind_def slift_def sraise_def)
    let ?p = "if is_counter sg then p\<lparr>counters := (counters p)(a \<mapsto> py_trunc v)\<rparr> else p"
    have "pack_values a m vs (set_value dat sg ival) (cs \<or> is_counter sg) ?p = (Inr (dat', cs'), p')"
      using Cons.prems by (cases "is_counter sg") (simp_all add: nv Some ival sbind_def slift_def smodify_def sret_def)
    from Cons.IH [OF this] show ?thesis
      by (cases "pack_counter m vs"; cases "is_counter sg") (auto simp: nv Some ival put_counter_def)
  qed
qed

section \<open>What a packed frame holds\<close>

text \<open>
  The messages the lemmas are about: signals fit, do not overlap and have distinct names that agree
  with their keys, and a checksum field is where its function expects it. Multiplexed messages,
  whose signals share bits, are not covered.
\<close>

definition message_layout :: "msg \<Rightarrow> bool" where
  "message_layout m \<longleftrightarrow>
     distinct (map fst (msg_sigs m)) \<and>
     (\<forall>(n, sg)\<in>set (msg_sigs m). sig_name sg = n \<and> sig_ok sg (msg_size m) \<and>
        (case calc_checksum sg of None \<Rightarrow> True | Some c \<Rightarrow> checksum_layout c sg (msg_size m))) \<and>
     (\<forall>(n, sg)\<in>set (msg_sigs m). \<forall>(n', sg')\<in>set (msg_sigs m). n \<noteq> n' \<longrightarrow> sig_bits sg \<inter> sig_bits sg' = {})"

lemma message_layoutD:
  assumes "message_layout m" "sg \<in> snd ` set (msg_sigs m)"
  shows "sig_ok sg (msg_size m)" "map_of (msg_sigs m) (sig_name sg) = Some sg"
    "calc_checksum sg = Some c \<Longrightarrow> checksum_layout c sg (msg_size m)"
proof -
  obtain n where n: "(n, sg) \<in> set (msg_sigs m)" using assms(2) by force
  show "sig_ok sg (msg_size m)" using assms(1) n by (auto simp: message_layout_def)
  show "map_of (msg_sigs m) (sig_name sg) = Some sg" using assms(1) n by (auto simp: message_layout_def)
  show "calc_checksum sg = Some c \<Longrightarrow> checksum_layout c sg (msg_size m)"
    using assms(1) n by (fastforce simp: message_layout_def)
qed

lemma message_layout_apart:
  assumes "message_layout m" "sg \<in> snd ` set (msg_sigs m)" "sg' \<in> snd ` set (msg_sigs m)" "sg \<noteq> sg'"
  shows "sig_bits sg \<inter> sig_bits sg' = {}"
proof -
  have "(sig_name sg, sg) \<in> set (msg_sigs m)" "(sig_name sg', sg') \<in> set (msg_sigs m)"
    using message_layoutD(2) [OF assms(1)] assms(2,3) by (auto dest: map_of_SomeD)
  moreover have "sig_name sg \<noteq> sig_name sg'"
    using message_layoutD(2) [OF assms(1,2)] message_layoutD(2) [OF assms(1,3)] assms(4) by auto
  ultimately show ?thesis using assms(1) unfolding message_layout_def by fast
qed

lemma find_signal: "find P (map snd xs) = Some sg \<Longrightarrow> sg \<in> snd ` set xs \<and> P sg"
  by (induction xs) (auto split: if_splits)

lemma pack_writes_Cons:
  "pack_writes m ((n, v) # vs) = Inr ws \<longleftrightarrow>
    (case map_of (msg_sigs m) n of
       None \<Rightarrow> pack_writes m vs = Inr ws
     | Some sg \<Rightarrow> \<exists>i ws'. pack_raw v sg = Inr i \<and> pack_writes m vs = Inr ws' \<and> ws = (sg, i) # ws')"
  by (auto simp: ebind_eq_Inr split: option.splits)

lemma pack_writes_mem:
  assumes "pack_writes m vs = Inr ws" "(sg, i) \<in> set ws"
  shows "\<exists>(n, v)\<in>set vs. map_of (msg_sigs m) n = Some sg \<and> pack_raw v sg = Inr i"
  using assms
proof (induction vs arbitrary: ws)
  case (Cons nv vs)
  obtain n v where nv: "nv = (n, v)" by (cases nv)
  show ?case
  proof (cases "map_of (msg_sigs m) n")
    case None
    with Cons.prems(1) have "pack_writes m vs = Inr ws" by (simp only: nv pack_writes_Cons option.case)
    from Cons.IH [OF this Cons.prems(2)] show ?thesis by auto
  next
    case (Some sg')
    then obtain i' ws' where w: "pack_raw v sg' = Inr i'" "pack_writes m vs = Inr ws'" "ws = (sg', i') # ws'"
      using Cons.prems(1) by (auto simp only: nv pack_writes_Cons option.case)
    show ?thesis
    proof (cases "(sg, i) = (sg', i')")
      case True
      then show ?thesis using Some w(1) nv by auto
    next
      case False
      then have "(sg, i) \<in> set ws'" using Cons.prems(2) w(3) by auto
      from Cons.IH [OF w(2) this] show ?thesis by auto
    qed
  qed
qed simp

lemma pack_writes_value:
  assumes "pack_writes m vs = Inr ws" "(n, v) \<in> set vs" "map_of (msg_sigs m) n = Some sg"
  shows "\<exists>i. pack_raw v sg = Inr i \<and> (sg, i) \<in> set ws"
  using assms
proof (induction vs arbitrary: ws)
  case (Cons nv vs)
  obtain n' v' where nv: "nv = (n', v')" by (cases nv)
  show ?case
  proof (cases "map_of (msg_sigs m) n'")
    case None
    with Cons.prems show ?thesis using Cons.IH [of ws] by (auto simp: nv)
  next
    case (Some sg')
    then obtain i' ws' where w: "pack_raw v' sg' = Inr i'" "pack_writes m vs = Inr ws'" "ws = (sg', i') # ws'"
      using Cons.prems(1) by (auto simp only: nv pack_writes_Cons option.case)
    show ?thesis using Cons.IH [OF w(2)] Cons.prems(2,3) w Some by (cases "(n, v) = nv") (auto simp: nv)
  qed
qed simp

lemma pack_writes_signals: "pack_writes m vs = Inr ws \<Longrightarrow> fst ` set ws \<subseteq> snd ` set (msg_sigs m)"
  using pack_writes_mem by (fastforce dest!: map_of_SomeD intro: rev_image_eqI)

lemma pack_writes_distinct:
  assumes "message_layout m" "pack_writes m vs = Inr ws" "distinct (map fst vs)"
  shows "distinct (map fst ws)"
  using assms(2,3)
proof (induction vs arbitrary: ws)
  case (Cons nv vs)
  obtain n v where nv: "nv = (n, v)" by (cases nv)
  show ?case
  proof (cases "map_of (msg_sigs m) n")
    case None
    then show ?thesis using Cons nv by simp
  next
    case (Some sg)
    then obtain i ws' where ws: "pack_writes m vs = Inr ws'" "ws = (sg, i) # ws'"
      using Cons.prems(1) by (auto simp: nv ebind_eq_Inr)
    have name: "sig_name sg = n" using assms(1) map_of_SomeD [OF Some] by (auto simp: message_layout_def)
    have "sg \<notin> fst ` set ws'"
    proof
      assume "sg \<in> fst ` set ws'"
      then obtain i' where "(sg, i') \<in> set ws'" by force
      then obtain n' v' where n': "(n', v') \<in> set vs" "map_of (msg_sigs m) n' = Some sg"
        using pack_writes_mem [OF ws(1)] by blast
      have "sig_name sg = n'" using assms(1) map_of_SomeD [OF n'(2)] by (auto simp: message_layout_def)
      with name n'(1) Cons.prems(2) nv show False by force
    qed
    then show ?thesis using Cons.IH [OF ws(1)] Cons.prems(2) ws(2) nv by simp
  qed
qed simp

text \<open>All writes of a frame, the automatic counter included, are to distinct fields.\<close>

definition frame_writes :: "msg \<Rightarrow> (signal \<times> int) list \<Rightarrow> bool" where
  "frame_writes m ws \<longleftrightarrow> fst ` set ws \<subseteq> snd ` set (msg_sigs m) \<and> distinct (map fst ws)"

lemma write_all_length:
  assumes "message_layout m" "frame_writes m ws" "length dat = msg_size m"
  shows "length (write_all ws dat) = msg_size m"
proof -
  have "\<forall>(sg, v)\<in>set ws. sig_ok sg (msg_size m)"
    using assms(1,2) message_layoutD(1) by (fastforce simp: frame_writes_def)
  then show ?thesis using assms(3)
  proof (induction ws arbitrary: dat)
    case (Cons w ws)
    then show ?case by (cases w) (auto simp: sig_ok_def set_value_spec)
  qed simp
qed

lemma write_all_read:
  assumes "message_layout m" "frame_writes m ws" "length dat = msg_size m" "(sg, v) \<in> set ws"
  shows "raw_bits (write_all ws dat) sg (sig_size sg) = take_bit (sig_size sg) v"
proof (rule sig_field.load_fold)
  show "\<forall>(f, v)\<in>set ws. sig_ok f (length dat)"
    using assms(1-3) message_layoutD(1) by (fastforce simp: frame_writes_def)
  show "distinct (map fst ws)" using assms(2) by (simp add: frame_writes_def)
  show "sig_bits f \<inter> sig_bits sg = {}" if "f \<in> fst ` set ws" "f \<noteq> sg" for f
  proof -
    have "sg \<in> fst ` set ws" using assms(4) by force
    then show ?thesis using message_layout_apart [OF assms(1)] assms(2) that unfolding frame_writes_def by blast
  qed
qed (rule assms(4))

text \<open>The checksum is filled in last; it changes no other field and passes the check.\<close>

lemma fill_checksum_spec:
  assumes "message_layout m" "length dat = msg_size m" "fill_checksum a m dat = Inr dat'"
  shows "length dat' = msg_size m"
    and "\<And>sg. sg \<in> snd ` set (msg_sigs m) \<Longrightarrow> \<not> is_checksum sg \<Longrightarrow>
      raw_bits dat' sg (sig_size sg) = raw_bits dat sg (sig_size sg)"
    and "\<And>sg c. find is_checksum (map snd (msg_sigs m)) = Some sg \<Longrightarrow> calc_checksum sg = Some c \<Longrightarrow>
      \<exists>v e. get_raw_value dat' sg = Inr v \<and> apply_checksum c a sg dat' = Inr (v, e)"
proof -
  consider "dat' = dat" "\<And>sg. find is_checksum (map snd (msg_sigs m)) = Some sg \<Longrightarrow> calc_checksum sg = None"
    | sg c v e where "find is_checksum (map snd (msg_sigs m)) = Some sg" "calc_checksum sg = Some c"
      "apply_checksum c a sg dat = Inr (v, e)" "dat' = set_value e sg v"
    using assms(3) by (auto simp: fill_checksum_def ebind_eq_Inr split: option.splits)
  then have "length dat' = msg_size m \<and>
    (\<forall>sg. sg \<in> snd ` set (msg_sigs m) \<longrightarrow> \<not> is_checksum sg \<longrightarrow>
      raw_bits dat' sg (sig_size sg) = raw_bits dat sg (sig_size sg)) \<and>
    (\<forall>sg c. find is_checksum (map snd (msg_sigs m)) = Some sg \<longrightarrow> calc_checksum sg = Some c \<longrightarrow>
      (\<exists>v e. get_raw_value dat' sg = Inr v \<and> apply_checksum c a sg dat' = Inr (v, e)))"
  proof cases
    case 1
    then show ?thesis using assms(2) by auto
  next
    case (2 sg c v e)
    have sg: "sg \<in> snd ` set (msg_sigs m)" "is_checksum sg" using find_signal [OF 2(1)] by auto
    note ok = message_layoutD(1) [OF assms(1) sg(1)] and lay = message_layoutD(3) [OF assms(1) sg(1) 2(2)]
    have e: "agree sg dat e" using can_check.calc_frame [OF _ 2(3)] lay assms(2) by simp
    then have elen: "length e = msg_size m" using assms(2) by (simp add: agree_def)
    then have ag: "agree sg dat dat'" using agree_trans [OF e agree_set_value] ok 2(4) by simp
    have "raw_bits dat' sg' (sig_size sg') = raw_bits dat sg' (sig_size sg')"
      if "sg' \<in> snd ` set (msg_sigs m)" "\<not> is_checksum sg'" for sg'
    proof (rule raw_bits_cong)
      fix p assume "p \<in> sig_bits sg'"
      moreover have "sig_bits sg \<inter> sig_bits sg' = {}"
        using message_layout_apart [OF assms(1) sg(1) that(1)] sg(2) that(2) by auto
      ultimately show "bit_at dat' p = bit_at dat p" using ag unfolding agree_def by blast
    qed
    moreover have "get_raw_value dat' sg = Inr v" "\<exists>e. apply_checksum c a sg dat' = Inr (v, e)"
      using can_check.filled_passes [OF _ _ 2(3)] lay ok assms(2) 2(4) by simp_all
    ultimately show ?thesis using ag assms(2) 2(1,2) by (auto simp: agree_def)
  qed
  then show "length dat' = msg_size m"
    and "\<And>sg. sg \<in> snd ` set (msg_sigs m) \<Longrightarrow> \<not> is_checksum sg \<Longrightarrow>
      raw_bits dat' sg (sig_size sg) = raw_bits dat sg (sig_size sg)"
    and "\<And>sg c. find is_checksum (map snd (msg_sigs m)) = Some sg \<Longrightarrow> calc_checksum sg = Some c \<Longrightarrow>
      \<exists>v e. get_raw_value dat' sg = Inr v \<and> apply_checksum c a sg dat' = Inr (v, e)"
    by blast+
qed

section \<open>Packing returns\<close>

lemma vw_constants_length:
  "map_of VOLKSWAGEN_MQB_MEB_CONSTANTS a = Some l \<Longrightarrow> length l = 16"
  "map_of VOLKSWAGEN_MQB_MEB_GEN2_CONSTANTS a = Some (n, l') \<Longrightarrow> 2 \<le> n \<and> length l' = 16"
proof -
  have "list_all (\<lambda>(_, l). length l = 16) VOLKSWAGEN_MQB_MEB_CONSTANTS"
    by (simp add: VOLKSWAGEN_MQB_MEB_CONSTANTS_def)
  then show "map_of VOLKSWAGEN_MQB_MEB_CONSTANTS a = Some l \<Longrightarrow> length l = 16"
    by (auto simp: list_all_iff dest!: map_of_SomeD)
  have "list_all (\<lambda>(_, n, l). 2 \<le> n \<and> length l = 16) VOLKSWAGEN_MQB_MEB_GEN2_CONSTANTS"
    by (simp add: VOLKSWAGEN_MQB_MEB_GEN2_CONSTANTS_def)
  then show "map_of VOLKSWAGEN_MQB_MEB_GEN2_CONSTANTS a = Some (n, l') \<Longrightarrow> 2 \<le> n \<and> length l' = 16"
    by (auto simp: list_all_iff dest!: map_of_SomeD)
qed

lemma mqb_total:
  assumes "2 \<le> length d" "\<And>l. c = Some l \<Longrightarrow> length l = 16"
  shows "\<exists>b. volkswagen_mqb_meb_checksum_of a d c = Inr b"
proof -
  have idx: "\<exists>m. py_index l (unat (b AND 0x0F)) = Inr m" if "length l = 16" for l and b :: byte
  proof -
    have "b AND 0x0F = take_bit 4 b" by (simp add: take_bit_eq_mask mask_eq_exp_minus_1)
    then have "unat (b AND 0x0F) < 16" by (simp add: unsigned_take_bit_eq take_bit_nat_less_exp [of 4, simplified])
    then show ?thesis using that by (simp add: py_index_def)
  qed
  obtain b where b: "py_index d 1 = Inr b" using assms(1) by (simp add: py_index_def)
  show ?thesis
  proof (cases "case c of None \<Rightarrow> map_of VOLKSWAGEN_MQB_MEB_CONSTANTS a | Some l \<Rightarrow> Some l")
    case None
    then show ?thesis by (simp only: volkswagen_mqb_meb_checksum_of_def Let_def b ebind.simps option.case) simp
  next
    case (Some l)
    then have "length l = 16" using assms(2) vw_constants_length(1) by (cases c) auto
    then obtain m where "py_index l (unat (b AND 0x0F)) = Inr m" using idx by blast
    then show ?thesis using Some
      by (simp only: volkswagen_mqb_meb_checksum_of_def Let_def b ebind.simps option.case) simp
  qed
qed

lemma gen2_total: "2 \<le> length d \<Longrightarrow> \<exists>b. volkswagen_mqb_meb_gen2_checksum_of a d = Inr b"
proof (cases "map_of VOLKSWAGEN_MQB_MEB_GEN2_CONSTANTS a")
  case None
  assume "2 \<le> length d"
  then show ?thesis using mqb_total [of d None a] None by (simp add: volkswagen_mqb_meb_gen2_checksum_of_def)
next
  case (Some e)
  assume d: "2 \<le> length d"
  obtain n l where e: "e = (n, l)" by (cases e)
  have "2 \<le> n" "length l = 16" using vw_constants_length(2) Some e by blast+
  then obtain b where "volkswagen_mqb_meb_checksum_of a (take n d) (Some l) = Inr b"
    using mqb_total [of "take n d" "Some l" a] d by auto
  moreover obtain b' where "volkswagen_mqb_meb_checksum_of a d None = Inr b'" using mqb_total [OF d] by blast
  moreover obtain b0 where "py_index d 0 = Inr b0" using d by (cases d) auto
  ultimately show ?thesis
    by (simp add: volkswagen_mqb_meb_gen2_checksum_of_def volkswagen_mqb_meb_dyn_len_checksum_of_def Some e)
qed

lemma apply_checksum_total:
  assumes "checksum_layout c sg (length d)" "sig_ok sg (length d)" "2 \<le> length d"
  shows "\<exists>v e. apply_checksum c a sg d = Inr (v, e)"
proof (cases "c = psa_checksum")
  case True
  have "sig_bits sg = (if 4 \<le> start_bit sg mod 8 then {8 * (start_bit sg div 8) + 4..<8 * (start_bit sg div 8) + 8}
      else {8 * (start_bit sg div 8)..<8 * (start_bit sg div 8) + 4})"
    using assms(1) True by (simp add: checksum_layout_def Let_def)
  then have "8 * (start_bit sg div 8) + (if 4 \<le> start_bit sg mod 8 then 4 else 0) \<in> sig_bits sg" by auto
  moreover have "p < 8 * length d" if "p \<in> sig_bits sg" for p
    using assms(2) that by (auto simp: sig_ok_def sig_fits_def sig_bits_def)
  ultimately have "8 * (start_bit sg div 8) < 8 * length d" by fastforce
  then have "start_bit sg div 8 < length d" by simp
  then show ?thesis using True by (simp add: apply_checksum_def psa_checksum_of_def Let_def)
next
  case False
  then show ?thesis using mqb_total [OF assms(3), of None a] gen2_total [OF assms(3), of a]
    by (cases c)
      (auto simp: apply_checksum_def byte_value_def volkswagen_mlb_checksum_of_def split: option.splits)
qed

text \<open>The frame before the checksum.\<close>

definition can_pack :: "msg \<Rightarrow> bool" where
  "can_pack m \<longleftrightarrow> message_layout m \<and> 2 \<le> msg_size m \<and> (\<forall>(n, sg)\<in>set (msg_sigs m). factor sg \<noteq> 0)"

lemma pack_raw_Inr: "factor sg \<noteq> 0 \<Longrightarrow> \<exists>i. pack_raw v sg = Inr i"
  by (simp add: pack_raw_def Let_def)

lemma pack_writes_total:
  assumes "\<forall>(n, sg)\<in>set (msg_sigs m). factor sg \<noteq> 0"
  shows "\<exists>ws. pack_writes m vs = Inr ws"
proof (induction vs)
  case (Cons nv vs)
  obtain n v where nv: "nv = (n, v)" by (cases nv)
  show ?case
  proof (cases "map_of (msg_sigs m) n")
    case (Some sg)
    then have "factor sg \<noteq> 0" using assms by (auto dest: map_of_SomeD)
    then obtain i where "pack_raw v sg = Inr i" using pack_raw_Inr by blast
    with Some Cons.IH show ?thesis by (auto simp: nv)
  qed (use Cons.IH nv in simp)
qed simp

lemma pack_values_total:
  assumes "\<forall>(n, sg)\<in>set (msg_sigs m). factor sg \<noteq> 0"
  shows "\<exists>r p'. pack_values a m vs dat cs p = (Inr r, p')"
proof (induction vs arbitrary: dat cs p)
  case (Cons nv vs)
  obtain n v where nv: "nv = (n, v)" by (cases nv)
  show ?case
  proof (cases "map_of (msg_sigs m) n")
    case (Some sg)
    then have "factor sg \<noteq> 0" using assms by (auto dest: map_of_SomeD)
    then obtain i where "pack_raw v sg = Inr i" using pack_raw_Inr by blast
    with Some Cons.IH show ?thesis
      by (cases "is_counter sg") (simp_all add: nv sbind_def slift_def smodify_def sret_def)
  qed (use Cons.IH nv in simp)
qed (simp add: sret_def)

text \<open>The whole run of \<open>pack\<close>, as one list of writes and the checksum.\<close>

definition sent_counter :: "can_packer \<Rightarrow> nat \<Rightarrow> int" where
  "sent_counter p a = (case counters p a of None \<Rightarrow> 0 | Some c \<Rightarrow> c)"

definition counter_writes :: "can_packer \<Rightarrow> nat \<Rightarrow> msg \<Rightarrow> (string \<times> rat) list \<Rightarrow> (signal \<times> int) list" where
  "counter_writes p a m vs =
    (case find is_counter (map snd (msg_sigs m)) of
       None \<Rightarrow> []
     | Some sg \<Rightarrow> (if pack_counter m vs \<noteq> None then [] else [(sg, sent_counter p a)]))"

definition next_counter :: "can_packer \<Rightarrow> nat \<Rightarrow> msg \<Rightarrow> (string \<times> rat) list \<Rightarrow> int option" where
  "next_counter p a m vs =
    (case pack_counter m vs of
       Some c \<Rightarrow> Some c
     | None \<Rightarrow> map_option (\<lambda>sg. (sent_counter p a + 1) mod 2 ^ sig_size sg) (find is_counter (map snd (msg_sigs m))))"

lemma auto_counter_run:
  assumes "cs = (pack_counter m vs \<noteq> None)"
  shows "auto_counter a m dat cs (put_counter a (pack_counter m vs) p) =
    (Inr (write_all (counter_writes p a m vs) dat), put_counter a (next_counter p a m vs) p)"
  using assms
  by (cases "pack_counter m vs")
    (auto simp: auto_counter_def counter_writes_def next_counter_def sent_counter_def put_counter_def
      split: option.splits)

lemma pack_run:
  assumes "addr_to_msg (packer_dbc p) a = Some m" "can_pack m"
  obtains ws dat where "pack_writes m vs = Inr ws" "pack a vs p = (Inr dat, put_counter a (next_counter p a m vs) p)"
    "fill_checksum a m (write_all (ws @ counter_writes p a m vs) (replicate (msg_size m) 0)) = Inr dat"
    "distinct (map fst vs) \<Longrightarrow> frame_writes m (ws @ counter_writes p a m vs)"
proof -
  have m: "message_layout m" "2 \<le> msg_size m" "\<forall>(n, sg)\<in>set (msg_sigs m). factor sg \<noteq> 0"
    using assms(2) by (simp_all add: can_pack_def)
  obtain dat1 cs p1 where r: "pack_values a m vs (replicate (msg_size m) 0) False p = (Inr (dat1, cs), p1)"
    using pack_values_total [OF m(3)] by (metis surj_pair)
  obtain ws where ws: "pack_writes m vs = Inr ws" "dat1 = write_all ws (replicate (msg_size m) 0)"
    "cs = (pack_counter m vs \<noteq> None)" "p1 = put_counter a (pack_counter m vs) p"
    using pack_values_run [OF r] by auto
  let ?ws = "ws @ counter_writes p a m vs"
  let ?dat = "write_all ?ws (replicate (msg_size m) 0)"
  have fw: "frame_writes m ?ws" if "distinct (map fst vs)"
  proof -
    have c: "fst ` set (counter_writes p a m vs) \<subseteq> snd ` set (msg_sigs m)"
      by (cases "find is_counter (map snd (msg_sigs m))") (auto simp: counter_writes_def dest: find_signal)
    have "sg \<notin> fst ` set ws" if s: "(sg, c) \<in> set (counter_writes p a m vs)" for sg c
    proof
      assume "sg \<in> fst ` set ws"
      then obtain i where "(sg, i) \<in> set ws" by force
      then obtain n v where "(n, v) \<in> set vs" "map_of (msg_sigs m) n = Some sg" using pack_writes_mem [OF ws(1)] by blast
      moreover have "is_counter sg" "pack_counter m vs = None"
        using s by (cases "find is_counter (map snd (msg_sigs m))";
          auto simp: counter_writes_def dest: find_signal split: if_splits)+
      moreover have "pack_counter m xs \<noteq> None" if "(n, v) \<in> set xs" "map_of (msg_sigs m) n = Some sg" "is_counter sg" for xs
        using that by (induction xs) (auto split: option.splits)
      ultimately show False by blast
    qed
    then have "fst ` set ws \<inter> fst ` set (counter_writes p a m vs) = {}" by (force simp: disjoint_iff)
    moreover have "distinct (map fst (counter_writes p a m vs))"
      by (simp add: counter_writes_def split: option.splits)
    ultimately show ?thesis
      using pack_writes_distinct [OF m(1) ws(1) that] pack_writes_signals [OF ws(1)] c
      by (simp only: frame_writes_def set_append image_Un map_append distinct_append set_map) blast
  qed
  have "\<forall>(sg, v)\<in>set ?ws. sg \<in> snd ` set (msg_sigs m)"
  proof -
    have "sg \<in> snd ` set (msg_sigs m)" if "(sg, v) \<in> set ws" for sg v
      using pack_writes_signals [OF ws(1)] that by force
    then show ?thesis
      by (cases "find is_counter (map snd (msg_sigs m))") (auto simp: counter_writes_def dest: find_signal)
  qed
  then have len: "length ?dat = msg_size m"
  proof -
    assume *: "\<forall>(sg, v)\<in>set ?ws. sg \<in> snd ` set (msg_sigs m)"
    have "length (write_all xs d) = msg_size m"
      if "\<forall>(sg, v)\<in>set xs. sg \<in> snd ` set (msg_sigs m)" "length d = msg_size m" for xs d
      using that
    proof (induction xs arbitrary: d)
      case (Cons x xs)
      then show ?case using message_layoutD(1) [OF m(1)] by (cases x) (auto simp: sig_ok_def set_value_spec)
    qed simp
    then show ?thesis using * by simp
  qed
  have "\<exists>dat. fill_checksum a m ?dat = Inr dat"
  proof (cases "find is_checksum (map snd (msg_sigs m))")
    case (Some sg)
    have sg: "sg \<in> snd ` set (msg_sigs m)" using find_signal [OF Some] by blast
    have "\<exists>v e. apply_checksum c a sg ?dat = Inr (v, e)" if "calc_checksum sg = Some c" for c
      using message_layoutD(1,3) [OF m(1) sg] that m(2) len by (intro apply_checksum_total) simp_all
    then show ?thesis using Some by (cases "calc_checksum sg") (force simp: fill_checksum_def)+
  qed (simp add: fill_checksum_def)
  then obtain dat where dat: "fill_checksum a m ?dat = Inr dat" by blast
  have "pack a vs p = (Inr dat, put_counter a (next_counter p a m vs) p)"
    using assms(1) r auto_counter_run [OF ws(3), of a dat1 p] dat ws(2,4)
    by (simp add: pack_def sbind_def slift_def)
  then show ?thesis using that ws(1) dat fw by blast
qed

lemma pack_frame:
  assumes "addr_to_msg (packer_dbc p) a = Some m" "can_pack m" "distinct (map fst vs)"
  shows "\<exists>dat p'. pack a vs p = (Inr dat, p') \<and> packer_dbc p' = packer_dbc p \<and> length dat = msg_size m \<and>
    (\<forall>n v sg. (n, v) \<in> set vs \<longrightarrow> map_of (msg_sigs m) n = Some sg \<longrightarrow> \<not> is_checksum sg \<longrightarrow>
       get_raw_value dat sg = Inr (quantise v sg mod 2 ^ sig_size sg)) \<and>
    (\<forall>sg. find is_counter (map snd (msg_sigs m)) = Some sg \<longrightarrow> \<not> is_checksum sg \<longrightarrow>
       pack_counter m vs = None \<longrightarrow>
       get_raw_value dat sg = Inr (sent_counter p a mod 2 ^ sig_size sg) \<and>
       counters p' a = Some ((sent_counter p a + 1) mod 2 ^ sig_size sg)) \<and>
    (\<forall>sg c. find is_checksum (map snd (msg_sigs m)) = Some sg \<longrightarrow> calc_checksum sg = Some c \<longrightarrow>
       (\<exists>v e. get_raw_value dat sg = Inr v \<and> apply_checksum c a sg dat = Inr (v, e)))"
proof -
  obtain ws dat where ws: "pack_writes m vs = Inr ws"
    and run: "pack a vs p = (Inr dat, put_counter a (next_counter p a m vs) p)"
    and fill: "fill_checksum a m (write_all (ws @ counter_writes p a m vs) (replicate (msg_size m) 0)) = Inr dat"
    and fw: "frame_writes m (ws @ counter_writes p a m vs)"
    using pack_run [OF assms(1,2)] assms(3) by metis
  let ?ws = "ws @ counter_writes p a m vs"
  let ?dat = "write_all ?ws (replicate (msg_size m) 0)"
  have m: "message_layout m" using assms(2) by (simp add: can_pack_def)
  have len: "length ?dat = msg_size m" by (rule write_all_length [OF m fw]) simp
  note fc = fill_checksum_spec [OF m len fill]
  have read: "get_raw_value dat sg = Inr (take_bit (sig_size sg) v)"
    if "(sg, v) \<in> set ?ws" "\<not> is_checksum sg" for sg v
  proof -
    have sg: "sg \<in> snd ` set (msg_sigs m)" using fw that(1) unfolding frame_writes_def by force
    have "sig_wf sg" "sig_fits sg (length dat)" using message_layoutD(1) [OF m sg] fc(1) by (simp_all add: sig_ok_def)
    then have "get_raw_value dat sg = Inr (raw_bits dat sg (sig_size sg))" by (rule get_raw_value_spec)
    also have "raw_bits dat sg (sig_size sg) = raw_bits ?dat sg (sig_size sg)" by (rule fc(2) [OF sg that(2)])
    also have "\<dots> = take_bit (sig_size sg) v" by (rule write_all_read [OF m fw _ that(1)]) simp
    finally show ?thesis .
  qed
  have "get_raw_value dat sg = Inr (quantise v sg mod 2 ^ sig_size sg)"
    if t: "(n, v) \<in> set vs" "map_of (msg_sigs m) n = Some sg" "\<not> is_checksum sg" for n v sg
  proof -
    obtain i where i: "pack_raw v sg = Inr i" "(sg, i) \<in> set ws" using pack_writes_value [OF ws t(1,2)] by blast
    have "take_bit (sig_size sg) i = quantise v sg mod 2 ^ sig_size sg"
      using i(1) by (auto simp: pack_raw_def Let_def take_bit_eq_mod split: if_splits)
    then show ?thesis using read [of sg i] i(2) t(3) by simp
  qed
  moreover have "get_raw_value dat sg = Inr (sent_counter p a mod 2 ^ sig_size sg) \<and>
      counters (put_counter a (next_counter p a m vs) p) a = Some ((sent_counter p a + 1) mod 2 ^ sig_size sg)"
    if "find is_counter (map snd (msg_sigs m)) = Some sg" "\<not> is_checksum sg" "pack_counter m vs = None" for sg
  proof -
    have "(sg, sent_counter p a) \<in> set ?ws" using that by (simp add: counter_writes_def)
    then show ?thesis using read [OF _ that(2)] that by (simp add: take_bit_eq_mod next_counter_def put_counter_def)
  qed
  ultimately show ?thesis using run fc(1,3) put_counter_dbc by blast
qed

section \<open>Properties\<close>


text \<open>A message of a Toyota database, for the witnesses: a flag, a 6-bit counter, a checksum.\<close>

definition flag_field :: signal where
  "flag_field =
    \<lparr>sig_name = ''STEER_REQUEST'', start_bit = 0, sig_msb = 0, sig_lsb = 0, sig_size = 1, is_signed = False,
     factor = 1, sig_offset = 0, is_little_endian = False, sig_type = 0, calc_checksum = None\<rparr>"

definition counter_field :: signal where
  "counter_field =
    \<lparr>sig_name = ''COUNTER'', start_bit = 6, sig_msb = 6, sig_lsb = 1, sig_size = 6, is_signed = False,
     factor = 1, sig_offset = 0, is_little_endian = False, sig_type = 1, calc_checksum = None\<rparr>"

definition lka_msg :: msg where
  "lka_msg =
    \<lparr>msg_name = ''STEERING_LKA'', msg_address = 740, msg_size = 5,
     msg_sigs = [(''STEER_REQUEST'', flag_field), (''COUNTER'', counter_field), (''CHECKSUM'', toyota_field)]\<rparr>"

definition lka_dbc :: dbc where
  "lka_dbc =
    \<lparr>dbc_name = ''toyota_nodsu_pt_generated'', msg_store = [lka_msg], addr_index = [(740, 0)],
     name_index = [(''STEERING_LKA'', 0)], vals_defs = [], cur_address = 740\<rparr>"

lemma lka_fields:
  "sig_wf flag_field" "sig_wf counter_field" "sig_bits flag_field = {0..<1}" "sig_bits counter_field = {1..<7}"
proof -
  show wf: "sig_wf flag_field" "sig_wf counter_field"
    by (simp_all add: sig_wf_def flag_field_def counter_field_def be_index_def)
  show "sig_bits flag_field = {0..<1}" "sig_bits counter_field = {1..<7}"
    using sig_bits_in_byte [OF wf(1)] sig_bits_in_byte [OF wf(2)] by (simp_all add: flag_field_def counter_field_def)
qed

lemma sig_ok_bits: "sig_wf sg \<Longrightarrow> sig_bits sg \<subseteq> {..<8 * n} \<Longrightarrow> sig_ok sg n"
  by (auto simp: sig_ok_def sig_fits_def sig_bits_def)

lemma lka_can_pack: "can_pack lka_msg"
proof -
  have ok: "sig_ok flag_field 5" "sig_ok counter_field 5" "sig_ok toyota_field 5"
    by (rule sig_ok_bits; simp add: lka_fields toyota_field_wf toyota_field_bits subset_eq)+
  have "checksum_layout toyota_checksum toyota_field 5"
    by (simp add: checksum_layout_def toyota_field_bits, simp add: toyota_field_def)
  moreover have "calc_checksum flag_field = None" "calc_checksum counter_field = None"
    "calc_checksum toyota_field = Some toyota_checksum" "sig_name flag_field = ''STEER_REQUEST''"
    "sig_name counter_field = ''COUNTER''" "sig_name toyota_field = ''CHECKSUM''"
    "factor flag_field = 1" "factor counter_field = 1" "factor toyota_field = 1"
    by (simp_all add: flag_field_def counter_field_def toyota_field_def)
  moreover have "{0..<1} \<inter> {1..<7} = ({} :: nat set)" "{0..<1} \<inter> {32..<40} = ({} :: nat set)"
    "{1..<7} \<inter> {32..<40} = ({} :: nat set)" by auto
  ultimately show ?thesis
    using ok by (simp add: can_pack_def message_layout_def lka_msg_def lka_fields toyota_field_bits Int_commute)
qed

lemma lka_lookup: "addr_to_msg (packer_dbc (CANPacker_init lka_dbc)) 740 = Some lka_msg"
  by (simp add: addr_to_msg_def CANPacker_init_def lka_dbc_def)


end
