(* ===== verification/CanParser.thy ===== *)
theory CanParser
  imports CanPacker
begin

text \<open>
  \<^verbatim>\<open>opendbc/can/parser.py\<close>: decoding of received frames. \<^verbatim>\<open>MessageState\<close> checks the checksum and the
  counter of a message and keeps its decoded values; \<^verbatim>\<open>CANParser\<close> dispatches the frames of its bus
  and judges whether the bus is alive. Times are integers of nanoseconds; signal values, frequencies
  and thresholds are floats. The lists of \<^verbatim>\<open>vl_all\<close> are the objects in \<open>all_vals\<close> of the message
  states, so they are kept there. Writing a log line has no effect but the time that is kept to
  limit the rate.
\<close>

section \<open>State of a message\<close>

definition MAX_BAD_COUNTER :: int where "MAX_BAD_COUNTER = 5"
definition CAN_INVALID_CNT :: int where "CAN_INVALID_CNT = 5"

record message_state =
  ms_address :: nat
  ms_name :: string
  ms_size :: nat
  ms_signals :: "signal list"
  ignore_alive :: bool
  ignore_checksum :: bool
  ignore_counter :: bool
  frequency :: rat
  timeout_threshold :: rat
  vals :: "rat list"
  all_vals :: "rat list list"
  timestamps :: "int list"
  ms_counter :: int
  counter_fail :: int
  first_seen_nanos :: int
  last_warning_log_nanos :: int

definition rate_limited_log :: "int \<Rightarrow> message_state \<Rightarrow> message_state" where
  "rate_limited_log last_update_nanos s =
    (if last_update_nanos - last_warning_log_nanos s \<ge> 1000000000
     then s\<lparr>last_warning_log_nanos := last_update_nanos\<rparr> else s)"

definition update_counter :: "int \<Rightarrow> nat \<Rightarrow> message_state \<Rightarrow> bool \<times> message_state" where
  "update_counter cur_count cnt_size s =
    (let fail = (if (ms_counter s + 1) AND mask cnt_size \<noteq> cur_count
                 then min (counter_fail s + 1) MAX_BAD_COUNTER
                 else if counter_fail s > 0 then counter_fail s - 1 else counter_fail s)
     in (fail < MAX_BAD_COUNTER, s\<lparr>counter_fail := fail, ms_counter := cur_count\<rparr>))"

section \<open>Parsing a frame\<close>

text \<open>The sign bit; with a width of 0 the shift count is negative.\<close>

definition signed_value :: "signal \<Rightarrow> int \<Rightarrow> int result" where
  "signed_value sg tmp =
    (if \<not> is_signed sg then Inr tmp
     else if sig_size sg = 0 then Inl ValueError
     else Inr (tmp - (drop_bit (sig_size sg - 1) tmp AND 1) * 2 ^ sig_size sg))"

definition decode_value :: "signal \<Rightarrow> int \<Rightarrow> rat" where
  "decode_value sg tmp = fl (fl (fl (of_int tmp) * factor sg) + sig_offset sg)"

definition check_field :: "int \<Rightarrow> bytes \<Rightarrow> signal \<Rightarrow> int \<Rightarrow> (message_state, bool) meth" where
  "check_field nanos dat sg tmp s =
    (case calc_checksum sg of
       None \<Rightarrow> (Inr False, s)
     | Some c \<Rightarrow>
         (if ignore_checksum s then (Inr False, s)
          else case apply_checksum c (ms_address s) sg dat of
                 Inl x \<Rightarrow> (Inl x, s)
               | Inr (expected, _) \<Rightarrow>
                   (if tmp \<noteq> expected then (Inr True, rate_limited_log nanos s) else (Inr False, s))))"

definition check_counter :: "signal \<Rightarrow> int \<Rightarrow> (message_state, bool) meth" where
  "check_counter sg tmp s =
    (if \<not> ignore_counter s \<and> sig_type sg = SignalType_COUNTER
     then let (ok, s') = update_counter tmp (sig_size sg) s in (Inr (\<not> ok), s')
     else (Inr False, s))"

fun parse_signals :: "int \<Rightarrow> bytes \<Rightarrow> signal list \<Rightarrow> (message_state, rat list \<times> bool \<times> bool) meth" where
  "parse_signals nanos dat [] = sret ([], False, False)"
| "parse_signals nanos dat (sg # sgs) =
    sbind (slift (ebind (get_raw_value dat sg) (signed_value sg))) (\<lambda>tmp.
    sbind (check_field nanos dat sg tmp) (\<lambda>checksum_failed.
    sbind (check_counter sg tmp) (\<lambda>counter_failed.
    sbind (parse_signals nanos dat sgs) (\<lambda>(vs, cf, nf).
    sret (decode_value sg tmp # vs, checksum_failed \<or> cf, counter_failed \<or> nf)))))"

definition learn_frequency :: "message_state \<Rightarrow> message_state" where
  "learn_frequency s =
    (if frequency s < fl (1 / 100000) \<and> 3 \<le> length (timestamps s)
     then let dt = fl (fl (of_int (last (timestamps s) - hd (timestamps s))) * fl (1 / 1000000000))
          in if (1 < dt \<or> 500 \<le> length (timestamps s)) \<and> dt \<noteq> 0
             then let f = min (fl (of_nat (length (timestamps s)) / dt)) 100
                  in s\<lparr>frequency := f, timeout_threshold := fl (fl (1000000000 / f) * 10)\<rparr>
             else s
     else s)"

text \<open>\<^verbatim>\<open>timestamps\<close> is a deque of at most 500 entries.\<close>

definition push_500 :: "int \<Rightarrow> int list \<Rightarrow> int list" where
  "push_500 t ts = (let ts' = ts @ [t] in drop (length ts' - 500) ts')"

definition accept_values :: "int \<Rightarrow> rat list \<Rightarrow> message_state \<Rightarrow> message_state" where
  "accept_values nanos vs s =
    (let all = (if vals s = [] then map (\<lambda>_. []) (ms_signals s) else all_vals s)
     in learn_frequency (s\<lparr>vals := vs, all_vals := map2 (\<lambda>l v. l @ [v]) all vs,
                           timestamps := push_500 nanos (timestamps s)\<rparr>))"

definition parse_message :: "int \<Rightarrow> bytes \<Rightarrow> (message_state, bool) meth" where
  "parse_message nanos dat s =
    (let s0 = (if first_seen_nanos s = 0 then s\<lparr>first_seen_nanos := nanos\<rparr> else s)
     in sbind (parse_signals nanos dat (ms_signals s0)) (\<lambda>(vs, checksum_failed, counter_failed).
        if checksum_failed \<or> counter_failed then sret False
        else sbind (smodify (accept_values nanos vs)) (\<lambda>_. sret True)) s0)"

definition message_valid :: "int \<Rightarrow> message_state \<Rightarrow> bool" where
  "message_valid current_nanos s \<longleftrightarrow>
     ignore_alive s \<or>
     (timestamps s \<noteq> [] \<and> \<not> of_int (current_nanos - last (timestamps s)) > timeout_threshold s)"

section \<open>The parser of a bus\<close>

datatype freq_arg = NoFreq | NaNFreq | Freq rat

record can_parser =
  cp_dbc :: dbc
  cp_bus :: int
  vl :: "(nat \<times> (string \<times> rat) list) list"
  ts_nanos :: "(nat \<times> (string \<times> int) list) list"
  vl_names :: "(string \<times> nat) list"
  message_states :: "(nat \<times> message_state) list"
  can_invalid_cnt :: int
  last_nonempty_nanos :: int
  last_update_nanos :: int

definition freq_value :: "freq_arg \<Rightarrow> rat" where
  "freq_value f = (case f of Freq q \<Rightarrow> (if 0 < q then q else 1) | _ \<Rightarrow> 1)"

definition MessageState_init :: "msg \<Rightarrow> freq_arg \<Rightarrow> message_state" where
  "MessageState_init m f =
    \<lparr>ms_address = msg_address m, ms_name = msg_name m, ms_size = msg_size m,
     ms_signals = map snd (msg_sigs m), ignore_alive = (f = NaNFreq), ignore_checksum = False,
     ignore_counter = False,
     frequency = (case f of Freq q \<Rightarrow> (if 0 < q then q else 0) | _ \<Rightarrow> 0),
     timeout_threshold = fl (fl (1000000000 / freq_value f) * 10),
     vals = [], all_vals = [], timestamps = [], ms_counter = 0, counter_fail = 0, first_seen_nanos = 0,
     last_warning_log_nanos = 0\<rparr>"

definition add_message :: "msg_key \<Rightarrow> freq_arg \<Rightarrow> (can_parser, unit) meth" where
  "add_message key f p =
    (case key_to_msg (cp_dbc p) key of
       None \<Rightarrow> (Inl AssertionError, p)
     | Some m \<Rightarrow>
         (if msg_address m \<in> fst ` set (message_states p) then (Inl AssertionError, p)
          else (Inr (), p
            \<lparr>vl := AList.update (msg_address m) (map (\<lambda>(n, _). (n, 0)) (msg_sigs m)) (vl p),
             ts_nanos := AList.update (msg_address m) (map (\<lambda>(n, _). (n, 0)) (msg_sigs m)) (ts_nanos p),
             vl_names := AList.update (msg_name m) (msg_address m) (vl_names p),
             message_states := message_states p @ [(msg_address m, MessageState_init m f)]\<rparr>)))"

fun add_messages :: "(msg_key \<times> freq_arg) list \<Rightarrow> (can_parser, unit) meth" where
  "add_messages [] = sret ()"
| "add_messages ((key, f) # ms) = (\<lambda>p.
    (case key_to_msg (cp_dbc p) key of
       None \<Rightarrow> (Inl RuntimeError, p)
     | Some m \<Rightarrow>
         (if msg_address m \<in> fst ` set (message_states p) then (Inl RuntimeError, p)
          else sbind (add_message key f) (\<lambda>_. add_messages ms) p)))"

definition CANParser_init :: "dbc \<Rightarrow> (msg_key \<times> freq_arg) list \<Rightarrow> int \<Rightarrow> can_parser result" where
  "CANParser_init d ms bus =
    (case add_messages ms
       \<lparr>cp_dbc = d, cp_bus = bus, vl = [], ts_nanos = [], vl_names = [], message_states = [], can_invalid_cnt = CAN_INVALID_CNT,
        last_nonempty_nanos = 0, last_update_nanos = 0\<rparr> of
       (Inl x, _) \<Rightarrow> Inl x
     | (Inr _, p) \<Rightarrow> Inr p)"

text \<open>
  The keys of \<^verbatim>\<open>vl\<close> are addresses and names; the name shares the dictionary of the address it was
  added with. \<^verbatim>\<open>vl[key]\<close> adds the message when the key is new.
\<close>

definition vl_lookup :: "can_parser \<Rightarrow> msg_key \<Rightarrow> (string \<times> rat) list option" where
  "vl_lookup p key =
    (case key of
       ByAddr a \<Rightarrow> map_of (vl p) a
     | ByName n \<Rightarrow> (case map_of (vl_names p) n of None \<Rightarrow> None | Some a \<Rightarrow> map_of (vl p) a))"

definition vl_get :: "msg_key \<Rightarrow> (can_parser, (string \<times> rat) list) meth" where
  "vl_get key p =
    (case vl_lookup p key of
       Some d \<Rightarrow> (Inr d, p)
     | None \<Rightarrow> sbind (add_message key NoFreq) (\<lambda>_ p'.
         (case vl_lookup p' key of None \<Rightarrow> Inl KeyError | Some d \<Rightarrow> Inr d, p')) p)"

definition bus_timeout :: "can_parser \<Rightarrow> bool" where
  "bus_timeout p =
    (let sts = map snd (message_states p);
         ignore = list_all ignore_alive sts;
         threshold = fold (\<lambda>st t. if 0 < timeout_threshold st then min t (timeout_threshold st) else t) sts 500000000
     in of_int (last_update_nanos p - last_nonempty_nanos p) > threshold \<and> \<not> ignore)"

definition note_invalid :: "int \<Rightarrow> message_state \<Rightarrow> message_state" where
  "note_invalid t st =
    (let st = (if MAX_BAD_COUNTER \<le> counter_fail st then rate_limited_log t st else st)
     in if \<not> message_valid t st then rate_limited_log t st else st)"

text \<open>Reading \<^verbatim>\<open>can_valid\<close> counts the invalid readings.\<close>

definition can_valid :: "can_parser \<Rightarrow> bool \<times> can_parser" where
  "can_valid p =
    (let t = last_update_nanos p;
         sts = map snd (message_states p);
         counters_valid = list_all (\<lambda>st. counter_fail st < MAX_BAD_COUNTER) sts;
         valid = list_all (message_valid t) sts;
         cnt = (if valid then 0 else min (can_invalid_cnt p + 1) CAN_INVALID_CNT);
         p' = p\<lparr>message_states := map (\<lambda>(a, st). (a, note_invalid t st)) (message_states p),
               can_invalid_cnt := cnt\<rparr>
     in (cnt < CAN_INVALID_CNT \<and> counters_valid, p'))"

section \<open>Receiving frames\<close>

definition set_entries :: "(string \<times> 'a) list \<Rightarrow> (string \<times> 'a) list \<Rightarrow> (string \<times> 'a) list" where
  "set_entries kvs d = fold (\<lambda>(n, v). AList.update n v) kvs d"

definition store_values :: "nat \<Rightarrow> message_state \<Rightarrow> can_parser \<Rightarrow> can_parser" where
  "store_values address st p =
    (let names = map sig_name (ms_signals st)
     in p\<lparr>vl := AList.map_entry address (set_entries (zip names (vals st))) (vl p),
          ts_nanos := AList.map_entry address (set_entries (map (\<lambda>n. (n, last (timestamps st))) names)) (ts_nanos p)\<rparr>)"

text \<open>One frame: whether the bus had traffic, and the address if the message was updated.\<close>

definition receive_frame :: "int \<Rightarrow> nat \<times> bytes \<times> int \<Rightarrow> (can_parser, bool \<times> nat list) meth" where
  "receive_frame t frame p =
    (case frame of (address, dat, src) \<Rightarrow>
      if src \<noteq> cp_bus p then (Inr (False, []), p)
      else case map_of (message_states p) address of
             None \<Rightarrow> (Inr (True, []), p)
           | Some st \<Rightarrow>
               (if 64 < length dat then (Inr (True, []), p)
                else let (r, st') = parse_message t dat st;
                         p' = p\<lparr>message_states := AList.update address st' (message_states p)\<rparr>
                     in case r of
                          Inl x \<Rightarrow> (Inl x, p')
                        | Inr False \<Rightarrow> (Inr (True, []), p')
                        | Inr True \<Rightarrow> (Inr (True, [address]), store_values address st' p')))"

fun receive_frames :: "int \<Rightarrow> (nat \<times> bytes \<times> int) list \<Rightarrow> (can_parser, bool \<times> nat list) meth" where
  "receive_frames t [] = sret (False, [])"
| "receive_frames t (f # fs) =
    sbind (receive_frame t f) (\<lambda>(traffic, ups).
    sbind (receive_frames t fs) (\<lambda>(traffic', ups'). sret (traffic \<or> traffic', ups @ ups')))"

fun receive_entries :: "(int \<times> (nat \<times> bytes \<times> int) list) list \<Rightarrow> (can_parser, nat list) meth" where
  "receive_entries [] = sret []"
| "receive_entries ((t, frames) # es) =
    sbind (receive_frames t frames) (\<lambda>(traffic, ups).
    sbind (smodify (\<lambda>p. p\<lparr>last_nonempty_nanos := (if traffic then t else last_nonempty_nanos p),
                         last_update_nanos := t\<rparr>)) (\<lambda>_.
    sbind (receive_entries es) (\<lambda>ups'. sret (ups @ ups'))))"

definition parser_update :: "(int \<times> (nat \<times> bytes \<times> int) list) list \<Rightarrow> (can_parser, nat set) meth" where
  "parser_update entries =
    sbind (smodify (\<lambda>p. p\<lparr>message_states :=
        map (\<lambda>(a, st). (a, st\<lparr>all_vals := map (\<lambda>_. []) (all_vals st)\<rparr>)) (message_states p)\<rparr>)) (\<lambda>_.
    sbind (receive_entries entries) (\<lambda>ups. sret (set ups)))"

end
