(* ===== verification/CanParserCorrect.thy ===== *)
theory CanParserCorrect
  imports CanParser
begin

text \<open>
  What \<^verbatim>\<open>opendbc/can/parser.py\<close> guarantees whatever arrives: a frame that is rejected or raises leaves
  the decoded values as they were, the state of a message stays well formed, and \<^verbatim>\<open>can_valid\<close> follows
  the validity of the messages with its count of invalid readings. A frame that is too short for the
  checksum function makes \<^verbatim>\<open>update\<close> raise.
\<close>

section \<open>The counters and the log\<close>

lemma rate_limited_log_sel [simp]:
  "vals (rate_limited_log t s) = vals s" "all_vals (rate_limited_log t s) = all_vals s"
  "timestamps (rate_limited_log t s) = timestamps s" "frequency (rate_limited_log t s) = frequency s"
  "timeout_threshold (rate_limited_log t s) = timeout_threshold s" "ms_signals (rate_limited_log t s) = ms_signals s"
  "counter_fail (rate_limited_log t s) = counter_fail s" "ms_counter (rate_limited_log t s) = ms_counter s"
  "ignore_alive (rate_limited_log t s) = ignore_alive s" "ignore_checksum (rate_limited_log t s) = ignore_checksum s"
  "ignore_counter (rate_limited_log t s) = ignore_counter s" "ms_address (rate_limited_log t s) = ms_address s"
  by (simp_all add: rate_limited_log_def)

text \<open>The part of the state that a frame may only change when it is accepted.\<close>

definition decoded :: "message_state \<Rightarrow> rat list \<times> rat list list \<times> int list \<times> rat \<times> rat" where
  "decoded s = (vals s, all_vals s, timestamps s, frequency s, timeout_threshold s)"

text \<open>The part that never changes.\<close>

definition fixed_part :: "message_state \<Rightarrow> nat \<times> signal list \<times> bool \<times> bool \<times> bool" where
  "fixed_part s = (ms_address s, ms_signals s, ignore_alive s, ignore_checksum s, ignore_counter s)"

definition count_ok :: "message_state \<Rightarrow> bool" where
  "count_ok s \<longleftrightarrow> 0 \<le> counter_fail s \<and> counter_fail s \<le> MAX_BAD_COUNTER"

definition same_view :: "message_state \<Rightarrow> message_state \<Rightarrow> bool" where
  "same_view s s' \<longleftrightarrow> decoded s' = decoded s \<and> fixed_part s' = fixed_part s \<and> (count_ok s \<longrightarrow> count_ok s')"

lemma same_view_refl [simp]: "same_view s s"
  by (simp add: same_view_def)

lemma same_view_trans: "same_view a b \<Longrightarrow> same_view b c \<Longrightarrow> same_view a c"
  by (simp add: same_view_def)

lemma same_view_log [simp]: "same_view s (rate_limited_log t s)"
  by (simp add: same_view_def decoded_def fixed_part_def count_ok_def)

lemma same_view_counter: "same_view s (snd (update_counter c n s))"
  by (auto simp: same_view_def update_counter_def Let_def decoded_def fixed_part_def count_ok_def MAX_BAD_COUNTER_def)

lemma check_field_view: "check_field t dat sg v s = (r, s') \<Longrightarrow> same_view s s'"
  by (auto simp: check_field_def split: option.splits if_splits sum.splits prod.splits)

lemma check_counter_view: "check_counter sg v s = (r, s') \<Longrightarrow> same_view s s'"
  using same_view_counter [of s v "sig_size sg"]
  by (auto simp: check_counter_def Let_def split: if_splits prod.splits)

lemma sbind_view:
  assumes "\<And>r s'. m s = (r, s') \<Longrightarrow> same_view s s'"
    and "\<And>x s1 r s'. f x s1 = (r, s') \<Longrightarrow> same_view s1 s'"
    and "sbind m f s = (r, s')"
  shows "same_view s s'"
proof -
  obtain q s1 where q: "m s = (q, s1)" by fastforce
  show ?thesis
    using assms(1) [OF q] assms(2,3) q same_view_trans by (cases q) (auto simp: sbind_def)
qed

lemma parse_signals_view: "parse_signals t dat sgs s = (r, s') \<Longrightarrow> same_view s s'"
proof (induction sgs arbitrary: s r s')
  case (Cons sg sgs)
  show ?case
  proof (rule sbind_view [OF _ _ Cons.prems [unfolded parse_signals.simps]])
    fix v s1 r s2
    assume "sbind (check_field t dat sg v) (\<lambda>cf. sbind (check_counter sg v) (\<lambda>nf.
      sbind (parse_signals t dat sgs) (\<lambda>(vs, cf', nf'). sret (decode_value sg v # vs, cf \<or> cf', nf \<or> nf')))) s1 = (r, s2)"
    then show "same_view s1 s2"
      by (rule sbind_view [rotated 2])
        (auto elim!: check_field_view sbind_view [rotated 2] check_counter_view Cons.IH simp: sret_def split: prod.splits)
  qed (simp add: slift_def)
qed (simp add: sret_def)

lemma parse_signals_length: "parse_signals t dat sgs s = (Inr (vs, cf, nf), s') \<Longrightarrow> length vs = length sgs"
  by (induction sgs arbitrary: s vs cf nf s') (force simp: sbind_eq_Inr sret_def)+

text \<open>Every parse is a reading of the signals and, if nothing failed, an acceptance.\<close>

definition seen :: "int \<Rightarrow> message_state \<Rightarrow> message_state" where
  "seen t s = (if first_seen_nanos s = 0 then s\<lparr>first_seen_nanos := t\<rparr> else s)"

lemma seen_sel [simp]:
  "ms_signals (seen t s) = ms_signals s" "same_view s (seen t s)" "counter_fail (seen t s) = counter_fail s"
  "ms_counter (seen t s) = ms_counter s" "ignore_checksum (seen t s) = ignore_checksum s"
  "ignore_counter (seen t s) = ignore_counter s" "ms_address (seen t s) = ms_address s"
  by (simp_all add: seen_def same_view_def decoded_def fixed_part_def count_ok_def)

lemma parse_message_seen:
  "parse_message t dat s =
    sbind (parse_signals t dat (ms_signals s)) (\<lambda>(vs, checksum_failed, counter_failed).
      if checksum_failed \<or> counter_failed then sret False
      else sbind (smodify (accept_values t vs)) (\<lambda>_. sret True)) (seen t s)"
proof -
  have "(if first_seen_nanos s = 0 then s\<lparr>first_seen_nanos := t\<rparr> else s) = seen t s" by (simp only: seen_def)
  then show ?thesis by (simp only: parse_message_def Let_def seen_sel(1))
qed

lemma parse_message_cases:
  assumes "parse_message t dat s = (r, s')"
  obtains (raised) e where "parse_signals t dat (ms_signals s) (seen t s) = (Inl e, s')" "r = Inl e"
  | (rejected) vs cf nf where "parse_signals t dat (ms_signals s) (seen t s) = (Inr (vs, cf, nf), s')"
      "cf \<or> nf" "r = Inr False"
  | (accepted) vs s1 where "parse_signals t dat (ms_signals s) (seen t s) = (Inr (vs, False, False), s1)"
      "s' = accept_values t vs s1" "r = Inr True"
proof -
  obtain q s1 where q: "parse_signals t dat (ms_signals s) (seen t s) = (q, s1)" by fastforce
  show ?thesis
  proof (cases q)
    case (Inl e)
    then have "parse_message t dat s = (Inl e, s1)" using q unfolding parse_message_seen by (simp add: sbind_fail)
    then show ?thesis using assms q Inl raised by simp
  next
    case (Inr x)
    obtain vs cf nf where x: "x = (vs, cf, nf)" by (cases x)
    have "parse_message t dat s =
        (if cf \<or> nf then sret False else sbind (smodify (accept_values t vs)) (\<lambda>_. sret True)) s1"
      using q unfolding parse_message_seen Inr x by (simp only: sbind_run prod.case)
    then have "(r, s') = (if cf \<or> nf then (Inr False, s1) else (Inr True, accept_values t vs s1))"
      using assms by (simp add: sbind_def sret_def smodify_def)
    then show ?thesis using q rejected accepted Inr x by (cases "cf \<or> nf") auto
  qed
qed

lemma parse_seen_view: "parse_signals t dat sgs (seen t s) = (r, s') \<Longrightarrow> same_view s s'"
  by (rule same_view_trans [OF seen_sel(2) parse_signals_view])

section \<open>When a frame is accepted\<close>

text \<open>The number in a field, as the parser reads it; a field whose checksum is not the one of the frame; the counters that
  are checked; and the failure count after a frame whose counter is \<open>v\<close>.\<close>

definition field_value :: "bytes \<Rightarrow> signal \<Rightarrow> int result" where
  "field_value dat sg = ebind (get_raw_value dat sg) (signed_value sg)"

definition wrong_checksum :: "message_state \<Rightarrow> bytes \<Rightarrow> signal \<Rightarrow> bool" where
  "wrong_checksum s dat sg \<longleftrightarrow> \<not> ignore_checksum s \<and>
     (\<exists>c v e d. calc_checksum sg = Some c \<and> field_value dat sg = Inr v \<and> apply_checksum c (ms_address s) sg dat = Inr (e, d) \<and> v \<noteq> e)"

definition checked_counters :: "message_state \<Rightarrow> signal list \<Rightarrow> signal list" where
  "checked_counters s sgs = filter (\<lambda>sg. \<not> ignore_counter s \<and> sig_type sg = SignalType_COUNTER) sgs"

definition count_after :: "message_state \<Rightarrow> signal \<Rightarrow> int \<Rightarrow> int" where
  "count_after s sg v =
    (if v = (ms_counter s + 1) mod 2 ^ sig_size sg then max 0 (counter_fail s - 1) else min (counter_fail s + 1) 5)"

lemma same_view_checks:
  assumes "same_view s s'"
  shows "wrong_checksum s' dat sg = wrong_checksum s dat sg" "checked_counters s' sgs = checked_counters s sgs"
  using assms by (simp_all add: wrong_checksum_def checked_counters_def same_view_def fixed_part_def)

lemma update_counter_after:
  assumes "0 \<le> counter_fail s"
  shows "update_counter v (sig_size sg) s = (count_after s sg v < 5, s\<lparr>counter_fail := count_after s sg v, ms_counter := v\<rparr>)"
  using assms by (auto simp: update_counter_def count_after_def MAX_BAD_COUNTER_def Let_def simp flip: take_bit_eq_mask take_bit_eq_mod)

text \<open>One signal, then the rest.\<close>

lemma parse_signals_split:
  assumes "parse_signals t dat (sg # sgs) s = (Inr (vs, cf, nf), s')"
  obtains v c1 s1 c2 s2 vs' cf' nf' where "field_value dat sg = Inr v" "check_field t dat sg v s = (Inr c1, s1)"
    "check_counter sg v s1 = (Inr c2, s2)" "parse_signals t dat sgs s2 = (Inr (vs', cf', nf'), s')"
    "cf = (c1 \<or> cf')" "nf = (c2 \<or> nf')"
proof -
  obtain v where v: "field_value dat sg = Inr v" using assms by (cases "field_value dat sg") (simp_all add: field_value_def sraise_def)
  with assms have "sbind (check_field t dat sg v) (\<lambda>c1. sbind (check_counter sg v) (\<lambda>c2.
      sbind (parse_signals t dat sgs) (\<lambda>(vs', cf', nf'). sret (decode_value sg v # vs', c1 \<or> cf', c2 \<or> nf')))) s = (Inr (vs, cf, nf), s')"
    by (simp add: field_value_def)
  then obtain c1 s1 where c1: "check_field t dat sg v s = (Inr c1, s1)" and a: "sbind (check_counter sg v) (\<lambda>c2.
      sbind (parse_signals t dat sgs) (\<lambda>(vs', cf', nf'). sret (decode_value sg v # vs', c1 \<or> cf', c2 \<or> nf'))) s1 = (Inr (vs, cf, nf), s')"
    unfolding sbind_eq_Inr [where m = "check_field t dat sg v"] by blast
  then obtain c2 s2 where c2: "check_counter sg v s1 = (Inr c2, s2)" and b:
      "sbind (parse_signals t dat sgs) (\<lambda>(vs', cf', nf'). sret (decode_value sg v # vs', c1 \<or> cf', c2 \<or> nf')) s2 = (Inr (vs, cf, nf), s')"
    unfolding sbind_eq_Inr [where m = "check_counter sg v"] by blast
  then obtain vs' cf' nf' where "parse_signals t dat sgs s2 = (Inr (vs', cf', nf'), s')" "cf = (c1 \<or> cf')" "nf = (c2 \<or> nf')"
    unfolding sbind_eq_Inr [where m = "parse_signals t dat sgs"] sret_def by auto
  with that v c1 c2 show ?thesis by blast
qed

lemma check_field_wrong:
  assumes "field_value dat sg = Inr v" "check_field t dat sg v s = (Inr c, s1)"
  shows "c = wrong_checksum s dat sg" "counter_fail s1 = counter_fail s" "ms_counter s1 = ms_counter s"
  using assms
  by (auto simp: check_field_def wrong_checksum_def split: option.splits if_splits sum.splits prod.splits)

lemma parse_signals_checksum:
  "parse_signals t dat sgs s = (Inr (vs, cf, nf), s') \<Longrightarrow> cf = (\<exists>sg\<in>set sgs. wrong_checksum s dat sg)"
proof (induction sgs arbitrary: s vs cf nf)
  case (Cons sg sgs)
  obtain v c1 s1 c2 s2 vs' cf' nf' where p: "field_value dat sg = Inr v" "check_field t dat sg v s = (Inr c1, s1)"
    "check_counter sg v s1 = (Inr c2, s2)" "parse_signals t dat sgs s2 = (Inr (vs', cf', nf'), s')" "cf = (c1 \<or> cf')"
    using parse_signals_split [OF Cons.prems] by metis
  have "same_view s s2" using check_field_view [OF p(2)] check_counter_view [OF p(3)] same_view_trans by blast
  then show ?case using Cons.IH [OF p(4)] p(5) check_field_wrong(1) [OF p(1,2)] by (simp add: same_view_checks)
qed (simp add: sret_def)

lemma parse_signals_no_counter:
  "parse_signals t dat sgs s = (Inr (vs, cf, nf), s') \<Longrightarrow> checked_counters s sgs = [] \<Longrightarrow>
    \<not> nf \<and> counter_fail s' = counter_fail s \<and> ms_counter s' = ms_counter s"
proof (induction sgs arbitrary: s vs cf nf)
  case (Cons sg sgs)
  obtain v c1 s1 c2 s2 vs' cf' nf' where p: "field_value dat sg = Inr v" "check_field t dat sg v s = (Inr c1, s1)"
    "check_counter sg v s1 = (Inr c2, s2)" "parse_signals t dat sgs s2 = (Inr (vs', cf', nf'), s')" "nf = (c2 \<or> nf')"
    using parse_signals_split [OF Cons.prems(1)] by metis
  have v1: "same_view s s1" by (rule check_field_view [OF p(2)])
  then have "\<not> (\<not> ignore_counter s1 \<and> sig_type sg = SignalType_COUNTER)"
    using Cons.prems(2) by (auto simp: checked_counters_def same_view_def fixed_part_def split: if_splits)
  then have c2: "c2 = False" "s2 = s1" using p(3) by (auto simp: check_counter_def split: if_splits)
  moreover have "checked_counters s1 sgs = []"
    using Cons.prems(2) same_view_checks(2) [OF v1] by (auto simp: checked_counters_def split: if_splits)
  ultimately show ?case using Cons.IH [of s1 vs' cf' nf'] p(4,5) check_field_wrong(2,3) [OF p(1,2)] by simp
qed (simp add: sret_def)

lemma parse_signals_one_counter:
  "parse_signals t dat sgs s = (Inr (vs, cf, nf), s') \<Longrightarrow> checked_counters s sgs = [csg] \<Longrightarrow> 0 \<le> counter_fail s \<Longrightarrow>
    \<exists>v. field_value dat csg = Inr v \<and> ms_counter s' = v \<and> counter_fail s' = count_after s csg v \<and> nf = (5 \<le> count_after s csg v)"
proof (induction sgs arbitrary: s vs cf nf)
  case (Cons sg sgs)
  obtain v c1 s1 c2 s2 vs' cf' nf' where p: "field_value dat sg = Inr v" "check_field t dat sg v s = (Inr c1, s1)"
    "check_counter sg v s1 = (Inr c2, s2)" "parse_signals t dat sgs s2 = (Inr (vs', cf', nf'), s')" "nf = (c2 \<or> nf')"
    using parse_signals_split [OF Cons.prems(1)] by metis
  have v1: "same_view s s1" by (rule check_field_view [OF p(2)])
  have s1: "counter_fail s1 = counter_fail s" "ms_counter s1 = ms_counter s" using check_field_wrong [OF p(1,2)] by simp_all
  have ig: "ignore_counter s1 = ignore_counter s" using v1 by (simp add: same_view_def fixed_part_def)
  show ?case
  proof (cases "\<not> ignore_counter s \<and> sig_type sg = SignalType_COUNTER")
    case True
    then have sg: "sg = csg" "checked_counters s sgs = []" using Cons.prems(2) by (simp_all add: checked_counters_def)
    have "count_after s1 sg v = count_after s sg v" by (simp add: count_after_def s1)
    then have c2: "c2 = (5 \<le> count_after s sg v)" "s2 = s1\<lparr>counter_fail := count_after s sg v, ms_counter := v\<rparr>"
      using p(3) True ig update_counter_after [of s1 v sg] Cons.prems(3) s1 by (auto simp: check_counter_def Let_def)
    have "checked_counters s2 sgs = []"
      using sg(2) same_view_checks(2) [OF same_view_trans [OF v1 check_counter_view [OF p(3)]]] by simp
    from parse_signals_no_counter [OF p(4) this] show ?thesis using c2 p(1,5) sg(1) by simp
  next
    case False
    then have c2: "c2 = False" "s2 = s1" using p(3) ig by (auto simp: check_counter_def split: if_splits)
    have "checked_counters s1 sgs = [csg]"
      using Cons.prems(2) False same_view_checks(2) [OF v1] by (auto simp: checked_counters_def split: if_splits)
    from Cons.IH [OF p(4) [unfolded c2(2)] this] Cons.prems(3) show ?thesis using c2 p(5) s1 by (simp add: count_after_def)
  qed
qed (simp add: checked_counters_def)

lemma accept_values_counts:
  "counter_fail (accept_values t vs s) = counter_fail s" "ms_counter (accept_values t vs s) = ms_counter s"
  by (simp_all add: accept_values_def learn_frequency_def Let_def)

text \<open>C15: What makes the parser of a message accept a frame. For a message with at most one checked counter, a frame whose
  parse does not raise is accepted exactly when no checked checksum field differs from the checksum of the frame and the
  failure count of the counter, with this frame counted, is below 5: it rises by one with a counter that is not the
  successor of the last one, up to 5, and falls by one with the successor; so a frame with a wrong checksum is never
  accepted, and one with a wrong counter only below the fifth failure. A frame that is not accepted, or whose parse
  raises, changes no decoded value, history, timestamp or frequency.\<close>

theorem frame_acceptance:
  assumes "parse_message t dat s = (r, s')" "count_ok s" "length (checked_counters s (ms_signals s)) \<le> 1"
  shows "(\<forall>b. r = Inr b \<longrightarrow>
      b = ((\<forall>sg\<in>set (ms_signals s). \<not> wrong_checksum s dat sg) \<and>
           (checked_counters s (ms_signals s) = [] \<or> counter_fail s' < 5)) \<and>
      (\<forall>csg\<in>set (checked_counters s (ms_signals s)). \<exists>v. field_value dat csg = Inr v \<and> ms_counter s' = v \<and>
         counter_fail s' = (if v = (ms_counter s + 1) mod 2 ^ sig_size csg then max 0 (counter_fail s - 1)
           else min (counter_fail s + 1) 5))) \<and>
    (r \<noteq> Inr True \<longrightarrow> vals s' = vals s \<and> all_vals s' = all_vals s \<and> timestamps s' = timestamps s \<and>
       frequency s' = frequency s \<and> timeout_threshold s' = timeout_threshold s)"
proof -
  let ?cs = "checked_counters s (ms_signals s)"
  have unchanged: "decoded s' = decoded s" if "r \<noteq> Inr True"
    using assms(1)
  proof (cases rule: parse_message_cases)
    case accepted
    then show ?thesis using that by simp
  qed (use parse_seen_view in \<open>auto simp: same_view_def\<close>)
  have "b = ((\<forall>sg\<in>set (ms_signals s). \<not> wrong_checksum s dat sg) \<and> (?cs = [] \<or> counter_fail s' < 5)) \<and>
      (\<forall>csg\<in>set ?cs. \<exists>v. field_value dat csg = Inr v \<and> ms_counter s' = v \<and> counter_fail s' = count_after s csg v)"
    if "r = Inr b" for b
  proof -
    obtain vs cf nf s1 where p: "parse_signals t dat (ms_signals s) (seen t s) = (Inr (vs, cf, nf), s1)" "b = (\<not> cf \<and> \<not> nf)"
        "counter_fail s' = counter_fail s1" "ms_counter s' = ms_counter s1"
      using assms(1)
    proof (cases rule: parse_message_cases)
      case (accepted vs s1)
      then show ?thesis using that \<open>r = Inr b\<close> by (auto simp: accept_values_counts)
    qed (use that \<open>r = Inr b\<close> in auto)
    have seen: "checked_counters (seen t s) (ms_signals s) = ?cs" "wrong_checksum (seen t s) dat sg = wrong_checksum s dat sg" for sg
      using same_view_checks [OF seen_sel(2)] by simp_all
    have cf: "cf = (\<exists>sg\<in>set (ms_signals s). wrong_checksum s dat sg)"
      using parse_signals_checksum [OF p(1)] seen(2) by simp
    consider "?cs = []" | csg where "?cs = [csg]" using assms(3) by (cases ?cs) auto
    then show ?thesis
    proof cases
      case 1
      then show ?thesis using parse_signals_no_counter [OF p(1)] seen(1) cf p(2) by auto
    next
      case (2 csg)
      have "count_after (seen t s) csg v = count_after s csg v" for v by (simp add: count_after_def)
      then show ?thesis using parse_signals_one_counter [OF p(1), of csg] assms(2) seen(1) cf p(2-4) 2
        by (auto simp: count_ok_def)
    qed
  qed
  with unchanged show ?thesis unfolding count_after_def decoded_def by simp
qed

lemma frame_acceptance_witness:
  "\<exists>s'. parse_message 7 [] (MessageState_init (lka_msg\<lparr>msg_sigs := [(''CHECKSUM'', toyota_field)]\<rparr>) (Freq 50)
      \<lparr>vals := [1], timestamps := [4]\<rparr>) = (Inr False, s') \<and> vals s' = [1] \<and> timestamps s' = [4]"
proof -
  let ?s = "MessageState_init (lka_msg\<lparr>msg_sigs := [(''CHECKSUM'', toyota_field)]\<rparr>) (Freq 50)\<lparr>vals := [1], timestamps := [4]\<rparr>"
  have sel: "ms_signals ?s = [toyota_field]" "ms_address ?s = 740" "\<not> ignore_checksum ?s"
    by (simp_all add: MessageState_init_def lka_msg_def)
  have fld: "sig_type toyota_field \<noteq> SignalType_COUNTER" "calc_checksum toyota_field = Some toyota_checksum"
    "\<not> is_signed toyota_field" by (simp_all add: toyota_field_def)
  have raw: "ebind (get_raw_value [] toyota_field) (signed_value toyota_field) = Inr 0"
    unfolding get_raw_value_def by (subst get_loop.simps) (simp add: signed_value_def fld)
  have chk: "apply_checksum toyota_checksum 740 toyota_field [] = Inr (0xE6, [])"
    by (simp add: apply_checksum_def toyota_checksum_of_def byte_sum_def addr_sum.simps take_bit_eq_mod drop_bit_eq_div and_255)
  have f: "check_field 7 [] toyota_field 0 (seen 7 ?s) = (Inr True, rate_limited_log 7 (seen 7 ?s))"
    by (simp only: check_field_def fld sel seen_sel chk option.case) simp
  have c: "check_counter toyota_field 0 s = (Inr False, s)" for s by (simp add: check_counter_def fld)
  have run: "parse_signals 7 [] [toyota_field] (seen 7 ?s) =
      (Inr ([decode_value toyota_field 0], True, False), rate_limited_log 7 (seen 7 ?s))"
    by (simp only: parse_signals.simps raw sbind_simps sbind_run [where m = "check_field 7 [] toyota_field 0", OF f]
        sbind_run [where m = "check_counter toyota_field 0", OF c]) (simp add: sret_def)
  have "\<exists>s'. parse_message 7 [] ?s = (Inr False, s')"
    unfolding parse_message_seen sel(1)
    by (simp only: sbind_run [where m = "parse_signals 7 [] [toyota_field]", OF run] prod.case) (simp add: sret_def)
  moreover have "count_ok ?s" "length (checked_counters ?s (ms_signals ?s)) \<le> 1"
    by (simp_all add: count_ok_def checked_counters_def MessageState_init_def lka_msg_def fld MAX_BAD_COUNTER_def)
  ultimately show ?thesis using frame_acceptance [of 7 "[]" ?s "Inr False"] by force
qed

section \<open>The state of a message\<close>

text \<open>
  The failure count is within its bounds, the history has at most 500 entries, and the values are
  either absent or one for each signal, the last of each list being the current one.
\<close>

definition values_ok :: "nat \<Rightarrow> rat list \<Rightarrow> rat list list \<Rightarrow> bool" where
  "values_ok n vs all \<longleftrightarrow> (vs = [] \<or> length vs = n) \<and> length all = length vs \<and>
     (\<forall>i<length vs. all ! i = [] \<or> last (all ! i) = vs ! i)"

definition state_ok :: "message_state \<Rightarrow> bool" where
  "state_ok s \<longleftrightarrow> count_ok s \<and> length (timestamps s) \<le> 500 \<and> distinct (map sig_name (ms_signals s)) \<and>
     values_ok (length (ms_signals s)) (vals s) (all_vals s)"

lemma learn_frequency_sel [simp]:
  "vals (learn_frequency s) = vals s" "all_vals (learn_frequency s) = all_vals s"
  "timestamps (learn_frequency s) = timestamps s" "ms_signals (learn_frequency s) = ms_signals s"
  "counter_fail (learn_frequency s) = counter_fail s" "ms_counter (learn_frequency s) = ms_counter s"
  "ms_address (learn_frequency s) = ms_address s" "ignore_alive (learn_frequency s) = ignore_alive s"
  "ignore_checksum (learn_frequency s) = ignore_checksum s" "ignore_counter (learn_frequency s) = ignore_counter s"
  by (simp_all add: learn_frequency_def Let_def)

lemma accept_values_sel [simp]:
  "vals (accept_values t vs s) = vs" "ms_signals (accept_values t vs s) = ms_signals s"
  "timestamps (accept_values t vs s) = push_500 t (timestamps s)"
  "counter_fail (accept_values t vs s) = counter_fail s" "ms_counter (accept_values t vs s) = ms_counter s"
  "fixed_part (accept_values t vs s) = fixed_part s"
  by (simp_all add: accept_values_def Let_def fixed_part_def)

lemma accept_values_all:
  "all_vals (accept_values t vs s) =
    map2 (\<lambda>l v. l @ [v]) (if vals s = [] then map (\<lambda>_. []) (ms_signals s) else all_vals s) vs"
  by (simp add: accept_values_def Let_def)

lemma push_500_length: "length ts \<le> 500 \<Longrightarrow> length (push_500 t ts) \<le> 500"
  by (simp add: push_500_def Let_def)

lemma push_500_last: "push_500 t ts \<noteq> [] \<and> last (push_500 t ts) = t"
  by (simp add: push_500_def Let_def)

lemma accept_values_ok:
  assumes "state_ok s" "length vs = length (ms_signals s)"
  shows "state_ok (accept_values t vs s)"
proof -
  let ?all = "if vals s = [] then map (\<lambda>_. []) (ms_signals s) else all_vals s"
  have "length ?all = length vs" using assms by (auto simp: state_ok_def values_ok_def)
  then have "values_ok (length (ms_signals s)) vs (map2 (\<lambda>l v. l @ [v]) ?all vs)"
    using assms(2) by (simp add: values_ok_def)
  then show ?thesis
    using assms(1) push_500_length by (simp add: state_ok_def accept_values_all count_ok_def)
qed

lemma same_view_ok: "same_view s s' \<Longrightarrow> state_ok s \<Longrightarrow> state_ok s'"
  by (simp add: same_view_def state_ok_def decoded_def fixed_part_def)

lemma parse_message_ok:
  assumes "parse_message t dat s = (r, s')" "state_ok s"
  shows "state_ok s' \<and> fixed_part s' = fixed_part s"
  using assms(1)
proof (cases rule: parse_message_cases)
  case (accepted vs s1)
  note v = parse_seen_view [OF accepted(1)]
  have "ms_signals s1 = ms_signals s" using v by (simp add: same_view_def fixed_part_def)
  then have "state_ok s'"
    using accept_values_ok [OF same_view_ok [OF v assms(2)]] parse_signals_length [OF accepted(1)] accepted(2) by simp
  then show ?thesis using v accepted(2) by (simp add: same_view_def)
next
  case raised
  note v = parse_seen_view [OF this(1)]
  show ?thesis using v same_view_ok [OF v assms(2)] by (simp add: same_view_def)
next
  case rejected
  note v = parse_seen_view [OF this(1)]
  show ?thesis using v same_view_ok [OF v assms(2)] by (simp add: same_view_def)
qed

lemma parse_message_values:
  assumes "parse_message t dat s = (r, s')" "r \<noteq> Inr True"
  shows "vals s' = vals s"
  using assms(1)
proof (cases rule: parse_message_cases)
  case raised
  from parse_seen_view [OF this(1)] show ?thesis by (simp add: same_view_def decoded_def)
next
  case rejected
  from parse_seen_view [OF this(1)] show ?thesis by (simp add: same_view_def decoded_def)
qed (use assms(2) in simp)

section \<open>The state of the parser\<close>

lemma set_entries_get:
  "distinct (map fst kvs) \<Longrightarrow>
   map_of (set_entries kvs d) n = (case map_of kvs n of Some v \<Rightarrow> Some v | None \<Rightarrow> map_of d n)"
  unfolding set_entries_def
proof (induction kvs arbitrary: d)
  case (Cons kv kvs)
  obtain k v where kv: "kv = (k, v)" by (cases kv)
  have "map_of kvs k = None" using Cons.prems by (force simp: kv map_of_eq_None_iff)
  then show ?case using Cons.IH [of "AList.update k v d"] Cons.prems
    by (auto simp: kv update_conv' split: option.splits)
qed simp

lemma update_mem:
  "distinct (map fst xs) \<Longrightarrow> (a, y) \<in> set (AList.update k x xs) \<Longrightarrow> (a, y) = (k, x) \<or> a \<noteq> k \<and> (a, y) \<in> set xs"
  by (induction xs) (force split: if_splits)+

text \<open>The dictionary \<^verbatim>\<open>vl\<close> shows the values of every message that has been received.\<close>

definition shown :: "(nat \<times> (string \<times> rat) list) list \<Rightarrow> nat \<Rightarrow> message_state \<Rightarrow> bool" where
  "shown v a st \<longleftrightarrow>
    (case map_of v a of
       None \<Rightarrow> False
     | Some d \<Rightarrow> \<forall>i<length (vals st). map_of d (sig_name (ms_signals st ! i)) = Some (vals st ! i))"

definition parser_ok :: "checksum_state option \<Rightarrow> can_parser \<Rightarrow> bool" where
  "parser_ok chk p \<longleftrightarrow> dbc_ok chk (cp_dbc p) \<and> distinct (map fst (message_states p)) \<and>
     (\<forall>(a, st)\<in>set (message_states p). state_ok st \<and> ms_address st = a \<and> shown (vl p) a st) \<and>
     0 \<le> can_invalid_cnt p \<and> can_invalid_cnt p \<le> CAN_INVALID_CNT"

lemma values_shown:
  assumes "shown v a st0" "state_ok st" "vals st \<noteq> []"
  shows "shown (AList.map_entry a (set_entries (zip (map sig_name (ms_signals st)) (vals st))) v) a st"
proof -
  obtain d where d: "map_of v a = Some d" using assms(1) by (auto simp: shown_def split: option.splits)
  have st: "length (vals st) = length (ms_signals st)" "distinct (map sig_name (ms_signals st))"
    using assms(2,3) by (auto simp: state_ok_def values_ok_def)
  let ?kvs = "zip (map sig_name (ms_signals st)) (vals st)"
  have keys: "distinct (map fst ?kvs)" using st by simp
  have "map_of ?kvs (sig_name (ms_signals st ! i)) = Some (vals st ! i)" if "i < length (vals st)" for i
    by (rule map_of_is_SomeI [OF keys]) (use that st(1) in \<open>auto simp: in_set_zip intro!: exI [of _ i]\<close>)
  then show ?thesis using d set_entries_get [OF keys] by (simp add: shown_def map_of_map_entry)
qed

lemma shown_values:
  "shown v a st \<Longrightarrow> vals st' = vals st \<Longrightarrow> ms_signals st' = ms_signals st \<Longrightarrow> shown v a st'"
  by (simp add: shown_def split: option.splits)

lemma shown_other: "a' \<noteq> a \<Longrightarrow> shown (AList.map_entry a f v) a' st = shown v a' st"
  by (simp add: shown_def map_of_map_entry)

lemma shown_empty: "shown v a st0 \<Longrightarrow> vals st = [] \<Longrightarrow> shown (AList.map_entry a f v) a st"
  by (auto simp: shown_def map_of_map_entry split: option.splits)

lemma receive_frame_keeps: "preserves (parser_ok chk) (receive_frame t frame)"
  unfolding preserves_def
proof (intro allI impI)
  fix p assume ok: "parser_ok chk p"
  obtain a dat src where f: "frame = (a, dat, src)" by (cases frame)
  show "parser_ok chk (snd (receive_frame t frame p))"
  proof (cases "src \<noteq> cp_bus p \<or> map_of (message_states p) a = None \<or> 64 < length dat")
    case True
    then show ?thesis using ok by (auto simp: receive_frame_def f split: option.splits)
  next
    case False
    then obtain st where st: "map_of (message_states p) a = Some st" by auto
    obtain r st' where parse: "parse_message t dat st = (r, st')" by fastforce
    let ?p = "p\<lparr>message_states := AList.update a st' (message_states p)\<rparr>"
    have run: "receive_frame t frame p = (case r of Inl x \<Rightarrow> (Inl x, ?p) | Inr False \<Rightarrow> (Inr (True, []), ?p)
        | Inr True \<Rightarrow> (Inr (True, [a]), store_values a st' ?p))"
      using False st parse by (simp add: receive_frame_def f split: sum.split bool.split)
    have old: "state_ok st" "ms_address st = a" "shown (vl p) a st" and dist: "distinct (map fst (message_states p))"
      using ok map_of_SomeD [OF st] by (auto simp: parser_ok_def)
    note new = parse_message_ok [OF parse old(1)]
    have sig: "ms_signals st' = ms_signals st" "ms_address st' = a" using new old(2) by (simp_all add: fixed_part_def)
    have upd: "parser_ok chk (?p\<lparr>vl := v, ts_nanos := w\<rparr>)"
      if "shown v a st'" "\<And>a' st''. a' \<noteq> a \<Longrightarrow> shown v a' st'' = shown (vl p) a' st''" for v w
      using ok new sig that distinct_update [OF dist, of a st'] update_mem [OF dist, of _ _ a st']
      by (fastforce simp: parser_ok_def)
    show ?thesis
    proof (cases "r = Inr True")
      case True
      have "shown (AList.map_entry a (set_entries (zip (map sig_name (ms_signals st')) (vals st'))) (vl p)) a st'"
        using values_shown [OF old(3)] shown_empty [OF old(3)] new by (cases "vals st' = []") simp_all
      from upd [OF this shown_other] show ?thesis using True run by (simp add: store_values_def Let_def)
    next
      case r: False
      then have "snd (receive_frame t frame p) = ?p" using run by (auto split: sum.splits bool.splits)
      moreover have "shown (vl p) a st'" using shown_values [OF old(3)] parse_message_values [OF parse r] sig by simp
      ultimately show ?thesis using upd [of "vl p" "ts_nanos p"] by simp
    qed
  qed
qed

lemma receive_frames_keeps: "preserves (parser_ok chk) (receive_frames t fs)"
  by (induction fs) (auto intro!: preserves_sbind receive_frame_keeps split: prod.splits)

lemma receive_entries_keeps: "preserves (parser_ok chk) (receive_entries es)"
proof (induction es)
  case (Cons e es)
  have "preserves (parser_ok chk) (smodify (\<lambda>p. p\<lparr>last_nonempty_nanos := (if b then t else last_nonempty_nanos p),
      last_update_nanos := t\<rparr>))" for b t
    by (rule preserves_smodify) (simp add: parser_ok_def)
  then show ?case using Cons.IH by (cases e) (auto intro!: preserves_sbind receive_frames_keeps split: prod.splits)
qed simp

lemma map_states_keeps:
  assumes "parser_ok chk p"
    and "\<And>a st. (a, st) \<in> set (message_states p) \<Longrightarrow> state_ok st \<Longrightarrow>
      state_ok (f st) \<and> ms_address (f st) = ms_address st \<and> vals (f st) = vals st \<and> ms_signals (f st) = ms_signals st"
  shows "parser_ok chk (p\<lparr>message_states := map (\<lambda>(a, st). (a, f st)) (message_states p)\<rparr>)"
proof -
  have "map fst (map (\<lambda>(a, st). (a, f st)) (message_states p)) = map fst (message_states p)"
    by (simp add: comp_def case_prod_beta)
  then have "distinct (map fst (map (\<lambda>(a, st). (a, f st)) (message_states p)))"
    using assms(1) by (simp only: parser_ok_def)
  moreover have "state_ok (f st) \<and> ms_address (f st) = a \<and> shown (vl p) a (f st)" if "(a, st) \<in> set (message_states p)" for a st
    using assms(1) assms(2) [OF that] that shown_values [of "vl p" a st "f st"] by (auto simp: parser_ok_def)
  ultimately show ?thesis using assms(1) by (auto simp: parser_ok_def)
qed

lemma parser_update_keeps: "preserves (parser_ok chk) (parser_update es)"
proof -
  have "preserves (parser_ok chk) (smodify (\<lambda>p. p\<lparr>message_states :=
      map (\<lambda>(a, st). (a, st\<lparr>all_vals := map (\<lambda>_. []) (all_vals st)\<rparr>)) (message_states p)\<rparr>))"
    by (rule preserves_smodify, rule map_states_keeps) (auto simp: state_ok_def count_ok_def values_ok_def)
  then show ?thesis unfolding parser_update_def by (intro preserves_sbind receive_entries_keeps) simp_all
qed

lemma key_msg_ok: "dbc_ok chk d \<Longrightarrow> key_to_msg d key = Some m \<Longrightarrow> msg_ok chk m"
  by (auto simp: key_to_msg_def addr_to_msg_def name_to_msg_def dbc_ok_def split: msg_key.splits dest!: map_of_SomeD)

lemma msg_ok_names:
  assumes "msg_ok chk m"
  shows "distinct (map (sig_name \<circ> snd) (msg_sigs m))"
proof -
  have "map (sig_name \<circ> snd) (msg_sigs m) = map fst (msg_sigs m)" using assms by (auto simp: msg_ok_def)
  then show ?thesis using assms by (simp only: msg_ok_def)
qed

lemma MessageState_init_ok: "msg_ok chk m \<Longrightarrow> state_ok (MessageState_init m f)"
  by (simp add: state_ok_def count_ok_def MessageState_init_def MAX_BAD_COUNTER_def values_ok_def msg_ok_names)

lemma add_message_keeps: "preserves (parser_ok chk) (add_message key f)"
  unfolding preserves_def
proof (intro allI impI)
  fix p assume ok: "parser_ok chk p"
  show "parser_ok chk (snd (add_message key f p))"
  proof (cases "key_to_msg (cp_dbc p) key")
    case (Some m)
    show ?thesis
    proof (cases "msg_address m \<in> fst ` set (message_states p)")
      case False
      have "msg_ok chk m" using ok Some key_msg_ok by (auto simp: parser_ok_def)
      then have new: "state_ok (MessageState_init m f)" by (rule MessageState_init_ok)
      have "shown (AList.update (msg_address m) d (vl p)) a st"
        if "a \<noteq> msg_address m" "shown (vl p) a st" for a st d
        using that by (simp add: shown_def update_conv')
      moreover have "shown (AList.update (msg_address m) d (vl p)) (msg_address m) (MessageState_init m f)" for d
        by (simp add: shown_def update_conv' MessageState_init_def)
      moreover have "ms_address (MessageState_init m f) = msg_address m" by (simp add: MessageState_init_def)
      moreover have "a \<noteq> msg_address m" if "(a, st) \<in> set (message_states p)" for a st using that False by force
      ultimately show ?thesis using ok new False by (auto simp: add_message_def Some parser_ok_def)
    qed (use ok Some in \<open>simp add: add_message_def\<close>)
  qed (use ok in \<open>simp add: add_message_def\<close>)
qed

lemma add_messages_keeps: "preserves (parser_ok chk) (add_messages ms)"
proof (induction ms)
  case (Cons m ms)
  obtain key f where m: "m = (key, f)" by (cases m)
  have "preserves (parser_ok chk) (sbind (add_message key f) (\<lambda>_. add_messages ms))"
    by (intro preserves_sbind add_message_keeps Cons.IH)
  then show ?case by (simp add: preserves_def m split: option.split)
qed simp

lemma vl_get_keeps: "preserves (parser_ok chk) (vl_get key)"
proof -
  have "preserves (parser_ok chk) (\<lambda>p. (case vl_lookup p key of None \<Rightarrow> Inl KeyError | Some d \<Rightarrow> Inr d, p))"
    by (simp add: preserves_def)
  then have "preserves (parser_ok chk) (sbind (add_message key NoFreq) (\<lambda>_ p'.
      (case vl_lookup p' key of None \<Rightarrow> Inl KeyError | Some d \<Rightarrow> Inr d, p')))"
    by (intro preserves_sbind add_message_keeps)
  then show ?thesis by (simp add: preserves_def vl_get_def split: option.split)
qed

lemma note_invalid_sel [simp]:
  "vals (note_invalid t s) = vals s" "ms_signals (note_invalid t s) = ms_signals s"
  "counter_fail (note_invalid t s) = counter_fail s" "ms_address (note_invalid t s) = ms_address s"
  "message_valid t' (note_invalid t s) = message_valid t' s" "state_ok (note_invalid t s) = state_ok s"
  by (simp_all add: note_invalid_def Let_def message_valid_def state_ok_def count_ok_def)

lemma can_valid_keeps: "parser_ok chk p \<Longrightarrow> parser_ok chk (snd (can_valid p))"
  using map_states_keeps [of chk p "note_invalid (last_update_nanos p)"]
  by (simp add: can_valid_def Let_def parser_ok_def CAN_INVALID_CNT_def)

section \<open>Everything a client can do\<close>

datatype parser_op =
    Update "(int \<times> (nat \<times> bytes \<times> int) list) list"
  | ReadValid
  | ReadValue msg_key

definition parser_step :: "parser_op \<Rightarrow> can_parser \<Rightarrow> can_parser" where
  "parser_step op p =
    (case op of
       Update es \<Rightarrow> snd (parser_update es p)
     | ReadValid \<Rightarrow> snd (can_valid p)
     | ReadValue key \<Rightarrow> snd (vl_get key p))"

interpretation parser_runs: invariant_step parser_step "parser_ok chk" for chk
proof
  fix p op assume "parser_ok chk p"
  then show "parser_ok chk (parser_step op p)"
    using parser_update_keeps vl_get_keeps can_valid_keeps
    by (auto simp: parser_step_def preserves_def split: parser_op.split)
qed

lemma CANParser_init_ok:
  assumes "dbc_ok chk d" "CANParser_init d ms bus = Inr p"
  shows "parser_ok chk p"
proof -
  let ?p0 = "\<lparr>cp_dbc = d, cp_bus = bus, vl = [], ts_nanos = [], vl_names = [], message_states = [],
    can_invalid_cnt = CAN_INVALID_CNT, last_nonempty_nanos = 0, last_update_nanos = 0\<rparr>"
  have "parser_ok chk ?p0" using assms(1) by (simp add: parser_ok_def CAN_INVALID_CNT_def)
  moreover have "add_messages ms ?p0 = (Inr (), p)"
    using assms(2) by (auto simp: CANParser_init_def split: prod.splits sum.splits)
  ultimately show ?thesis by (rule preservesD [OF add_messages_keeps])
qed

lemma DBC_parse_ok:
  assumes "DBC_parse name ls = Inr d" "list_all positive_size ls"
  shows "dbc_ok (get_checksum_state name) d"
  by (rule dbc_lines_ok [OF _ assms(2) assms(1) [unfolded DBC_parse_def]]) (simp add: dbc_ok_def)



section \<open>Whether the bus is valid\<close>

definition all_valid :: "can_parser \<Rightarrow> bool" where
  "all_valid p \<longleftrightarrow> (\<forall>(a, st)\<in>set (message_states p). message_valid (last_update_nanos p) st)"

definition counters_good :: "can_parser \<Rightarrow> bool" where
  "counters_good p \<longleftrightarrow> (\<forall>(a, st)\<in>set (message_states p). counter_fail st < MAX_BAD_COUNTER)"

lemma can_valid_step:
  "fst (can_valid p) \<longleftrightarrow> counters_good p \<and> (all_valid p \<or> can_invalid_cnt p + 1 < CAN_INVALID_CNT)"
  "all_valid (snd (can_valid p)) = all_valid p" "counters_good (snd (can_valid p)) = counters_good p"
  "can_invalid_cnt (snd (can_valid p)) = (if all_valid p then 0 else min (can_invalid_cnt p + 1) CAN_INVALID_CNT)"
  by (auto simp: can_valid_def Let_def all_valid_def counters_good_def list_all_iff CAN_INVALID_CNT_def split: prod.splits)

text \<open>Reading \<^verbatim>\<open>can_valid\<close> \<open>k\<close> times before.\<close>

definition after_readings :: "nat \<Rightarrow> can_parser \<Rightarrow> can_parser" where
  "after_readings k p = ((\<lambda>p. snd (can_valid p)) ^^ k) p"

lemma after_readings_Suc: "after_readings (Suc k) p = snd (can_valid (after_readings k p))"
  by (simp add: after_readings_def)

lemma after_readings_stable:
  "all_valid (after_readings k p) = all_valid p" "counters_good (after_readings k p) = counters_good p"
  by (induction k) (simp_all add: after_readings_Suc can_valid_step, simp_all add: after_readings_def)

lemma after_readings_cnt:
  assumes "can_invalid_cnt p \<le> CAN_INVALID_CNT" "\<not> all_valid p"
  shows "can_invalid_cnt (after_readings k p) = min (can_invalid_cnt p + int k) CAN_INVALID_CNT"
proof (induction k)
  case (Suc k)
  then show ?case
    by (simp add: after_readings_Suc can_valid_step(4) after_readings_stable(1) assms(2))
qed (simp add: after_readings_def assms(1))

text \<open>\<^verbatim>\<open>can_valid\<close> tolerates four invalid readings and no more. While every message is fresh it is
true exactly if no counter has failed for good, from the first reading on. While some message is
stale or missing, the reading number \<open>k\<close> (from 0) is true exactly if the counters are good and the
invalid readings so far, this one included, are fewer than five; so a parser that has been valid
turns invalid at the fifth reading and a new parser is invalid at once.\<close>

theorem can_valid_debounce:
  assumes "0 \<le> can_invalid_cnt p" "can_invalid_cnt p \<le> CAN_INVALID_CNT"
  shows "fst (can_valid (after_readings k p)) \<longleftrightarrow>
    counters_good p \<and> (all_valid p \<or> can_invalid_cnt p + int k + 1 < CAN_INVALID_CNT)"
proof (cases "all_valid p")
  case True
  then show ?thesis by (simp add: can_valid_step(1) after_readings_stable)
next
  case False
  then show ?thesis
    by (auto simp: can_valid_step(1) after_readings_stable after_readings_cnt [OF assms(2)])
qed

lemma can_valid_debounce_witness:
  "\<exists>p. CANParser_init lka_dbc [(ByAddr 740, Freq 50)] 0 = Inr p \<and> \<not> fst (can_valid (after_readings 0 p))"
proof -
  obtain p where p: "CANParser_init lka_dbc [(ByAddr 740, Freq 50)] 0 = Inr p"
    and st: "message_states p = [(740, MessageState_init lka_msg (Freq 50))]" and cnt: "can_invalid_cnt p = 5"
    by (simp add: CANParser_init_def key_to_msg_def addr_to_msg_def add_message_def sbind_def sret_def lka_dbc_def
        CAN_INVALID_CNT_def) (simp add: lka_msg_def)
  have "\<not> all_valid p" by (simp add: all_valid_def st message_valid_def MessageState_init_def)
  then show ?thesis using can_valid_debounce [of p 0] p cnt by (auto simp: CAN_INVALID_CNT_def)
qed

section \<open>Frames that are too short\<close>

lemma get_raw_value_empty [simp]: "get_raw_value [] sg = Inr 0"
  unfolding get_raw_value_def by (subst get_loop.simps) simp

lemma signed_value_0 [simp]: "0 < sig_size sg \<Longrightarrow> signed_value sg 0 = Inr 0"
  by (simp add: signed_value_def)

lemma check_counter_returns: "\<exists>b s'. check_counter sg v s = (Inr b, s') \<and> ignore_checksum s' = ignore_checksum s"
proof -
  obtain ok s1 where "update_counter v (sig_size sg) s = (ok, s1)" by fastforce
  then have "check_counter sg v s = (Inr (\<not> ok), s1) \<or> check_counter sg v s = (Inr False, s)"
    by (simp add: check_counter_def)
  then obtain b s' where "check_counter sg v s = (Inr b, s')" by blast
  moreover from check_counter_view [OF this] have "ignore_checksum s' = ignore_checksum s"
    by (simp add: same_view_def fixed_part_def)
  ultimately show ?thesis by blast
qed

lemma empty_frame_raises:
  assumes "\<forall>x\<in>set xs. calc_checksum x = None \<and> 0 < sig_size x" "\<not> ignore_checksum s"
    and "calc_checksum sg = Some volkswagen_mqb_meb_checksum" "0 < sig_size sg"
  shows "\<exists>s'. parse_signals t [] (xs @ sg # ys) s = (Inl IndexError, s')"
  using assms(1,2)
proof (induction xs arbitrary: s)
  case Nil
  have "apply_checksum volkswagen_mqb_meb_checksum a sg [] = Inl IndexError" for a
    by (simp add: apply_checksum_def volkswagen_mqb_meb_checksum_of_def py_index_def)
  then have "check_field t [] sg 0 s = (Inl IndexError, s)"
    using assms(3) Nil by (simp add: check_field_def)
  then show ?case using assms(4) by (simp add: sbind_fail)
next
  case (Cons x xs)
  obtain b s1 where c: "check_counter x 0 s = (Inr b, s1)" "ignore_checksum s1 = ignore_checksum s"
    using check_counter_returns by blast
  have f: "check_field t [] x 0 s = (Inr False, s)" using Cons.prems(1) by (simp add: check_field_def)
  obtain s2 where r: "parse_signals t [] (xs @ sg # ys) s1 = (Inl IndexError, s2)"
    using Cons.IH [of s1] Cons.prems c(2) by auto
  show ?case using Cons.prems(1) 
    by (simp add: sbind_run [where m = "check_field t [] x 0", OF f] sbind_run [where m = "check_counter x 0", OF c(1)]
        sbind_fail [where m = "parse_signals t [] (xs @ sg # ys)", OF r])
qed

lemma empty_frame_receive:
  assumes "map_of (message_states p) a = Some st" "\<not> ignore_checksum st"
    and "ms_signals st = xs @ sg # ys" "\<forall>x\<in>set xs. calc_checksum x = None \<and> 0 < sig_size x"
    and "calc_checksum sg = Some volkswagen_mqb_meb_checksum" "0 < sig_size sg"
  shows "\<exists>p'. receive_entries ((t, (a, [], cp_bus p) # frames) # es) p = (Inl IndexError, p') \<and>
    last_update_nanos p' = last_update_nanos p"
proof -
  obtain st' where "parse_signals t [] (ms_signals st) (seen t st) = (Inl IndexError, st')"
    using empty_frame_raises [OF assms(4) _ assms(5,6), of "seen t st" t ys] assms(2,3) by auto
  then have "parse_message t [] st = (Inl IndexError, st')"
    unfolding parse_message_seen by (rule sbind_fail)
  then have "receive_frame t (a, [], cp_bus p) p =
      (Inl IndexError, p\<lparr>message_states := AList.update a st' (message_states p)\<rparr>)"
    using assms(1) by (simp add: receive_frame_def)
  then show ?thesis by (simp add: sbind_fail)
qed

text \<open>The state of the parser once an update has emptied the lists of \<^verbatim>\<open>vl_all\<close>.\<close>

definition cleared :: "can_parser \<Rightarrow> can_parser" where
  "cleared p = p\<lparr>message_states :=
    map (\<lambda>(a, st). (a, st\<lparr>all_vals := map (\<lambda>_. []) (all_vals st)\<rparr>)) (message_states p)\<rparr>"

lemma cleared_sel [simp]:
  "map_of (message_states (cleared p)) a =
    map_option (\<lambda>st. st\<lparr>all_vals := map (\<lambda>_. []) (all_vals st)\<rparr>) (map_of (message_states p) a)"
  "cp_bus (cleared p) = cp_bus p" "last_update_nanos (cleared p) = last_update_nanos p"
  "vl (cleared p) = vl p" "vl_names (cleared p) = vl_names p" "cp_dbc (cleared p) = cp_dbc p"
  by (simp_all add: cleared_def map_of_map)

lemma parser_update_cleared:
  "parser_update es p = sbind (receive_entries es) (\<lambda>ups. sret (set ups)) (cleared p)"
  by (simp add: parser_update_def cleared_def exec_simps)

text \<open>an empty frame takes down the update. For a message whose first checksum signal is a
Volkswagen MQB one, \<^verbatim>\<open>CANParser.update\<close> raises \<^verbatim>\<open>IndexError\<close> when a frame without data arrives at its
address on its bus, because the length of the frame is compared with 64 and not with the size
of the message; the frames that follow in the same call are lost and the time of the last
update stays behind.\<close>

theorem empty_frame_stops_update:
  assumes "map_of (message_states p) a = Some st" "\<not> ignore_checksum st"
    and "ms_signals st = xs @ sg # ys" "\<forall>x\<in>set xs. calc_checksum x = None \<and> 0 < sig_size x"
    and "calc_checksum sg = Some volkswagen_mqb_meb_checksum" "0 < sig_size sg"
  shows "\<exists>p'. parser_update ((t, (a, [], cp_bus p) # frames) # es) p = (Inl IndexError, p') \<and>
    last_update_nanos p' = last_update_nanos p"
proof -
  have "\<exists>p'. receive_entries ((t, (a, [], cp_bus (cleared p)) # frames) # es) (cleared p) = (Inl IndexError, p') \<and>
      last_update_nanos p' = last_update_nanos (cleared p)"
    by (rule empty_frame_receive [OF _ _ _ assms(4-6),
          where st = "st\<lparr>all_vals := map (\<lambda>_. []) (all_vals st)\<rparr>" and ys = ys]) (simp_all add: assms(1-3))
  then show ?thesis unfolding parser_update_cleared by (auto simp: sbind_fail)
qed

lemma empty_frame_stops_update_witness:
  "\<exists>d p p'. DBC_parse ''vw_mqb'' [BO 178 ''ESP_19'' 8, SG ''CHECKSUM'' 0 8 True False 1 0] = Inr d \<and>
    CANParser_init d [(ByAddr 178, Freq 100)] 0 = Inr p \<and>
    parser_update ((10, (178, [], cp_bus p) # []) # []) p = (Inl IndexError, p')"
proof -
  let ?sg = "\<lparr>sig_name = ''CHECKSUM'', start_bit = 0, sig_msb = 7, sig_lsb = 0, sig_size = 8, is_signed = False,
     factor = 1, sig_offset = 0, is_little_endian = True, sig_type = SignalType_of volkswagen_mqb_meb_checksum,
     calc_checksum = Some volkswagen_mqb_meb_checksum\<rparr>"
  let ?m = "\<lparr>msg_name = ''ESP_19'', msg_address = 178, msg_size = 8, msg_sigs = [(''CHECKSUM'', ?sg)]\<rparr>"
  obtain d where d: "DBC_parse ''vw_mqb'' [BO 178 ''ESP_19'' 8, SG ''CHECKSUM'' 0 8 True False 1 0] = Inr d"
    "addr_to_msg d 178 = Some ?m"
    by (simp add: DBC_parse_def dbc_line_step_def make_signal_def addr_to_msg_def set_signal_type_def
        get_checksum_state_def ChecksumState_def starts_with_def)
  obtain p where p: "CANParser_init d [(ByAddr 178, Freq 100)] 0 = Inr p"
    "message_states p = [(178, MessageState_init ?m (Freq 100))]"
    using d(2) by (simp add: CANParser_init_def key_to_msg_def add_message_def sbind_def sret_def)
  have "\<exists>p'. parser_update ((10, (178, [], cp_bus p) # []) # []) p = (Inl IndexError, p') \<and>
      last_update_nanos p' = last_update_nanos p"
    by (rule empty_frame_stops_update [where st = "MessageState_init ?m (Freq 100)" and xs = "[]" and ys = "[]" and sg = ?sg])
      (simp_all add: p(2) MessageState_init_def)
  then show ?thesis using d(1) p(1) by blast
qed

end
