(* ===== verification/CanLink.thy ===== *)
theory CanLink
  imports CanParserCorrect
begin

text \<open>
  The two ends of a bus together: frames that \<^verbatim>\<open>CANPacker\<close> builds are accepted by \<^verbatim>\<open>CANParser\<close>, and
  the values come out as they went in, up to the resolution of the signal. The section on
  quantisation bounds the rounding errors of the float arithmetic at both ends.
\<close>

section \<open>Quantisation\<close>

text \<open>The number a signal of the given width carries, after the sign bit has been read.\<close>

definition field_int :: "signal \<Rightarrow> int \<Rightarrow> int" where
  "field_int sg q = (if is_signed sg then signed_take_bit (sig_size sg - 1) q else take_bit (sig_size sg) q)"

definition in_range :: "signal \<Rightarrow> int \<Rightarrow> bool" where
  "in_range sg q \<longleftrightarrow>
    (if is_signed sg then - (2 ^ (sig_size sg - 1)) \<le> q \<and> q < 2 ^ (sig_size sg - 1)
     else 0 \<le> q \<and> q < 2 ^ sig_size sg)"

lemma field_int_in_range: "in_range sg q \<Longrightarrow> field_int sg q = q"
  by (auto simp: in_range_def field_int_def signed_take_bit_int_eq_self_iff take_bit_int_eq_self_iff split: if_splits)

lemma signed_value_field:
  assumes "0 < sig_size sg"
  shows "signed_value sg (take_bit (sig_size sg) q) = Inr (field_int sg q)"
proof -
  obtain n where n: "sig_size sg = Suc n" using assms gr0_conv_Suc by auto
  have "drop_bit n (take_bit (Suc n) q) AND 1 = of_bool (bit q n)"
    by (rule bit_eqI) (auto simp: bit_and_iff bit_1_iff bit_drop_bit_eq bit_take_bit_iff bit_of_bool_iff)
  then show ?thesis
    by (simp add: signed_value_def field_int_def n signed_take_bit_eq_take_bit_minus)
qed

lemma field_int_take: "0 < sig_size sg \<Longrightarrow> field_int sg (take_bit (sig_size sg) q) = field_int sg q"
  by (cases "sig_size sg") (simp_all add: field_int_def signed_take_bit_take_bit)

lemma fl_close: "\<bar>x\<bar> \<le> B \<Longrightarrow> \<bar>fl x - x\<bar> \<le> B / 2 ^ 53"
  using fl_error [of x] by (simp add: field_simps)

lemma bounds_add:
  fixes b x y :: rat
  assumes "\<bar>b - x\<bar> \<le> E" "\<bar>x\<bar> \<le> X" "\<bar>y\<bar> \<le> Y" "E + X + Y \<le> Z"
  shows "\<bar>b + y\<bar> \<le> Z" "\<bar>b - y\<bar> \<le> Z"
  using assms by linarith+

lemma floor_near:
  fixes c d e :: rat
  assumes "\<bar>c - of_int r\<bar> \<le> A" "\<bar>d - c\<bar> \<le> B" "\<bar>e - (d + 1 / 2)\<bar> \<le> C" "A + B + C < 1 / 2"
  shows "\<lfloor>e\<rfloor> = r"
  using assms by (intro floor_unique) linarith+

text \<open>
  Quantising a decoded number gives the number back, in spite of the four roundings, when it and
  the offset are at most \<open>2 ^ 40\<close> steps.
\<close>

lemma quantise_decode:
  assumes "factor sg \<noteq> 0" "\<bar>r\<bar> \<le> 2 ^ 40" "\<bar>sig_offset sg\<bar> \<le> 2 ^ 40 * \<bar>factor sg\<bar>"
  shows "quantise (decode_value sg r) sg = r"
proof -
  let ?f = "factor sg" and ?o = "sig_offset sg" and ?F = "\<bar>factor sg\<bar>"
  have r: "\<bar>of_int r :: rat\<bar> \<le> 2 ^ 40" using assms(2) by (metis of_int_abs of_int_le_iff of_int_numeral of_int_power)
  have F: "0 < ?F" using assms(1) by simp
  have rf: "\<bar>of_int r * ?f\<bar> \<le> 2 ^ 40 * ?F" unfolding abs_mult by (rule mult_right_mono [OF r]) simp
  define b where "b = fl (of_int r * ?f)"
  have b: "\<bar>b - of_int r * ?f\<bar> \<le> 2 ^ 40 * ?F / 2 ^ 53" unfolding b_def by (rule fl_close [OF rf])
  have bo: "\<bar>b + ?o\<bar> \<le> 3 * 2 ^ 40 * ?F" by (rule bounds_add(1) [OF b rf assms(3)]) (use F in simp)
  define v where "v = fl (b + ?o)"
  have v: "\<bar>v - (b + ?o)\<bar> \<le> 3 * 2 ^ 40 * ?F / 2 ^ 53" unfolding v_def by (rule fl_close [OF bo])
  have vo: "\<bar>v - ?o\<bar> \<le> 5 * 2 ^ 40 * ?F" by (rule bounds_add(2) [OF v bo assms(3)]) (use F in simp)
  define c where "c = fl (v - ?o)"
  have c: "\<bar>c - (v - ?o)\<bar> \<le> 5 * 2 ^ 40 * ?F / 2 ^ 53" unfolding c_def by (rule fl_close [OF vo])
  have cr: "\<bar>c - of_int r * ?f\<bar> \<le> 9 * 2 ^ 40 / 2 ^ 53 * ?F" using b v c by (simp only: times_divide_eq_left)
  have "\<bar>c / ?f - of_int r\<bar> = \<bar>c - of_int r * ?f\<bar> / ?F"
    using assms(1) by (simp add: abs_divide [symmetric] diff_divide_distrib)
  also have "\<dots> \<le> 9 * 2 ^ 40 / 2 ^ 53" using cr F by (simp add: divide_le_eq)
  finally have cf: "\<bar>c / ?f - of_int r\<bar> \<le> 9 * 2 ^ 40 / 2 ^ 53" .
  then have cb: "\<bar>c / ?f\<bar> \<le> 2 * 2 ^ 40" using bounds_add(1) [OF cf r, of 0 0 "2 * 2 ^ 40"] by simp
  define d where "d = fl (c / ?f)"
  have d: "\<bar>d - c / ?f\<bar> \<le> 2 * 2 ^ 40 / 2 ^ 53" unfolding d_def by (rule fl_close [OF cb])
  have dh: "\<bar>d + 1 / 2\<bar> \<le> 3 * 2 ^ 40" by (rule bounds_add(1) [OF d cb, of _ "1 / 2"]) simp_all
  have e: "\<bar>fl (d + 1 / 2) - (d + 1 / 2)\<bar> \<le> 3 * 2 ^ 40 / 2 ^ 53" by (rule fl_close [OF dh])
  have "\<lfloor>fl (d + 1 / 2)\<rfloor> = r"
    by (rule floor_near [OF cf d e]) simp
  moreover have "fl (of_int r :: rat) = of_int r" using assms(2) by (intro fl_of_int) simp
  ultimately show ?thesis by (simp add: quantise_def decode_value_def d_def c_def v_def b_def)
qed

section \<open>Reading a frame that is in order\<close>

definition signal_int :: "bytes \<Rightarrow> signal \<Rightarrow> int" where
  "signal_int dat sg = (case ebind (get_raw_value dat sg) (signed_value sg) of Inl _ \<Rightarrow> 0 | Inr v \<Rightarrow> v)"

definition passes :: "nat \<Rightarrow> bytes \<Rightarrow> signal \<Rightarrow> bool" where
  "passes a dat sg \<longleftrightarrow> ebind (get_raw_value dat sg) (signed_value sg) = Inr (signal_int dat sg) \<and>
     (\<forall>c. calc_checksum sg = Some c \<longrightarrow> (\<exists>e. apply_checksum c a sg dat = Inr (signal_int dat sg, e)))"

lemma check_field_passes:
  assumes "passes a dat sg" "ms_address s = a"
  shows "check_field t dat sg (signal_int dat sg) s = (Inr False, s)"
proof (cases "calc_checksum sg")
  case (Some c)
  then obtain e where "apply_checksum c a sg dat = Inr (signal_int dat sg, e)"
    using assms(1) by (auto simp: passes_def)
  then show ?thesis using Some assms(2) by (simp add: check_field_def)
qed (simp add: check_field_def)

definition counted :: "message_state \<Rightarrow> signal \<Rightarrow> bool" where
  "counted s sg \<longleftrightarrow> \<not> ignore_counter s \<and> sig_type sg = SignalType_COUNTER"

abbreviation readings :: "bytes \<Rightarrow> signal list \<Rightarrow> rat list" where
  "readings dat sgs \<equiv> map (\<lambda>sg. decode_value sg (signal_int dat sg)) sgs"

lemma parse_signals_Cons_passes:
  assumes "passes a dat sg" "ms_address s = a"
    and "check_counter sg (signal_int dat sg) s = (Inr False, s1)"
    and "parse_signals t dat sgs s1 = (Inr (vs, False, False), s2)"
  shows "parse_signals t dat (sg # sgs) s = (Inr (decode_value sg (signal_int dat sg) # vs, False, False), s2)"
  using assms(1)
  by (simp add: passes_def sbind_run [where m = "check_field t dat sg (signal_int dat sg)", OF check_field_passes [OF assms(1,2)]]
      sbind_run [where m = "check_counter sg (signal_int dat sg)", OF assms(3)]
      sbind_run [where m = "parse_signals t dat sgs", OF assms(4)] sret_def)

lemma parse_signals_uncounted:
  "\<forall>sg\<in>set sgs. passes a dat sg \<and> \<not> counted s sg \<Longrightarrow> ms_address s = a \<Longrightarrow>
   parse_signals t dat sgs s = (Inr (readings dat sgs, False, False), s)"
proof (induction sgs)
  case (Cons sg sgs)
  then have "check_counter sg (signal_int dat sg) s = (Inr False, s)" by (auto simp: check_counter_def counted_def)
  then show ?case using parse_signals_Cons_passes Cons by fastforce
qed (simp add: sret_def)

lemma parse_signals_counted:
  assumes "\<forall>sg\<in>set (xs @ csg # ys). passes a dat sg" "\<forall>sg\<in>set xs \<union> set ys. \<not> counted s sg"
    and "ms_address s = a" "counted s csg"
    and "update_counter (signal_int dat csg) (sig_size csg) s = (True, s1)"
  shows "parse_signals t dat (xs @ csg # ys) s = (Inr (readings dat (xs @ csg # ys), False, False), s1)"
  using assms(1,2)
proof (induction xs)
  case Nil
  have "same_view s s1" using same_view_counter [of s "signal_int dat csg" "sig_size csg"] assms(5) by simp
  then have s1: "ms_address s1 = a" "\<And>sg. counted s1 sg = counted s sg"
    using assms(3) by (simp_all add: same_view_def fixed_part_def counted_def)
  have "parse_signals t dat ys s1 = (Inr (readings dat ys, False, False), s1)"
    by (rule parse_signals_uncounted) (use Nil s1 in auto)
  moreover have "check_counter csg (signal_int dat csg) s = (Inr False, s1)"
    using assms(4,5) by (simp add: check_counter_def counted_def)
  ultimately show ?case using parse_signals_Cons_passes [OF _ assms(3)] Nil by fastforce
next
  case (Cons x xs)
  then have "check_counter x (signal_int dat x) s = (Inr False, s)" by (auto simp: check_counter_def counted_def)
  then show ?case using parse_signals_Cons_passes [OF _ assms(3)] Cons by fastforce
qed

section \<open>Messages that can be exchanged\<close>

text \<open>
  The message packs, its signal database fits in 64 bytes, and it has at most one counter and at
  most one checksum, both unsigned. The signal the packer takes for the counter is the only one the
  parser can.
\<close>

definition link_msg :: "msg \<Rightarrow> bool" where
  "link_msg m \<longleftrightarrow> can_pack m \<and> msg_size m \<le> 64 \<and>
     (\<forall>(n, sg)\<in>set (msg_sigs m).
        (is_counter sg \<longrightarrow> find is_counter (map snd (msg_sigs m)) = Some sg \<and> \<not> is_checksum sg \<and> \<not> is_signed sg) \<and>
        (calc_checksum sg \<noteq> None \<longrightarrow> find is_checksum (map snd (msg_sigs m)) = Some sg \<and> \<not> is_signed sg))"

definition in_sync :: "can_packer \<Rightarrow> nat \<Rightarrow> msg \<Rightarrow> message_state \<Rightarrow> bool" where
  "in_sync p a m s \<longleftrightarrow> ms_address s = a \<and> ms_signals s = map snd (msg_sigs m) \<and> count_ok s \<and>
     ((\<forall>sg\<in>set (ms_signals s). \<not> counted s sg) \<or> counter_fail s < 4 \<or>
      (\<forall>sg. find is_counter (map snd (msg_sigs m)) = Some sg \<longrightarrow>
         (ms_counter s + 1) mod 2 ^ sig_size sg = sent_counter p a mod 2 ^ sig_size sg))"

lemma link_msgD:
  assumes "link_msg m" "sg \<in> snd ` set (msg_sigs m)"
  shows "is_counter sg \<Longrightarrow> find is_counter (map snd (msg_sigs m)) = Some sg \<and> \<not> is_checksum sg \<and> \<not> is_signed sg"
    "calc_checksum sg = Some c \<Longrightarrow> find is_checksum (map snd (msg_sigs m)) = Some sg \<and> \<not> is_signed sg"
    "sig_ok sg (msg_size m)" "0 < sig_size sg"
proof -
  obtain n where n: "(n, sg) \<in> set (msg_sigs m)" using assms(2) by force
  show "is_counter sg \<Longrightarrow> find is_counter (map snd (msg_sigs m)) = Some sg \<and> \<not> is_checksum sg \<and> \<not> is_signed sg"
    "calc_checksum sg = Some c \<Longrightarrow> find is_checksum (map snd (msg_sigs m)) = Some sg \<and> \<not> is_signed sg"
    using assms(1) n by (auto simp: link_msg_def)
  show "sig_ok sg (msg_size m)"
    using message_layoutD(1) [OF _ assms(2)] assms(1) by (simp add: link_msg_def can_pack_def)
  then show "0 < sig_size sg" by (simp add: sig_ok_def sig_wf_def)
qed

lemma packed_passes:
  assumes "link_msg m" "length dat = msg_size m" "sg \<in> snd ` set (msg_sigs m)"
    and chk: "\<forall>sg c. find is_checksum (map snd (msg_sigs m)) = Some sg \<longrightarrow> calc_checksum sg = Some c \<longrightarrow>
      (\<exists>v e. get_raw_value dat sg = Inr v \<and> apply_checksum c a sg dat = Inr (v, e))"
  shows "passes a dat sg" "get_raw_value dat sg = Inr q \<Longrightarrow> signal_int dat sg = field_int sg q"
proof -
  note d = link_msgD [OF assms(1,3)]
  have raw: "get_raw_value dat sg = Inr (raw_bits dat sg (sig_size sg))"
    using d(3) assms(2) by (intro get_raw_value_spec) (simp_all add: sig_ok_def)
  then have val: "ebind (get_raw_value dat sg) (signed_value sg) = Inr (field_int sg (raw_bits dat sg (sig_size sg)))"
    using signed_value_field [OF d(4), of "raw_bits dat sg (sig_size sg)"] by simp
  then have int: "signal_int dat sg = field_int sg (raw_bits dat sg (sig_size sg))" by (simp add: signal_int_def)
  show "signal_int dat sg = field_int sg q" if "get_raw_value dat sg = Inr q" using int raw that by simp
  have "\<exists>e. apply_checksum c a sg dat = Inr (signal_int dat sg, e)" if c: "calc_checksum sg = Some c" for c
  proof -
    obtain v e where v: "get_raw_value dat sg = Inr v" "apply_checksum c a sg dat = Inr (v, e)"
      using chk d(2) [OF c] c by blast
    have "v = raw_bits dat sg (sig_size sg)" using v(1) raw by simp
    then show ?thesis using int v(2) d(2) [OF c] by (auto simp: field_int_def)
  qed
  then show "passes a dat sg" using val int by (simp add: passes_def)
qed

lemma update_counter_sync:
  assumes "count_ok s" "counter_fail s < 4 \<or> (ms_counter s + 1) mod 2 ^ n = c" "0 \<le> c" "c < 2 ^ n"
  shows "\<exists>s'. update_counter c n s = (True, s') \<and> (ms_counter s' = c)"
  using assms
  by (auto simp: update_counter_def Let_def count_ok_def MAX_BAD_COUNTER_def simp flip: take_bit_eq_mask take_bit_eq_mod)

lemma accepted_run:
  "parse_signals t dat (ms_signals s) (seen t s) = (Inr (vs, False, False), s1) \<Longrightarrow>
   parse_message t dat s = (Inr True, accept_values t vs s1)"
  unfolding parse_message_seen by (simp add: sbind_run exec_simps)

lemma sigs_distinct:
  assumes "message_layout m"
  shows "distinct (map snd (msg_sigs m))"
proof -
  have "map sig_name (map snd (msg_sigs m)) = map fst (msg_sigs m)" using assms by (auto simp: message_layout_def)
  then have "distinct (map sig_name (map snd (msg_sigs m)))" using assms by (simp only: message_layout_def)
  then show ?thesis by (simp only: distinct_map)
qed

lemma in_sync_cong:
  assumes "fixed_part s' = fixed_part s" "counter_fail s' = counter_fail s" "ms_counter s' = ms_counter s"
  shows "in_sync p a m s' = in_sync p a m s"
proof -
  have "ms_address s' = ms_address s" "ms_signals s' = ms_signals s" "counted s' = counted s"
    using assms(1) by (simp_all add: fixed_part_def counted_def fun_eq_iff)
  then show ?thesis using assms(2,3) by (simp add: in_sync_def count_ok_def)
qed

text \<open>The reading of the signals of a packed frame, and the counter after it.\<close>

lemma link_signals:
  assumes "link_msg m" "in_sync p a m s" "\<forall>sg\<in>snd ` set (msg_sigs m). passes a dat sg"
    and counter: "\<And>sg. find is_counter (map snd (msg_sigs m)) = Some sg \<Longrightarrow>
      signal_int dat sg = sent_counter p a mod 2 ^ sig_size sg \<and>
      counters p' a = Some ((sent_counter p a + 1) mod 2 ^ sig_size sg)"
  obtains s1 where "parse_signals t dat (ms_signals s) (seen t s) = (Inr (readings dat (ms_signals s), False, False), s1)"
    "same_view s s1" "in_sync p' a m s1"
proof -
  have sync: "ms_address s = a" "ms_signals s = map snd (msg_sigs m)" "count_ok s"
    using assms(2) by (simp_all add: in_sync_def)
  have pass: "\<forall>sg\<in>set (ms_signals s). passes a dat sg" using assms(3) sync(2) by simp
  have cnt: "counted (seen t s) sg = counted s sg" for sg by (simp add: counted_def)
  show ?thesis
  proof (cases "\<forall>sg\<in>set (ms_signals s). \<not> counted s sg")
    case True
    have "parse_signals t dat (ms_signals s) (seen t s) = (Inr (readings dat (ms_signals s), False, False), seen t s)"
      by (rule parse_signals_uncounted) (use pass True cnt sync(1) in auto)
    moreover have "in_sync p' a m (seen t s)"
      using True sync cnt by (simp add: in_sync_def count_ok_def)
    ultimately show ?thesis using that seen_sel(2) by blast
  next
    case False
    then obtain csg where c: "csg \<in> set (ms_signals s)" "counted s csg" by blast
    have only: "find is_counter (map snd (msg_sigs m)) = Some sg" if "sg \<in> set (ms_signals s)" "counted s sg" for sg
      using link_msgD(1) [OF assms(1), of sg] that sync(2) by (auto simp: counted_def is_counter_def)
    note find = only [OF c]
    obtain xs ys where split: "ms_signals s = xs @ csg # ys" using c(1) by (meson split_list)
    have "distinct (ms_signals s)" using sigs_distinct assms(1) sync(2) by (simp add: link_msg_def can_pack_def)
    then have rest: "\<forall>sg\<in>set xs \<union> set ys. \<not> counted (seen t s) sg"
      using only find cnt unfolding split by fastforce
    let ?c = "signal_int dat csg"
    have val: "?c = sent_counter p a mod 2 ^ sig_size csg" "counters p' a = Some ((sent_counter p a + 1) mod 2 ^ sig_size csg)"
      using counter [OF find] by simp_all
    have "counter_fail s < 4 \<or> (ms_counter s + 1) mod 2 ^ sig_size csg = ?c"
      using assms(2) False find val(1) by (auto simp: in_sync_def)
    then obtain s1 where s1: "update_counter ?c (sig_size csg) (seen t s) = (True, s1)" "ms_counter s1 = ?c"
      using update_counter_sync [of "seen t s" "sig_size csg" ?c] sync(3) val(1) by (auto simp: count_ok_def)
    have view: "same_view s s1"
      using same_view_trans [OF seen_sel(2) same_view_counter] s1(1) by (metis snd_conv)
    have "parse_signals t dat (xs @ csg # ys) (seen t s) = (Inr (readings dat (xs @ csg # ys), False, False), s1)"
      by (rule parse_signals_counted [where a = a]) (use pass rest sync(1) c(2) cnt s1(1) split in simp_all)
    moreover have "in_sync p' a m s1"
    proof -
      have "(ms_counter s1 + 1) mod 2 ^ sig_size csg = sent_counter p' a mod 2 ^ sig_size csg"
        by (simp add: s1(2) val sent_counter_def mod_add_left_eq)
      then show ?thesis using view sync find by (auto simp: in_sync_def same_view_def fixed_part_def)
    qed
    ultimately show ?thesis using that view split by simp
  qed
qed

text \<open>One frame from the packer to the state of its message.\<close>

lemma link_frame:
  assumes "addr_to_msg (packer_dbc p) a = Some m" "link_msg m" "distinct (map fst vs)"
    and "pack_counter m vs = None" "in_sync p a m s"
  obtains dat p' s' where "pack a vs p = (Inr dat, p')" "packer_dbc p' = packer_dbc p" "length dat = msg_size m"
    "parse_message t dat s = (Inr True, s')" "in_sync p' a m s'"
    "vals s' = readings dat (ms_signals s)"
    "\<forall>n v sg. (n, v) \<in> set vs \<longrightarrow> map_of (msg_sigs m) n = Some sg \<longrightarrow> \<not> is_checksum sg \<longrightarrow>
      signal_int dat sg = field_int sg (quantise v sg)"
proof -
  have pk: "can_pack m" using assms(2) by (simp add: link_msg_def)
  obtain dat p' where frame: "pack a vs p = (Inr dat, p')" "packer_dbc p' = packer_dbc p" "length dat = msg_size m"
    and vals: "\<And>n v sg. (n, v) \<in> set vs \<Longrightarrow> map_of (msg_sigs m) n = Some sg \<Longrightarrow> \<not> is_checksum sg \<Longrightarrow>
      get_raw_value dat sg = Inr (quantise v sg mod 2 ^ sig_size sg)"
    and cnt: "\<And>sg. find is_counter (map snd (msg_sigs m)) = Some sg \<Longrightarrow> \<not> is_checksum sg \<Longrightarrow>
      get_raw_value dat sg = Inr (sent_counter p a mod 2 ^ sig_size sg) \<and>
      counters p' a = Some ((sent_counter p a + 1) mod 2 ^ sig_size sg)"
    and chk: "\<forall>sg c. find is_checksum (map snd (msg_sigs m)) = Some sg \<longrightarrow> calc_checksum sg = Some c \<longrightarrow>
      (\<exists>v e. get_raw_value dat sg = Inr v \<and> apply_checksum c a sg dat = Inr (v, e))"
    using pack_frame [OF assms(1) pk assms(3)] assms(4) by blast
  note pass = packed_passes [OF assms(2) frame(3) _ chk]
  have counter: "signal_int dat sg = sent_counter p a mod 2 ^ sig_size sg \<and>
      counters p' a = Some ((sent_counter p a + 1) mod 2 ^ sig_size sg)"
    if f: "find is_counter (map snd (msg_sigs m)) = Some sg" for sg
  proof -
    have sg: "sg \<in> snd ` set (msg_sigs m)" "is_counter sg" using find_signal [OF f] by auto
    have u: "\<not> is_checksum sg" "\<not> is_signed sg" using link_msgD(1) [OF assms(2) sg] by simp_all
    have "signal_int dat sg = field_int sg (sent_counter p a mod 2 ^ sig_size sg)"
      using pass(2) [OF sg(1)] cnt [OF f u(1)] by blast
    then show ?thesis using cnt [OF f u(1)] u(2) by (simp add: field_int_def take_bit_eq_mod)
  qed
  obtain s1 where s1: "parse_signals t dat (ms_signals s) (seen t s) = (Inr (readings dat (ms_signals s), False, False), s1)"
    "in_sync p' a m s1"
    using link_signals [OF assms(2,5) _ counter] pass(1) by blast
  have "in_sync p' a m (accept_values t (readings dat (ms_signals s)) s1)"
    using s1(2) in_sync_cong [of "accept_values t (readings dat (ms_signals s)) s1" s1] by simp
  moreover have "signal_int dat sg = field_int sg (quantise v sg)"
    if "(n, v) \<in> set vs" "map_of (msg_sigs m) n = Some sg" "\<not> is_checksum sg" for n v sg
  proof -
    have sg: "sg \<in> snd ` set (msg_sigs m)" using map_of_SomeD [OF that(2)] by force
    have "signal_int dat sg = field_int sg (take_bit (sig_size sg) (quantise v sg))"
      using pass(2) [OF sg vals [OF that]] by (simp add: take_bit_eq_mod)
    then show ?thesis using link_msgD(4) [OF assms(2) sg] by (simp add: field_int_take)
  qed
  ultimately show ?thesis using that [OF frame accepted_run [OF s1(1)]] by simp
qed

section \<open>From the packer to the dictionary of the parser\<close>

text \<open>
  The packer builds a frame for each list of values and the parser is updated with it. A frame the
  parser does not accept stops the exchange.
\<close>

fun exchange ::
    "msg_key \<Rightarrow> int \<Rightarrow> (int \<times> (string \<times> rat) list) list \<Rightarrow> can_packer \<Rightarrow> can_parser \<Rightarrow> (can_packer \<times> can_parser) result" where
  "exchange key bus [] pk pr = Inr (pk, pr)"
| "exchange key bus ((t, vs) # xs) pk pr =
    (case make_can_msg key bus vs pk of
       (Inl e, _) \<Rightarrow> Inl e
     | (Inr frame, pk') \<Rightarrow>
         (case parser_update [(t, [frame])] pr of
            (Inl e, _) \<Rightarrow> Inl e
          | (Inr updated, pr') \<Rightarrow>
              (if fst frame \<in> updated then exchange key bus xs pk' pr' else Inl AssertionError)))"

definition listening :: "checksum_state option \<Rightarrow> msg_key \<Rightarrow> int \<Rightarrow> msg \<Rightarrow> can_packer \<Rightarrow> can_parser \<Rightarrow> bool" where
  "listening chk key bus m pk pr \<longleftrightarrow>
     key_to_msg (packer_dbc pk) key = Some m \<and> addr_to_msg (packer_dbc pk) (msg_address m) = Some m \<and>
     parser_ok chk pr \<and> cp_bus pr = bus \<and>
     (case key of ByAddr a \<Rightarrow> a = msg_address m | ByName n \<Rightarrow> map_of (vl_names pr) n = Some (msg_address m)) \<and>
     (\<exists>s. map_of (message_states pr) (msg_address m) = Some s \<and> in_sync pk (msg_address m) m s)"

definition received :: "msg \<Rightarrow> (string \<times> rat) list \<Rightarrow> (string \<times> rat) list \<Rightarrow> bool" where
  "received m vs dict \<longleftrightarrow> (\<forall>n v sg. (n, v) \<in> set vs \<longrightarrow> map_of (msg_sigs m) n = Some sg \<longrightarrow> \<not> is_checksum sg \<longrightarrow>
     map_of dict n = Some (decode_value sg (field_int sg (quantise v sg))))"

lemma parser_update_accepted:
  assumes "map_of (message_states pr) a = Some s" "length dat \<le> 64"
    and "parse_message t dat (s\<lparr>all_vals := map (\<lambda>_. []) (all_vals s)\<rparr>) = (Inr True, s')"
  obtains pr' where "parser_update [(t, [(a, dat, cp_bus pr)])] pr = (Inr {a}, pr')"
    "map_of (message_states pr') a = Some s'" "cp_bus pr' = cp_bus pr" "vl_names pr' = vl_names pr"
proof -
  let ?p = "(cleared pr)\<lparr>message_states := AList.update a s' (message_states (cleared pr))\<rparr>"
  have frame: "receive_frame t (a, dat, cp_bus pr) (cleared pr) = (Inr (True, [a]), store_values a s' ?p)"
    using assms by (simp add: receive_frame_def)
  have frames: "receive_frames t [(a, dat, cp_bus pr)] (cleared pr) = (Inr (True, [a]), store_values a s' ?p)"
    by (simp add: sbind_run [where m = "receive_frame t (a, dat, cp_bus pr)", OF frame] sret_def)
  let ?q = "(store_values a s' ?p)\<lparr>last_nonempty_nanos := t, last_update_nanos := t\<rparr>"
  have entries: "receive_entries [(t, [(a, dat, cp_bus pr)])] (cleared pr) = (Inr [a], ?q)"
    unfolding receive_entries.simps sbind_run [where m = "receive_frames t [(a, dat, cp_bus pr)]", OF frames]
    by (simp add: sbind_def smodify_def sret_def)
  have "parser_update [(t, [(a, dat, cp_bus pr)])] pr = (Inr {a}, ?q)"
    unfolding parser_update_cleared sbind_run [where m = "receive_entries [(t, [(a, dat, cp_bus pr)])]", OF entries]
    by (simp add: sret_def)
  then show ?thesis
    using that by (simp add: store_values_def Let_def update_conv')
qed

lemma listening_step:
  assumes "listening chk key bus m pk pr" "link_msg m" "distinct (map fst vs)" "pack_counter m vs = None"
  obtains frame pk' pr' where "make_can_msg key bus vs pk = (Inr frame, pk')"
    "parser_update [(t, [frame])] pr = (Inr {msg_address m}, pr')" "fst frame = msg_address m"
    "listening chk key bus m pk' pr'" "\<exists>dict. vl_lookup pr' key = Some dict \<and> received m vs dict"
proof -
  let ?a = "msg_address m"
  note l = assms(1) [unfolded listening_def]
  obtain s where s: "map_of (message_states pr) ?a = Some s" "in_sync pk ?a m s" using l by blast
  let ?s = "s\<lparr>all_vals := map (\<lambda>_. []) (all_vals s)\<rparr>"
  have sync: "in_sync pk ?a m ?s" using s(2) in_sync_cong [of ?s s] by (simp add: fixed_part_def)
  have addr: "addr_to_msg (packer_dbc pk) ?a = Some m" using l by blast
  obtain dat pk' s' where frame: "pack ?a vs pk = (Inr dat, pk')" "packer_dbc pk' = packer_dbc pk" "length dat = msg_size m"
    and parse: "parse_message t dat ?s = (Inr True, s')" "in_sync pk' ?a m s'" "vals s' = readings dat (ms_signals ?s)"
    and val: "\<forall>n v sg. (n, v) \<in> set vs \<longrightarrow> map_of (msg_sigs m) n = Some sg \<longrightarrow> \<not> is_checksum sg \<longrightarrow>
      signal_int dat sg = field_int sg (quantise v sg)"
    by (rule link_frame [OF addr assms(2-4) sync, of t])
  have size: "2 \<le> msg_size m" "msg_size m \<le> 64" "message_layout m" using assms(2) by (simp_all add: link_msg_def can_pack_def)
  then have "dat \<noteq> []" using frame(3) by auto
  then have make: "make_can_msg key bus vs pk = (Inr (?a, dat, bus), pk')"
    using l frame(1) by (cases key) (auto simp: make_can_msg_def key_to_msg_def sbind_def sret_def)
  obtain pr' where upd: "parser_update [(t, [(?a, dat, cp_bus pr)])] pr = (Inr {?a}, pr')"
    and st: "map_of (message_states pr') ?a = Some s'" and pr': "cp_bus pr' = cp_bus pr" "vl_names pr' = vl_names pr"
    using parser_update_accepted [OF s(1) _ parse(1)] frame(3) size(2) by metis
  have ok: "parser_ok chk pr'" by (rule preservesD [OF parser_update_keeps _ upd]) (use l in blast)
  then obtain dict where dict: "map_of (vl pr') ?a = Some dict"
    "\<forall>i<length (vals s'). map_of dict (sig_name (ms_signals s' ! i)) = Some (vals s' ! i)"
    using map_of_SomeD [OF st] by (auto simp: parser_ok_def shown_def split: option.splits)
  have sgs: "ms_signals ?s = map snd (msg_sigs m)" "ms_signals s' = map snd (msg_sigs m)"
    using sync parse(2) by (simp_all add: in_sync_def)
  have "map_of dict n = Some (decode_value sg (field_int sg (quantise v sg)))"
    if "(n, v) \<in> set vs" "map_of (msg_sigs m) n = Some sg" "\<not> is_checksum sg" for n v sg
  proof -
    have sg: "sg \<in> set (map snd (msg_sigs m))" using map_of_SomeD [OF that(2)] by force
    then obtain i where i: "i < length (map snd (msg_sigs m))" "map snd (msg_sigs m) ! i = sg" by (metis in_set_conv_nth)
    have "sig_name sg = n" using size(3) map_of_SomeD [OF that(2)] by (auto simp: message_layout_def)
    moreover have "vals s' ! i = decode_value sg (signal_int dat sg)" using i by (simp add: parse(3) sgs(1))
    moreover have "map_of dict (sig_name (ms_signals s' ! i)) = Some (vals s' ! i)"
      using dict(2) i(1) by (simp add: parse(3) sgs)
    ultimately show ?thesis using val that i by (simp add: sgs(2))
  qed
  then have "received m vs dict" by (simp add: received_def)
  moreover have "vl_lookup pr' key = Some dict" using l dict(1) pr'(2) by (simp add: vl_lookup_def split: msg_key.splits)
  moreover have "listening chk key bus m pk' pr'"
    using l ok pr' st parse(2) frame(2) by (simp add: listening_def split: msg_key.splits)
  ultimately show ?thesis using that [OF make] upd l by auto
qed

lemma exchange_run:
  assumes "listening chk key bus m pk pr" "link_msg m"
    and "\<forall>(t, vs)\<in>set xs. distinct (map fst vs) \<and> pack_counter m vs = None"
  shows "\<exists>pk' pr'. exchange key bus xs pk pr = Inr (pk', pr') \<and>
    (xs \<noteq> [] \<longrightarrow> (\<exists>dict. vl_lookup pr' key = Some dict \<and> received m (snd (last xs)) dict))"
  using assms(1,3)
proof (induction xs arbitrary: pk pr)
  case (Cons x xs)
  obtain t vs where x: "x = (t, vs)" by (cases x)
  have vs: "distinct (map fst vs)" "pack_counter m vs = None" using Cons.prems(2) x by simp_all
  obtain frame pk1 pr1 where step: "make_can_msg key bus vs pk = (Inr frame, pk1)"
    "parser_update [(t, [frame])] pr = (Inr {msg_address m}, pr1)" "fst frame = msg_address m"
    and next1: "listening chk key bus m pk1 pr1" "\<exists>dict. vl_lookup pr1 key = Some dict \<and> received m vs dict"
    by (rule listening_step [OF Cons.prems(1) assms(2) vs, of t])
  have run: "exchange key bus (x # xs) pk pr = exchange key bus xs pk1 pr1" using step by (simp add: x)
  show ?case
  proof (cases "xs = []")
    case True
    then show ?thesis using run next1(2) x by simp
  next
    case False
    then show ?thesis using Cons.IH [OF next1(1)] Cons.prems(2) run by simp
  qed
qed simp

lemma listening_init:
  assumes "dbc_ok chk d" "key_to_msg d key = Some m" "addr_to_msg d (msg_address m) = Some m"
    and "CANParser_init d [(key, f)] bus = Inr pr"
  shows "listening chk key bus m (CANPacker_init d) pr"
proof -
  have ok: "parser_ok chk pr" by (rule CANParser_init_ok [OF assms(1,4)])
  have pr: "message_states pr = [(msg_address m, MessageState_init m f)]" "cp_bus pr = bus"
    "vl_names pr = [(msg_name m, msg_address m)]"
    using assms(2,4) by (auto simp: CANParser_init_def add_message_def sbind_def sret_def)
  have "in_sync (CANPacker_init d) (msg_address m) m (MessageState_init m f)"
    by (simp add: in_sync_def MessageState_init_def count_ok_def MAX_BAD_COUNTER_def)
  moreover have "case key of ByAddr a \<Rightarrow> a = msg_address m | ByName n \<Rightarrow> n = msg_name m"
    using assms(1,2)
    by (auto simp: key_to_msg_def addr_to_msg_def name_to_msg_def dbc_ok_def split: msg_key.splits dest!: map_of_SomeD)
  ultimately show ?thesis
    using ok pr assms(2,3) by (auto simp: listening_def CANPacker_init_def split: msg_key.splits)
qed


lemma lka_link_msg: "link_msg lka_msg"
  using lka_can_pack
  by (simp add: link_msg_def lka_msg_def is_counter_def is_checksum_def flag_field_def counter_field_def toyota_field_def)


text \<open>the resolution is not lost in the floats. A value that a signal can represent, that is, the
decoded value of a number in the range of the field, is packed to that number and decoded to the
same float, although the packer and the parser round after every operation; it holds for every
factor and for offsets and numbers of up to \<open>2 ^ 40\<close> steps.\<close>

theorem representable_value_survives:
  assumes "factor sg \<noteq> 0" "in_range sg r" "\<bar>r\<bar> \<le> 2 ^ 40" "\<bar>sig_offset sg\<bar> \<le> 2 ^ 40 * \<bar>factor sg\<bar>"
  shows "decode_value sg (field_int sg (quantise (decode_value sg r) sg)) = decode_value sg r"
  by (simp only: quantise_decode [OF assms(1,3,4)] field_int_in_range [OF assms(2)])

definition angle_field :: signal where
  "angle_field =
    \<lparr>sig_name = ''STEER_ANGLE'', start_bit = 3, sig_msb = 3, sig_lsb = 8, sig_size = 12, is_signed = True,
     factor = 3 / 2, sig_offset = 0, is_little_endian = False, sig_type = 0, calc_checksum = None\<rparr>"

lemma representable_value_survives_witness:
  "decode_value angle_field (field_int angle_field (quantise (decode_value angle_field (- 357)) angle_field)) =
    decode_value angle_field (- 357)"
  by (rule representable_value_survives) (simp_all add: angle_field_def in_range_def)

end
