(* ===== verification/PyNumpy.thy ===== *)
theory PyNumpy
  imports PyFloat
begin

text \<open>
  The functions of numpy and of the C library that the modelled files call are not part of the repository; they are
  arguments of the model, collected in \<open>math_env\<close>. The data points of \<^verbatim>\<open>np.interp(x, xp, fp)\<close> are the list of
  pairs of \<^verbatim>\<open>xp\<close> and \<^verbatim>\<open>fp\<close>. \<open>clip_spec\<close> is what the documentation of numpy says of \<^verbatim>\<open>np.clip\<close>: it is
  \<^verbatim>\<open>np.minimum(a_max, np.maximum(a, a_min))\<close>, so the upper bound wins when the bounds are in the wrong order.
\<close>

record math_env =
  np_interp :: "rat \<Rightarrow> (rat \<times> rat) list \<Rightarrow> rat"
  np_clip :: "rat \<Rightarrow> rat \<Rightarrow> rat \<Rightarrow> rat"
  np_sqrt :: "rat \<Rightarrow> rat"
  atan2 :: "rat \<Rightarrow> rat \<Rightarrow> rat"

definition clip_spec :: "math_env \<Rightarrow> bool" where
  "clip_spec env \<longleftrightarrow> (\<forall>x lo hi. np_clip env x lo hi = min hi (max x lo))"

lemma np_clip_eq: "clip_spec env \<Longrightarrow> np_clip env x lo hi = min hi (max x lo)"
  by (simp add: clip_spec_def)

lemma np_clip_bounds:
  assumes "clip_spec env" "lo \<le> hi"
  shows "lo \<le> np_clip env x lo hi" "np_clip env x lo hi \<le> hi"
  using assms by (simp_all add: np_clip_eq)

text \<open>Clipping a number of a symmetric or any other interval to a second one that meets the interval stays inside.\<close>

lemma np_clip_inside:
  assumes "clip_spec env" "a \<le> x" "x \<le> b" "lo \<le> b" "a \<le> hi"
  shows "a \<le> np_clip env x lo hi" "np_clip env x lo hi \<le> b"
  using assms by (simp_all add: np_clip_eq)

text \<open>A division of floats.\<close>

definition py_fdiv :: "rat \<Rightarrow> rat \<Rightarrow> rat result" where
  "py_fdiv a b = (if b = 0 then Inl ZeroDivisionError else Inr (fl (a / b)))"

text \<open>\<^verbatim>\<open>math.degrees\<close>: the float \<^verbatim>\<open>math.pi\<close> is \<open>884279719003555 / 2 ^ 48\<close>.\<close>

definition py_pi :: rat where "py_pi = 884279719003555 / 2 ^ 48"

definition py_degrees :: "rat \<Rightarrow> rat" where "py_degrees x = fl (x * fl (180 / py_pi))"

text \<open>An instance in plain arithmetic, for concrete runs.\<close>

definition plain_math :: math_env where
  "plain_math = \<lparr>np_interp = (\<lambda>x ps. snd (hd ps)), np_clip = (\<lambda>x lo hi. min hi (max x lo)), np_sqrt = (\<lambda>x. x),
     atan2 = (\<lambda>y x. y / x)\<rparr>"

lemma plain_math_clip [simp]: "clip_spec plain_math"
  by (simp add: clip_spec_def plain_math_def)

text \<open>Rounding to an integer keeps integer bounds.\<close>

lemma py_round_bounds:
  assumes "of_int a \<le> x" "x \<le> of_int b"
  shows "a \<le> py_round x" "py_round x \<le> b"
  using round_half_even_mono [OF assms(1)] round_half_even_mono [OF assms(2)] by (simp_all add: py_round_def)

end
