(* ===== verification/DriverMonitor.thy ===== *)
theory DriverMonitor
  imports EventTables PyBytes PyNumpy
begin

text \<open>
  Driver monitoring: \<^verbatim>\<open>selfdrive/monitoring/helpers.py\<close> with the filters of \<^verbatim>\<open>common/filter_simple.py\<close> and
  \<^verbatim>\<open>common/stat_live.py\<close> it uses. The driver model's output and the car's state are inputs; the
  awareness of the driver falls while the driver is distracted, rises while the driver is attentive,
  and its thresholds raise the alerts. The functions of numpy and the C library that the code calls
  (\<^verbatim>\<open>np.interp\<close>, \<^verbatim>\<open>np.sqrt\<close>, \<^verbatim>\<open>atan2\<close>) are arguments, collected in \<open>math_env\<close>.
\<close>

section \<open>Filters\<close>

record first_order_filter =
  filt_x :: rat
  filt_dt :: rat
  filt_alpha :: rat
  filt_initialized :: bool

definition FirstOrderFilter_init :: "rat \<Rightarrow> rat \<Rightarrow> rat \<Rightarrow> bool \<Rightarrow> first_order_filter" where
  "FirstOrderFilter_init x0 rc dt initialized =
    \<lparr>filt_x = x0, filt_dt = dt, filt_alpha = fl (dt / fl (rc + dt)), filt_initialized = initialized\<rparr>"

definition filter_update :: "rat \<Rightarrow> first_order_filter \<Rightarrow> first_order_filter" where
  "filter_update x f =
    (if filt_initialized f
     then f\<lparr>filt_x := fl (fl (fl (1 - filt_alpha f) * filt_x f) + fl (filt_alpha f * x))\<rparr>
     else f\<lparr>filt_initialized := True, filt_x := x\<rparr>)"

record running_stat =
  max_trackable :: int
  stat_M :: rat
  stat_S :: rat
  stat_M_last :: rat
  stat_S_last :: rat
  stat_n :: int

definition RunningStat_init :: "(rat \<times> rat \<times> int) option \<Rightarrow> int \<Rightarrow> running_stat" where
  "RunningStat_init priors mt =
    (case priors of
       None \<Rightarrow> \<lparr>max_trackable = mt, stat_M = 0, stat_S = 0, stat_M_last = 0, stat_S_last = 0, stat_n = 0\<rparr>
     | Some (m, s, n) \<Rightarrow> \<lparr>max_trackable = mt, stat_M = m, stat_S = s, stat_M_last = m, stat_S_last = s, stat_n = n\<rparr>)"

definition push_data :: "rat \<Rightarrow> running_stat \<Rightarrow> running_stat" where
  "push_data x r =
    (let n = (if max_trackable r < 0 \<or> stat_n r < max_trackable r then stat_n r + 1 else stat_n r)
     in if n = 0 then r\<lparr>stat_n := n, stat_M_last := x, stat_M := x, stat_S_last := 0\<rparr>
        else let m = fl (stat_M_last r + fl (fl (x - stat_M_last r) / of_int n));
                 s = fl (stat_S_last r + fl (fl (x - stat_M_last r) * fl (x - m)))
             in r\<lparr>stat_n := n, stat_M := m, stat_S := s, stat_M_last := m, stat_S_last := s\<rparr>)"

definition stat_variance :: "running_stat \<Rightarrow> rat" where
  "stat_variance r = (if 2 \<le> stat_n r then fl (stat_S r / (of_int (stat_n r) - 1)) else 0)"

definition stat_std :: "math_env \<Rightarrow> running_stat \<Rightarrow> rat" where
  "stat_std env r = np_sqrt env (stat_variance r)"

record stat_filter =
  raw_stat :: running_stat
  filtered_stat :: running_stat

definition RunningStatFilter_init :: "(rat \<times> rat \<times> int) option \<Rightarrow> int \<Rightarrow> stat_filter" where
  "RunningStatFilter_init raw_priors mt =
    \<lparr>raw_stat = RunningStat_init raw_priors (- 1), filtered_stat = RunningStat_init None mt\<rparr>"

definition push_and_update :: "math_env \<Rightarrow> rat \<Rightarrow> stat_filter \<Rightarrow> stat_filter" where
  "push_and_update env x r =
    (let std_last = stat_std env (raw_stat r);
         raw = push_data x (raw_stat r);
         delta_std = fl (stat_std env raw - std_last)
     in r\<lparr>raw_stat := raw,
          filtered_stat := (if delta_std \<le> 0 then push_data x (filtered_stat r) else filtered_stat r)\<rparr>)"

section \<open>Settings\<close>

definition DT_DMON :: rat where "DT_DMON = fl (1 / 20)"

record dm_settings =
  AWARENESS_TIME :: rat
  AWARENESS_PRE_TIME_TILL_TERMINAL :: rat
  AWARENESS_PROMPT_TIME_TILL_TERMINAL :: rat
  DISTRACTED_TIME :: rat
  DISTRACTED_PRE_TIME_TILL_TERMINAL :: rat
  DISTRACTED_PROMPT_TIME_TILL_TERMINAL :: rat
  FACE_THRESHOLD :: rat
  EYE_THRESHOLD :: rat
  SG_THRESHOLD :: rat
  BLINK_THRESHOLD :: rat
  PHONE_THRESH :: rat
  PHONE_THRESH2 :: rat
  PHONE_MAX_OFFSET :: rat
  PHONE_MIN_OFFSET :: rat
  PHONE_DATA_AVG :: rat
  PHONE_DATA_VAR :: rat
  PHONE_MAX_COUNT :: int
  POSE_PITCH_THRESHOLD :: rat
  POSE_PITCH_THRESHOLD_SLACK :: rat
  POSE_PITCH_THRESHOLD_STRICT :: rat
  POSE_YAW_THRESHOLD :: rat
  POSE_YAW_THRESHOLD_SLACK :: rat
  POSE_YAW_THRESHOLD_STRICT :: rat
  PITCH_NATURAL_OFFSET :: rat
  PITCH_NATURAL_THRESHOLD :: rat
  YAW_NATURAL_OFFSET :: rat
  PITCH_NATURAL_VAR :: rat
  YAW_NATURAL_VAR :: rat
  PITCH_MAX_OFFSET :: rat
  PITCH_MIN_OFFSET :: rat
  YAW_MAX_OFFSET :: rat
  YAW_MIN_OFFSET :: rat
  DCAM_UNCERTAIN_ALERT_THRESHOLD :: rat
  DCAM_UNCERTAIN_ALERT_COUNT :: int
  DCAM_UNCERTAIN_RESET_COUNT :: int
  POSESTD_THRESHOLD :: rat
  HI_STD_FALLBACK_TIME :: int
  DISTRACTED_FILTER_TS :: rat
  ALWAYS_ON_ALERT_MIN_SPEED :: rat
  POSE_CALIB_MIN_SPEED :: rat
  POSE_OFFSET_MIN_COUNT :: int
  POSE_OFFSET_MAX_COUNT :: int
  WHEELPOS_CALIB_MIN_SPEED :: rat
  WHEELPOS_THRESHOLD :: rat
  WHEELPOS_FILTER_MIN_COUNT :: int
  WHEELPOS_DATA_AVG :: rat
  WHEELPOS_DATA_VAR :: rat
  WHEELPOS_MAX_COUNT :: int
  RECOVERY_FACTOR_MAX :: rat
  RECOVERY_FACTOR_MIN :: rat
  MAX_TERMINAL_ALERTS :: int
  MAX_TERMINAL_DURATION :: int

text \<open>\<^verbatim>\<open>int(t / self._DT_DMON)\<close>\<close>

definition dmon_steps :: "rat \<Rightarrow> int" where
  "dmon_steps t = py_trunc (fl (t / DT_DMON))"

definition DRIVER_MONITOR_SETTINGS :: "bool \<Rightarrow> dm_settings" where
  "DRIVER_MONITOR_SETTINGS mici =
    \<lparr>AWARENESS_TIME = 30, AWARENESS_PRE_TIME_TILL_TERMINAL = 15, AWARENESS_PROMPT_TIME_TILL_TERMINAL = 6,
     DISTRACTED_TIME = 11, DISTRACTED_PRE_TIME_TILL_TERMINAL = 8, DISTRACTED_PROMPT_TIME_TILL_TERMINAL = 6,
     FACE_THRESHOLD = fl (7 / 10), EYE_THRESHOLD = fl (65 / 100), SG_THRESHOLD = fl (9 / 10),
     BLINK_THRESHOLD = fl (865 / 1000),
     PHONE_THRESH = (if mici then 3 / 4 else fl (4 / 10)), PHONE_THRESH2 = 15, PHONE_MAX_OFFSET = fl (6 / 100),
     PHONE_MIN_OFFSET = fl (25 / 1000), PHONE_DATA_AVG = fl (5 / 100), PHONE_DATA_VAR = fl (3 * fl (5 / 1000)),
     PHONE_MAX_COUNT = dmon_steps 360,
     POSE_PITCH_THRESHOLD = fl (3133 / 10000), POSE_PITCH_THRESHOLD_SLACK = fl (3237 / 10000),
     POSE_PITCH_THRESHOLD_STRICT = fl (3133 / 10000),
     POSE_YAW_THRESHOLD = fl (4020 / 10000), POSE_YAW_THRESHOLD_SLACK = fl (5042 / 10000),
     POSE_YAW_THRESHOLD_STRICT = fl (4020 / 10000),
     PITCH_NATURAL_OFFSET = fl (11 / 1000), PITCH_NATURAL_THRESHOLD = fl (449 / 1000),
     YAW_NATURAL_OFFSET = fl (75 / 1000), PITCH_NATURAL_VAR = fl (3 * fl (1 / 100)),
     YAW_NATURAL_VAR = fl (3 * fl (5 / 100)), PITCH_MAX_OFFSET = fl (124 / 1000),
     PITCH_MIN_OFFSET = fl (- 881 / 10000), YAW_MAX_OFFSET = fl (289 / 1000), YAW_MIN_OFFSET = fl (- 246 / 10000),
     DCAM_UNCERTAIN_ALERT_THRESHOLD = fl (1 / 10), DCAM_UNCERTAIN_ALERT_COUNT = dmon_steps 60,
     DCAM_UNCERTAIN_RESET_COUNT = dmon_steps 20, POSESTD_THRESHOLD = fl (3 / 10),
     HI_STD_FALLBACK_TIME = dmon_steps 10, DISTRACTED_FILTER_TS = 1 / 4, ALWAYS_ON_ALERT_MIN_SPEED = 11,
     POSE_CALIB_MIN_SPEED = 13, POSE_OFFSET_MIN_COUNT = dmon_steps 60, POSE_OFFSET_MAX_COUNT = dmon_steps 360,
     WHEELPOS_CALIB_MIN_SPEED = 11, WHEELPOS_THRESHOLD = 1 / 2, WHEELPOS_FILTER_MIN_COUNT = dmon_steps 15,
     WHEELPOS_DATA_AVG = fl (3 / 100), WHEELPOS_DATA_VAR = fl (3 * fl (55 / 1000000)), WHEELPOS_MAX_COUNT = - 1,
     RECOVERY_FACTOR_MAX = 5, RECOVERY_FACTOR_MIN = 5 / 4,
     MAX_TERMINAL_ALERTS = 3, MAX_TERMINAL_DURATION = dmon_steps 30\<rparr>"

datatype DistractedType = DISTRACTED_POSE | DISTRACTED_BLINK | DISTRACTED_PHONE

primrec DistractedType_value :: "DistractedType \<Rightarrow> int" where
  "DistractedType_value DISTRACTED_POSE = 1"
| "DistractedType_value DISTRACTED_BLINK = 2"
| "DistractedType_value DISTRACTED_PHONE = 4"

section \<open>State\<close>

record driver_pose =
  pose_yaw :: rat
  pose_pitch :: rat
  pose_roll :: rat
  yaw_std :: rat
  pitch_std :: rat
  roll_std :: rat
  pitch_offseter :: stat_filter
  yaw_offseter :: stat_filter
  pose_calibrated :: bool
  low_std :: bool
  cfactor_pitch :: rat
  cfactor_yaw :: rat

definition DriverPose_init :: "dm_settings \<Rightarrow> driver_pose" where
  "DriverPose_init st =
    \<lparr>pose_yaw = 0, pose_pitch = 0, pose_roll = 0, yaw_std = 0, pitch_std = 0, roll_std = 0,
     pitch_offseter = RunningStatFilter_init (Some (PITCH_NATURAL_OFFSET st, PITCH_NATURAL_VAR st, 2)) (POSE_OFFSET_MAX_COUNT st),
     yaw_offseter = RunningStatFilter_init (Some (YAW_NATURAL_OFFSET st, YAW_NATURAL_VAR st, 2)) (POSE_OFFSET_MAX_COUNT st),
     pose_calibrated = False, low_std = True, cfactor_pitch = 1, cfactor_yaw = 1\<rparr>"

record driver_prob =
  prob :: rat
  prob_offseter :: stat_filter
  prob_calibrated :: bool

definition DriverProb_init :: "(rat \<times> rat \<times> int) \<Rightarrow> int \<Rightarrow> driver_prob" where
  "DriverProb_init raw_priors mt =
    \<lparr>prob = 0, prob_offseter = RunningStatFilter_init (Some raw_priors) mt, prob_calibrated = False\<rparr>"

record driver_blink =
  blink_left :: rat
  blink_right :: rat

record driver_monitoring =
  on_mici :: bool
  settings :: dm_settings
  wheelpos :: driver_prob
  phone :: driver_prob
  pose :: driver_pose
  blink :: driver_blink
  always_on :: bool
  distracted_types :: "DistractedType list"
  driver_distracted :: bool
  driver_distraction_filter :: first_order_filter
  wheel_on_right :: bool
  wheel_on_right_last :: "bool option"
  wheel_on_right_default :: bool
  face_detected :: bool
  terminal_alert_cnt :: int
  terminal_time :: int
  step_change :: rat
  active_monitoring_mode :: bool
  is_model_uncertain :: bool
  hi_stds :: int
  threshold_pre :: rat
  threshold_prompt :: rat
  dcam_uncertain_cnt :: int
  dcam_uncertain_alerted :: bool
  dcam_reset_cnt :: int
  too_distracted :: bool
  awareness :: rat
  awareness_active :: rat
  awareness_passive :: rat
  dm_events :: events_base
  param_too_distracted :: bool
  offroad_uncertain :: bool

definition reset_awareness :: "driver_monitoring \<Rightarrow> driver_monitoring" where
  "reset_awareness s = s\<lparr>awareness := 1, awareness_active := 1, awareness_passive := 1\<rparr>"

definition set_timers :: "bool \<Rightarrow> driver_monitoring \<Rightarrow> driver_monitoring" where
  "set_timers active_monitoring s =
    (let st = settings s
     in if active_monitoring_mode s \<and> awareness s \<le> threshold_prompt s
        then s\<lparr>step_change := (if active_monitoring then fl (DT_DMON / DISTRACTED_TIME st) else 0)\<rparr>
        else if awareness s \<le> 0 then s
        else if active_monitoring
        then (let s = (if \<not> active_monitoring_mode s
                       then s\<lparr>awareness_passive := awareness s, awareness := awareness_active s\<rparr> else s)
              in s\<lparr>threshold_pre := fl (DISTRACTED_PRE_TIME_TILL_TERMINAL st / DISTRACTED_TIME st),
                   threshold_prompt := fl (DISTRACTED_PROMPT_TIME_TILL_TERMINAL st / DISTRACTED_TIME st),
                   step_change := fl (DT_DMON / DISTRACTED_TIME st), active_monitoring_mode := True\<rparr>)
        else (let s = (if active_monitoring_mode s
                       then s\<lparr>awareness_active := awareness s, awareness := awareness_passive s\<rparr> else s)
              in s\<lparr>threshold_pre := fl (AWARENESS_PRE_TIME_TILL_TERMINAL st / AWARENESS_TIME st),
                   threshold_prompt := fl (AWARENESS_PROMPT_TIME_TILL_TERMINAL st / AWARENESS_TIME st),
                   step_change := fl (DT_DMON / AWARENESS_TIME st), active_monitoring_mode := False\<rparr>))"

definition DriverMonitoring_init :: "bool \<Rightarrow> bool \<Rightarrow> dm_settings \<Rightarrow> bool \<Rightarrow> bool \<Rightarrow> driver_monitoring" where
  "DriverMonitoring_init mici rhd_saved st always_on_arg saved_too_distracted =
    set_timers True
      \<lparr>on_mici = mici, settings = st,
       wheelpos = DriverProb_init (WHEELPOS_DATA_AVG st, WHEELPOS_DATA_VAR st, 2) (WHEELPOS_MAX_COUNT st),
       phone = DriverProb_init (PHONE_DATA_AVG st, PHONE_DATA_VAR st, 2) (PHONE_MAX_COUNT st),
       pose = DriverPose_init st, blink = \<lparr>blink_left = 0, blink_right = 0\<rparr>, always_on = always_on_arg,
       distracted_types = [], driver_distracted = False,
       driver_distraction_filter = FirstOrderFilter_init 0 (DISTRACTED_FILTER_TS st) DT_DMON True,
       wheel_on_right = False, wheel_on_right_last = None, wheel_on_right_default = rhd_saved,
       face_detected = False, terminal_alert_cnt = 0, terminal_time = 0, step_change = 0,
       active_monitoring_mode = True, is_model_uncertain = False, hi_stds = 0,
       threshold_pre = fl (DISTRACTED_PRE_TIME_TILL_TERMINAL st / DISTRACTED_TIME st),
       threshold_prompt = fl (DISTRACTED_PROMPT_TIME_TILL_TERMINAL st / DISTRACTED_TIME st),
       dcam_uncertain_cnt = 0, dcam_uncertain_alerted = False, dcam_reset_cnt = 0,
       too_distracted = saved_too_distracted, awareness = 1, awareness_active = 1, awareness_passive = 1,
       dm_events = EventsBase_init (EVENTS mici), param_too_distracted = saved_too_distracted, offroad_uncertain = False\<rparr>"

section \<open>The sensitivity to the pose\<close>

definition set_policy :: "math_env \<Rightarrow> rat \<Rightarrow> rat \<Rightarrow> driver_monitoring \<Rightarrow> driver_monitoring" where
  "set_policy env brake_disengage_prob car_speed s =
    (let st = settings s;
         d = fl (car_speed - 16);
         k1 = max (fl (fl (fl (- 156 / 100000) * fl (d * d)) + fl (6 / 10))) (fl (2 / 10));
         bp_normal = max (min (fl (brake_disengage_prob / k1)) (1 / 2)) 0
     in s\<lparr>pose := (pose s)
           \<lparr>cfactor_pitch := fl (np_interp env bp_normal
               [(0, POSE_PITCH_THRESHOLD_SLACK st), (1 / 2, POSE_PITCH_THRESHOLD_STRICT st)] / POSE_PITCH_THRESHOLD st),
            cfactor_yaw := fl (np_interp env bp_normal
               [(0, POSE_YAW_THRESHOLD_SLACK st), (1 / 2, POSE_YAW_THRESHOLD_STRICT st)] / POSE_YAW_THRESHOLD st)\<rparr>\<rparr>)"

section \<open>What the driver is doing\<close>

definition get_distracted_types :: "driver_monitoring \<Rightarrow> DistractedType list" where
  "get_distracted_types s =
    (let st = settings s; po = pose s;
         pitch_offset = (if \<not> pose_calibrated po then PITCH_NATURAL_OFFSET st
           else min (max (stat_M (filtered_stat (pitch_offseter po))) (PITCH_MIN_OFFSET st)) (PITCH_MAX_OFFSET st));
         yaw_offset = (if \<not> pose_calibrated po then YAW_NATURAL_OFFSET st
           else min (max (stat_M (filtered_stat (yaw_offseter po))) (YAW_MIN_OFFSET st)) (YAW_MAX_OFFSET st));
         pitch_error = fl (pose_pitch po - pitch_offset);
         pitch_error = (if pitch_error > 0 then 0 else \<bar>pitch_error\<bar>);
         yaw_error = \<bar>fl (pose_yaw po - yaw_offset)\<bar>;
         pitch_threshold = (if pose_calibrated po then fl (POSE_PITCH_THRESHOLD st * cfactor_pitch po)
                            else PITCH_NATURAL_THRESHOLD st);
         yaw_threshold = fl (POSE_YAW_THRESHOLD st * cfactor_yaw po);
         using_phone =
           (if prob_calibrated (phone s)
            then prob (phone s) >
              fl (max (min (stat_M (filtered_stat (prob_offseter (phone s)))) (PHONE_MAX_OFFSET st)) (PHONE_MIN_OFFSET st)
                  * PHONE_THRESH2 st)
            else prob (phone s) > PHONE_THRESH st)
     in (if pitch_error > pitch_threshold \<or> yaw_error > yaw_threshold then [DISTRACTED_POSE] else []) @
        (if fl (fl (blink_left (blink s) + blink_right (blink s)) * (1 / 2)) > BLINK_THRESHOLD st
         then [DISTRACTED_BLINK] else []) @
        (if using_phone then [DISTRACTED_PHONE] else []))"

record driver_data =
  faceOrientation :: "rat list"
  facePosition :: "rat list"
  faceOrientationStd :: "rat list"
  facePositionStd :: "rat list"
  faceProb :: rat
  leftEyeProb :: rat
  rightEyeProb :: rat
  leftBlinkProb :: rat
  rightBlinkProb :: rat
  sunglassesProb :: rat
  phoneProb :: rat

record driver_state =
  wheelOnRightProb :: rat
  leftDriverData :: driver_data
  rightDriverData :: driver_data

definition EFL :: rat where "EFL = 598"
definition cam_W :: int where "cam_W = 1928"
definition cam_H :: int where "cam_H = 1208"

definition face_orientation_from_net ::
    "math_env \<Rightarrow> rat list \<Rightarrow> rat list \<Rightarrow> rat list \<Rightarrow> (rat \<times> rat \<times> rat) result" where
  "face_orientation_from_net env angles_desc pos_desc rpy_calib =
    (case angles_desc of
       [pitch_net, yaw_net, roll_net] \<Rightarrow>
         ebind (py_index pos_desc 0) (\<lambda>p0.
         ebind (py_index pos_desc 1) (\<lambda>p1.
         let x = fl (fl (p0 + 1 / 2) * of_int cam_W);
             y = fl (fl (p1 + 1 / 2) * of_int cam_H);
             yaw_focal_angle = atan2 env (fl (x - of_int (cam_W div 2))) EFL;
             pitch_focal_angle = atan2 env (fl (y - of_int (cam_H div 2))) EFL;
             pitch = fl (pitch_net + pitch_focal_angle);
             yaw = fl (- yaw_net + yaw_focal_angle)
         in ebind (py_index rpy_calib 1) (\<lambda>r1.
            ebind (py_index rpy_calib 2) (\<lambda>r2. Inr (roll_net, fl (pitch - r1), fl (yaw - r2))))))
     | _ \<Rightarrow> Inl ValueError)"

definition driver_data_complete :: "driver_data \<Rightarrow> bool" where
  "driver_data_complete d \<longleftrightarrow>
     faceOrientation d \<noteq> [] \<and> facePosition d \<noteq> [] \<and> faceOrientationStd d \<noteq> [] \<and> facePositionStd d \<noteq> []"

definition update_wheel :: "math_env \<Rightarrow> driver_state \<Rightarrow> rat \<Rightarrow> bool \<Rightarrow> bool \<Rightarrow> driver_monitoring \<Rightarrow> driver_monitoring" where
  "update_wheel env ds car_speed op_engaged demo_mode s =
    (let st = settings s;
         off = (if WHEELPOS_CALIB_MIN_SPEED st < car_speed \<and>
                   (FACE_THRESHOLD st < faceProb (leftDriverData ds) \<or> FACE_THRESHOLD st < faceProb (rightDriverData ds))
                then push_and_update env (wheelOnRightProb ds) (prob_offseter (wheelpos s)) else prob_offseter (wheelpos s));
         calibrated = (WHEELPOS_FILTER_MIN_COUNT st < stat_n (filtered_stat off));
         right = (if calibrated \<or> demo_mode then WHEELPOS_THRESHOLD st < stat_M (filtered_stat off)
                  else wheel_on_right_default s);
         right = (case wheel_on_right_last s of
                    None \<Rightarrow> right
                  | Some l \<Rightarrow> (if op_engaged \<and> l \<noteq> right \<and> \<not> demo_mode then l else right))
     in s\<lparr>wheelpos := (wheelpos s)\<lparr>prob_offseter := off, prob_calibrated := calibrated\<rparr>, wheel_on_right := right\<rparr>)"

definition eye_closed :: "dm_settings \<Rightarrow> rat \<Rightarrow> rat \<Rightarrow> rat \<Rightarrow> rat" where
  "eye_closed st blink_prob eye_prob sunglasses_prob =
    (if EYE_THRESHOLD st < eye_prob \<and> sunglasses_prob < SG_THRESHOLD st then blink_prob else 0)"

definition update_face ::
    "math_env \<Rightarrow> driver_data \<Rightarrow> rat list \<Rightarrow> (driver_monitoring, rat) meth" where
  "update_face env d cal_rpy =
    sbind (smodify (\<lambda>s. s\<lparr>face_detected := FACE_THRESHOLD (settings s) < faceProb d\<rparr>)) (\<lambda>_.
    sbind (slift (face_orientation_from_net env (faceOrientation d) (facePosition d) cal_rpy)) (\<lambda>(roll, pitch, yaw).
    sbind (smodify (\<lambda>s. s\<lparr>pose := (pose s)\<lparr>pose_roll := roll, pose_pitch := pitch,
        pose_yaw := (if wheel_on_right s then - yaw else yaw)\<rparr>, wheel_on_right_last := Some (wheel_on_right s)\<rparr>)) (\<lambda>_.
    sbind (slift (py_index (faceOrientationStd d) 0)) (\<lambda>pstd.
    sbind (smodify (\<lambda>s. s\<lparr>pose := (pose s)\<lparr>pitch_std := pstd\<rparr>\<rparr>)) (\<lambda>_.
    sbind (slift (py_index (faceOrientationStd d) 1)) (\<lambda>ystd.
    sbind (smodify (\<lambda>s. s\<lparr>pose := (pose s)\<lparr>yaw_std := ystd, low_std := max pstd ystd < POSESTD_THRESHOLD (settings s)\<rparr>,
        blink := \<lparr>blink_left = eye_closed (settings s) (leftBlinkProb d) (leftEyeProb d) (sunglassesProb d),
                  blink_right = eye_closed (settings s) (rightBlinkProb d) (rightEyeProb d) (sunglassesProb d)\<rparr>,
        phone := (phone s)\<lparr>prob := phoneProb d\<rparr>\<rparr>)) (\<lambda>_. sret (max pstd ystd))))))))"

definition update_distraction :: "driver_data \<Rightarrow> driver_monitoring \<Rightarrow> driver_monitoring" where
  "update_distraction d s =
    (let ts = get_distracted_types s;
         distracted = (ts \<noteq> [] \<and> FACE_THRESHOLD (settings s) < faceProb d \<and> low_std (pose s))
     in s\<lparr>distracted_types := ts, driver_distracted := distracted,
          driver_distraction_filter := filter_update (if distracted then 1 else 0) (driver_distraction_filter s)\<rparr>)"

definition update_offsets :: "math_env \<Rightarrow> rat \<Rightarrow> bool \<Rightarrow> driver_monitoring \<Rightarrow> driver_monitoring" where
  "update_offsets env car_speed op_engaged s =
    (let st = settings s; po = pose s;
         learn = face_detected s \<and> POSE_CALIB_MIN_SPEED st < car_speed \<and> low_std po \<and>
                 (\<not> op_engaged \<or> \<not> driver_distracted s);
         pitch_off = (if learn then push_and_update env (pose_pitch po) (pitch_offseter po) else pitch_offseter po);
         yaw_off = (if learn then push_and_update env (pose_yaw po) (yaw_offseter po) else yaw_offseter po);
         phone_off = (if learn then push_and_update env (prob (phone s)) (prob_offseter (phone s)) else prob_offseter (phone s))
     in s\<lparr>pose := po\<lparr>pitch_offseter := pitch_off, yaw_offseter := yaw_off,
            pose_calibrated := POSE_OFFSET_MIN_COUNT st < stat_n (filtered_stat pitch_off) \<and>
                               POSE_OFFSET_MIN_COUNT st < stat_n (filtered_stat yaw_off)\<rparr>,
          phone := (phone s)\<lparr>prob_offseter := phone_off,
            prob_calibrated := POSE_OFFSET_MIN_COUNT st < stat_n (filtered_stat phone_off)\<rparr>\<rparr>)"

definition update_uncertain :: "rat \<Rightarrow> bool \<Rightarrow> driver_monitoring \<Rightarrow> driver_monitoring" where
  "update_uncertain model_std_max standstill s =
    (if face_detected s \<and> \<not> driver_distracted s
     then if DCAM_UNCERTAIN_ALERT_THRESHOLD (settings s) < model_std_max
          then (if \<not> standstill then s\<lparr>dcam_uncertain_cnt := dcam_uncertain_cnt s + 1, dcam_reset_cnt := 0\<rparr> else s)
          else (let s = s\<lparr>dcam_reset_cnt := dcam_reset_cnt s + 1\<rparr>
                in if DCAM_UNCERTAIN_RESET_COUNT (settings s) < dcam_reset_cnt s
                   then s\<lparr>dcam_uncertain_cnt := 0\<rparr> else s)
     else s)"

definition update_mode :: "driver_monitoring \<Rightarrow> driver_monitoring" where
  "update_mode s =
    (let s = s\<lparr>is_model_uncertain := HI_STD_FALLBACK_TIME (settings s) < hi_stds s\<rparr>;
         s = set_timers (face_detected s \<and> \<not> is_model_uncertain s) s
     in if face_detected s \<and> \<not> low_std (pose s) \<and> \<not> driver_distracted s then s\<lparr>hi_stds := hi_stds s + 1\<rparr>
        else if face_detected s \<and> low_std (pose s) then s\<lparr>hi_stds := 0\<rparr> else s)"

definition update_states ::
    "math_env \<Rightarrow> driver_state \<Rightarrow> rat list \<Rightarrow> rat \<Rightarrow> bool \<Rightarrow> bool \<Rightarrow> bool \<Rightarrow> (driver_monitoring, unit) meth" where
  "update_states env ds cal_rpy car_speed op_engaged standstill demo_mode =
    sbind (smodify (update_wheel env ds car_speed op_engaged demo_mode)) (\<lambda>_.
    sbind (sget wheel_on_right) (\<lambda>right.
    let d = (if right then rightDriverData ds else leftDriverData ds)
    in if \<not> driver_data_complete d then sret ()
       else sbind (update_face env d cal_rpy) (\<lambda>model_std_max.
            smodify (\<lambda>s. update_mode (update_uncertain model_std_max standstill
              (update_offsets env car_speed op_engaged (update_distraction d s)))))))"

section \<open>What is done about it\<close>

definition add_dm_event :: "int \<Rightarrow> driver_monitoring \<Rightarrow> driver_monitoring" where
  "add_dm_event e s = s\<lparr>dm_events := events_add e False (dm_events s)\<rparr>"

definition lockout :: "driver_monitoring \<Rightarrow> driver_monitoring" where
  "lockout s =
    (let st = settings s;
         s = (if MAX_TERMINAL_ALERTS st \<le> terminal_alert_cnt s \<or> MAX_TERMINAL_DURATION st \<le> terminal_time s
              then s\<lparr>param_too_distracted := (if \<not> too_distracted s then True else param_too_distracted s),
                     too_distracted := True\<rparr>
              else s)
     in if too_distracted s \<or> (always_on s \<and> awareness s \<le> threshold_prompt s)
        then add_dm_event EventName_tooDistracted s else s)"

definition always_on_valid :: "bool \<Rightarrow> driver_monitoring \<Rightarrow> bool" where
  "always_on_valid wrong_gear s \<longleftrightarrow> always_on s \<and> \<not> wrong_gear"

definition must_reset :: "bool \<Rightarrow> bool \<Rightarrow> bool \<Rightarrow> driver_monitoring \<Rightarrow> bool" where
  "must_reset driver_engaged op_engaged wrong_gear s \<longleftrightarrow>
     (driver_engaged \<and> 0 < awareness s \<and> \<not> active_monitoring_mode s) \<or>
     (\<not> always_on_valid wrong_gear s \<and> \<not> op_engaged) \<or>
     (always_on_valid wrong_gear s \<and> \<not> op_engaged \<and> awareness s \<le> 0)"

definition recover :: "driver_monitoring \<Rightarrow> driver_monitoring" where
  "recover s =
    (let st = settings s;
         gain = fl (fl (fl (RECOVERY_FACTOR_MAX st - RECOVERY_FACTOR_MIN st) * fl (1 - awareness s)) + RECOVERY_FACTOR_MIN st);
         s = s\<lparr>awareness := min (fl (awareness s + fl (gain * step_change s))) 1\<rparr>
     in if awareness s = 1
        then s\<lparr>awareness_passive := min (fl (awareness_passive s + step_change s)) 1\<rparr> else s)"

definition count_down :: "bool \<Rightarrow> bool \<Rightarrow> bool \<Rightarrow> rat \<Rightarrow> driver_monitoring \<Rightarrow> driver_monitoring" where
  "count_down op_engaged standstill wrong_gear car_speed s =
    (let valid = always_on_valid wrong_gear s;
         next_awareness = fl (awareness s - step_change s);
         reaching_audible = next_awareness \<le> threshold_prompt s;
         reaching_terminal = next_awareness \<le> 0;
         standstill_orange_exemption = standstill \<and> reaching_audible;
         always_on_red_exemption = valid \<and> \<not> op_engaged \<and> reaching_terminal;
         always_on_lowspeed_exemption = valid \<and> \<not> op_engaged \<and> car_speed < ALWAYS_ON_ALERT_MIN_SPEED (settings s);
         certainly_distracted = fl (63 / 100) < filt_x (driver_distraction_filter s) \<and> driver_distracted s \<and> face_detected s;
         maybe_distracted = HI_STD_FALLBACK_TIME (settings s) < hi_stds s \<or> \<not> face_detected s
     in if (certainly_distracted \<or> maybe_distracted) \<and>
           \<not> (standstill_orange_exemption \<or> always_on_red_exemption \<or> (always_on_lowspeed_exemption \<and> reaching_audible))
        then s\<lparr>awareness := max next_awareness (fl (- 1 / 10))\<rparr> else s)"

definition raise_alert :: "bool \<Rightarrow> bool \<Rightarrow> rat \<Rightarrow> rat \<Rightarrow> driver_monitoring \<Rightarrow> driver_monitoring" where
  "raise_alert op_engaged wrong_gear car_speed awareness_prev s =
    (let lowspeed = always_on_valid wrong_gear s \<and> \<not> op_engaged \<and> car_speed < ALWAYS_ON_ALERT_MIN_SPEED (settings s)
     in if awareness s \<le> 0
        then add_dm_event (if active_monitoring_mode s then EventName_driverDistracted else EventName_driverUnresponsive)
               (s\<lparr>terminal_time := terminal_time s + 1,
                  terminal_alert_cnt := (if 0 < awareness_prev then terminal_alert_cnt s + 1 else terminal_alert_cnt s)\<rparr>)
        else if awareness s \<le> threshold_prompt s
        then add_dm_event (if active_monitoring_mode s then EventName_promptDriverDistracted
                           else EventName_promptDriverUnresponsive) s
        else if awareness s \<le> threshold_pre s \<and> \<not> lowspeed
        then add_dm_event (if active_monitoring_mode s then EventName_preDriverDistracted
                           else EventName_preDriverUnresponsive) s
        else s)"

definition dcam_alert :: "driver_monitoring \<Rightarrow> driver_monitoring" where
  "dcam_alert s =
    (if DCAM_UNCERTAIN_ALERT_COUNT (settings s) < dcam_uncertain_cnt s \<and> \<not> dcam_uncertain_alerted s
     then s\<lparr>offroad_uncertain := True, dcam_uncertain_alerted := True\<rparr> else s)"

definition distraction_events :: "bool \<Rightarrow> bool \<Rightarrow> bool \<Rightarrow> rat \<Rightarrow> rat \<Rightarrow> driver_monitoring \<Rightarrow> driver_monitoring" where
  "distraction_events op_engaged standstill wrong_gear car_speed awareness_prev s =
    dcam_alert (raise_alert op_engaged wrong_gear car_speed awareness_prev
      (count_down op_engaged standstill wrong_gear car_speed s))"

definition update_dm_events :: "bool \<Rightarrow> bool \<Rightarrow> bool \<Rightarrow> bool \<Rightarrow> rat \<Rightarrow> driver_monitoring \<Rightarrow> driver_monitoring" where
  "update_dm_events driver_engaged op_engaged standstill wrong_gear car_speed s =
    (let s = lockout (s\<lparr>dm_events := EventsBase_init (EVENTS (on_mici s))\<rparr>);
         driver_attentive = filt_x (driver_distraction_filter s) < fl (37 / 100);
         awareness_prev = awareness s;
         continue = distraction_events op_engaged standstill wrong_gear car_speed awareness_prev
     in if must_reset driver_engaged op_engaged wrong_gear s then reset_awareness s
        else if driver_attentive \<and> face_detected s \<and> low_std (pose s) \<and> 0 < awareness s
        then (if driver_engaged then reset_awareness s
              else let s = recover s in if threshold_prompt s < awareness s then s else continue s)
        else continue s)"

section \<open>One step\<close>

record dm_input =
  in_vEgo :: rat
  in_enabled :: bool
  in_latActive :: bool
  in_drive_gear :: bool
  in_standstill :: bool
  in_steeringPressed :: bool
  in_gasPressed :: bool
  in_brakeDisengageProbs :: "rat list"
  in_rpyCalib :: "rat list"
  in_driverState :: driver_state

definition dm_step ::
    "math_env \<Rightarrow> rat \<Rightarrow> bool \<Rightarrow> bool \<Rightarrow> bool \<Rightarrow> bool \<Rightarrow> rat \<Rightarrow> rat list \<Rightarrow> driver_state \<Rightarrow> bool \<Rightarrow>
     (driver_monitoring, unit) meth" where
  "dm_step env speed enabled wrong_gear standstill driver_engaged brake_prob rpy ds demo =
    sbind (smodify (set_policy env brake_prob speed)) (\<lambda>_.
    sbind (update_states env ds rpy speed enabled standstill demo) (\<lambda>_.
    smodify (update_dm_events driver_engaged enabled standstill wrong_gear speed)))"

definition run_step :: "math_env \<Rightarrow> dm_input \<Rightarrow> bool \<Rightarrow> (driver_monitoring, unit) meth" where
  "run_step env i demo =
    (if demo then dm_step env 30 True False False False 1 [0, 0, 0] (in_driverState i) demo
     else sbind (slift (py_index (in_brakeDisengageProbs i) 0)) (\<lambda>brake_prob.
          dm_step env (in_vEgo i) (in_enabled i \<or> in_latActive i) (\<not> in_drive_gear i) (in_standstill i)
            (in_steeringPressed i \<or> in_gasPressed i) brake_prob (in_rpyCalib i) (in_driverState i) demo))"

section \<open>The published state\<close>

record driver_monitoring_state =
  dms_events :: "(int \<times> ET list) list"
  faceDetected :: bool
  isDistracted :: bool
  distractedType :: int
  awarenessStatus :: rat
  posePitchOffset :: rat
  posePitchValidCount :: int
  poseYawOffset :: rat
  poseYawValidCount :: int
  phoneProbOffset :: rat
  phoneProbValidCount :: int
  stepChange :: rat
  awarenessActive :: rat
  awarenessPassive :: rat
  isLowStd :: bool
  hiStdCount :: int
  isActiveMode :: bool
  isRHD :: bool
  uncertainCount :: int

definition get_state_packet :: "driver_monitoring \<Rightarrow> driver_monitoring_state" where
  "get_state_packet s =
    (let pitch = filtered_stat (pitch_offseter (pose s)); yaw = filtered_stat (yaw_offseter (pose s));
         ph = filtered_stat (prob_offseter (phone s))
     in \<lparr>dms_events = events_to_msg (EVENTS (on_mici s)) (dm_events s), faceDetected = face_detected s,
         isDistracted = driver_distracted s,
         distractedType = sum_list (map DistractedType_value (distracted_types s)),
         awarenessStatus = awareness s, posePitchOffset = stat_M pitch, posePitchValidCount = stat_n pitch,
         poseYawOffset = stat_M yaw, poseYawValidCount = stat_n yaw, phoneProbOffset = stat_M ph,
         phoneProbValidCount = stat_n ph, stepChange = step_change s, awarenessActive = awareness_active s,
         awarenessPassive = awareness_passive s, isLowStd = low_std (pose s), hiStdCount = hi_stds s,
         isActiveMode = active_monitoring_mode s, isRHD = wheel_on_right s, uncertainCount = dcam_uncertain_cnt s\<rparr>)"

section \<open>The daemon\<close>

text \<open>
  One turn of the loop of \<^verbatim>\<open>dmonitoringd_thread\<close> for a new \<^verbatim>\<open>driverStateV2\<close>: what the sockets and the
  parameters hold is the input, the packet is the result.
\<close>

record dmonitoringd =
  DM :: driver_monitoring
  demo_mode :: bool
  param_rhd :: bool

record dmonitoringd_input =
  sm_data :: dm_input
  all_checks :: bool
  driver_state_valid :: bool
  frameId :: int
  param_always_on :: bool
  param_driver_view :: bool

definition reload_toggles :: "dmonitoringd_input \<Rightarrow> dmonitoringd \<Rightarrow> dmonitoringd" where
  "reload_toggles i d =
    (if frameId i mod 40 = 1
     then d\<lparr>DM := (DM d)\<lparr>always_on := param_always_on i\<rparr>, demo_mode := param_driver_view i\<rparr> else d)"

definition save_rhd :: "dmonitoringd_input \<Rightarrow> dmonitoringd \<Rightarrow> dmonitoringd" where
  "save_rhd i d =
    (let s = DM d; off = filtered_stat (prob_offseter (wheelpos s))
     in if frameId i mod 6000 = 0 \<and> \<not> demo_mode d \<and> WHEELPOS_FILTER_MIN_COUNT (settings s) < stat_n off \<and>
           wheel_on_right s = (WHEELPOS_THRESHOLD (settings s) < stat_M off)
        then d\<lparr>param_rhd := wheel_on_right s\<rparr> else d)"

definition dmonitoringd_step :: "math_env \<Rightarrow> dmonitoringd_input \<Rightarrow> (dmonitoringd, driver_monitoring_state) meth" where
  "dmonitoringd_step env i d =
    (case (if demo_mode d \<and> driver_state_valid i \<or> all_checks i
           then run_step env (sm_data i) (demo_mode d) (DM d) else (Inr (), DM d)) of
       (Inl e, dm) \<Rightarrow> (Inl e, d\<lparr>DM := dm\<rparr>)
     | (Inr _, dm) \<Rightarrow> (Inr (get_state_packet dm), save_rhd i (reload_toggles i (d\<lparr>DM := dm\<rparr>))))"

end
