(* ===== verification/DriverAwareness.thy ===== *)
theory DriverAwareness
  imports DriverMonitorCorrect
begin

text \<open>
  The guarantees of the driver monitoring policy. The invariant \<open>dm_inv\<close> bounds the awareness and
  ties the thresholds and the step to the mode.
\<close>

section \<open>The invariant of the policy\<close>

definition level :: "rat \<Rightarrow> bool" where
  "level a \<longleftrightarrow> fl (- 1 / 10) \<le> a \<and> a \<le> 1 \<and> fl a = a"

definition timers_ok :: "driver_monitoring \<Rightarrow> bool" where
  "timers_ok s \<longleftrightarrow>
     (if active_monitoring_mode s
      then (step_change s = 0 \<or> step_change s = fl (DT_DMON / 11)) \<and>
           threshold_prompt s = fl (6 / 11) \<and> threshold_pre s = fl (8 / 11)
      else step_change s = fl (DT_DMON / 30) \<and> threshold_prompt s = fl (6 / 30) \<and> threshold_pre s = fl (15 / 30))"

definition dm_inv :: "bool \<Rightarrow> driver_monitoring \<Rightarrow> bool" where
  "dm_inv mici s \<longleftrightarrow>
     settings s = DRIVER_MONITOR_SETTINGS mici \<and> level (awareness s) \<and> level (awareness_active s) \<and>
     level (awareness_passive s) \<and> timers_ok s \<and> 0 \<le> terminal_alert_cnt s \<and> terminal_alert_cnt s \<le> terminal_time s"

lemma dm_inv_core: "core s = core t \<Longrightarrow> dm_inv mici s = dm_inv mici t"
  by (simp add: core_def dm_inv_def timers_ok_def)

lemma settings_times [simp]:
  "AWARENESS_TIME (DRIVER_MONITOR_SETTINGS mici) = 30"
  "AWARENESS_PRE_TIME_TILL_TERMINAL (DRIVER_MONITOR_SETTINGS mici) = 15"
  "AWARENESS_PROMPT_TIME_TILL_TERMINAL (DRIVER_MONITOR_SETTINGS mici) = 6"
  "DISTRACTED_TIME (DRIVER_MONITOR_SETTINGS mici) = 11"
  "DISTRACTED_PRE_TIME_TILL_TERMINAL (DRIVER_MONITOR_SETTINGS mici) = 8"
  "DISTRACTED_PROMPT_TIME_TILL_TERMINAL (DRIVER_MONITOR_SETTINGS mici) = 6"
  "RECOVERY_FACTOR_MAX (DRIVER_MONITOR_SETTINGS mici) = 5"
  "RECOVERY_FACTOR_MIN (DRIVER_MONITOR_SETTINGS mici) = 5 / 4"
  "MAX_TERMINAL_ALERTS (DRIVER_MONITOR_SETTINGS mici) = 3"
  "ALWAYS_ON_ALERT_MIN_SPEED (DRIVER_MONITOR_SETTINGS mici) = 11"
  "FACE_THRESHOLD (DRIVER_MONITOR_SETTINGS mici) = fl (7 / 10)"
  by (simp_all add: DRIVER_MONITOR_SETTINGS_def)

lemma level_1 [simp]: "level 1"
  using fl_mono [of "- 1 / 10" 1] by (simp add: level_def)

lemma DT_DMON_nonneg: "0 \<le> DT_DMON"
  by (simp add: DT_DMON_def)

lemma step_nonneg: "timers_ok s \<Longrightarrow> 0 \<le> step_change s"
  using DT_DMON_nonneg by (auto simp: timers_ok_def split: if_splits)

lemma set_timers_inv: "dm_inv mici s \<Longrightarrow> dm_inv mici (set_timers b s)"
  by (auto simp: dm_inv_def timers_ok_def set_timers_def Let_def)

lemma update_states_inv:
  "dm_inv mici s \<Longrightarrow> dm_inv mici (snd (update_states env ds rpy v en st demo s))"
  using update_states_core [of env ds rpy v en st demo s] set_timers_inv dm_inv_core
  by (cases "update_states env ds rpy v en st demo s") (metis snd_conv)

lemma level_down: "level a \<Longrightarrow> 0 \<le> d \<Longrightarrow> level (max (fl (a - d)) (fl (- 1 / 10)))"
  using fl_mono [of "a - d" a] fl_mono [of "- 1 / 10" 1] by (auto simp: level_def max_def)

lemma level_up: "level a \<Longrightarrow> 0 \<le> d \<Longrightarrow> level (min (fl (a + d)) 1)"
  using fl_mono [of a "a + d"] fl_mono [of "- 1 / 10" 1] by (auto simp: level_def min_def)

definition gain :: "rat \<Rightarrow> rat" where
  "gain a = fl (fl (fl (15 / 4) * fl (1 - a)) + 5 / 4)"

lemma recover_unfold:
  "settings s = DRIVER_MONITOR_SETTINGS mici \<Longrightarrow>
   recover s =
     (let a = min (fl (awareness s + fl (gain (awareness s) * step_change s))) 1; s = s\<lparr>awareness := a\<rparr>
      in if a = 1 then s\<lparr>awareness_passive := min (fl (awareness_passive s + step_change s)) 1\<rparr> else s)"
  by (simp add: recover_def gain_def Let_def)

lemma recover_core:
  assumes "dm_inv mici s"
  shows "dm_inv mici (recover s)" "awareness s \<le> awareness (recover s)"
proof -
  have l: "level (awareness s)" "level (awareness_passive s)" "timers_ok s"
    and st: "settings s = DRIVER_MONITOR_SETTINGS mici"
    using assms by (simp_all add: dm_inv_def)
  have d: "0 \<le> fl (gain (awareness s) * step_change s)"
    using l(1) step_nonneg [OF l(3)] by (simp add: gain_def level_def)
  define a where "a = min (fl (awareness s + fl (gain (awareness s) * step_change s))) 1"
  have "level a" unfolding a_def by (rule level_up [OF l(1) d])
  then show "dm_inv mici (recover s)"
    using assms level_up [OF l(2) step_nonneg [OF l(3)]]
    unfolding recover_unfold [OF st] a_def [symmetric] Let_def by (simp add: dm_inv_def timers_ok_def)
  have "awareness s \<le> a"
    using fl_mono [of "awareness s" "awareness s + fl (gain (awareness s) * step_change s)"] d l(1)
    by (simp add: a_def level_def)
  then show "awareness s \<le> awareness (recover s)"
    unfolding recover_unfold [OF st] a_def [symmetric] Let_def by simp
qed

lemma count_down_inv: "dm_inv mici s \<Longrightarrow> dm_inv mici (count_down en st wg v s)"
  using level_down [of "awareness s" "step_change s"] step_nonneg [of s]
  by (simp add: count_down_def Let_def dm_inv_def timers_ok_def)

lemma raise_alert_inv: "dm_inv mici s \<Longrightarrow> dm_inv mici (raise_alert en wg v p s)"
  by (auto simp: raise_alert_def add_dm_event_def Let_def dm_inv_def timers_ok_def)

lemma dcam_alert_core [simp]: "core (dcam_alert s) = core s"
  by (simp add: dcam_alert_def core_def)

lemma distraction_events_inv: "dm_inv mici s \<Longrightarrow> dm_inv mici (distraction_events en st wg v p s)"
  by (simp add: distraction_events_def dm_inv_core [OF dcam_alert_core] raise_alert_inv count_down_inv)

lemma lockout_inv: "dm_inv mici s \<Longrightarrow> dm_inv mici (lockout s)"
  by (auto simp: lockout_def add_dm_event_def Let_def dm_inv_def timers_ok_def)

lemma reset_awareness_inv: "dm_inv mici s \<Longrightarrow> dm_inv mici (reset_awareness s)"
  by (simp add: reset_awareness_def dm_inv_def timers_ok_def)

lemma dm_inv_events [simp]: "dm_inv mici (s\<lparr>dm_events := e\<rparr>) = dm_inv mici s"
  by (simp add: dm_inv_def timers_ok_def)

lemma update_dm_events_inv: "dm_inv mici s \<Longrightarrow> dm_inv mici (update_dm_events de en st wg v s)"
  by (simp add: update_dm_events_def Let_def lockout_inv reset_awareness_inv distraction_events_inv recover_core)

lemma dm_step_inv: "dm_inv mici s \<Longrightarrow> dm_inv mici (snd (dm_step env v en wg st de p rpy ds demo s))"
  using update_states_inv [of mici "set_policy env p v s" env ds rpy v en st demo] dm_inv_core [of "set_policy env p v s" s mici]
  by (auto simp: dm_step_def sbind_def smodify_def update_dm_events_inv split: sum.split prod.split)

lemma run_step_inv: "dm_inv mici s \<Longrightarrow> dm_inv mici (snd (run_step env i demo s))"
  by (simp add: run_step_def dm_step_inv sbind_slift split: sum.split)

lemma DriverMonitoring_init_inv: "dm_inv mici (DriverMonitoring_init mici rhd (DRIVER_MONITOR_SETTINGS mici) ao td)"
  unfolding DriverMonitoring_init_def by (rule set_timers_inv) (simp add: dm_inv_def timers_ok_def)

section \<open>The daemon keeps the invariant\<close>

definition dm_run :: "math_env \<Rightarrow> dmonitoringd_input \<Rightarrow> dmonitoringd \<Rightarrow> dmonitoringd" where
  "dm_run env i d = snd (dmonitoringd_step env i d)"

lemma dm_inv_always_on [simp]: "dm_inv mici (s\<lparr>always_on := b\<rparr>) = dm_inv mici s"
  by (simp add: dm_inv_def timers_ok_def)

lemma save_reload_DM:
  "DM (save_rhd i (reload_toggles i d)) = (if frameId i mod 40 = 1 then (DM d)\<lparr>always_on := param_always_on i\<rparr> else DM d)"
  by (simp add: save_rhd_def reload_toggles_def Let_def)

lemma dmonitoringd_step_DM:
  "DM (dm_run env i d) =
     (let (r, s) = (if demo_mode d \<and> driver_state_valid i \<or> all_checks i
                    then run_step env (sm_data i) (demo_mode d) (DM d) else (Inr (), DM d))
      in if (\<exists>u. r = Inr u) \<and> frameId i mod 40 = 1 then s\<lparr>always_on := param_always_on i\<rparr> else s)"
  by (auto simp: dm_run_def dmonitoringd_step_def save_reload_DM split: sum.split prod.split)

lemma dm_run_inv: "dm_inv mici (DM d) \<Longrightarrow> dm_inv mici (DM (dm_run env i d))"
  using run_step_inv [of mici "DM d" env "sm_data i" "demo_mode d"]
  by (auto simp: dmonitoringd_step_DM split: prod.split)

interpretation monitoring: invariant_step "dm_run env" "\<lambda>d. dm_inv mici (DM d)" for env mici
  by unfold_locales (rule dm_run_inv)

text \<open>C12: Driver monitoring stays in its policy: for every stream of camera, car and parameter data, however
  it is interleaved, after any number of turns of the daemon the three awareness levels lie between -0.1 and 1,
  and the step and both thresholds are those of the mode (11, 8 and 6 seconds with a visible driver, 30, 15 and
  6 seconds without), the step being 0 only in the active mode.\<close>

theorem monitoring_policy:
  "dm_inv mici (DM (fold (dm_run env) is
     \<lparr>DM = DriverMonitoring_init mici rhd (DRIVER_MONITOR_SETTINGS mici) ao td, demo_mode = False, param_rhd = rhd\<rparr>))"
  by (rule monitoring.run_inv) (simp add: DriverMonitoring_init_inv)

section \<open>The run of a step\<close>

definition data_ok :: "driver_data \<Rightarrow> bool" where
  "data_ok d \<longleftrightarrow> length (faceOrientation d) = 3 \<and> 2 \<le> length (facePosition d) \<and>
     2 \<le> length (faceOrientationStd d) \<and> facePositionStd d \<noteq> []"

definition input_ok :: "dm_input \<Rightarrow> bool" where
  "input_ok i \<longleftrightarrow> in_brakeDisengageProbs i \<noteq> [] \<and> 3 \<le> length (in_rpyCalib i) \<and>
     data_ok (leftDriverData (in_driverState i)) \<and> data_ok (rightDriverData (in_driverState i))"

lemma face_orientation_ok:
  assumes "data_ok d" "3 \<le> length rpy"
  shows "\<exists>t. face_orientation_from_net env (faceOrientation d) (facePosition d) rpy = Inr t"
proof -
  obtain a b c where "faceOrientation d = [a, b, c]"
    using assms(1) by (auto simp: data_ok_def numeral_3_eq_3 length_Suc_conv)
  moreover have "py_index (facePosition d) 0 = Inr (facePosition d ! 0)" "py_index (facePosition d) 1 = Inr (facePosition d ! 1)"
    "py_index rpy 1 = Inr (rpy ! 1)" "py_index rpy 2 = Inr (rpy ! 2)"
    using assms by (auto simp: data_ok_def py_index_def)
  ultimately show ?thesis by (simp add: face_orientation_from_net_def Let_def)
qed

lemma update_face_ok:
  assumes "data_ok d" "3 \<le> length rpy"
  shows "\<exists>m s'. update_face env d rpy s = (Inr m, s') \<and> face_detected s' = (FACE_THRESHOLD (settings s) < faceProb d)"
proof -
  obtain r p y where "face_orientation_from_net env (faceOrientation d) (facePosition d) rpy = Inr (r, p, y)"
    using face_orientation_ok [OF assms] by (metis prod_cases3)
  moreover have "py_index (faceOrientationStd d) 0 = Inr (faceOrientationStd d ! 0)"
    "py_index (faceOrientationStd d) 1 = Inr (faceOrientationStd d ! 1)"
    using assms by (auto simp: data_ok_def py_index_def)
  ultimately show ?thesis by (simp add: update_face_def exec_simps)
qed

lemma face_detected_simps [simp]:
  "face_detected (update_distraction d s) = face_detected s"
  "face_detected (update_offsets env v en s) = face_detected s"
  "face_detected (update_uncertain m st s) = face_detected s"
  "face_detected (set_timers b s) = face_detected s"
  "face_detected (update_mode s) = face_detected s"
  by (simp_all add: update_distraction_def update_offsets_def update_uncertain_def set_timers_def update_mode_def Let_def)

text \<open>Data of the expected lengths is processed to the end; the timers then follow the face.\<close>

lemma update_states_ok:
  assumes "data_ok (leftDriverData ds)" "data_ok (rightDriverData ds)" "3 \<le> length rpy"
  shows "\<exists>s' b. update_states env ds rpy v en st demo s = (Inr (), s') \<and>
    face_detected s' = (FACE_THRESHOLD (settings s) < faceProb (watched env ds v en demo s)) \<and>
    core s' = core (set_timers b s) \<and> (b \<longrightarrow> face_detected s')"
proof -
  let ?s1 = "update_wheel env ds v en demo s" and ?d = "watched env ds v en demo s"
  have d: "data_ok ?d" using assms by (simp add: watched_def)
  then have c: "driver_data_complete ?d" by (auto simp: data_ok_def driver_data_complete_def)
  obtain m s2 where f: "update_face env ?d rpy ?s1 = (Inr m, s2)"
    "face_detected s2 = (FACE_THRESHOLD (settings ?s1) < faceProb ?d)"
    using update_face_ok [OF d assms(3)] by blast
  let ?s3 = "update_uncertain m st (update_offsets env v en (update_distraction ?d s2))"
  let ?b = "face_detected ?s3 \<and> \<not> HI_STD_FALLBACK_TIME (settings ?s3) < hi_stds ?s3"
  have st: "settings ?s1 = settings s" using core_simps(2) unfolding core_def by blast
  have "core ?s3 = core s" using update_face_core [OF f(1)] by simp
  then have "core (update_mode ?s3) = core (set_timers ?b s)"
    by (metis update_mode_core set_timers_core)
  moreover have "update_states env ds rpy v en st demo s = (Inr (), update_mode ?s3)"
    using c f(1) by (simp add: update_states_run Let_def)
  ultimately show ?thesis using f(2) st
    by (intro exI [of _ "update_mode ?s3"] exI [of _ ?b]) simp
qed

end
