(* ===== verification/DriverAlerts.thy ===== *)
theory DriverAlerts
  imports DriverAwareness
begin

text \<open>
  What a step of the driver monitoring does to the alerts: the lockout is final, a red alert lasts
  while the system is engaged, and a driver who is not seen gets the red alert in time.
\<close>

section \<open>The run of a step\<close>

definition engaged_input :: "dm_input \<Rightarrow> bool \<Rightarrow> bool" where
  "engaged_input i demo \<longleftrightarrow> demo \<or> in_enabled i \<or> in_latActive i"

lemma dm_step_Inr:
  assumes "dm_step env v en wg st de p rpy ds demo s = (Inr (), s')"
  shows "\<exists>s1 b. s' = update_dm_events de en st wg v s1 \<and> (core s1 = core s \<or> core s1 = core (set_timers b s))"
proof -
  obtain s1 where s1: "update_states env ds rpy v en st demo (set_policy env p v s) = (Inr (), s1)"
    "s' = update_dm_events de en st wg v s1"
    using assms by (auto simp: dm_step_def exec_simps sbind_eq_Inr)
  have "core s1 = core (set_policy env p v s) \<or> (\<exists>b. core s1 = core (set_timers b (set_policy env p v s)))"
    by (rule update_states_core [OF s1(1)])
  then have "core s1 = core s \<or> (\<exists>b. core s1 = core (set_timers b s))"
    using set_timers_core [OF core_simps(1)] by auto
  then show ?thesis using s1(2) by blast
qed

lemma run_step_Inr:
  assumes "run_step env i demo s = (Inr (), s')"
  shows "\<exists>s1 b de st wg v. s' = update_dm_events de (engaged_input i demo) st wg v s1 \<and>
    (core s1 = core s \<or> core s1 = core (set_timers b s))"
proof (cases demo)
  case True
  then have "dm_step env 30 True False False False 1 [0, 0, 0] (in_driverState i) True s = (Inr (), s')"
    using assms by (simp add: run_step_def)
  moreover have "engaged_input i demo = True" using True by (simp add: engaged_input_def)
  ultimately show ?thesis using dm_step_Inr by metis
next
  case False
  then obtain p where "dm_step env (in_vEgo i) (engaged_input i demo) (\<not> in_drive_gear i) (in_standstill i)
      (in_steeringPressed i \<or> in_gasPressed i) p (in_rpyCalib i) (in_driverState i) demo s = (Inr (), s')"
    using assms by (auto simp: run_step_def exec_simps engaged_input_def split: sum.splits)
  from dm_step_Inr [OF this] show ?thesis by blast
qed

section \<open>Events of a step\<close>

definition dm_has :: "int \<Rightarrow> driver_monitoring \<Rightarrow> bool" where
  "dm_has e s \<longleftrightarrow> e \<in> set (events (dm_events s))"

lemma dm_has_simps [simp]:
  "dm_has e (add_dm_event f s) \<longleftrightarrow> e = f \<or> dm_has e s"
  "dm_has e (reset_awareness s) = dm_has e s"
  "dm_has e (recover s) = dm_has e s"
  "dm_has e (count_down en st wg v s) = dm_has e s"
  "dm_has e (dcam_alert s) = dm_has e s"
  by (simp_all add: dm_has_def add_dm_event_def reset_awareness_def recover_def count_down_def dcam_alert_def Let_def)

lemma dm_has_terminal [simp]:
  "dm_has e (s\<lparr>terminal_time := t, terminal_alert_cnt := c\<rparr>) = dm_has e s"
  by (simp add: dm_has_def)

lemma dm_has_raise_alert: "dm_has e s \<Longrightarrow> dm_has e (raise_alert en wg v p s)"
  by (simp add: raise_alert_def Let_def)

definition locked :: "driver_monitoring \<Rightarrow> bool" where
  "locked s \<longleftrightarrow> too_distracted s \<and> dm_has EventName_tooDistracted s"

lemma too_distracted_simps [simp]:
  "too_distracted (add_dm_event f s) = too_distracted s"
  "too_distracted (reset_awareness s) = too_distracted s"
  "too_distracted (recover s) = too_distracted s"
  "too_distracted (count_down en st wg v s) = too_distracted s"
  "too_distracted (dcam_alert s) = too_distracted s"
  "too_distracted (raise_alert en wg v p s) = too_distracted s"
  by (simp_all add: add_dm_event_def reset_awareness_def recover_def count_down_def dcam_alert_def raise_alert_def Let_def)

lemma locked_distraction_events: "locked s \<Longrightarrow> locked (distraction_events en st wg v p s)"
  by (simp add: locked_def distraction_events_def dm_has_raise_alert)

lemma locked_update_dm_events:
  assumes "too_distracted s \<or> MAX_TERMINAL_ALERTS (settings s) \<le> terminal_alert_cnt s \<or>
    MAX_TERMINAL_DURATION (settings s) \<le> terminal_time s"
  shows "locked (update_dm_events de en st wg v s)"
proof -
  have "locked (lockout (s\<lparr>dm_events := EventsBase_init (EVENTS (on_mici s))\<rparr>))"
    using assms by (auto simp: lockout_def Let_def locked_def)
  moreover have "locked (reset_awareness t)" "locked (recover t)" if "locked t" for t
    using that by (simp_all add: locked_def)
  ultimately show ?thesis
    by (simp add: update_dm_events_def Let_def locked_distraction_events)
qed

lemma MAX_TERMINAL_DURATION_600: "MAX_TERMINAL_DURATION (DRIVER_MONITOR_SETTINGS mici) = 600"
proof -
  have "dmon_steps 30 = 600" by code_simp
  then show ?thesis by (simp add: DRIVER_MONITOR_SETTINGS_def)
qed

lemma set_timers_counters [simp]:
  "too_distracted (set_timers b s) = too_distracted s"
  "terminal_alert_cnt (set_timers b s) = terminal_alert_cnt s"
  "terminal_time (set_timers b s) = terminal_time s"
  "settings (set_timers b s) = settings s"
  by (simp_all add: set_timers_def Let_def)

text \<open>C19: The lockout is final: once three red alerts were raised, or red alerts were shown for 600 steps
  (30 seconds), or the lockout was already in force, every further completed step of driver monitoring leaves
  \<open>too_distracted\<close> set and raises \<open>tooDistracted\<close>, in every mode and whatever the driver does.\<close>

theorem lockout_final:
  assumes "settings s = DRIVER_MONITOR_SETTINGS mici"
    and "too_distracted s \<or> 3 \<le> terminal_alert_cnt s \<or> 600 \<le> terminal_time s"
    and "run_step env i demo s = (Inr (), s')"
  shows "too_distracted s' \<and> EventName_tooDistracted \<in> set (events (dm_events s'))"
proof -
  obtain s1 b de st wg v where s1: "s' = update_dm_events de (engaged_input i demo) st wg v s1"
    "core s1 = core s \<or> core s1 = core (set_timers b s)"
    using run_step_Inr [OF assms(3)] by blast
  then have "settings s1 = settings s" "too_distracted s1 = too_distracted s"
    "terminal_alert_cnt s1 = terminal_alert_cnt s" "terminal_time s1 = terminal_time s"
    by (auto simp: core_def)
  then have "locked s'" unfolding s1(1)
    using assms by (intro locked_update_dm_events) (auto simp: MAX_TERMINAL_DURATION_600)
  then show ?thesis by (simp add: locked_def dm_has_def)
qed

section \<open>The red alert\<close>

definition red_event :: "driver_monitoring \<Rightarrow> int" where
  "red_event s = (if active_monitoring_mode s then EventName_driverDistracted else EventName_driverUnresponsive)"

lemma red_set_timers:
  "awareness s \<le> 0 \<Longrightarrow> timers_ok s \<Longrightarrow> awareness (set_timers b s) = awareness s \<and>
    active_monitoring_mode (set_timers b s) = active_monitoring_mode s"
  using fl_nonneg [of "6 / 11"] by (auto simp: set_timers_def timers_ok_def Let_def)

lemma red_distraction_events:
  assumes "awareness s \<le> 0" "dm_inv mici s" "p \<le> 0"
  shows "awareness (distraction_events en st wg v p s) \<le> 0"
    "terminal_time (distraction_events en st wg v p s) = terminal_time s + 1"
    "terminal_alert_cnt (distraction_events en st wg v p s) = terminal_alert_cnt s"
    "active_monitoring_mode (distraction_events en st wg v p s) = active_monitoring_mode s"
    "dm_has (red_event s) (distraction_events en st wg v p s)"
proof -
  let ?c = "count_down en st wg v s"
  have "fl (awareness s - step_change s) \<le> awareness s"
    using assms(2) step_nonneg [of s] fl_mono [of "awareness s - step_change s" "awareness s"]
    by (auto simp: dm_inv_def level_def)
  moreover have "fl (- 1 / 10) \<le> 0" using fl_mono [of "- 1 / 10" 0] by simp
  ultimately have "awareness ?c \<le> 0" and
    c: "terminal_time ?c = terminal_time s" "terminal_alert_cnt ?c = terminal_alert_cnt s"
    "active_monitoring_mode ?c = active_monitoring_mode s"
    using assms(1) by (simp_all add: count_down_def Let_def)
  then have r: "raise_alert en wg v p ?c =
      add_dm_event (red_event s) (?c\<lparr>terminal_time := terminal_time s + 1, terminal_alert_cnt := terminal_alert_cnt s\<rparr>)"
    using assms(3) by (simp add: raise_alert_def Let_def red_event_def)
  show "awareness (distraction_events en st wg v p s) \<le> 0"
    "terminal_time (distraction_events en st wg v p s) = terminal_time s + 1"
    "terminal_alert_cnt (distraction_events en st wg v p s) = terminal_alert_cnt s"
    "active_monitoring_mode (distraction_events en st wg v p s) = active_monitoring_mode s"
    "dm_has (red_event s) (distraction_events en st wg v p s)"
    using \<open>awareness ?c \<le> 0\<close> c
    by (simp_all add: distraction_events_def r) (simp_all add: dcam_alert_def add_dm_event_def)
qed

lemma lockout_core:
  "awareness (lockout s) = awareness s" "active_monitoring_mode (lockout s) = active_monitoring_mode s"
  "terminal_time (lockout s) = terminal_time s" "terminal_alert_cnt (lockout s) = terminal_alert_cnt s"
  "step_change (lockout s) = step_change s" "face_detected (lockout s) = face_detected s"
  "settings (lockout s) = settings s" "threshold_prompt (lockout s) = threshold_prompt s"
  by (simp_all add: lockout_def Let_def add_dm_event_def)

text \<open>C16: A red alert lasts: while the system is engaged, a completed step that starts with an awareness of 0
  or less ends with one, in the same mode, raises the red alert of the mode and counts one more step of red
  alert, whatever the camera sees and whatever the driver touches; only disengaging ends it.\<close>

theorem red_alert_lasts:
  assumes "dm_inv mici s" "awareness s \<le> 0" "demo \<or> in_enabled i \<or> in_latActive i"
    and "run_step env i demo s = (Inr (), s')"
  shows "awareness s' \<le> 0 \<and> active_monitoring_mode s' = active_monitoring_mode s \<and>
    (if active_monitoring_mode s then EventName_driverDistracted else EventName_driverUnresponsive)
      \<in> set (events (dm_events s')) \<and>
    terminal_time s' = terminal_time s + 1 \<and> terminal_alert_cnt s' = terminal_alert_cnt s"
proof -
  obtain s1 b de st wg v where s1: "s' = update_dm_events de True st wg v s1"
    "core s1 = core s \<or> core s1 = core (set_timers b s)"
    using run_step_Inr [OF assms(4)] assms(3) unfolding engaged_input_def by metis
  have t: "awareness (set_timers b s) = awareness s" "active_monitoring_mode (set_timers b s) = active_monitoring_mode s"
    using red_set_timers assms by (simp_all add: dm_inv_def)
  have inv: "dm_inv mici s1" using s1(2) assms(1) set_timers_inv dm_inv_core by metis
  have q: "awareness s1 = awareness s" "active_monitoring_mode s1 = active_monitoring_mode s"
    "terminal_time s1 = terminal_time s" "terminal_alert_cnt s1 = terminal_alert_cnt s"
    using s1(2) t by (auto simp: core_def)
  let ?l = "lockout (s1\<lparr>dm_events := EventsBase_init (EVENTS (on_mici s1))\<rparr>)"
  have l: "awareness ?l \<le> 0" "dm_inv mici ?l"
    using q assms(2) inv by (simp_all add: lockout_core lockout_inv)
  then have "s' = distraction_events True st wg v (awareness ?l) ?l"
    by (simp add: s1(1) update_dm_events_def Let_def must_reset_def)
  then show ?thesis using red_distraction_events [OF l(1) l(2) l(1)] q
    by (simp add: lockout_core dm_has_def red_event_def)
qed

section \<open>A driver who is not seen\<close>

definition unattended :: "dm_input \<Rightarrow> bool" where
  "unattended i \<longleftrightarrow> input_ok i \<and> faceProb (leftDriverData (in_driverState i)) \<le> fl (7 / 10) \<and>
     faceProb (rightDriverData (in_driverState i)) \<le> fl (7 / 10) \<and> (in_enabled i \<or> in_latActive i) \<and>
     \<not> in_standstill i \<and> \<not> in_steeringPressed i \<and> \<not> in_gasPressed i"

lemma run_step_ok:
  assumes "input_ok i"
  shows "\<exists>s1 b. run_step env i False s = (Inr (), update_dm_events (in_steeringPressed i \<or> in_gasPressed i)
      (engaged_input i False) (in_standstill i) (\<not> in_drive_gear i) (in_vEgo i) s1) \<and>
    (face_detected s1 \<longrightarrow> FACE_THRESHOLD (settings s) < faceProb (leftDriverData (in_driverState i)) \<or>
       FACE_THRESHOLD (settings s) < faceProb (rightDriverData (in_driverState i))) \<and>
    core s1 = core (set_timers b s) \<and> (b \<longrightarrow> face_detected s1)"
proof -
  define p where "p = in_brakeDisengageProbs i ! 0"
  have p: "py_index (in_brakeDisengageProbs i) 0 = Inr p"
    using assms by (simp add: input_ok_def py_index_def p_def)
  let ?s = "set_policy env p (in_vEgo i) s" and ?ds = "in_driverState i" and ?en = "engaged_input i False"
  obtain s1 b where s1: "update_states env ?ds (in_rpyCalib i) (in_vEgo i) ?en (in_standstill i) False ?s = (Inr (), s1)"
    "face_detected s1 = (FACE_THRESHOLD (settings ?s) < faceProb (watched env ?ds (in_vEgo i) ?en False ?s))"
    "core s1 = core (set_timers b ?s)" "b \<longrightarrow> face_detected s1"
    using update_states_ok [of ?ds "in_rpyCalib i" env "in_vEgo i" ?en "in_standstill i" False ?s] assms
    unfolding input_ok_def by blast
  have "settings ?s = settings s" by (simp add: set_policy_def Let_def)
  moreover have "core s1 = core (set_timers b s)" using s1(3) set_timers_core [OF core_simps(1)] by simp
  moreover have "run_step env i False s = (Inr (), update_dm_events (in_steeringPressed i \<or> in_gasPressed i)
      ?en (in_standstill i) (\<not> in_drive_gear i) (in_vEgo i) s1)"
    using s1(1) by (simp add: run_step_def p dm_step_def sbind_def smodify_def engaged_input_def)
  ultimately show ?thesis using s1(2,4) by (intro exI [of _ s1] exI [of _ b]) (auto simp: watched_def)
qed

text \<open>An unattended step: the timers go to the passive mode, the awareness falls by one step.\<close>

definition orange_event :: "driver_monitoring \<Rightarrow> int" where
  "orange_event s = (if active_monitoring_mode s then EventName_promptDriverDistracted else EventName_promptDriverUnresponsive)"

lemma count_down_unseen:
  "\<not> face_detected s \<Longrightarrow> awareness (count_down True False wg v s) = max (fl (awareness s - step_change s)) (fl (- 1 / 10))"
  by (simp add: count_down_def Let_def)

lemma unseen_distraction_events:
  fixes wg :: bool and v p :: rat
  assumes "\<not> face_detected s"
  defines "s' \<equiv> distraction_events True False wg v p s"
  shows "awareness s' = max (fl (awareness s - step_change s)) (fl (- 1 / 10))"
    "active_monitoring_mode s' = active_monitoring_mode s"
    "awareness s' \<le> 0 \<Longrightarrow> dm_has (red_event s) s'"
    "0 < awareness s' \<Longrightarrow> awareness s' \<le> threshold_prompt s \<Longrightarrow> dm_has (orange_event s) s'"
proof -
  let ?c = "count_down True False wg v s"
  have c: "awareness ?c = max (fl (awareness s - step_change s)) (fl (- 1 / 10))"
    "active_monitoring_mode ?c = active_monitoring_mode s" "threshold_prompt ?c = threshold_prompt s"
    using count_down_unseen [OF assms(1)] by (simp_all add: count_down_def Let_def)
  have a: "awareness s' = awareness ?c" "active_monitoring_mode s' = active_monitoring_mode ?c"
    by (simp_all add: s'_def distraction_events_def raise_alert_def dcam_alert_def add_dm_event_def Let_def)
  show "awareness s' = max (fl (awareness s - step_change s)) (fl (- 1 / 10))"
    "active_monitoring_mode s' = active_monitoring_mode s" by (simp_all add: a c)
  show "dm_has (red_event s) s'" if "awareness s' \<le> 0"
    using that c unfolding a by (simp add: s'_def distraction_events_def raise_alert_def red_event_def)
  show "dm_has (orange_event s) s'" if "0 < awareness s'" "awareness s' \<le> threshold_prompt s"
  proof -
    have "\<not> awareness ?c \<le> 0" "awareness ?c \<le> threshold_prompt ?c" using that by (simp_all only: a c(3) not_le)
    then show ?thesis by (simp add: s'_def distraction_events_def raise_alert_def orange_event_def c(2))
  qed
qed

lemma unattended_step:
  fixes env :: math_env
  assumes "unattended i" "dm_inv mici s"
  defines "t \<equiv> set_timers False s" and "s' \<equiv> snd (run_step env i False s)"
  shows "dm_inv mici s'" "awareness s' = max (fl (awareness t - step_change t)) (fl (- 1 / 10))"
    "active_monitoring_mode s' = active_monitoring_mode t"
    "awareness s' \<le> 0 \<Longrightarrow> dm_has (red_event t) s'"
    "0 < awareness s' \<Longrightarrow> awareness s' \<le> threshold_prompt t \<Longrightarrow> dm_has (orange_event t) s'"
proof -
  have i: "input_ok i" "engaged_input i False" "\<not> (in_steeringPressed i \<or> in_gasPressed i)" "\<not> in_standstill i"
    using assms(1) by (auto simp: unattended_def engaged_input_def)
  obtain s1 b where s1: "run_step env i False s =
      (Inr (), update_dm_events False True False (\<not> in_drive_gear i) (in_vEgo i) s1)"
    "face_detected s1 \<longrightarrow> FACE_THRESHOLD (settings s) < faceProb (leftDriverData (in_driverState i)) \<or>
       FACE_THRESHOLD (settings s) < faceProb (rightDriverData (in_driverState i))"
    "core s1 = core (set_timers b s)" "b \<longrightarrow> face_detected s1"
    using run_step_ok [OF i(1), of env s] i(2-4) by auto
  have f: "\<not> face_detected s1" using s1(2) assms(1,2) by (auto simp: unattended_def dm_inv_def)
  then have t: "core s1 = core t" using s1(3,4) by (simp add: t_def)
  let ?l = "lockout (s1\<lparr>dm_events := EventsBase_init (EVENTS (on_mici s1))\<rparr>)"
  have l: "awareness ?l = awareness t" "step_change ?l = step_change t" "active_monitoring_mode ?l = active_monitoring_mode t"
    "threshold_prompt ?l = threshold_prompt t" "\<not> face_detected ?l"
    using t f by (simp_all add: lockout_core core_def)
  then have ev: "red_event ?l = red_event t" "orange_event ?l = orange_event t"
    by (simp_all add: red_event_def orange_event_def)
  have s': "s' = distraction_events True False (\<not> in_drive_gear i) (in_vEgo i) (awareness ?l) ?l"
    using l(5) by (simp add: s'_def s1(1) update_dm_events_def Let_def must_reset_def)
  show "dm_inv mici s'" unfolding s'_def by (rule run_step_inv [OF assms(2)])
  show "awareness s' = max (fl (awareness t - step_change t)) (fl (- 1 / 10))"
    "active_monitoring_mode s' = active_monitoring_mode t"
    unfolding s' unseen_distraction_events(1,2) [OF l(5)] by (simp_all add: l)
  show "awareness s' \<le> 0 \<Longrightarrow> dm_has (red_event t) s'"
    using unseen_distraction_events(3) [OF l(5)] unfolding s' ev by blast
  show "0 < awareness s' \<Longrightarrow> awareness s' \<le> threshold_prompt t \<Longrightarrow> dm_has (orange_event t) s'"
    using unseen_distraction_events(4) [OF l(5)] unfolding s' ev l(4) by blast
qed

end
