(* ===== verification/DriverUnseen.thy ===== *)
theory DriverUnseen
  imports DriverAlerts
begin

text \<open>
  Driver monitoring without a visible driver: the count-down of the passive mode in floats, the time
  until the red alert, and the orange alert that stands still.
\<close>

definition camera_run :: "math_env \<Rightarrow> dm_input list \<Rightarrow> driver_monitoring \<Rightarrow> driver_monitoring" where
  "camera_run env = fold (\<lambda>i s. snd (run_step env i False s))"

lemma passive_timers:
  assumes "dm_inv mici s" "\<not> active_monitoring_mode s"
  defines "t \<equiv> set_timers False s"
  shows "\<not> active_monitoring_mode t" "awareness t = awareness s" "step_change t = fl (DT_DMON / 30)"
  using assms by (auto simp: t_def set_timers_def Let_def dm_inv_def timers_ok_def)

lemma passive_step_size: "fl (a - fl (DT_DMON / 30)) \<le> max 0 (a - 1 / 601)" if "a \<le> 1"
proof (cases "a \<le> fl (DT_DMON / 30)")
  case True
  then have "fl (a - fl (DT_DMON / 30)) \<le> 0"
    using fl_mono [of "a - fl (DT_DMON / 30)" 0] by simp
  then show ?thesis by simp
next
  case False
  define d e where "d = fl (DT_DMON / 30)" and "e = DT_DMON"
  have e: "\<bar>e - 1 / 20\<bar> \<le> 1 / 20 / 2 ^ 53"
    using fl_error [of "1 / 20"] by (simp add: e_def DT_DMON_def)
  have "\<bar>d - e / 30\<bar> \<le> \<bar>e / 30\<bar> / 2 ^ 53" using fl_error [of "e / 30"] by (simp add: d_def e_def)
  moreover have "\<bar>fl (a - d) - (a - d)\<bar> \<le> \<bar>a - d\<bar> / 2 ^ 53" by (rule fl_error)
  ultimately have "fl (a - d) \<le> a - 1 / 601"
    using that e False unfolding d_def [symmetric] by (simp add: abs_le_iff abs_if split: if_splits)
  then show ?thesis unfolding d_def by simp
qed

lemma passive_step:
  fixes env :: math_env
  assumes "unattended i" "dm_inv mici s" "\<not> active_monitoring_mode s \<or> fl (6 / 11) < awareness s"
  defines "s' \<equiv> snd (run_step env i False s)"
  shows "dm_inv mici s'" "\<not> active_monitoring_mode s'"
    "awareness s' \<le> max 0 ((if active_monitoring_mode s then 1 else awareness s) - 1 / 601)"
    "awareness s' \<le> 0 \<Longrightarrow> dm_has EventName_driverUnresponsive s'"
proof -
  let ?t = "set_timers False s"
  note u = unattended_step [OF assms(1,2), of env, folded s'_def]
  have "\<not> active_monitoring_mode ?t \<and> step_change ?t = fl (DT_DMON / 30) \<and>
    awareness ?t \<le> (if active_monitoring_mode s then 1 else awareness s) \<and> awareness ?t \<le> 1"
  proof (cases "active_monitoring_mode s")
    case False
    then show ?thesis
      using passive_timers [OF assms(2)] assms(2) by (simp add: dm_inv_def level_def)
  next
    case True
    have "0 \<le> fl (6 / 11)" by simp
    then have "0 < awareness s" using True assms(3) by linarith
    then show ?thesis
      using True assms(2,3) by (simp add: set_timers_def Let_def dm_inv_def timers_ok_def level_def)
  qed
  then have t: "\<not> active_monitoring_mode ?t" "step_change ?t = fl (DT_DMON / 30)"
    "awareness ?t \<le> (if active_monitoring_mode s then 1 else awareness s)" "awareness ?t \<le> 1" by simp_all
  show "dm_inv mici s'" "\<not> active_monitoring_mode s'" using u(1,3) t(1) by simp_all
  have "fl (- 1 / 10) \<le> 0" using fl_mono [of "- 1 / 10" 0] by simp
  moreover have "max 0 (awareness ?t - 1 / 601) \<le> max 0 ((if active_monitoring_mode s then 1 else awareness s) - 1 / 601)"
    using t(3) by (intro max.mono) simp_all
  ultimately show "awareness s' \<le> max 0 ((if active_monitoring_mode s then 1 else awareness s) - 1 / 601)"
    using passive_step_size [OF t(4)] unfolding u(2) t(2) by linarith
  show "awareness s' \<le> 0 \<Longrightarrow> dm_has EventName_driverUnresponsive s'"
    using u(4) t(1) by (simp add: red_event_def)
qed

lemma fade_bound: "max 0 (max 0 (a - 1 / 601) - n / 601) \<le> max 0 (a - (1 + n) / 601)" if "0 \<le> n" for n a :: rat
proof -
  have "(1 + n) / 601 = n / 601 + 1 / 601" "0 \<le> n / 601" using that by (simp_all add: add_divide_distrib)
  then show ?thesis by linarith
qed

lemma passive_run:
  assumes "\<forall>i\<in>set is. unattended i" "dm_inv mici s" "\<not> active_monitoring_mode s" "awareness s \<le> a" "is \<noteq> []"
  shows "awareness (camera_run env is s) \<le> max 0 (a - of_nat (length is) / 601) \<and>
    (awareness (camera_run env is s) \<le> 0 \<longrightarrow> dm_has EventName_driverUnresponsive (camera_run env is s))"
  using assms
proof (induction "is" arbitrary: s a)
  case (Cons i "is")
  let ?s = "snd (run_step env i False s)"
  have i: "unattended i" using Cons.prems by simp
  have s: "dm_inv mici ?s" "\<not> active_monitoring_mode ?s" "awareness ?s \<le> max 0 (a - 1 / 601)"
    "awareness ?s \<le> 0 \<Longrightarrow> dm_has EventName_driverUnresponsive ?s"
  proof -
    note p = passive_step [OF i Cons.prems(2), of env]
    show "dm_inv mici ?s" "\<not> active_monitoring_mode ?s" "awareness ?s \<le> 0 \<Longrightarrow> dm_has EventName_driverUnresponsive ?s"
      using p(1,2,4) Cons.prems(3) by simp_all
    have "awareness ?s \<le> max 0 (awareness s - 1 / 601)" using p(3) Cons.prems(3) by simp
    also have "\<dots> \<le> max 0 (a - 1 / 601)" using Cons.prems(4) by (intro max.mono) simp_all
    finally show "awareness ?s \<le> max 0 (a - 1 / 601)" .
  qed
  show ?case
  proof (cases "is = []")
    case True
    then show ?thesis using s by (simp add: camera_run_def)
  next
    case False
    let ?r = "camera_run env is ?s" and ?b = "max 0 (a - 1 / 601)"
    have "awareness ?r \<le> max 0 (?b - of_nat (length is) / 601) \<and> (awareness ?r \<le> 0 \<longrightarrow> dm_has EventName_driverUnresponsive ?r)"
      using Cons.IH [OF _ s(1,2) s(3) False] Cons.prems(1) by simp
    moreover have "max 0 (?b - of_nat (length is) / 601) \<le> max 0 (a - of_nat (length (i # is)) / 601)"
      using fade_bound [of "of_nat (length is)" a] by simp
    moreover have e: "camera_run env (i # is) s = ?r" by (simp add: camera_run_def)
    ultimately show ?thesis unfolding e by linarith
  qed
qed simp

text \<open>C13: A driver who is not seen is warned in time: if neither seat shows a face while the system is engaged
  and the car moves, and the driver does not touch wheel or gas, the red alert is raised after 601 steps (30.05
  seconds) at the latest and in every later such step - from the passive mode, and from the active mode as long
  as the orange alert was not reached.\<close>

theorem unseen_driver_gets_red_alert:
  assumes "dm_inv mici s" "active_monitoring_mode s \<longrightarrow> fl (6 / 11) < awareness s"
    and "\<forall>i\<in>set is. unattended i" "601 \<le> length is"
  shows "awareness (camera_run env is s) \<le> 0 \<and>
    EventName_driverUnresponsive \<in> set (events (dm_events (camera_run env is s)))"
proof -
  obtain i js where "is": "is = i # js" using assms(4) by (cases "is") auto
  let ?s = "snd (run_step env i False s)"
  have i: "unattended i" using assms(3) "is" by simp
  have s: "dm_inv mici ?s" "\<not> active_monitoring_mode ?s" "awareness ?s \<le> max 0 (1 - 1 / 601)"
  proof -
    note p = passive_step [OF i assms(1), of env]
    show "dm_inv mici ?s" "\<not> active_monitoring_mode ?s" using p(1,2) assms(2) by simp_all
    have "awareness ?s \<le> max 0 ((if active_monitoring_mode s then 1 else awareness s) - 1 / 601)" using p(3) assms(2) by simp
    also have "\<dots> \<le> max 0 (1 - 1 / 601)" using assms(1) by (intro max.mono) (simp_all add: dm_inv_def level_def)
    finally show "awareness ?s \<le> max 0 (1 - 1 / 601)" .
  qed
  have n: "600 \<le> length js" "js \<noteq> []" using assms(4) "is" by auto
  have "awareness (camera_run env js ?s) \<le> max 0 (max 0 (1 - 1 / 601) - of_nat (length js) / 601) \<and>
    (awareness (camera_run env js ?s) \<le> 0 \<longrightarrow> dm_has EventName_driverUnresponsive (camera_run env js ?s))"
    by (rule passive_run [OF _ s(1,2) s(3) n(2)]) (use assms(3) "is" in simp)
  moreover have "max 0 (max 0 (1 - 1 / 601) - of_nat (length js) / 601) \<le> (0 :: rat)"
  proof -
    have "(600 :: rat) \<le> of_nat (length js)" using n(1) by (metis of_nat_le_iff of_nat_numeral)
    then show ?thesis by simp
  qed
  ultimately show ?thesis by (simp add: "is" camera_run_def dm_has_def)
qed

section \<open>A driver who disappears during the orange alert\<close>

lemma orange_step:
  fixes env :: math_env
  assumes "unattended i" "dm_inv mici s" "active_monitoring_mode s" "0 < awareness s" "awareness s \<le> fl (6 / 11)"
  defines "s' \<equiv> snd (run_step env i False s)"
  shows "dm_inv mici s'" "active_monitoring_mode s'" "awareness s' = awareness s"
    "dm_has EventName_promptDriverDistracted s'"
proof -
  have t: "set_timers False s = s\<lparr>step_change := 0\<rparr>" "threshold_prompt s = fl (6 / 11)" "fl (awareness s) = awareness s"
    "fl (- 1 / 10) \<le> awareness s"
    using assms(2-5) by (simp_all add: set_timers_def Let_def dm_inv_def timers_ok_def level_def)
  note u = unattended_step [OF assms(1,2), of env, folded s'_def, unfolded t(1)]
  show "dm_inv mici s'" "active_monitoring_mode s'" using u(1,3) assms(3) by simp_all
  show a: "awareness s' = awareness s" using u(2) t by (simp add: max_def)
  show "dm_has EventName_promptDriverDistracted s'" using u(5) assms(3-5) t(2) by (simp add: a orange_event_def)
qed

text \<open>A driver who disappears from the camera while the orange alert of the active mode is shown is shown the
  orange alert for as long as that lasts: the awareness stands still above 0, so the red alert is never raised,
  neither the 11 seconds of the active nor the 30 seconds of the passive mode apply, and the count towards the
  lockout does not start.\<close>

theorem orange_alert_stands_still:
  assumes "dm_inv mici s" "active_monitoring_mode s" "0 < awareness s" "awareness s \<le> fl (6 / 11)"
    and "\<forall>i\<in>set is. unattended i" "is \<noteq> []"
  shows "awareness (camera_run env is s) = awareness s \<and> active_monitoring_mode (camera_run env is s) \<and>
    EventName_promptDriverDistracted \<in> set (events (dm_events (camera_run env is s)))"
proof -
  have "awareness (camera_run env is s) = awareness s \<and> active_monitoring_mode (camera_run env is s) \<and>
      dm_inv mici (camera_run env is s) \<and> (is \<noteq> [] \<longrightarrow> dm_has EventName_promptDriverDistracted (camera_run env is s))"
    using assms(5)
  proof (induction "is" rule: rev_induct)
    case Nil
    then show ?case using assms by (simp add: camera_run_def)
  next
    case (snoc i "is")
    let ?s = "camera_run env is s"
    have s: "dm_inv mici ?s" "active_monitoring_mode ?s" "awareness ?s = awareness s" "unattended i"
      using snoc by simp_all
    have e: "camera_run env (is @ [i]) s = snd (run_step env i False ?s)" by (simp add: camera_run_def)
    show ?case unfolding e using orange_step [OF s(4,1,2), of env] assms(3,4) s(3) by simp
  qed
  then show ?thesis using assms(6) by (simp add: dm_has_def)
qed

section \<open>Concrete runs\<close>

definition no_face :: driver_data where
  "no_face = \<lparr>faceOrientation = [0, 0, 0], facePosition = [0, 0], faceOrientationStd = [0, 0, 0], facePositionStd = [0, 0],
     faceProb = 1 / 8, leftEyeProb = 0, rightEyeProb = 0, leftBlinkProb = 0, rightBlinkProb = 0, sunglassesProb = 0,
     phoneProb = 0\<rparr>"

definition empty_seat :: dm_input where
  "empty_seat = \<lparr>in_vEgo = 30, in_enabled = True, in_latActive = True, in_drive_gear = True, in_standstill = False,
     in_steeringPressed = False, in_gasPressed = False, in_brakeDisengageProbs = [0], in_rpyCalib = [0, 0, 0],
     in_driverState = \<lparr>wheelOnRightProb = 0, leftDriverData = no_face, rightDriverData = no_face\<rparr>\<rparr>"

definition fresh_monitor :: "bool \<Rightarrow> driver_monitoring" where
  "fresh_monitor locked_before = DriverMonitoring_init False False (DRIVER_MONITOR_SETTINGS False) False locked_before"

lemma empty_seat_ok: "input_ok empty_seat" "unattended empty_seat"
  using fl_mono [of "1 / 8" "7 / 10"] fl_exact [of 1 "1 / 8" "- 3"]
  by (simp_all add: unattended_def input_ok_def data_ok_def empty_seat_def no_face_def exp2_def)

lemma fresh_monitor_facts:
  "dm_inv False (fresh_monitor b)" "settings (fresh_monitor b) = DRIVER_MONITOR_SETTINGS False"
  "active_monitoring_mode (fresh_monitor b)" "too_distracted (fresh_monitor True)" "awareness (fresh_monitor b) = 1"
proof -
  show "dm_inv False (fresh_monitor b)" by (simp add: fresh_monitor_def DriverMonitoring_init_inv)
  have "\<not> (1 :: rat) \<le> fl (6 / 11)" by code_simp
  then show "settings (fresh_monitor b) = DRIVER_MONITOR_SETTINGS False" "active_monitoring_mode (fresh_monitor b)"
    "too_distracted (fresh_monitor True)" "awareness (fresh_monitor b) = 1"
    by (simp_all add: fresh_monitor_def DriverMonitoring_init_def set_timers_def Let_def)
qed

lemma fresh_monitor_level: "level a \<Longrightarrow> dm_inv False (fresh_monitor b\<lparr>awareness := a\<rparr>)"
  using fresh_monitor_facts(1) [of b] by (simp add: dm_inv_def timers_ok_def)

lemma empty_seat_run: "\<exists>s'. run_step plain_math empty_seat False s = (Inr (), s')"
  using run_step_ok [OF empty_seat_ok(1)] by blast

lemma level_exact: "fl a = a \<Longrightarrow> 0 \<le> a \<Longrightarrow> a \<le> 1 \<Longrightarrow> level a"
  using fl_mono [of "- 1 / 10" a] by (simp add: level_def)

theorem lockout_final_witness:
  "\<exists>s'. run_step plain_math empty_seat False (fresh_monitor True) = (Inr (), s') \<and> too_distracted s' \<and>
    EventName_tooDistracted \<in> set (events (dm_events s'))"
proof -
  obtain s' where s': "run_step plain_math empty_seat False (fresh_monitor True) = (Inr (), s')"
    using empty_seat_run by blast
  show ?thesis
    using lockout_final [OF fresh_monitor_facts(2) _ s'] s' fresh_monitor_facts(4) by blast
qed

theorem red_alert_lasts_witness:
  "\<exists>s'. run_step plain_math empty_seat False (fresh_monitor False\<lparr>awareness := 0\<rparr>) = (Inr (), s') \<and>
    awareness s' \<le> 0 \<and> EventName_driverDistracted \<in> set (events (dm_events s'))"
proof -
  let ?s = "fresh_monitor False\<lparr>awareness := 0\<rparr>"
  obtain s' where s': "run_step plain_math empty_seat False ?s = (Inr (), s')"
    using empty_seat_run by blast
  have "dm_inv False ?s" by (rule fresh_monitor_level) (simp add: level_exact)
  from red_alert_lasts [OF this _ _ s'] show ?thesis
    using s' fresh_monitor_facts(3) by (simp add: empty_seat_def)
qed

theorem unseen_driver_gets_red_alert_witness:
  "awareness (camera_run plain_math (replicate 601 empty_seat) (fresh_monitor False)) \<le> 0 \<and>
    EventName_driverUnresponsive \<in> set (events (dm_events (camera_run plain_math (replicate 601 empty_seat) (fresh_monitor False))))"
proof (rule unseen_driver_gets_red_alert [OF fresh_monitor_facts(1)])
  have "fl (6 / 11) < 1" by code_simp
  then show "active_monitoring_mode (fresh_monitor False) \<longrightarrow> fl (6 / 11) < awareness (fresh_monitor False)"
    by (simp add: fresh_monitor_facts)
qed (simp_all add: empty_seat_ok)

theorem orange_alert_stands_still_witness:
  "awareness (camera_run plain_math (replicate 5000 empty_seat) (fresh_monitor False\<lparr>awareness := 1 / 4\<rparr>)) = 1 / 4 \<and>
    EventName_promptDriverDistracted \<in>
      set (events (dm_events (camera_run plain_math (replicate 5000 empty_seat) (fresh_monitor False\<lparr>awareness := 1 / 4\<rparr>))))"
proof -
  let ?s = "fresh_monitor False\<lparr>awareness := 1 / 4\<rparr>"
  have q: "fl (1 / 4) = 1 / 4" using fl_exact [of 1 "1 / 4" "- 2"] by (simp add: exp2_def)
  have "dm_inv False ?s" by (rule fresh_monitor_level) (simp add: level_exact q)
  moreover have "(1 / 4 :: rat) \<le> fl (6 / 11)" using fl_mono [of "1 / 4" "6 / 11"] q by simp
  ultimately show ?thesis
    using orange_alert_stands_still [of False ?s "replicate 5000 empty_seat" plain_math] fresh_monitor_facts(3) empty_seat_ok(2)
    by simp
qed

end
