(* ===== verification/LaneChange.thy ===== *)
theory LaneChange
  imports PyFloat
begin

text \<open>
  Lane changes and turns: \<^verbatim>\<open>selfdrive/controls/lib/desire_helper.py\<close> (\<open>DesireHelper\<close>) with the controllers it owns,
  \<^verbatim>\<open>auto_lane_change.py\<close> (\<open>AutoLaneChangeController\<close>) and \<^verbatim>\<open>lane_turn_desire.py\<close> (\<open>LaneTurnController\<close>) under
  \<^verbatim>\<open>iqpilot/selfdrive/controls/lib/\<close>. The two controllers read their parameters every 50th update; the values in
  the parameter store are part of the input of an update.
\<close>

section \<open>Enumerations and constants\<close>

datatype LaneChangeState =
    LaneChangeState_off | LaneChangeState_preLaneChange | LaneChangeState_laneChangeStarting
  | LaneChangeState_laneChangeFinishing

datatype LaneChangeDirection = LaneChangeDirection_none | LaneChangeDirection_left | LaneChangeDirection_right

datatype TurnDirection = TurnDirection_none | TurnDirection_turnLeft | TurnDirection_turnRight

datatype Desire =
    Desire_none | Desire_turnLeft | Desire_turnRight | Desire_laneChangeLeft | Desire_laneChangeRight
  | Desire_keepLeft | Desire_keepRight

definition DT_MDL :: rat where "DT_MDL = fl (1 / 20)"

definition KPH_TO_MS :: rat where "KPH_TO_MS = fl (1 / fl (36 / 10))"
definition MPH_TO_MS :: rat where "MPH_TO_MS = fl (fl (1609344 / 1000000) * KPH_TO_MS)"

definition LANE_CHANGE_SPEED_MIN :: rat where "LANE_CHANGE_SPEED_MIN = fl (20 * MPH_TO_MS)"
definition LANE_CHANGE_TIME_MAX :: rat where "LANE_CHANGE_TIME_MAX = 10"

fun DESIRES :: "LaneChangeDirection \<Rightarrow> LaneChangeState \<Rightarrow> Desire" where
  "DESIRES LaneChangeDirection_left LaneChangeState_laneChangeStarting = Desire_laneChangeLeft"
| "DESIRES LaneChangeDirection_left LaneChangeState_laneChangeFinishing = Desire_laneChangeLeft"
| "DESIRES LaneChangeDirection_right LaneChangeState_laneChangeStarting = Desire_laneChangeRight"
| "DESIRES LaneChangeDirection_right LaneChangeState_laneChangeFinishing = Desire_laneChangeRight"
| "DESIRES _ _ = Desire_none"

primrec TURN_DESIRES :: "TurnDirection \<Rightarrow> Desire" where
  "TURN_DESIRES TurnDirection_none = Desire_none"
| "TURN_DESIRES TurnDirection_turnLeft = Desire_turnLeft"
| "TURN_DESIRES TurnDirection_turnRight = Desire_turnRight"

definition MODE_OFF :: int where "MODE_OFF = - 1"
definition MODE_NUDGE :: int where "MODE_NUDGE = 0"
definition MODE_NUDGELESS :: int where "MODE_NUDGELESS = 1"
definition MODE_HALF_SECOND :: int where "MODE_HALF_SECOND = 2"
definition MODE_ONE_SECOND :: int where "MODE_ONE_SECOND = 3"
definition MODE_TWO_SECONDS :: int where "MODE_TWO_SECONDS = 4"
definition MODE_THREE_SECONDS :: int where "MODE_THREE_SECONDS = 5"

definition AUTO_LANE_CHANGE_TIMER :: "int \<Rightarrow> rat option" where
  "AUTO_LANE_CHANGE_TIMER =
     [MODE_OFF \<mapsto> 0, MODE_NUDGE \<mapsto> 0, MODE_NUDGELESS \<mapsto> fl (1 / 20), MODE_HALF_SECOND \<mapsto> 1 / 2,
      MODE_ONE_SECOND \<mapsto> 1, MODE_TWO_SECONDS \<mapsto> 2, MODE_THREE_SECONDS \<mapsto> 3]"

definition ONE_SECOND_DELAY :: rat where "ONE_SECOND_DELAY = - 1"

section \<open>The controllers\<close>

record lane_params =
  AutoLaneChangeBsmDelay :: bool
  AutoLaneChangeTimer :: int
  LaneTurnDesire :: bool
  LaneTurnValue :: rat

record alc =
  lane_change_wait_timer :: rat
  alc_read_counter :: int
  lane_change_delay :: rat
  lane_change_set_timer :: int
  lane_change_bsm_delay :: bool
  prev_brake_pressed :: bool
  auto_lane_change_allowed :: bool
  prev_lane_change :: bool

definition alc_read_params :: "lane_params \<Rightarrow> alc \<Rightarrow> alc" where
  "alc_read_params p a = a\<lparr>lane_change_bsm_delay := AutoLaneChangeBsmDelay p, lane_change_set_timer := AutoLaneChangeTimer p\<rparr>"

definition AutoLaneChangeController_init :: "lane_params \<Rightarrow> alc" where
  "AutoLaneChangeController_init p =
    alc_read_params p
      \<lparr>lane_change_wait_timer = 0, alc_read_counter = 0, lane_change_delay = 0,
       lane_change_set_timer = AutoLaneChangeTimer p, lane_change_bsm_delay = False, prev_brake_pressed = False,
       auto_lane_change_allowed = False, prev_lane_change = False\<rparr>"

definition alc_update_params :: "lane_params \<Rightarrow> alc \<Rightarrow> alc" where
  "alc_update_params p a =
    (let a = (if alc_read_counter a mod 50 = 0 then alc_read_params p a else a)
     in a\<lparr>alc_read_counter := alc_read_counter a + 1\<rparr>)"

definition update_lane_change_timers :: "bool \<Rightarrow> alc \<Rightarrow> alc" where
  "update_lane_change_timers blindspot_detected a =
    (let delay = (case AUTO_LANE_CHANGE_TIMER (lane_change_set_timer a) of
                    Some t \<Rightarrow> t | None \<Rightarrow> the (AUTO_LANE_CHANGE_TIMER MODE_NUDGE));
         a = a\<lparr>lane_change_delay := delay, lane_change_wait_timer := fl (lane_change_wait_timer a + DT_MDL)\<rparr>
     in if lane_change_bsm_delay a \<and> blindspot_detected \<and> 0 < lane_change_delay a
        then (if lane_change_delay a = the (AUTO_LANE_CHANGE_TIMER MODE_NUDGELESS)
              then a\<lparr>lane_change_wait_timer := ONE_SECOND_DELAY\<rparr>
              else a\<lparr>lane_change_wait_timer := fl (lane_change_delay a + ONE_SECOND_DELAY)\<rparr>)
        else a)"

definition update_allowed :: "alc \<Rightarrow> bool" where
  "update_allowed a =
    (if lane_change_set_timer a \<in> {MODE_OFF, MODE_NUDGE} then False
     else if prev_brake_pressed a then False
     else if prev_lane_change a then False
     else lane_change_wait_timer a > lane_change_delay a)"

definition update_lane_change :: "bool \<Rightarrow> bool \<Rightarrow> alc \<Rightarrow> alc" where
  "update_lane_change blindspot_detected brake_pressed a =
    (let a = (if brake_pressed \<and> \<not> prev_brake_pressed a then a\<lparr>prev_brake_pressed := brake_pressed\<rparr> else a);
         a = update_lane_change_timers blindspot_detected a
     in a\<lparr>auto_lane_change_allowed := update_allowed a\<rparr>)"

definition alc_reset :: "LaneChangeState \<Rightarrow> LaneChangeDirection \<Rightarrow> alc \<Rightarrow> alc" where
  "alc_reset st d a =
    (if st = LaneChangeState_off \<and> d = LaneChangeDirection_none
     then a\<lparr>lane_change_wait_timer := 0, prev_brake_pressed := False, prev_lane_change := False\<rparr> else a)"

definition alc_update_state :: "LaneChangeState \<Rightarrow> LaneChangeDirection \<Rightarrow> alc \<Rightarrow> alc" where
  "alc_update_state st d a =
    alc_reset st d (if st = LaneChangeState_laneChangeStarting then a\<lparr>prev_lane_change := True\<rparr> else a)"

record lane_turn =
  turn_direction :: TurnDirection
  lane_turn_value :: rat
  turn_read_counter :: int
  turn_enabled :: bool

definition LaneTurnController_init :: "lane_params \<Rightarrow> lane_turn" where
  "LaneTurnController_init p =
    \<lparr>turn_direction = TurnDirection_none, lane_turn_value = fl (LaneTurnValue p * MPH_TO_MS), turn_read_counter = 0,
     turn_enabled = LaneTurnDesire p\<rparr>"

definition turn_read_params :: "lane_params \<Rightarrow> lane_turn \<Rightarrow> lane_turn" where
  "turn_read_params p t =
    t\<lparr>turn_enabled := LaneTurnDesire p, lane_turn_value := min LANE_CHANGE_SPEED_MIN (fl (LaneTurnValue p * MPH_TO_MS))\<rparr>"

definition turn_update_params :: "lane_params \<Rightarrow> lane_turn \<Rightarrow> lane_turn" where
  "turn_update_params p t =
    (let t = (if turn_read_counter t mod 50 = 0 then turn_read_params p t else t)
     in t\<lparr>turn_read_counter := turn_read_counter t + 1\<rparr>)"

definition update_lane_turn :: "bool \<Rightarrow> bool \<Rightarrow> bool \<Rightarrow> bool \<Rightarrow> rat \<Rightarrow> lane_turn \<Rightarrow> lane_turn" where
  "update_lane_turn blindspot_left blindspot_right left_blinker right_blinker v_ego t =
    (if left_blinker \<and> \<not> right_blinker \<and> v_ego < lane_turn_value t \<and> \<not> blindspot_left
     then t\<lparr>turn_direction := TurnDirection_turnLeft\<rparr>
     else if right_blinker \<and> \<not> left_blinker \<and> v_ego < lane_turn_value t \<and> \<not> blindspot_right
     then t\<lparr>turn_direction := TurnDirection_turnRight\<rparr>
     else t\<lparr>turn_direction := TurnDirection_none\<rparr>)"

definition get_turn_direction :: "lane_turn \<Rightarrow> TurnDirection" where
  "get_turn_direction t = (if \<not> turn_enabled t then TurnDirection_none else turn_direction t)"

section \<open>DesireHelper\<close>

record desire_helper =
  lane_change_state :: LaneChangeState
  lane_change_direction :: LaneChangeDirection
  lane_change_timer :: rat
  lane_change_ll_prob :: rat
  keep_pulse_timer :: rat
  prev_one_blinker :: bool
  desire :: Desire
  dh_alc :: alc
  lane_turn_controller :: lane_turn
  lane_turn_direction :: TurnDirection

definition DesireHelper_init :: "lane_params \<Rightarrow> desire_helper" where
  "DesireHelper_init p =
    \<lparr>lane_change_state = LaneChangeState_off, lane_change_direction = LaneChangeDirection_none, lane_change_timer = 0,
     lane_change_ll_prob = 1, keep_pulse_timer = 0, prev_one_blinker = False, desire = Desire_none,
     dh_alc = AutoLaneChangeController_init p, lane_turn_controller = LaneTurnController_init p,
     lane_turn_direction = TurnDirection_none\<rparr>"

text \<open>The fields of \<^verbatim>\<open>CarState\<close> that are read.\<close>

record lane_car =
  vEgo :: rat
  leftBlinker :: bool
  rightBlinker :: bool
  leftBlindspot :: bool
  rightBlindspot :: bool
  steeringPressed :: bool
  steeringTorque :: rat
  brakePressed :: bool

definition get_lane_change_direction :: "lane_car \<Rightarrow> LaneChangeDirection" where
  "get_lane_change_direction cs = (if leftBlinker cs then LaneChangeDirection_left else LaneChangeDirection_right)"

definition one_blinker :: "lane_car \<Rightarrow> bool" where
  "one_blinker cs \<longleftrightarrow> leftBlinker cs \<noteq> rightBlinker cs"

definition torque_applied :: "lane_car \<Rightarrow> LaneChangeDirection \<Rightarrow> bool" where
  "torque_applied cs d \<longleftrightarrow> steeringPressed cs \<and>
     ((steeringTorque cs > 0 \<and> d = LaneChangeDirection_left) \<or> (steeringTorque cs < 0 \<and> d = LaneChangeDirection_right))"

definition blindspot :: "lane_car \<Rightarrow> LaneChangeDirection \<Rightarrow> bool" where
  "blindspot cs d \<longleftrightarrow>
     (leftBlindspot cs \<and> d = LaneChangeDirection_left) \<or> (rightBlindspot cs \<and> d = LaneChangeDirection_right)"

definition step_pre_lane_change :: "lane_car \<Rightarrow> desire_helper \<Rightarrow> desire_helper" where
  "step_pre_lane_change cs h =
    (let d = get_lane_change_direction cs;
         a = update_lane_change (blindspot cs d) (brakePressed cs) (dh_alc h);
         h = h\<lparr>lane_change_direction := d, dh_alc := a\<rparr>
     in if \<not> one_blinker cs \<or> vEgo cs < LANE_CHANGE_SPEED_MIN
        then h\<lparr>lane_change_state := LaneChangeState_off, lane_change_direction := LaneChangeDirection_none\<rparr>
        else if (torque_applied cs d \<or> auto_lane_change_allowed a) \<and> \<not> blindspot cs d
        then h\<lparr>lane_change_state := LaneChangeState_laneChangeStarting\<rparr>
        else h)"

definition step_lane_change :: "lane_car \<Rightarrow> bool \<Rightarrow> rat \<Rightarrow> desire_helper \<Rightarrow> desire_helper" where
  "step_lane_change cs lateral_active lane_change_prob h =
    (if \<not> lateral_active \<or> LANE_CHANGE_TIME_MAX < lane_change_timer h \<or> lane_change_set_timer (dh_alc h) = MODE_OFF
     then h\<lparr>lane_change_state := LaneChangeState_off, lane_change_direction := LaneChangeDirection_none\<rparr>
     else case lane_change_state h of
       LaneChangeState_off \<Rightarrow>
         (if one_blinker cs \<and> \<not> prev_one_blinker h \<and> \<not> vEgo cs < LANE_CHANGE_SPEED_MIN
          then h\<lparr>lane_change_state := LaneChangeState_preLaneChange, lane_change_ll_prob := 1,
                 lane_change_direction := get_lane_change_direction cs\<rparr>
          else h)
     | LaneChangeState_preLaneChange \<Rightarrow> step_pre_lane_change cs h
     | LaneChangeState_laneChangeStarting \<Rightarrow>
         (let h = h\<lparr>lane_change_ll_prob := max (fl (lane_change_ll_prob h - fl (2 * DT_MDL))) 0\<rparr>
          in if lane_change_prob < fl (2 / 100) \<and> lane_change_ll_prob h < fl (1 / 100)
             then h\<lparr>lane_change_state := LaneChangeState_laneChangeFinishing\<rparr> else h)
     | LaneChangeState_laneChangeFinishing \<Rightarrow>
         (let h = h\<lparr>lane_change_ll_prob := min (fl (lane_change_ll_prob h + DT_MDL)) 1\<rparr>
          in if fl (99 / 100) < lane_change_ll_prob h
             then h\<lparr>lane_change_direction := LaneChangeDirection_none,
                    lane_change_state := (if one_blinker cs then LaneChangeState_preLaneChange else LaneChangeState_off)\<rparr>
             else h))"

definition step_timer :: "desire_helper \<Rightarrow> desire_helper" where
  "step_timer h =
    h\<lparr>lane_change_timer := (if lane_change_state h \<in> {LaneChangeState_off, LaneChangeState_preLaneChange} then 0
                            else fl (lane_change_timer h + DT_MDL))\<rparr>"

definition step_desire :: "desire_helper \<Rightarrow> desire_helper" where
  "step_desire h =
    h\<lparr>desire := (if lane_turn_direction h \<noteq> TurnDirection_none then TURN_DESIRES (lane_turn_direction h)
                 else DESIRES (lane_change_direction h) (lane_change_state h))\<rparr>"

definition step_keep_pulse :: "desire_helper \<Rightarrow> desire_helper" where
  "step_keep_pulse h =
    (if lane_change_state h \<in> {LaneChangeState_off, LaneChangeState_laneChangeStarting} then h\<lparr>keep_pulse_timer := 0\<rparr>
     else if lane_change_state h = LaneChangeState_preLaneChange
     then (let h = h\<lparr>keep_pulse_timer := fl (keep_pulse_timer h + DT_MDL)\<rparr>
           in if 1 < keep_pulse_timer h then h\<lparr>keep_pulse_timer := 0\<rparr>
              else if desire h \<in> {Desire_keepLeft, Desire_keepRight} then h\<lparr>desire := Desire_none\<rparr> else h)
     else h)"

definition DesireHelper_update :: "lane_params \<Rightarrow> lane_car \<Rightarrow> bool \<Rightarrow> rat \<Rightarrow> desire_helper \<Rightarrow> desire_helper" where
  "DesireHelper_update p cs lateral_active lane_change_prob h =
    (let t = update_lane_turn (leftBlindspot cs) (rightBlindspot cs) (leftBlinker cs) (rightBlinker cs) (vEgo cs)
               (turn_update_params p (lane_turn_controller h));
         h = h\<lparr>dh_alc := alc_update_params p (dh_alc h), lane_turn_controller := t, lane_turn_direction := get_turn_direction t\<rparr>;
         h = step_timer (step_lane_change cs lateral_active lane_change_prob h);
         h = step_keep_pulse (step_desire (h\<lparr>prev_one_blinker := one_blinker cs\<rparr>))
     in h\<lparr>dh_alc := alc_update_state (lane_change_state h) (lane_change_direction h) (dh_alc h)\<rparr>)"

end
