(* ===== verification/LaneChangeCorrect.thy ===== *)
theory LaneChangeCorrect
  imports LaneChange
begin

text \<open>
  What \<open>DesireHelper\<close> guarantees: when a lane change may start, that it ends in time, that the desires
  agree with the state, and that one use of the blinker gives at most one automatic lane change.
\<close>

section \<open>The steps of an update\<close>

lemma step_timer_sel [simp]:
  "lane_change_state (step_timer h) = lane_change_state h" "lane_change_direction (step_timer h) = lane_change_direction h"
  "lane_change_ll_prob (step_timer h) = lane_change_ll_prob h" "dh_alc (step_timer h) = dh_alc h"
  "keep_pulse_timer (step_timer h) = keep_pulse_timer h" "lane_turn_direction (step_timer h) = lane_turn_direction h"
  "lane_turn_controller (step_timer h) = lane_turn_controller h" "prev_one_blinker (step_timer h) = prev_one_blinker h"
  by (simp_all add: step_timer_def)

lemma step_desire_sel [simp]:
  "lane_change_state (step_desire h) = lane_change_state h" "lane_change_direction (step_desire h) = lane_change_direction h"
  "lane_change_ll_prob (step_desire h) = lane_change_ll_prob h" "dh_alc (step_desire h) = dh_alc h"
  "keep_pulse_timer (step_desire h) = keep_pulse_timer h" "lane_turn_direction (step_desire h) = lane_turn_direction h"
  "lane_turn_controller (step_desire h) = lane_turn_controller h" "lane_change_timer (step_desire h) = lane_change_timer h"
  by (simp_all add: step_desire_def)

lemma step_keep_pulse_sel [simp]:
  "lane_change_state (step_keep_pulse h) = lane_change_state h" "lane_change_direction (step_keep_pulse h) = lane_change_direction h"
  "lane_change_ll_prob (step_keep_pulse h) = lane_change_ll_prob h" "dh_alc (step_keep_pulse h) = dh_alc h"
  "lane_turn_controller (step_keep_pulse h) = lane_turn_controller h" "lane_change_timer (step_keep_pulse h) = lane_change_timer h"
  "lane_turn_direction (step_keep_pulse h) = lane_turn_direction h"
  by (simp_all add: step_keep_pulse_def Let_def)

text \<open>The state after the parameters and the turn controller were updated.\<close>

definition refreshed :: "lane_params \<Rightarrow> lane_car \<Rightarrow> desire_helper \<Rightarrow> desire_helper" where
  "refreshed p cs h =
    (let t = update_lane_turn (leftBlindspot cs) (rightBlindspot cs) (leftBlinker cs) (rightBlinker cs) (vEgo cs)
               (turn_update_params p (lane_turn_controller h))
     in h\<lparr>dh_alc := alc_update_params p (dh_alc h), lane_turn_controller := t, lane_turn_direction := get_turn_direction t\<rparr>)"

lemma refreshed_sel [simp]:
  "lane_change_state (refreshed p cs h) = lane_change_state h" "lane_change_direction (refreshed p cs h) = lane_change_direction h"
  "lane_change_ll_prob (refreshed p cs h) = lane_change_ll_prob h" "lane_change_timer (refreshed p cs h) = lane_change_timer h"
  "keep_pulse_timer (refreshed p cs h) = keep_pulse_timer h" "dh_alc (refreshed p cs h) = alc_update_params p (dh_alc h)"
  by (simp_all add: refreshed_def Let_def)

definition moved :: "lane_params \<Rightarrow> lane_car \<Rightarrow> bool \<Rightarrow> rat \<Rightarrow> desire_helper \<Rightarrow> desire_helper" where
  "moved p cs act prob h = step_lane_change cs act prob (refreshed p cs h)"

lemma DesireHelper_update_unfold:
  "DesireHelper_update p cs act prob h =
    (let h = step_keep_pulse (step_desire ((step_timer (moved p cs act prob h))\<lparr>prev_one_blinker := one_blinker cs\<rparr>))
     in h\<lparr>dh_alc := alc_update_state (lane_change_state h) (lane_change_direction h) (dh_alc h)\<rparr>)"
  by (simp add: DesireHelper_update_def moved_def refreshed_def Let_def)

lemma update_sel [simp]:
  "lane_change_state (DesireHelper_update p cs act prob h) = lane_change_state (moved p cs act prob h)"
  "lane_change_direction (DesireHelper_update p cs act prob h) = lane_change_direction (moved p cs act prob h)"
  "lane_change_ll_prob (DesireHelper_update p cs act prob h) = lane_change_ll_prob (moved p cs act prob h)"
  "lane_change_timer (DesireHelper_update p cs act prob h) = lane_change_timer (step_timer (moved p cs act prob h))"
  "dh_alc (DesireHelper_update p cs act prob h) =
     alc_update_state (lane_change_state (moved p cs act prob h)) (lane_change_direction (moved p cs act prob h))
       (dh_alc (moved p cs act prob h))"
  by (simp_all add: DesireHelper_update_unfold Let_def)

lemma alc_update_params_sel [simp]:
  "prev_lane_change (alc_update_params p a) = prev_lane_change a"
  "prev_brake_pressed (alc_update_params p a) = prev_brake_pressed a"
  "lane_change_wait_timer (alc_update_params p a) = lane_change_wait_timer a"
  by (simp_all add: alc_update_params_def alc_read_params_def Let_def)

lemma update_lane_change_timers_sel [simp]:
  "prev_lane_change (update_lane_change_timers b a) = prev_lane_change a"
  "prev_brake_pressed (update_lane_change_timers b a) = prev_brake_pressed a"
  "lane_change_set_timer (update_lane_change_timers b a) = lane_change_set_timer a"
  by (simp_all add: update_lane_change_timers_def Let_def)

lemma update_lane_change_prev [simp]: "prev_lane_change (update_lane_change b br a) = prev_lane_change a"
  by (simp add: update_lane_change_def Let_def)

lemma moved_prev [simp]: "prev_lane_change (dh_alc (moved p cs act prob h)) = prev_lane_change (dh_alc h)"
  by (simp add: moved_def step_lane_change_def step_pre_lane_change_def Let_def split: LaneChangeState.split)

section \<open>When a lane change starts\<close>

text \<open>The delay of a mode; unknown modes have the delay of the nudge mode.\<close>

definition mode_delay :: "int \<Rightarrow> rat" where
  "mode_delay m = (case AUTO_LANE_CHANGE_TIMER m of Some t \<Rightarrow> t | None \<Rightarrow> 0)"

lemma timer_nudge: "AUTO_LANE_CHANGE_TIMER MODE_NUDGE = Some 0"
  by (simp add: AUTO_LANE_CHANGE_TIMER_def MODE_OFF_def MODE_NUDGE_def MODE_NUDGELESS_def MODE_HALF_SECOND_def
      MODE_ONE_SECOND_def MODE_TWO_SECONDS_def MODE_THREE_SECONDS_def)

lemma allowed_unfold:
  "auto_lane_change_allowed (update_lane_change False br a) \<longleftrightarrow>
     lane_change_set_timer a \<noteq> - 1 \<and> lane_change_set_timer a \<noteq> 0 \<and> \<not> prev_brake_pressed a \<and> \<not> br \<and>
     \<not> prev_lane_change a \<and> mode_delay (lane_change_set_timer a) < fl (lane_change_wait_timer a + DT_MDL)"
  using timer_nudge
  by (auto simp: update_lane_change_def update_lane_change_timers_def update_allowed_def Let_def mode_delay_def
      MODE_OFF_def MODE_NUDGE_def split: option.split)

definition starts :: "lane_params \<Rightarrow> lane_car \<Rightarrow> bool \<Rightarrow> rat \<Rightarrow> desire_helper \<Rightarrow> bool" where
  "starts p cs act prob h \<longleftrightarrow> lane_change_state h \<noteq> LaneChangeState_laneChangeStarting \<and>
     lane_change_state (DesireHelper_update p cs act prob h) = LaneChangeState_laneChangeStarting"

lemma starts_unfold:
  "starts p cs act prob h \<longleftrightarrow>
     lane_change_state h = LaneChangeState_preLaneChange \<and> act \<and> lane_change_timer h \<le> LANE_CHANGE_TIME_MAX \<and>
     lane_change_set_timer (alc_update_params p (dh_alc h)) \<noteq> MODE_OFF \<and> one_blinker cs \<and>
     LANE_CHANGE_SPEED_MIN \<le> vEgo cs \<and> \<not> blindspot cs (get_lane_change_direction cs) \<and>
     (torque_applied cs (get_lane_change_direction cs) \<or>
      auto_lane_change_allowed (update_lane_change False (brakePressed cs) (alc_update_params p (dh_alc h))))"
  by (cases "lane_change_state h")
    (auto simp: starts_def moved_def step_lane_change_def step_pre_lane_change_def Let_def not_less split: if_splits)

lemma starts_direction:
  "starts p cs act prob h \<Longrightarrow> lane_change_direction (DesireHelper_update p cs act prob h) = get_lane_change_direction cs"
  unfolding starts_unfold by (auto simp: moved_def step_lane_change_def step_pre_lane_change_def Let_def)

lemma lane_change_start_rule:
  assumes "starts p cs act prob h"
  shows "lane_change_state h = LaneChangeState_preLaneChange \<and> act \<and> leftBlinker cs \<noteq> rightBlinker cs \<and>
    LANE_CHANGE_SPEED_MIN \<le> vEgo cs \<and> \<not> (if leftBlinker cs then leftBlindspot cs else rightBlindspot cs) \<and>
    lane_change_direction (DesireHelper_update p cs act prob h) =
      (if leftBlinker cs then LaneChangeDirection_left else LaneChangeDirection_right) \<and>
    (let a = alc_update_params p (dh_alc h); mode = lane_change_set_timer a
     in mode \<noteq> - 1 \<and>
        (steeringPressed cs \<and> (if leftBlinker cs then 0 < steeringTorque cs else steeringTorque cs < 0) \<or>
         mode \<noteq> 0 \<and> \<not> brakePressed cs \<and> \<not> prev_brake_pressed a \<and> \<not> prev_lane_change a \<and>
         mode_delay mode < fl (lane_change_wait_timer a + DT_MDL)))"
  using assms starts_direction [OF assms] unfolding starts_unfold allowed_unfold
  by (auto simp: one_blinker_def blindspot_def torque_applied_def get_lane_change_direction_def Let_def MODE_OFF_def split: if_splits)

text \<open>C8: A lane change starts only from \<open>preLaneChange\<close>, with lateral control active, exactly one blinker on, at 20 mph
  or more, with no car in the blind spot of that side, and towards the side of the blinker; and either the driver
  turns the wheel to that side, or an automatic mode is set, no brake was pressed and no change was made since the
  blinker was set, and the delay of the mode has passed. In mode off it never starts.\<close>

theorem lane_change_start:
  assumes "starts p cs act prob h"
  shows "lane_change_state h = LaneChangeState_preLaneChange \<and> act \<and> leftBlinker cs \<noteq> rightBlinker cs \<and>
    LANE_CHANGE_SPEED_MIN \<le> vEgo cs \<and> \<not> (if leftBlinker cs then leftBlindspot cs else rightBlindspot cs) \<and>
    lane_change_direction (DesireHelper_update p cs act prob h) =
      (if leftBlinker cs then LaneChangeDirection_left else LaneChangeDirection_right) \<and>
    (let a = alc_update_params p (dh_alc h); mode = lane_change_set_timer a
     in mode \<noteq> - 1 \<and>
        (steeringPressed cs \<and> (if leftBlinker cs then 0 < steeringTorque cs else steeringTorque cs < 0) \<or>
         mode \<noteq> 0 \<and> \<not> brakePressed cs \<and> \<not> prev_brake_pressed a \<and> \<not> prev_lane_change a \<and>
         mode_delay mode < fl (lane_change_wait_timer a + DT_MDL)))"
  using assms by (rule lane_change_start_rule)

section \<open>The invariant\<close>

definition changing :: "desire_helper \<Rightarrow> bool" where
  "changing h \<longleftrightarrow> lane_change_state h \<in> {LaneChangeState_laneChangeStarting, LaneChangeState_laneChangeFinishing}"

definition lane_inv :: "desire_helper \<Rightarrow> bool" where
  "lane_inv h \<longleftrightarrow>
     (lane_change_state h = LaneChangeState_off \<longrightarrow> lane_change_direction h = LaneChangeDirection_none) \<and>
     (changing h \<longrightarrow> lane_change_direction h \<noteq> LaneChangeDirection_none \<and> prev_lane_change (dh_alc h)) \<and>
     (\<not> changing h \<longrightarrow> lane_change_timer h = 0) \<and> 0 \<le> lane_change_timer h \<and> lane_change_timer h \<le> fl (10 + DT_MDL) \<and>
     0 \<le> lane_change_ll_prob h \<and> lane_change_ll_prob h \<le> 1 \<and> 0 \<le> keep_pulse_timer h \<and> keep_pulse_timer h \<le> 1 \<and>
     desire h = (if lane_turn_direction h \<noteq> TurnDirection_none then TURN_DESIRES (lane_turn_direction h)
                 else if changing h
                 then (if lane_change_direction h = LaneChangeDirection_left then Desire_laneChangeLeft
                       else Desire_laneChangeRight)
                 else Desire_none)"

lemma DT_MDL_nonneg: "0 \<le> DT_MDL"
  by (simp add: DT_MDL_def)

lemma DESIRES_eq:
  "d \<noteq> LaneChangeDirection_none \<or> \<not> (s = LaneChangeState_laneChangeStarting \<or> s = LaneChangeState_laneChangeFinishing) \<Longrightarrow>
   DESIRES d s = (if s = LaneChangeState_laneChangeStarting \<or> s = LaneChangeState_laneChangeFinishing
     then (if d = LaneChangeDirection_left then Desire_laneChangeLeft else Desire_laneChangeRight) else Desire_none)"
  by (cases d; cases s) simp_all

lemma moved_inv:
  fixes p :: lane_params and cs :: lane_car and act :: bool and prob :: rat
  assumes "lane_inv h"
  defines "m \<equiv> moved p cs act prob h"
  shows "lane_change_state m = LaneChangeState_off \<longrightarrow> lane_change_direction m = LaneChangeDirection_none"
    "changing m \<longrightarrow> lane_change_direction m \<noteq> LaneChangeDirection_none"
    "lane_change_state m = LaneChangeState_laneChangeFinishing \<longrightarrow> changing h"
    "0 \<le> lane_change_ll_prob m \<and> lane_change_ll_prob m \<le> 1"
    "lane_change_timer m = lane_change_timer h" "keep_pulse_timer m = keep_pulse_timer h"
    "changing m \<longrightarrow> lane_change_timer h \<le> 10"
proof -
  note defs = m_def moved_def step_lane_change_def step_pre_lane_change_def get_lane_change_direction_def Let_def
  have p: "0 \<le> lane_change_ll_prob h" "lane_change_ll_prob h \<le> 1" using assms by (simp_all add: lane_inv_def)
  have "0 \<le> fl (2 * DT_MDL)" using DT_MDL_nonneg by simp
  then have "lane_change_ll_prob h - fl (2 * DT_MDL) \<le> 1" using p(2) by linarith
  from fl_mono [OF this] have "fl (lane_change_ll_prob h - fl (2 * DT_MDL)) \<le> 1" by simp
  moreover have "0 \<le> fl (lane_change_ll_prob h + DT_MDL)" using p DT_MDL_nonneg by simp
  ultimately show "0 \<le> lane_change_ll_prob m \<and> lane_change_ll_prob m \<le> 1"
    using p by (simp add: defs split: LaneChangeState.split)
  show "lane_change_timer m = lane_change_timer h" "keep_pulse_timer m = keep_pulse_timer h"
    by (simp_all add: defs split: LaneChangeState.split)
  show "lane_change_state m = LaneChangeState_off \<longrightarrow> lane_change_direction m = LaneChangeDirection_none"
    "changing m \<longrightarrow> lane_change_direction m \<noteq> LaneChangeDirection_none"
    "lane_change_state m = LaneChangeState_laneChangeFinishing \<longrightarrow> changing h"
    using assms by (auto simp: defs changing_def lane_inv_def split: LaneChangeState.splits if_splits)
  show "changing m \<longrightarrow> lane_change_timer h \<le> 10"
    by (simp add: defs changing_def LANE_CHANGE_TIME_MAX_def)
qed

lemma update_desire:
  "desire (DesireHelper_update p cs act prob h) =
    (let m = moved p cs act prob h
     in if lane_turn_direction m \<noteq> TurnDirection_none then TURN_DESIRES (lane_turn_direction m)
        else DESIRES (lane_change_direction m) (lane_change_state m))"
proof -
  have "d \<noteq> Desire_keepLeft \<and> d \<noteq> Desire_keepRight"
    if "d = TURN_DESIRES t \<or> d = DESIRES b s" for d t b s
    using that by (cases t; cases b; cases s) auto
  then show ?thesis
    by (simp add: DesireHelper_update_unfold step_keep_pulse_def step_desire_def Let_def) metis
qed

lemma update_lane_turn_direction [simp]:
  "lane_turn_direction (DesireHelper_update p cs act prob h) = lane_turn_direction (moved p cs act prob h)"
  by (simp add: DesireHelper_update_unfold Let_def)

lemma update_keep_pulse:
  "keep_pulse_timer h = k \<Longrightarrow> keep_pulse_timer (step_keep_pulse h) \<in> {0, k} \<or>
     keep_pulse_timer (step_keep_pulse h) = fl (k + DT_MDL) \<and> fl (k + DT_MDL) \<le> 1"
  by (simp add: step_keep_pulse_def Let_def)

lemma DesireHelper_update_inv:
  assumes "lane_inv h"
  shows "lane_inv (DesireHelper_update p cs act prob h)"
proof -
  let ?m = "moved p cs act prob h" and ?h = "DesireHelper_update p cs act prob h"
  note m = moved_inv [OF assms, of p cs act prob]
  have c: "changing ?h = changing ?m" by (simp add: changing_def)
  have prev: "changing ?m \<longrightarrow> prev_lane_change (dh_alc ?h)"
    using m(3) assms by (auto simp: changing_def alc_update_state_def alc_reset_def lane_inv_def)
  have dir: "lane_change_state ?h = LaneChangeState_off \<longrightarrow> lane_change_direction ?h = LaneChangeDirection_none"
    "changing ?m \<longrightarrow> lane_change_direction ?h \<noteq> LaneChangeDirection_none"
    "0 \<le> lane_change_ll_prob ?h" "lane_change_ll_prob ?h \<le> 1"
    using m(1,2,4) by simp_all
  have t: "lane_change_timer ?h = (if changing ?m then fl (lane_change_timer h + DT_MDL) else 0)"
    by (cases "lane_change_state ?m") (simp_all add: step_timer_def changing_def m(5))
  have t0: "0 \<le> fl (lane_change_timer h + DT_MDL)" "0 \<le> fl (10 + DT_MDL)"
    using assms DT_MDL_nonneg by (simp_all add: lane_inv_def)
  have t1: "changing ?m \<longrightarrow> fl (lane_change_timer h + DT_MDL) \<le> fl (10 + DT_MDL)"
    using m(7) by (auto intro: fl_mono)
  have timer: "\<not> changing ?m \<longrightarrow> lane_change_timer ?h = 0" "0 \<le> lane_change_timer ?h" "lane_change_timer ?h \<le> fl (10 + DT_MDL)"
    using t0 t1 unfolding t by auto
  let ?g = "step_desire ((step_timer ?m)\<lparr>prev_one_blinker := one_blinker cs\<rparr>)"
  have "keep_pulse_timer ?h = keep_pulse_timer (step_keep_pulse ?g)"
    by (simp add: DesireHelper_update_unfold Let_def)
  moreover have "keep_pulse_timer ?g = keep_pulse_timer h" using m(6) by simp
  ultimately have pulse: "0 \<le> keep_pulse_timer ?h" "keep_pulse_timer ?h \<le> 1"
    using update_keep_pulse [of ?g "keep_pulse_timer h"] assms DT_MDL_nonneg by (auto simp: lane_inv_def)
  have d: "desire ?h = (if lane_turn_direction ?h \<noteq> TurnDirection_none then TURN_DESIRES (lane_turn_direction ?h)
      else if changing ?m
      then (if lane_change_direction ?h = LaneChangeDirection_left then Desire_laneChangeLeft else Desire_laneChangeRight)
      else Desire_none)"
  proof -
    have "lane_change_direction ?m \<noteq> LaneChangeDirection_none \<or>
        \<not> (lane_change_state ?m = LaneChangeState_laneChangeStarting \<or> lane_change_state ?m = LaneChangeState_laneChangeFinishing)"
      using m(2) by (auto simp: changing_def)
    from DESIRES_eq [OF this] show ?thesis by (simp add: update_desire Let_def changing_def)
  qed
  have "changing ?m \<longrightarrow> lane_change_direction ?h \<noteq> LaneChangeDirection_none \<and> prev_lane_change (dh_alc ?h)"
    using dir(2) prev by blast
  then show ?thesis unfolding lane_inv_def c by (intro conjI dir timer pulse d)
qed

lemma DesireHelper_init_inv: "lane_inv (DesireHelper_init p)"
  using fl_nonneg [of "10 + DT_MDL"] DT_MDL_nonneg by (simp add: DesireHelper_init_def lane_inv_def changing_def)

text \<open>One input of an update: the stored parameters, the car, whether lateral control is active, the probability.\<close>

type_synonym lane_input = "lane_params \<times> lane_car \<times> bool \<times> rat"

fun lane_step :: "lane_input \<Rightarrow> desire_helper \<Rightarrow> desire_helper" where
  "lane_step (p, cs, act, prob) h = DesireHelper_update p cs act prob h"

interpretation lane: invariant_step lane_step lane_inv
  by unfold_locales (auto simp: DesireHelper_update_inv)

text \<open>C31: In every reachable state: no direction in state off; a direction, and the mark of a change, while a lane
  change starts or finishes; the timer is 0 outside a change and never beyond 10 seconds and one step; the lane line
  probability and the pulse timer lie between 0 and 1; and the desire sent to the model is the turn when one is
  wanted, else the lane change in the direction of the change, else none.\<close>

theorem lane_change_invariant:
  "lane_inv (fold lane_step is (DesireHelper_init p))"
  by (rule lane.run_inv [OF DesireHelper_init_inv])

section \<open>A lane change ends\<close>

lemma lane_step_timer:
  assumes "lane_inv h" "changing (lane_step i h)"
  shows "lane_change_timer h \<le> 10" "lane_change_timer h + (1 / 20 - 1 / 10 ^ 9) \<le> lane_change_timer (lane_step i h)"
proof -
  obtain p cs act prob where i: "i = (p, cs, act, prob)" by (cases i)
  let ?m = "moved p cs act prob h" and ?t = "lane_change_timer h + DT_MDL"
  have c: "changing ?m" using assms(2) by (simp add: i changing_def)
  show t: "lane_change_timer h \<le> 10" using moved_inv(7) [OF assms(1)] c by blast
  have "\<bar>DT_MDL - 1 / 20\<bar> \<le> 1 / 20 / 2 ^ 53" using fl_error [of "1 / 20"] by (simp add: DT_MDL_def)
  moreover have "\<bar>fl ?t - ?t\<bar> \<le> \<bar>?t\<bar> / 2 ^ 53" by (rule fl_error)
  moreover have "0 \<le> lane_change_timer h" using assms(1) by (simp add: lane_inv_def)
  ultimately have "lane_change_timer h + (1 / 20 - 1 / 10 ^ 9) \<le> fl ?t"
    using t by (simp add: abs_if split: if_splits)
  moreover have "lane_change_timer (lane_step i h) = fl ?t"
    using c moved_inv(5) [OF assms(1), of p cs act prob] by (auto simp: i step_timer_def changing_def)
  ultimately show "lane_change_timer h + (1 / 20 - 1 / 10 ^ 9) \<le> lane_change_timer (lane_step i h)" by simp
qed

lemma lane_run_timer:
  assumes "lane_inv h" "\<forall>k\<in>{1..length is}. changing (fold lane_step (take k is) h)"
  shows "of_nat (length is) * (1 / 20 - 1 / 10 ^ 9) \<le> lane_change_timer (fold lane_step is h)"
  using assms(2)
proof (induction "is" rule: rev_induct)
  case Nil
  then show ?case using assms(1) by (simp add: lane_inv_def)
next
  case (snoc i "is")
  let ?h = "fold lane_step is h"
  have "\<forall>k\<in>{1..length is}. changing (fold lane_step (take k is) h)"
  proof
    fix k assume "k \<in> {1..length is}"
    then show "changing (fold lane_step (take k is) h)" using bspec [OF snoc.prems, of k] by simp
  qed
  then have "of_nat (length is) * (1 / 20 - 1 / 10 ^ 9) \<le> lane_change_timer ?h" by (rule snoc.IH)
  moreover have "changing (lane_step i ?h)"
    using bspec [OF snoc.prems, of "length (is @ [i])"] by simp
  then have "lane_change_timer ?h + (1 / 20 - 1 / 10 ^ 9) \<le> lane_change_timer (lane_step i ?h)"
    by (rule lane_step_timer(2) [OF lane.run_inv [OF assms(1)]])
  moreover have "of_nat (length (is @ [i])) * (1 / 20 - 1 / 10 ^ 9) =
      of_nat (length is) * (1 / 20 - 1 / 10 ^ 9) + (1 / 20 - 1 / 10 ^ 9 :: rat)" by (simp add: algebra_simps)
  ultimately show ?case by simp
qed

text \<open>C32: Every lane change ends: from any state that satisfies the invariant, within 202 updates (10.1 seconds) the
  helper is back in state off or \<open>preLaneChange\<close>, whatever the car, the driver and the model report.\<close>

theorem lane_change_ends:
  assumes "lane_inv h" "length is = 202"
  shows "\<exists>k\<in>{1..202}. lane_change_state (fold lane_step (take k is) h) \<in> {LaneChangeState_off, LaneChangeState_preLaneChange}"
proof (rule ccontr)
  assume not: "\<not> ?thesis"
  have "s \<in> {LaneChangeState_off, LaneChangeState_preLaneChange} \<or>
      s \<in> {LaneChangeState_laneChangeStarting, LaneChangeState_laneChangeFinishing}" for s by (cases s) simp_all
  then have all: "\<forall>k\<in>{1..202}. changing (fold lane_step (take k is) h)" using not by (auto simp: changing_def)
  obtain i js where "is": "is = js @ [i]" "length js = 201"
    using assms(2) by (cases "is" rule: rev_cases) auto
  have c: "\<forall>k\<in>{1..length js}. changing (fold lane_step (take k js) h)"
  proof
    fix k assume "k \<in> {1..length js}"
    then show "changing (fold lane_step (take k js) h)" using bspec [OF all, of k] "is" by simp
  qed
  have "changing (lane_step i (fold lane_step js h))" using bspec [OF all, of 202] "is" by simp
  from lane_step_timer(1) [OF lane.run_inv [OF assms(1)] this] have "lane_change_timer (fold lane_step js h) \<le> 10" .
  with lane_run_timer [OF assms(1) c] show False using "is"(2) by simp
qed

section \<open>One automatic lane change\<close>

lemma prev_lane_change_kept:
  assumes "prev_lane_change (dh_alc h)" "lane_change_state (lane_step i h) \<noteq> LaneChangeState_off"
  shows "prev_lane_change (dh_alc (lane_step i h))"
  using assms by (cases i) (simp add: alc_update_state_def alc_reset_def)

lemma prev_lane_change_run:
  assumes "prev_lane_change (dh_alc h)"
    "\<forall>k\<in>{1..length is}. lane_change_state (fold lane_step (take k is) h) \<noteq> LaneChangeState_off"
  shows "prev_lane_change (dh_alc (fold lane_step is h))"
  using assms(2)
proof (induction "is" rule: rev_induct)
  case (snoc i "is")
  have "\<forall>k\<in>{1..length is}. lane_change_state (fold lane_step (take k is) h) \<noteq> LaneChangeState_off"
  proof
    fix k assume "k \<in> {1..length is}"
    then show "lane_change_state (fold lane_step (take k is) h) \<noteq> LaneChangeState_off"
      using bspec [OF snoc.prems, of k] by simp
  qed
  then have "prev_lane_change (dh_alc (fold lane_step is h))" by (rule snoc.IH)
  then show ?case
    using bspec [OF snoc.prems, of "length (is @ [i])"] prev_lane_change_kept by simp
qed (simp add: assms(1))

text \<open>One use of the blinker gives at most one automatic lane change: as long as the helper has not been off since
  a lane change was under way, the next change starts only when the driver turns the wheel to that side.\<close>

theorem one_automatic_change:
  assumes "lane_inv h"
    and "lane_change_state h \<in> {LaneChangeState_laneChangeStarting, LaneChangeState_laneChangeFinishing}"
    and "\<forall>k\<in>{1..length is}. lane_change_state (fold lane_step (take k is) h) \<noteq> LaneChangeState_off"
    and "starts p cs act prob (fold lane_step is h)"
  shows "steeringPressed cs \<and> (if leftBlinker cs then 0 < steeringTorque cs else steeringTorque cs < 0)"
proof -
  have "changing h" using assms(2) by (simp add: changing_def)
  then have "prev_lane_change (dh_alc h)" using assms(1) by (simp add: lane_inv_def)
  then have "prev_lane_change (dh_alc (fold lane_step is h))" using assms(3) by (rule prev_lane_change_run)
  then show ?thesis using lane_change_start_rule [OF assms(4)] by (simp add: Let_def)
qed

section \<open>Concrete runs\<close>

definition nudgeless :: lane_params where
  "nudgeless = \<lparr>AutoLaneChangeBsmDelay = True, AutoLaneChangeTimer = 1, LaneTurnDesire = True, LaneTurnValue = 19\<rparr>"

definition blinking_left :: "rat \<Rightarrow> lane_car" where
  "blinking_left torque = \<lparr>vEgo = 30, leftBlinker = True, rightBlinker = False, leftBlindspot = False, rightBlindspot = True,
     steeringPressed = (torque \<noteq> 0), steeringTorque = torque, brakePressed = False\<rparr>"

definition no_torque :: lane_input where "no_torque = (nudgeless, blinking_left 0, True, 0)"

definition about_to_change :: desire_helper where
  "about_to_change = (DesireHelper_init nudgeless)
     \<lparr>lane_change_state := LaneChangeState_preLaneChange, lane_change_direction := LaneChangeDirection_left,
      dh_alc := (AutoLaneChangeController_init nudgeless)\<lparr>lane_change_wait_timer := 1\<rparr>\<rparr>"

definition ending_change :: desire_helper where
  "ending_change = (DesireHelper_init nudgeless)
     \<lparr>lane_change_state := LaneChangeState_laneChangeFinishing, lane_change_direction := LaneChangeDirection_left,
      desire := Desire_laneChangeLeft, dh_alc := (AutoLaneChangeController_init nudgeless)\<lparr>prev_lane_change := True\<rparr>\<rparr>"

lemmas run_defs = DesireHelper_init_def AutoLaneChangeController_init_def alc_read_params_def alc_update_params_def
  nudgeless_def blinking_left_def one_blinker_def blindspot_def get_lane_change_direction_def torque_applied_def Let_def

lemma about_to_change_inv: "lane_inv about_to_change"
  using fl_nonneg [of "10 + DT_MDL"] DT_MDL_nonneg
  by (simp add: about_to_change_def DesireHelper_init_def lane_inv_def changing_def)

lemma speed_min_30: "LANE_CHANGE_SPEED_MIN \<le> 30"
  by code_simp

theorem lane_change_start_witness:
  "starts nudgeless (blinking_left 0) True 0 about_to_change \<and>
    lane_change_direction (DesireHelper_update nudgeless (blinking_left 0) True 0 about_to_change) = LaneChangeDirection_left"
proof -
  have "mode_delay 1 < fl (1 + DT_MDL)" by code_simp
  then have s: "starts nudgeless (blinking_left 0) True 0 about_to_change"
    using speed_min_30 unfolding starts_unfold allowed_unfold
    by (simp add: about_to_change_def run_defs LANE_CHANGE_TIME_MAX_def MODE_OFF_def)
  show ?thesis using lane_change_start [OF s] s by (simp add: blinking_left_def)
qed

theorem lane_change_ends_witness:
  "\<exists>k\<in>{1..202}. lane_change_state (fold lane_step (take k (replicate 202 no_torque)) about_to_change)
    \<in> {LaneChangeState_off, LaneChangeState_preLaneChange}"
  by (rule lane_change_ends [OF about_to_change_inv]) simp

theorem one_automatic_change_witness:
  "starts nudgeless (blinking_left 1) True 0 (lane_step no_torque ending_change) \<and>
    \<not> starts nudgeless (blinking_left 0) True 0 (lane_step no_torque ending_change)"
proof -
  have inv: "lane_inv ending_change"
    using fl_nonneg [of "10 + DT_MDL"] DT_MDL_nonneg
    by (simp add: ending_change_def DesireHelper_init_def lane_inv_def changing_def AutoLaneChangeController_init_def
        alc_read_params_def)
  have st: "lane_change_state ending_change \<in> {LaneChangeState_laneChangeStarting, LaneChangeState_laneChangeFinishing}"
    by (simp add: ending_change_def)
  let ?h = "lane_step no_torque ending_change"
  have p: "1 \<le> fl (1 + DT_MDL)" "fl (99 / 100) < 1" by code_simp+
  then have h: "lane_change_state ?h = LaneChangeState_preLaneChange" "lane_change_timer ?h = 0"
    "lane_change_set_timer (alc_update_params nudgeless (dh_alc ?h)) = 1"
    by (simp_all add: no_torque_def ending_change_def moved_def step_lane_change_def refreshed_def step_timer_def run_defs
        alc_update_state_def alc_reset_def LANE_CHANGE_TIME_MAX_def MODE_OFF_def)
  then have on: "\<forall>k\<in>{1..length [no_torque]}. lane_change_state (fold lane_step (take k [no_torque]) ending_change) \<noteq> LaneChangeState_off"
    by simp
  have "starts nudgeless (blinking_left 1) True 0 ?h"
    using speed_min_30 h unfolding starts_unfold by (simp add: run_defs LANE_CHANGE_TIME_MAX_def MODE_OFF_def)
  moreover have "\<not> starts nudgeless (blinking_left 0) True 0 (lane_step no_torque ending_change)"
  proof
    assume "starts nudgeless (blinking_left 0) True 0 (lane_step no_torque ending_change)"
    then have "starts nudgeless (blinking_left 0) True 0 (fold lane_step [no_torque] ending_change)" by simp
    from one_automatic_change [OF inv st on this] show False by (simp add: blinking_left_def)
  qed
  ultimately show ?thesis by blast
qed

end
