(* ===== verification/SteeringLimits.thy ===== *)
theory SteeringLimits
  imports PyNumpy
begin

text \<open>
  The limits every steering command passes before it is sent to the car: \<^verbatim>\<open>opendbc_repo/opendbc/car/lateral.py\<close>, with
  \<^verbatim>\<open>rate_limit\<close> of \<^verbatim>\<open>car/__init__.py\<close> and the static part of \<^verbatim>\<open>car/vehicle_model.py\<close>. The torque limits of the car
  ports are integers, as are the torque commands; driver torque, angles and curvatures are floats. The
  square \<^verbatim>\<open>x ** 2\<close> of a float is one rounded multiplication.
\<close>

section \<open>Torque\<close>

record torque_limits =
  STEER_MAX :: int
  STEER_DELTA_UP :: int
  STEER_DELTA_DOWN :: int
  STEER_DRIVER_ALLOWANCE :: int
  STEER_DRIVER_FACTOR :: int
  STEER_DRIVER_MULTIPLIER :: int
  STEER_ERROR_MAX :: int

definition driver_max_torque :: "torque_limits \<Rightarrow> int \<Rightarrow> rat \<Rightarrow> rat" where
  "driver_max_torque l steer_max driver_torque =
    fl (of_int steer_max +
        fl (fl (of_int (STEER_DRIVER_ALLOWANCE l) + fl (driver_torque * of_int (STEER_DRIVER_FACTOR l)))
            * of_int (STEER_DRIVER_MULTIPLIER l)))"

definition driver_min_torque :: "torque_limits \<Rightarrow> int \<Rightarrow> rat \<Rightarrow> rat" where
  "driver_min_torque l steer_max driver_torque =
    fl (of_int (- steer_max) +
        fl (fl (of_int (- STEER_DRIVER_ALLOWANCE l) + fl (driver_torque * of_int (STEER_DRIVER_FACTOR l)))
            * of_int (STEER_DRIVER_MULTIPLIER l)))"

definition apply_driver_steer_torque_limits ::
    "math_env \<Rightarrow> int \<Rightarrow> int \<Rightarrow> rat \<Rightarrow> torque_limits \<Rightarrow> int option \<Rightarrow> int" where
  "apply_driver_steer_torque_limits env apply_torque apply_torque_last driver_torque l steer_max_arg =
    (let steer_max = (case steer_max_arg of None \<Rightarrow> STEER_MAX l | Some m \<Rightarrow> m);
         max_steer_allowed = max (min (of_int steer_max) (driver_max_torque l steer_max driver_torque)) 0;
         min_steer_allowed = min (max (of_int (- steer_max)) (driver_min_torque l steer_max driver_torque)) 0;
         torque = np_clip env (of_int apply_torque) min_steer_allowed max_steer_allowed;
         torque = (if 0 < apply_torque_last
           then np_clip env torque (of_int (max (apply_torque_last - STEER_DELTA_DOWN l) (- STEER_DELTA_UP l)))
                  (of_int (apply_torque_last + STEER_DELTA_UP l))
           else np_clip env torque (of_int (apply_torque_last - STEER_DELTA_UP l))
                  (of_int (min (apply_torque_last + STEER_DELTA_DOWN l) (STEER_DELTA_UP l))))
     in py_round torque)"

text \<open>Used for torques (integers), and by some ports for other commands.\<close>

definition apply_dist_to_meas_limits :: "math_env \<Rightarrow> rat \<Rightarrow> rat \<Rightarrow> rat \<Rightarrow> rat \<Rightarrow> rat \<Rightarrow> rat \<Rightarrow> rat \<Rightarrow> rat" where
  "apply_dist_to_meas_limits env val val_last val_meas delta_up delta_down error_max steer_max =
    (let max_lim = min (max (fl (val_meas + error_max)) error_max) steer_max;
         min_lim = max (min (fl (val_meas - error_max)) (- error_max)) (- steer_max);
         val = np_clip env val min_lim max_lim
     in if 0 < val_last
        then np_clip env val (max (fl (val_last - delta_down)) (- delta_up)) (fl (val_last + delta_up))
        else np_clip env val (fl (val_last - delta_up)) (min (fl (val_last + delta_down)) delta_up))"

definition apply_meas_steer_torque_limits :: "math_env \<Rightarrow> int \<Rightarrow> int \<Rightarrow> rat \<Rightarrow> torque_limits \<Rightarrow> int" where
  "apply_meas_steer_torque_limits env apply_torque apply_torque_last motor_torque l =
    py_round (apply_dist_to_meas_limits env (of_int apply_torque) (of_int apply_torque_last) motor_torque
      (of_int (STEER_DELTA_UP l)) (of_int (STEER_DELTA_DOWN l)) (of_int (STEER_ERROR_MAX l)) (of_int (STEER_MAX l)))"

section \<open>Angles and curvatures\<close>

record angle_limits =
  STEER_ANGLE_MAX :: rat
  ANGLE_RATE_LIMIT_UP :: "(rat \<times> rat) list"
  ANGLE_RATE_LIMIT_DOWN :: "(rat \<times> rat) list"
  MAX_LATERAL_ACCEL :: rat
  MAX_LATERAL_JERK :: rat
  MAX_ANGLE_RATE :: "rat option"

text \<open>\<^verbatim>\<open>MAX_ANGLE_RATE = math.inf\<close> is \<open>None\<close>.\<close>

definition angle_rate_lim :: "math_env \<Rightarrow> rat \<Rightarrow> rat \<Rightarrow> rat \<Rightarrow> angle_limits \<Rightarrow> rat" where
  "angle_rate_lim env apply_angle apply_angle_last v_ego l =
    (let steer_up = 0 \<le> fl (apply_angle_last * apply_angle) \<and> \<bar>apply_angle_last\<bar> < \<bar>apply_angle\<bar>
     in np_interp env v_ego (if steer_up then ANGLE_RATE_LIMIT_UP l else ANGLE_RATE_LIMIT_DOWN l))"

definition apply_std_steer_angle_limits ::
    "math_env \<Rightarrow> rat \<Rightarrow> rat \<Rightarrow> rat \<Rightarrow> rat \<Rightarrow> bool \<Rightarrow> angle_limits \<Rightarrow> rat" where
  "apply_std_steer_angle_limits env apply_angle apply_angle_last v_ego steering_angle lat_active l =
    (let lim = angle_rate_lim env apply_angle apply_angle_last v_ego l;
         new_apply_angle = np_clip env apply_angle (fl (apply_angle_last - lim)) (fl (apply_angle_last + lim));
         new_apply_angle = (if \<not> lat_active then steering_angle else new_apply_angle)
     in np_clip env new_apply_angle (- STEER_ANGLE_MAX l) (STEER_ANGLE_MAX l))"

definition CAR_DT_CTRL :: rat where "CAR_DT_CTRL = fl (1 / 100)"
definition ACCELERATION_DUE_TO_GRAVITY :: rat where "ACCELERATION_DUE_TO_GRAVITY = fl (981 / 100)"
definition ISO_LATERAL_ACCEL :: rat where "ISO_LATERAL_ACCEL = 3"
definition ISO_LATERAL_JERK :: rat where "ISO_LATERAL_JERK = 5"
definition AVERAGE_ROAD_ROLL :: rat where "AVERAGE_ROAD_ROLL = fl (6 / 100)"
definition ISO_MAX_LATERAL_ACCEL :: rat where
  "ISO_MAX_LATERAL_ACCEL = fl (ISO_LATERAL_ACCEL + fl (ACCELERATION_DUE_TO_GRAVITY * AVERAGE_ROAD_ROLL))"

definition py_square :: "rat \<Rightarrow> rat" where "py_square x = fl (x * x)"

definition get_max_curvature_jerk :: "rat \<Rightarrow> int \<Rightarrow> rat" where
  "get_max_curvature_jerk v_ego steer_step =
    (let ts_elapsed = fl (of_int steer_step * CAR_DT_CTRL);
         curvature_rate_limit = fl (ISO_LATERAL_JERK / py_square (max v_ego 1))
     in fl (curvature_rate_limit * ts_elapsed))"

definition get_max_curvature :: "rat \<Rightarrow> rat \<times> rat" where
  "get_max_curvature v_ego =
    (let max_curvature = fl (ISO_MAX_LATERAL_ACCEL / py_square (max v_ego 1)) in (- max_curvature, max_curvature))"

definition apply_std_curvature_limits ::
    "math_env \<Rightarrow> rat \<Rightarrow> rat \<Rightarrow> rat \<Rightarrow> rat \<Rightarrow> bool \<Rightarrow> int \<Rightarrow> bool \<Rightarrow> rat \<Rightarrow> rat" where
  "apply_std_curvature_limits env apply_curvature apply_curvature_last v_ego curvature override steer_step lat_active CURVATURE_MAX =
    (let max_jerk = get_max_curvature_jerk v_ego steer_step;
         new = np_clip env apply_curvature (fl (apply_curvature_last - max_jerk)) (fl (apply_curvature_last + max_jerk));
         (min_curvature, max_curvature) = get_max_curvature v_ego;
         new = np_clip env new min_curvature max_curvature;
         new = (if \<not> lat_active then curvature else new)
     in np_clip env new (- CURVATURE_MAX) CURVATURE_MAX)"

section \<open>The vehicle model\<close>

record car_params =
  mass :: rat
  rotationalInertia :: rat
  wheelbase :: rat
  centerToFront :: rat
  steerRatio :: rat
  steerRatioRear :: rat
  tireStiffnessFront :: rat
  tireStiffnessRear :: rat

record vehicle_model =
  vm_m :: rat
  vm_j :: rat
  vm_l :: rat
  vm_aF :: rat
  vm_aR :: rat
  vm_chi :: rat
  cF_orig :: rat
  cR_orig :: rat
  vm_cF :: rat
  vm_cR :: rat
  vm_sR :: rat

definition vm_update_params :: "rat \<Rightarrow> rat \<Rightarrow> vehicle_model \<Rightarrow> vehicle_model" where
  "vm_update_params stiffness_factor steer_ratio vm =
    vm\<lparr>vm_cF := fl (stiffness_factor * cF_orig vm), vm_cR := fl (stiffness_factor * cR_orig vm), vm_sR := steer_ratio\<rparr>"

definition VehicleModel_init :: "car_params \<Rightarrow> vehicle_model" where
  "VehicleModel_init cp =
    vm_update_params 1 (steerRatio cp)
      \<lparr>vm_m = mass cp, vm_j = rotationalInertia cp, vm_l = wheelbase cp, vm_aF = centerToFront cp,
       vm_aR = fl (wheelbase cp - centerToFront cp), vm_chi = steerRatioRear cp, cF_orig = tireStiffnessFront cp,
       cR_orig = tireStiffnessRear cp, vm_cF = 0, vm_cR = 0, vm_sR = 0\<rparr>"

definition calc_slip_factor :: "vehicle_model \<Rightarrow> rat result" where
  "calc_slip_factor vm =
    py_fdiv (fl (vm_m vm * fl (fl (vm_cF vm * vm_aF vm) - fl (vm_cR vm * vm_aR vm))))
      (fl (fl (py_square (vm_l vm) * vm_cF vm) * vm_cR vm))"

definition roll_compensation :: "rat \<Rightarrow> rat \<Rightarrow> vehicle_model \<Rightarrow> rat result" where
  "roll_compensation roll u vm =
    ebind (calc_slip_factor vm) (\<lambda>sf.
      if \<bar>sf\<bar> < fl (1 / 1000000) then Inr 0
      else ebind (py_fdiv 1 sf) (\<lambda>r. py_fdiv (fl (ACCELERATION_DUE_TO_GRAVITY * roll)) (fl (r - py_square u))))"

definition curvature_factor :: "rat \<Rightarrow> vehicle_model \<Rightarrow> rat result" where
  "curvature_factor u vm =
    ebind (calc_slip_factor vm) (\<lambda>sf.
    ebind (py_fdiv (fl (1 - vm_chi vm)) (fl (1 - fl (sf * py_square u)))) (\<lambda>q. py_fdiv q (vm_l vm)))"

definition calc_curvature :: "rat \<Rightarrow> rat \<Rightarrow> rat \<Rightarrow> vehicle_model \<Rightarrow> rat result" where
  "calc_curvature sa u roll vm =
    ebind (curvature_factor u vm) (\<lambda>f.
    ebind (py_fdiv (fl (f * sa)) (vm_sR vm)) (\<lambda>q.
    ebind (roll_compensation roll u vm) (\<lambda>r. Inr (fl (q + r)))))"

definition get_steer_from_curvature :: "rat \<Rightarrow> rat \<Rightarrow> rat \<Rightarrow> vehicle_model \<Rightarrow> rat result" where
  "get_steer_from_curvature curv u roll vm =
    ebind (roll_compensation roll u vm) (\<lambda>r.
    ebind (curvature_factor u vm) (\<lambda>f. py_fdiv (fl (fl (curv - r) * vm_sR vm)) f))"

definition get_steer_from_yaw_rate :: "rat \<Rightarrow> rat \<Rightarrow> rat \<Rightarrow> vehicle_model \<Rightarrow> rat result" where
  "get_steer_from_yaw_rate yaw_rate u roll vm =
    ebind (py_fdiv yaw_rate u) (\<lambda>curv. get_steer_from_curvature curv u roll vm)"

definition vm_yaw_rate :: "rat \<Rightarrow> rat \<Rightarrow> rat \<Rightarrow> vehicle_model \<Rightarrow> rat result" where
  "vm_yaw_rate sa u roll vm = ebind (calc_curvature sa u roll vm) (\<lambda>c. Inr (fl (c * u)))"

section \<open>Angles limited by the vehicle model\<close>

definition get_max_angle_delta_vm :: "rat \<Rightarrow> vehicle_model \<Rightarrow> angle_limits \<Rightarrow> int \<Rightarrow> rat result" where
  "get_max_angle_delta_vm v_ego_raw vm l steer_step =
    ebind (py_fdiv (MAX_LATERAL_JERK l) (py_square v_ego_raw)) (\<lambda>max_curvature_rate_sec.
    ebind (get_steer_from_curvature max_curvature_rate_sec v_ego_raw 0 vm) (\<lambda>a.
      Inr (fl (py_degrees a * fl (CAR_DT_CTRL * of_int steer_step)))))"

definition get_max_angle_vm :: "rat \<Rightarrow> vehicle_model \<Rightarrow> angle_limits \<Rightarrow> rat result" where
  "get_max_angle_vm v_ego_raw vm l =
    ebind (py_fdiv (MAX_LATERAL_ACCEL l) (py_square v_ego_raw)) (\<lambda>max_curvature.
    ebind (get_steer_from_curvature max_curvature v_ego_raw 0 vm) (\<lambda>a. Inr (py_degrees a)))"

definition rate_limit :: "math_env \<Rightarrow> rat \<Rightarrow> rat \<Rightarrow> rat \<Rightarrow> rat \<Rightarrow> rat" where
  "rate_limit env new_value last_value dw_step up_step =
    np_clip env new_value (fl (last_value + dw_step)) (fl (last_value + up_step))"

definition apply_steer_angle_limits_vm ::
    "math_env \<Rightarrow> rat \<Rightarrow> rat \<Rightarrow> rat \<Rightarrow> rat \<Rightarrow> bool \<Rightarrow> angle_limits \<Rightarrow> int \<Rightarrow> vehicle_model \<Rightarrow> rat result" where
  "apply_steer_angle_limits_vm env apply_angle apply_angle_last v_raw steering_angle lat_active l steer_step vm =
    (let v_ego_raw = max v_raw 1
     in ebind (get_max_angle_delta_vm v_ego_raw vm l steer_step) (\<lambda>delta.
        let max_angle_delta = (case MAX_ANGLE_RATE l of None \<Rightarrow> delta | Some r \<Rightarrow> min delta r);
            new = rate_limit env apply_angle apply_angle_last (- max_angle_delta) max_angle_delta
        in ebind (get_max_angle_vm v_ego_raw vm l) (\<lambda>max_angle.
           let new = np_clip env new (- max_angle) max_angle;
               new = (if \<not> lat_active then steering_angle else new)
           in Inr (np_clip env new (- STEER_ANGLE_MAX l) (STEER_ANGLE_MAX l)))))"

section \<open>Fault avoidance and friction\<close>

definition common_fault_avoidance :: "bool \<Rightarrow> bool \<Rightarrow> int \<Rightarrow> int \<Rightarrow> int \<Rightarrow> int \<times> bool" where
  "common_fault_avoidance fault_condition request above_limit_frames max_above_limit_frames max_mismatching_frames =
    (let n = (if request \<and> fault_condition then above_limit_frames + 1 else 0);
         request = (if max_above_limit_frames < n then False else request);
         n = (if max_above_limit_frames + max_mismatching_frames \<le> n then 0 else n)
     in (n, request))"

definition apply_center_deadzone :: "rat \<Rightarrow> rat \<Rightarrow> rat" where
  "apply_center_deadzone err deadzone = (if - deadzone < err \<and> err < deadzone then 0 else err)"

definition get_friction :: "math_env \<Rightarrow> rat \<Rightarrow> rat \<Rightarrow> rat \<Rightarrow> rat \<Rightarrow> rat \<Rightarrow> rat" where
  "get_friction env lateral_accel_error lateral_accel_deadzone friction_threshold friction latAccelFactor =
    np_interp env (apply_center_deadzone lateral_accel_error lateral_accel_deadzone)
      [(- friction_threshold, fl (- friction * latAccelFactor)), (friction_threshold, fl (friction * latAccelFactor))]"

end
