(* ===== verification/SteeringCorrect.thy ===== *)
theory SteeringCorrect
  imports SteeringLimits
begin

text \<open>
  What the steering limits guarantee for every request: commands stay within the maximum and change slowly, a
  driver who steers against the system wins, the lateral acceleration stays within the ISO limit, and the request
  bit is cut before the power steering faults. The only fact about numpy that is used is \<open>clip_spec\<close>.
\<close>

section \<open>Driver torque limits\<close>

definition limits_ok :: "torque_limits \<Rightarrow> bool" where
  "limits_ok l \<longleftrightarrow> 0 \<le> STEER_MAX l \<and> STEER_MAX l \<le> 2 ^ 50 \<and> 0 \<le> STEER_DELTA_UP l \<and> STEER_DELTA_UP l \<le> 2 ^ 50 \<and>
     0 \<le> STEER_DELTA_DOWN l \<and> STEER_DELTA_DOWN l \<le> 2 ^ 50 \<and> 0 \<le> STEER_ERROR_MAX l"

text \<open>The interval the rate limit leaves.\<close>

definition rate_lo :: "torque_limits \<Rightarrow> int \<Rightarrow> int" where
  "rate_lo l prev = (if 0 < prev then max (prev - STEER_DELTA_DOWN l) (- STEER_DELTA_UP l) else prev - STEER_DELTA_UP l)"

definition rate_hi :: "torque_limits \<Rightarrow> int \<Rightarrow> int" where
  "rate_hi l prev = (if 0 < prev then prev + STEER_DELTA_UP l else min (prev + STEER_DELTA_DOWN l) (STEER_DELTA_UP l))"

lemma rate_facts:
  assumes "limits_ok l" "\<bar>prev\<bar> \<le> m"
  shows "rate_lo l prev \<le> rate_hi l prev" "rate_lo l prev \<le> m" "- m \<le> rate_hi l prev"
  using assms by (auto simp: rate_lo_def rate_hi_def limits_ok_def)

lemma rate_clip_bounds:
  assumes "clip_spec env" "limits_ok l" "\<bar>prev\<bar> \<le> m" "of_int (- m) \<le> x" "x \<le> of_int m"
  defines "t \<equiv> py_round (np_clip env x (of_int (rate_lo l prev)) (of_int (rate_hi l prev)))"
  shows "\<bar>t\<bar> \<le> m" "rate_lo l prev \<le> t" "t \<le> rate_hi l prev"
proof -
  let ?y = "np_clip env x (of_int (rate_lo l prev)) (of_int (rate_hi l prev))"
  note r = rate_facts [OF assms(2,3)]
  have y: "of_int (rate_lo l prev) \<le> ?y" "?y \<le> of_int (rate_hi l prev)"
    by (rule np_clip_bounds [OF assms(1)], simp add: r(1))+
  have "(of_int (rate_lo l prev) :: rat) \<le> of_int m" "of_int (- m) \<le> (of_int (rate_hi l prev) :: rat)"
    using r(2,3) by (simp_all only: of_int_le_iff)
  from np_clip_inside [OF assms(1,4,5) this] have "of_int (- m) \<le> ?y" "?y \<le> of_int m" .
  from py_round_bounds [OF this] show "\<bar>t\<bar> \<le> m" by (simp add: t_def)
  from py_round_bounds [OF y] show "rate_lo l prev \<le> t" "t \<le> rate_hi l prev" by (simp_all add: t_def)
qed

definition driver_clip :: "math_env \<Rightarrow> torque_limits \<Rightarrow> int \<Rightarrow> rat \<Rightarrow> int \<Rightarrow> rat" where
  "driver_clip env l m d req =
    np_clip env (of_int req) (min (max (of_int (- m)) (driver_min_torque l m d)) 0)
      (max (min (of_int m) (driver_max_torque l m d)) 0)"

lemma apply_driver_unfold:
  "apply_driver_steer_torque_limits env req prev d l None =
     py_round (np_clip env (driver_clip env l (STEER_MAX l) d req) (of_int (rate_lo l prev)) (of_int (rate_hi l prev)))"
  by (simp add: apply_driver_steer_torque_limits_def driver_clip_def rate_lo_def rate_hi_def Let_def)

lemma driver_clip_bounds:
  assumes "clip_spec env" "0 \<le> m"
  shows "of_int (- m) \<le> driver_clip env l m d req" "driver_clip env l m d req \<le> of_int m"
    "driver_clip env l m d req \<le> max (driver_max_torque l m d) 0" "min (driver_min_torque l m d) 0 \<le> driver_clip env l m d req"
  using assms by (auto simp: driver_clip_def np_clip_eq)

lemma apply_driver_bounds:
  fixes d :: rat and req :: int
  assumes "clip_spec env" "limits_ok l" "\<bar>prev\<bar> \<le> STEER_MAX l"
  defines "t \<equiv> apply_driver_steer_torque_limits env req prev d l None"
  shows "\<bar>t\<bar> \<le> STEER_MAX l" "rate_lo l prev \<le> t" "t \<le> rate_hi l prev"
proof -
  have m: "0 \<le> STEER_MAX l" using assms(2) by (simp add: limits_ok_def)
  show "\<bar>t\<bar> \<le> STEER_MAX l" "rate_lo l prev \<le> t" "t \<le> rate_hi l prev"
    unfolding t_def apply_driver_unfold
    by (rule rate_clip_bounds [OF assms(1-3) driver_clip_bounds(1,2) [OF assms(1) m]])+
qed

text \<open>The commands for a sequence of requests and driver torques.\<close>

fun driver_torques :: "math_env \<Rightarrow> torque_limits \<Rightarrow> int \<Rightarrow> (int \<times> rat) list \<Rightarrow> int list" where
  "driver_torques env l prev [] = []"
| "driver_torques env l prev ((req, d) # xs) =
    (let t = apply_driver_steer_torque_limits env req prev d l None in t # driver_torques env l t xs)"

definition slow_step :: "torque_limits \<Rightarrow> int \<Rightarrow> int \<Rightarrow> bool" where
  "slow_step l a b \<longleftrightarrow> \<bar>b\<bar> \<le> \<bar>a\<bar> + STEER_DELTA_UP l \<and> \<bar>b - a\<bar> \<le> max (STEER_DELTA_UP l) (STEER_DELTA_DOWN l)"

lemma rate_slow_step: "limits_ok l \<Longrightarrow> rate_lo l a \<le> b \<Longrightarrow> b \<le> rate_hi l a \<Longrightarrow> slow_step l a b"
  by (auto simp: slow_step_def rate_lo_def rate_hi_def limits_ok_def split: if_splits)

text \<open>C9: Whatever torque is requested and whatever the driver does, every torque command stays within
  \<open>STEER_MAX\<close>, its magnitude grows by at most \<open>STEER_DELTA_UP\<close> per frame, and it never moves by more than the
  larger of the two rates.\<close>

theorem torque_commands_limited:
  assumes "clip_spec env" "limits_ok l" "\<bar>prev\<bar> \<le> STEER_MAX l"
  shows "(\<forall>t\<in>set (driver_torques env l prev xs). \<bar>t\<bar> \<le> STEER_MAX l) \<and>
    successively (slow_step l) (prev # driver_torques env l prev xs)"
  using assms(3)
proof (induction xs arbitrary: prev)
  case (Cons x xs)
  obtain req d where x: "x = (req, d)" by (cases x)
  let ?t = "apply_driver_steer_torque_limits env req prev d l None"
  note t = apply_driver_bounds [OF assms(1,2) Cons.prems, of req d]
  have "slow_step l prev ?t" by (rule rate_slow_step [OF assms(2) t(2,3)])
  then show ?case using Cons.IH [OF t(1)] t(1) by (simp add: x Let_def successively_Cons)
qed simp

section \<open>The driver wins\<close>

definition opposing :: "torque_limits \<Rightarrow> rat \<Rightarrow> bool" where
  "opposing l d \<longleftrightarrow> d * of_int (STEER_DRIVER_FACTOR l) \<le> of_int (- (STEER_DRIVER_ALLOWANCE l + STEER_MAX l))"

definition driver_limits_ok :: "torque_limits \<Rightarrow> bool" where
  "driver_limits_ok l \<longleftrightarrow> limits_ok l \<and> 0 \<le> STEER_DRIVER_ALLOWANCE l \<and> STEER_DRIVER_ALLOWANCE l \<le> 2 ^ 50 \<and>
     1 \<le> STEER_DRIVER_MULTIPLIER l"

lemma opposing_driver_max:
  assumes "driver_limits_ok l" "opposing l d"
  shows "driver_max_torque l (STEER_MAX l) d \<le> 0"
proof -
  let ?A = "STEER_DRIVER_ALLOWANCE l" and ?M = "STEER_MAX l" and ?F = "fl (d * of_int (STEER_DRIVER_FACTOR l))"
  let ?G = "fl (of_int ?A + ?F)" and ?k = "STEER_DRIVER_MULTIPLIER l"
  have ok: "0 \<le> ?A" "?A \<le> 2 ^ 50" "0 \<le> ?M" "?M \<le> 2 ^ 50" "1 \<le> ?k"
    using assms(1) by (simp_all add: driver_limits_ok_def limits_ok_def)
  have "fl (of_int (- (?A + ?M))) = of_int (- (?A + ?M))" using ok by (intro fl_of_int) simp
  with fl_mono [OF assms(2) [unfolded opposing_def]] have "?F \<le> of_int (- (?A + ?M))" by simp
  then have "of_int ?A + ?F \<le> of_int (- ?M)" by simp
  moreover have "fl (of_int (- ?M)) = of_int (- ?M)" using ok by (intro fl_of_int) simp
  ultimately have G: "?G \<le> of_int (- ?M)" by (metis fl_mono)
  have "(0::rat) \<le> of_int ?M" using ok by simp
  then have "?G \<le> 0" using G by simp
  moreover have "(1::rat) \<le> of_int ?k" using ok by simp
  ultimately have "?G * of_int ?k \<le> ?G * 1" by (intro mult_left_mono_neg)
  then have "?G * of_int ?k \<le> of_int (- ?M)" using G by simp
  from fl_mono [OF this] have "fl (?G * of_int ?k) \<le> of_int (- ?M)" using \<open>fl (of_int (- ?M)) = _\<close> by simp
  then have "of_int ?M + fl (?G * of_int ?k) \<le> 0" by simp
  from fl_mono [OF this] show ?thesis by (simp add: driver_max_torque_def)
qed

lemma opposing_step:
  assumes "clip_spec env" "driver_limits_ok l" "\<bar>prev\<bar> \<le> STEER_MAX l" "opposing l d"
  shows "apply_driver_steer_torque_limits env req prev d l None \<le> max 0 (prev - STEER_DELTA_DOWN l)"
proof -
  have l: "limits_ok l" "0 \<le> STEER_MAX l" "0 \<le> STEER_DELTA_UP l" and down: "0 \<le> STEER_DELTA_DOWN l" using assms(2) by (simp_all add: driver_limits_ok_def limits_ok_def)
  let ?x = "driver_clip env l (STEER_MAX l) d req"
  have "?x \<le> 0" using driver_clip_bounds(3) [OF assms(1) l(2), of l d req] opposing_driver_max [OF assms(2,4)] by simp
  moreover have z: "(0 :: rat) \<le> of_int (max 0 (prev - STEER_DELTA_DOWN l))" by simp
  moreover have "(of_int (rate_lo l prev) :: rat) \<le> of_int (max 0 (prev - STEER_DELTA_DOWN l))"
    using l(3) down unfolding of_int_le_iff by (auto simp: rate_lo_def)
  ultimately have y: "np_clip env ?x (of_int (rate_lo l prev)) (of_int (rate_hi l prev)) \<le> of_int (max 0 (prev - STEER_DELTA_DOWN l))"
    unfolding np_clip_eq [OF assms(1)] using z by linarith
  have "of_int (- STEER_MAX l - STEER_DELTA_UP l) \<le> np_clip env ?x (of_int (rate_lo l prev)) (of_int (rate_hi l prev))" (is "_ \<le> ?c")
  proof -
    have "- STEER_MAX l - STEER_DELTA_UP l \<le> rate_lo l prev" using assms(3) l unfolding rate_lo_def by auto
    then have "of_int (- STEER_MAX l - STEER_DELTA_UP l) \<le> (of_int (rate_lo l prev) :: rat)" by (simp only: of_int_le_iff)
    also have "\<dots> \<le> ?c"
      using rate_facts(1) [OF l(1) assms(3)] by (intro np_clip_bounds(1) [OF assms(1)]) simp
    finally show ?thesis .
  qed
  from py_round_bounds(2) [OF this y] show ?thesis by (simp add: apply_driver_unfold)
qed

text \<open>C28: A driver who steers against the system wins: when the scaled driver torque opposes a positive command by
  at least \<open>STEER_MAX\<close> beyond the allowance for \<open>n\<close> frames, the command falls by \<open>STEER_DELTA_DOWN\<close> in each frame
  until it is at most 0, whatever torque is requested.\<close>

theorem opposing_driver_wins:
  assumes "clip_spec env" "driver_limits_ok l" "\<bar>prev\<bar> \<le> STEER_MAX l" "\<forall>(req, d)\<in>set xs. opposing l d" "xs \<noteq> []"
  shows "last (driver_torques env l prev xs) \<le> max 0 (prev - int (length xs) * STEER_DELTA_DOWN l)"
  using assms(3-5)
proof (induction xs arbitrary: prev)
  case (Cons x xs)
  obtain req d where x: "x = (req, d)" by (cases x)
  let ?t = "apply_driver_steer_torque_limits env req prev d l None"
  have l: "limits_ok l" using assms(2) by (simp add: driver_limits_ok_def)
  then have down: "0 \<le> STEER_DELTA_DOWN l" by (simp add: limits_ok_def)
  have t: "?t \<le> max 0 (prev - STEER_DELTA_DOWN l)"
    using Cons.prems x by (intro opposing_step [OF assms(1,2)]) auto
  show ?case
  proof (cases "xs = []")
    case True
    then show ?thesis using t by (simp add: x)
  next
    case False
    have "driver_torques env l ?t xs \<noteq> []" using False by (cases xs) (auto simp: Let_def)
    moreover have "last (driver_torques env l ?t xs) \<le> max 0 (?t - int (length xs) * STEER_DELTA_DOWN l)"
      using Cons.IH [OF apply_driver_bounds(1) [OF assms(1) l Cons.prems(1)] _ False] Cons.prems(2) by simp
    moreover have "max 0 (?t - int (length xs) * STEER_DELTA_DOWN l) \<le> max 0 (prev - int (length (x # xs)) * STEER_DELTA_DOWN l)"
    proof -
      have "0 \<le> int (length xs) * STEER_DELTA_DOWN l" using down by simp
      moreover have "int (length (x # xs)) * STEER_DELTA_DOWN l = STEER_DELTA_DOWN l + int (length xs) * STEER_DELTA_DOWN l"
        by (simp add: algebra_simps)
      ultimately show ?thesis using t by linarith
    qed
    ultimately show ?thesis by (simp add: x Let_def)
  qed
qed simp

section \<open>Limits by the measured torque\<close>

lemma fl_int_small: "\<bar>a\<bar> \<le> 2 ^ 51 \<Longrightarrow> \<bar>b\<bar> \<le> 2 ^ 51 \<Longrightarrow> fl (of_int a + of_int b) = of_int (a + b)"
  using fl_of_int [of "a + b"] by simp

lemma meas_clip_bounds:
  fixes v d :: rat
  assumes "clip_spec env" "0 \<le> e" "0 \<le> m"
  defines "x \<equiv> np_clip env v (max (min (fl (d - e)) (- e)) (- m)) (min (max (fl (d + e)) e) m)"
  shows "- m \<le> x" "x \<le> m" "x \<le> max (fl (d + e)) e" "min (fl (d - e)) (- e) \<le> x"
  using assms unfolding x_def np_clip_eq [OF assms(1)] by linarith+

text \<open>A clipped and rounded command that is not at a rate limit is near the interval it was taken from.\<close>

lemma near_clip:
  assumes "clip_spec env" "lo \<le> hi" "lb \<le> x" "x \<le> ub"
  shows "lo < py_round (np_clip env x (of_int lo) (of_int hi)) \<Longrightarrow>
      of_int (py_round (np_clip env x (of_int lo) (of_int hi))) - 1 / 2 \<le> ub"
    "py_round (np_clip env x (of_int lo) (of_int hi)) < hi \<Longrightarrow>
      lb \<le> of_int (py_round (np_clip env x (of_int lo) (of_int hi))) + 1 / 2"
proof -
  define y where "y = np_clip env x (of_int lo) (of_int hi)"
  have r: "\<bar>of_int (py_round y) - y\<bar> \<le> 1 / 2" unfolding py_round_def by (rule round_half_even_bounds)
  have "y = of_int lo \<or> y \<le> x" "y = of_int hi \<or> x \<le> y"
    using assms(2) unfolding y_def np_clip_eq [OF assms(1)] by auto
  then have *: "py_round y = lo \<or> y \<le> x" "py_round y = hi \<or> x \<le> y" by (auto simp: py_round_def)
  show "lo < py_round (np_clip env x (of_int lo) (of_int hi)) \<Longrightarrow>
      of_int (py_round (np_clip env x (of_int lo) (of_int hi))) - 1 / 2 \<le> ub"
    using *(1) r assms(4) unfolding y_def [symmetric] by linarith
  show "py_round (np_clip env x (of_int lo) (of_int hi)) < hi \<Longrightarrow>
      lb \<le> of_int (py_round (np_clip env x (of_int lo) (of_int hi))) + 1 / 2"
    using *(2) r assms(3) unfolding y_def [symmetric] by linarith
qed

text \<open>The torque limits of the car ports that measure the motor torque keep every command within
  \<open>STEER_MAX\<close> and the same rates; and a command that the rate limit does not move further stays within
  \<open>STEER_ERROR_MAX\<close> of the measured torque (or of 0).\<close>

theorem measured_torque_limited:
  fixes motor :: rat and req :: int
  assumes "clip_spec env" "limits_ok l" "\<bar>prev\<bar> \<le> STEER_MAX l"
  defines "t \<equiv> apply_meas_steer_torque_limits env req prev motor l"
  shows "\<bar>t\<bar> \<le> STEER_MAX l \<and> slow_step l prev t \<and>
    (rate_lo l prev < t \<longrightarrow> of_int t - 1 / 2 \<le> max (fl (motor + of_int (STEER_ERROR_MAX l))) (of_int (STEER_ERROR_MAX l))) \<and>
    (t < rate_hi l prev \<longrightarrow> min (fl (motor - of_int (STEER_ERROR_MAX l))) (- of_int (STEER_ERROR_MAX l)) \<le> of_int t + 1 / 2)"
proof -
  let ?e = "of_int (STEER_ERROR_MAX l)" and ?m = "of_int (STEER_MAX l)"
  let ?x = "np_clip env (of_int req) (max (min (fl (motor - ?e)) (- ?e)) (- ?m)) (min (max (fl (motor + ?e)) ?e) ?m)"
  let ?y = "np_clip env ?x (of_int (rate_lo l prev)) (of_int (rate_hi l prev))"
  have ok: "0 \<le> STEER_ERROR_MAX l" "0 \<le> STEER_MAX l" "\<bar>prev\<bar> \<le> 2 ^ 51" "\<bar>STEER_DELTA_UP l\<bar> \<le> 2 ^ 51" "\<bar>STEER_DELTA_DOWN l\<bar> \<le> 2 ^ 51"
    using assms(2,3) by (simp_all add: limits_ok_def)
  have e: "(0 :: rat) \<le> ?e" "(0 :: rat) \<le> ?m" using ok by simp_all
  note x = meas_clip_bounds [OF assms(1) e, where v = "of_int req" and d = motor]
  have sums: "fl (of_int prev - of_int (STEER_DELTA_DOWN l)) = of_int (prev - STEER_DELTA_DOWN l)"
    "fl (of_int prev - of_int (STEER_DELTA_UP l)) = of_int (prev - STEER_DELTA_UP l)"
    "fl (of_int prev + of_int (STEER_DELTA_UP l)) = of_int (prev + STEER_DELTA_UP l)"
    "fl (of_int prev + of_int (STEER_DELTA_DOWN l)) = of_int (prev + STEER_DELTA_DOWN l)"
    using fl_int_small [of prev "- STEER_DELTA_DOWN l"] fl_int_small [of prev "- STEER_DELTA_UP l"]
      fl_int_small [of prev "STEER_DELTA_UP l"] fl_int_small [of prev "STEER_DELTA_DOWN l"] ok by simp_all
  have t: "t = py_round ?y"
    unfolding t_def apply_meas_steer_torque_limits_def apply_dist_to_meas_limits_def Let_def sums
    by (simp add: rate_lo_def rate_hi_def of_int_max of_int_min)
  have m: "of_int (- STEER_MAX l) \<le> ?x" "?x \<le> of_int (STEER_MAX l)" using x(1,2) by simp_all
  note b = rate_clip_bounds [OF assms(1-3) m, folded t]
  note n = near_clip [OF assms(1) rate_facts(1) [OF assms(2,3)] x(4,3), folded t]
  show ?thesis by (intro conjI impI b(1) rate_slow_step [OF assms(2) b(2,3)] n)
qed

section \<open>Fault avoidance\<close>

fun fault_run :: "int \<Rightarrow> int \<Rightarrow> int \<Rightarrow> (bool \<times> bool) list \<Rightarrow> bool list \<times> int" where
  "fault_run mx mm n [] = ([], n)"
| "fault_run mx mm n ((fault, req) # xs) =
    (let (n', r) = common_fault_avoidance fault req n mx mm; (rs, k) = fault_run mx mm n' xs in (r # rs, k))"

lemma fault_step_high: "common_fault_avoidance True True n mx mm =
    (if mx + mm \<le> n + 1 then 0 else n + 1, \<not> mx < n + 1)"
  by (simp add: common_fault_avoidance_def Let_def)

lemma fault_run_append:
  "fault_run mx mm n (xs @ ys) = (let (r, k) = fault_run mx mm n xs; (s, j) = fault_run mx mm k ys in (r @ s, j))"
  by (induction mx mm n xs rule: fault_run.induct) (auto simp: Let_def split: prod.splits)

lemma fault_run_requests:
  "1 \<le> mm \<Longrightarrow> 0 \<le> n \<Longrightarrow> n + int k \<le> mx \<Longrightarrow> fault_run mx mm n (replicate k (True, True)) = (replicate k True, n + int k)"
  by (induction k arbitrary: n) (auto simp: fault_step_high Let_def algebra_simps split: prod.splits)

lemma fault_run_Cons:
  "fault_run mx mm n ((True, True) # xs) =
    (let (rs, k) = fault_run mx mm (if mx + mm \<le> n + 1 then 0 else n + 1) xs in ((\<not> mx < n + 1) # rs, k))"
  by (simp add: fault_step_high Let_def)

lemma fault_run_cut:
  "mx \<le> n \<Longrightarrow> n + int (Suc k) = mx + mm \<Longrightarrow> fault_run mx mm n (replicate (Suc k) (True, True)) = (replicate (Suc k) False, 0)"
proof (induction k arbitrary: n)
  case (Suc k)
  then have "fault_run mx mm (n + 1) (replicate (Suc k) (True, True)) = (replicate (Suc k) False, 0)"
    by (intro Suc.IH) simp_all
  moreover have "replicate (Suc (Suc k)) x = x # replicate (Suc k) x" for x :: 'a by simp
  ultimately show ?case using Suc.prems
    unfolding replicate_Suc [of "Suc k"] fault_run_Cons by simp
qed (simp add: fault_step_high)

text \<open>The request bit is cut before the power steering faults: under a lasting fault condition the bit is high for
  exactly \<open>max_above_limit_frames\<close> frames, low for exactly \<open>max_mismatching_frames\<close>, and the cycle starts again; and
  from any counter value no window of \<open>max_above_limit_frames + 1\<close> such frames passes without a cut, while a frame
  without the condition resets the counter and passes the request through.\<close>

theorem fault_avoidance_cycle:
  assumes "0 \<le> mx" "1 \<le> mm" "0 \<le> n"
  shows "fault_run mx mm 0 (replicate (nat (mx + mm)) (True, True)) = (replicate (nat mx) True @ replicate (nat mm) False, 0) \<and>
    False \<in> set (fst (fault_run mx mm n (replicate (nat mx + 1) (True, True)))) \<and>
    common_fault_avoidance False req n mx mm = (0, req)"
proof (intro conjI)
  obtain k where k: "nat mm = Suc k" using assms(2) by (cases "nat mm") auto
  have "replicate (nat (mx + mm)) (True, True) = replicate (nat mx) (True, True) @ replicate (Suc k) (True, True)"
    using assms k by (simp only: nat_add_distrib flip: replicate_add)
  moreover have "fault_run mx mm 0 (replicate (nat mx) (True, True)) = (replicate (nat mx) True, mx)"
    using fault_run_requests [of mm 0 "nat mx" mx] assms by simp
  moreover have "fault_run mx mm mx (replicate (Suc k) (True, True)) = (replicate (Suc k) False, 0)"
    using assms k by (intro fault_run_cut) auto
  ultimately show "fault_run mx mm 0 (replicate (nat (mx + mm)) (True, True)) = (replicate (nat mx) True @ replicate (nat mm) False, 0)"
    by (simp add: fault_run_append k del: replicate.simps(2))
  have "False \<in> set (fst (fault_run mx mm n (replicate (Suc j) (True, True))))" if "mx \<le> n + int j" "0 \<le> n" for j n
    using that
  proof (induction j arbitrary: n)
    case (Suc j)
    have "False \<in> set (fst (fault_run mx mm (n + 1) (replicate (Suc j) (True, True))))" if "\<not> mx < n + 1"
      using Suc.prems by (intro Suc.IH) simp_all
    moreover have "replicate (Suc (Suc j)) x = x # replicate (Suc j) x" for x :: 'a by simp
    moreover have "\<not> mx + mm \<le> n + 1" if "\<not> mx < n + 1" using that assms(2) by simp
    ultimately show ?case unfolding replicate_Suc [of "Suc j"] fault_run_Cons
      by (cases "mx < n + 1") (simp_all add: Let_def case_prod_beta del: replicate.simps)
  qed (simp add: fault_step_high)
  from this [of n "nat mx"] show "False \<in> set (fst (fault_run mx mm n (replicate (nat mx + 1) (True, True))))"
    using assms by simp
  show "common_fault_avoidance False req n mx mm = (0, req)"
    using assms by (simp add: common_fault_avoidance_def Let_def)
qed

section \<open>Angles and curvatures\<close>

lemma clip_symmetric: "clip_spec env \<Longrightarrow> 0 \<le> m \<Longrightarrow> \<bar>np_clip env x (- m) m\<bar> \<le> m"
  using np_clip_bounds [of env "- m" m x] by (simp add: abs_le_iff)

text \<open>Every steering angle command stays within \<open>STEER_ANGLE_MAX\<close>, also the measured angle that is sent while
  lateral control is inactive and the commands limited by the vehicle model; and while active it moves by at most
  the rate limit for the speed and the direction.\<close>

theorem angle_commands_limited:
  assumes "clip_spec env" "0 \<le> STEER_ANGLE_MAX l" "\<bar>prev\<bar> \<le> STEER_ANGLE_MAX l" "fl prev = prev"
    and "0 \<le> angle_rate_lim env req prev v l"
  shows "\<bar>apply_std_steer_angle_limits env req prev v measured act l\<bar> \<le> STEER_ANGLE_MAX l \<and>
    (act \<longrightarrow> fl (prev - angle_rate_lim env req prev v l) \<le> apply_std_steer_angle_limits env req prev v measured act l \<and>
      apply_std_steer_angle_limits env req prev v measured act l \<le> fl (prev + angle_rate_lim env req prev v l)) \<and>
    (\<forall>x. apply_steer_angle_limits_vm env req prev v measured act l steer_step vm = Inr x \<longrightarrow> \<bar>x\<bar> \<le> STEER_ANGLE_MAX l)"
proof (intro conjI allI impI)
  let ?lim = "angle_rate_lim env req prev v l" and ?M = "STEER_ANGLE_MAX l"
  show "\<bar>apply_std_steer_angle_limits env req prev v measured act l\<bar> \<le> ?M"
    unfolding apply_std_steer_angle_limits_def Let_def by (rule clip_symmetric [OF assms(1,2)])
  have lo: "fl (prev - ?lim) \<le> prev" and hi: "prev \<le> fl (prev + ?lim)"
    using fl_mono [of "prev - ?lim" prev] fl_mono [of prev "prev + ?lim"] assms(4,5) by simp_all
  let ?x = "np_clip env req (fl (prev - ?lim)) (fl (prev + ?lim))"
  have x: "fl (prev - ?lim) \<le> ?x" "?x \<le> fl (prev + ?lim)"
    using lo hi by (intro np_clip_bounds [OF assms(1)]; simp)+
  have M: "fl (prev - ?lim) \<le> ?M" "- ?M \<le> fl (prev + ?lim)" using lo hi assms(3) by linarith+
  assume act
  then have eq: "apply_std_steer_angle_limits env req prev v measured act l = np_clip env ?x (- ?M) ?M"
    by (simp add: apply_std_steer_angle_limits_def Let_def)
  have "- ?M \<le> fl (prev + ?lim)" "fl (prev - ?lim) \<le> ?M" using M by simp_all
  then show "fl (prev - ?lim) \<le> apply_std_steer_angle_limits env req prev v measured act l"
    "apply_std_steer_angle_limits env req prev v measured act l \<le> fl (prev + ?lim)"
    unfolding eq using np_clip_inside [OF assms(1) x] by simp_all
next
  fix x
  assume "apply_steer_angle_limits_vm env req prev v measured act l steer_step vm = Inr x"
  then obtain y where "x = np_clip env y (- STEER_ANGLE_MAX l) (STEER_ANGLE_MAX l)"
    by (auto simp: apply_steer_angle_limits_vm_def ebind_eq_Inr Let_def)
  then show "\<bar>x\<bar> \<le> STEER_ANGLE_MAX l" using clip_symmetric [OF assms(1,2)] by simp
qed

lemma ISO_MAX_LATERAL_ACCEL_bounds: "0 \<le> ISO_MAX_LATERAL_ACCEL" "ISO_MAX_LATERAL_ACCEL \<le> 359 / 100"
  by code_simp+

lemma max_curvature_accel:
  assumes "1 \<le> w"
  shows "0 \<le> fl (ISO_MAX_LATERAL_ACCEL / py_square w)" "fl (ISO_MAX_LATERAL_ACCEL / py_square w) * (w * w) \<le> 18 / 5"
proof -
  define a s W where "a = ISO_MAX_LATERAL_ACCEL" and "s = py_square w" and "W = w * w"
  have W: "1 \<le> W" using assms mult_mono [of 1 w 1 w] by (simp add: W_def)
  have "\<bar>s - W\<bar> \<le> W / 2 ^ 53" using fl_error [of W] W by (simp add: s_def W_def py_square_def)
  then have "W - W / 2 ^ 53 \<le> s" unfolding abs_le_iff by linarith
  then have s: "W * (1 - 1 / 2 ^ 53) \<le> s" by (simp only: right_diff_distrib mult_1_right times_divide_eq_right)
  then have s0: "0 < s" using W by simp
  have a: "0 \<le> a" "a \<le> 359 / 100" using ISO_MAX_LATERAL_ACCEL_bounds by (simp_all add: a_def)
  then have q: "0 \<le> a / s" using s0 by simp
  then show nonneg: "0 \<le> fl (ISO_MAX_LATERAL_ACCEL / py_square w)" by (simp add: a_def s_def)
  define c where "c = fl (a / s)"
  have "\<bar>c - a / s\<bar> \<le> a / s / 2 ^ 53" using fl_error [of "a / s"] unfolding c_def abs_of_nonneg [OF q] .
  then have "c \<le> a / s + a / s / 2 ^ 53" unfolding abs_le_iff by linarith
  then have "c \<le> a / s * (1 + 1 / 2 ^ 53)" by (simp only: distrib_left mult_1_right times_divide_eq_right)
  then have "c * s \<le> a / s * (1 + 1 / 2 ^ 53) * s" using s0 by (intro mult_right_mono) simp_all
  also have "\<dots> = a * (1 + 1 / 2 ^ 53)" using s0 by simp
  finally have cs: "c * s \<le> a * (1 + 1 / 2 ^ 53)" .
  have c: "0 \<le> c" using q by (simp add: c_def)
  then have "c * (W * (1 - 1 / 2 ^ 53)) \<le> c * s" using s by (intro mult_left_mono)
  also note cs
  also have "a * (1 + 1 / 2 ^ 53) \<le> 359 / 100 * (1 + 1 / 2 ^ 53)" using a by (intro mult_right_mono) simp_all
  finally have "c * W * (1 - 1 / 2 ^ 53) \<le> 359 / 100 * (1 + 1 / 2 ^ 53)" by (simp only: mult.assoc)
  then have "c * W \<le> 18 / 5" by (simp add: mult.commute)
  then show "fl (ISO_MAX_LATERAL_ACCEL / py_square w) * (w * w) \<le> 18 / 5" by (simp add: c_def a_def s_def W_def)
qed

text \<open>C25: While lateral control is active a curvature command never asks for more than 3.6 m/s2 of lateral acceleration
  at the current speed (at least 1 m/s), whatever curvature is requested, in spite of the roundings; and no command,
  active or not, exceeds the limit of the car.\<close>

theorem curvature_command_iso_limit:
  assumes "clip_spec env" "0 \<le> CURVATURE_MAX"
  shows "\<bar>apply_std_curvature_limits env req prev v measured override steer_step act CURVATURE_MAX\<bar> \<le> CURVATURE_MAX \<and>
    (act \<longrightarrow> \<bar>apply_std_curvature_limits env req prev v measured override steer_step act CURVATURE_MAX\<bar> * (max v 1 * max v 1) \<le> 18 / 5)"
proof
  show "\<bar>apply_std_curvature_limits env req prev v measured override steer_step act CURVATURE_MAX\<bar> \<le> CURVATURE_MAX"
    unfolding apply_std_curvature_limits_def Let_def split_beta by (rule clip_symmetric [OF assms])
  let ?c = "fl (ISO_MAX_LATERAL_ACCEL / py_square (max v 1))"
  note c = max_curvature_accel [of "max v 1", OF max.cobounded2]
  show "act \<longrightarrow> \<bar>apply_std_curvature_limits env req prev v measured override steer_step act CURVATURE_MAX\<bar> * (max v 1 * max v 1) \<le> 18 / 5"
  proof
    assume act
    then obtain y where eq: "apply_std_curvature_limits env req prev v measured override steer_step act CURVATURE_MAX =
        np_clip env (np_clip env y (- ?c) ?c) (- CURVATURE_MAX) CURVATURE_MAX"
      by (simp add: apply_std_curvature_limits_def get_max_curvature_def Let_def)
    have "- ?c \<le> np_clip env y (- ?c) ?c" "np_clip env y (- ?c) ?c \<le> ?c"
      using np_clip_bounds [OF assms(1), of "- ?c" ?c y] c(1) by simp_all
    from np_clip_inside [OF assms(1) this, of "- CURVATURE_MAX" CURVATURE_MAX]
    have "\<bar>np_clip env (np_clip env y (- ?c) ?c) (- CURVATURE_MAX) CURVATURE_MAX\<bar> \<le> ?c"
      using c(1) assms(2) by (simp add: abs_le_iff)
    then have "\<bar>np_clip env (np_clip env y (- ?c) ?c) (- CURVATURE_MAX) CURVATURE_MAX\<bar> * (max v 1 * max v 1) \<le> ?c * (max v 1 * max v 1)"
      by (intro mult_right_mono) simp_all
    then show "\<bar>apply_std_curvature_limits env req prev v measured override steer_step act CURVATURE_MAX\<bar> * (max v 1 * max v 1) \<le> 18 / 5"
      unfolding eq using c(2) by linarith
  qed
qed

section \<open>Concrete runs\<close>

definition hyundai_limits :: torque_limits where
  "hyundai_limits = \<lparr>STEER_MAX = 270, STEER_DELTA_UP = 2, STEER_DELTA_DOWN = 3, STEER_DRIVER_ALLOWANCE = 250,
     STEER_DRIVER_FACTOR = 1, STEER_DRIVER_MULTIPLIER = 2, STEER_ERROR_MAX = 350\<rparr>"

lemma hyundai_limits_ok: "limits_ok hyundai_limits" "driver_limits_ok hyundai_limits"
  by (simp_all add: limits_ok_def driver_limits_ok_def hyundai_limits_def)

theorem torque_commands_limited_witness:
  "list_all (\<lambda>t. \<bar>t\<bar> \<le> 270) (driver_torques plain_math hyundai_limits 0 [(1000, 0), (- 1000, 100), (500, - 900)])"
  using torque_commands_limited [OF plain_math_clip hyundai_limits_ok(1), of 0 "[(1000, 0), (- 1000, 100), (500, - 900)]"]
  by (simp add: hyundai_limits_def list_all_iff)

theorem opposing_driver_wins_witness:
  "last (driver_torques plain_math hyundai_limits 270 (replicate 90 (270, - 520))) \<le> 0"
  using opposing_driver_wins [OF plain_math_clip hyundai_limits_ok(2), of 270 "replicate 90 (270, - 520)"]
  by (simp add: opposing_def hyundai_limits_def)

theorem measured_torque_limited_witness:
  "\<bar>apply_meas_steer_torque_limits plain_math 1000 100 50 hyundai_limits\<bar> \<le> 270"
  using measured_torque_limited [OF plain_math_clip hyundai_limits_ok(1), of 100 1000 50] by (simp add: hyundai_limits_def)

theorem fault_avoidance_cycle_witness:
  "fault_run 17 2 0 (replicate 19 (True, True)) = (replicate 17 True @ replicate 2 False, 0)"
  using fault_avoidance_cycle [of 17 2 0] by simp

definition small_angles :: angle_limits where
  "small_angles = \<lparr>STEER_ANGLE_MAX = 90, ANGLE_RATE_LIMIT_UP = [(0, 5), (5, 1)], ANGLE_RATE_LIMIT_DOWN = [(0, 5), (5, 2)],
     MAX_LATERAL_ACCEL = 0, MAX_LATERAL_JERK = 0, MAX_ANGLE_RATE = None\<rparr>"

theorem angle_commands_limited_witness:
  "apply_std_steer_angle_limits plain_math 100 88 0 0 True small_angles \<le> 90 \<and>
    \<bar>apply_std_steer_angle_limits plain_math 100 88 0 120 False small_angles\<bar> \<le> 90"
proof -
  have lim: "0 \<le> angle_rate_lim plain_math 100 88 0 small_angles"
    by (simp add: angle_rate_lim_def small_angles_def plain_math_def Let_def)
  have ok: "0 \<le> STEER_ANGLE_MAX small_angles" "\<bar>88\<bar> \<le> STEER_ANGLE_MAX small_angles" "fl 88 = 88"
    using fl_of_int [of 88] by (simp_all add: small_angles_def)
  note a = angle_commands_limited [OF plain_math_clip ok lim]
  show ?thesis using a [of 0 True] a [of 120 False] by (simp add: small_angles_def abs_le_iff)
qed

theorem curvature_command_iso_limit_witness:
  "\<bar>apply_std_curvature_limits plain_math 1 0 30 0 False 2 True (1 / 5)\<bar> * (30 * 30) \<le> 18 / 5"
  using curvature_command_iso_limit [OF plain_math_clip, of "1 / 5" 1 0 30 0 False 2 True] by simp

end
