(* ===== verification/LongControl.thy ===== *)
theory LongControl
  imports PyNumpy
begin

text \<open>
  Longitudinal control: \<^verbatim>\<open>selfdrive/controls/lib/longcontrol.py\<close> with the PID controller of \<^verbatim>\<open>common/pid.py\<close>. The
  gain tables of the controller are lists of pairs for \<^verbatim>\<open>np.interp\<close>; a plain number \<open>k\<close> as a gain is the table
  \<open>[(0, k)]\<close>, as in the code.
\<close>

section \<open>The PID controller\<close>

record pid =
  tab_p :: "(rat \<times> rat) list"
  tab_i :: "(rat \<times> rat) list"
  tab_d :: "(rat \<times> rat) list"
  pos_limit :: rat
  neg_limit :: rat
  i_dt :: rat
  pid_speed :: rat
  pid_p :: rat
  pid_i :: rat
  pid_d :: rat
  pid_f :: rat
  pid_control :: rat

definition pid_reset :: "pid \<Rightarrow> pid" where
  "pid_reset c = c\<lparr>pid_p := 0, pid_i := 0, pid_d := 0, pid_f := 0, pid_control := 0\<rparr>"

definition set_limits :: "rat \<Rightarrow> rat \<Rightarrow> pid \<Rightarrow> pid" where
  "set_limits pos neg c = c\<lparr>pos_limit := pos, neg_limit := neg\<rparr>"

definition PIDController_init ::
    "(rat \<times> rat) list \<Rightarrow> (rat \<times> rat) list \<Rightarrow> (rat \<times> rat) list \<Rightarrow> rat \<Rightarrow> rat \<Rightarrow> rat \<Rightarrow> pid" where
  "PIDController_init kp ki kd pos neg rate =
    pid_reset (set_limits pos neg
      \<lparr>tab_p = kp, tab_i = ki, tab_d = kd, pos_limit = 0, neg_limit = 0, i_dt = fl (1 / rate), pid_speed = 0,
       pid_p = 0, pid_i = 0, pid_d = 0, pid_f = 0, pid_control = 0\<rparr>)"

definition k_p :: "math_env \<Rightarrow> pid \<Rightarrow> rat" where "k_p env c = np_interp env (pid_speed c) (tab_p c)"
definition k_i :: "math_env \<Rightarrow> pid \<Rightarrow> rat" where "k_i env c = np_interp env (pid_speed c) (tab_i c)"
definition k_d :: "math_env \<Rightarrow> pid \<Rightarrow> rat" where "k_d env c = np_interp env (pid_speed c) (tab_d c)"

definition pid_sum :: "rat \<Rightarrow> rat \<Rightarrow> rat \<Rightarrow> rat \<Rightarrow> rat" where
  "pid_sum p i d f = fl (fl (fl (p + i) + d) + f)"

definition pid_update :: "math_env \<Rightarrow> rat \<Rightarrow> rat \<Rightarrow> rat \<Rightarrow> rat \<Rightarrow> bool \<Rightarrow> pid \<Rightarrow> pid" where
  "pid_update env err error_rate speed feedforward freeze_integrator c =
    (let c = c\<lparr>pid_speed := speed\<rparr>;
         c = c\<lparr>pid_p := fl (k_p env c * err), pid_d := fl (k_d env c * error_rate), pid_f := feedforward\<rparr>;
         c = (if \<not> freeze_integrator
              then let i = fl (pid_i c + fl (fl (k_i env c * i_dt c) * err));
                       test_control = pid_sum (pid_p c) i (pid_d c) (pid_f c);
                       i_upperbound = (if pos_limit c < test_control then pid_i c else pos_limit c);
                       i_lowerbound = (if test_control < neg_limit c then pid_i c else neg_limit c)
                   in c\<lparr>pid_i := np_clip env i i_lowerbound i_upperbound\<rparr>
              else c)
     in c\<lparr>pid_control := np_clip env (pid_sum (pid_p c) (pid_i c) (pid_d c) (pid_f c)) (neg_limit c) (pos_limit c)\<rparr>)"

section \<open>The state machine\<close>

datatype LongCtrlState = LongCtrlState_off | LongCtrlState_pid | LongCtrlState_stopping | LongCtrlState_starting

record long_params =
  kpTable :: "(rat \<times> rat) list"
  kiTable :: "(rat \<times> rat) list"
  vEgoStarting :: rat
  startingState :: bool
  stopAccel :: rat
  startAccel :: rat
  stoppingDecelRate :: rat
  enableGasInterceptor :: bool

definition starting_condition :: "long_params \<Rightarrow> bool \<Rightarrow> bool \<Rightarrow> bool \<Rightarrow> bool" where
  "starting_condition cp should_stop brake_pressed cruise_standstill \<longleftrightarrow>
     \<not> should_stop \<and> \<not> (cruise_standstill \<and> \<not> enableGasInterceptor cp) \<and> \<not> brake_pressed"

definition long_control_state_trans ::
    "long_params \<Rightarrow> bool \<Rightarrow> LongCtrlState \<Rightarrow> rat \<Rightarrow> bool \<Rightarrow> bool \<Rightarrow> bool \<Rightarrow> LongCtrlState" where
  "long_control_state_trans cp active st v_ego should_stop brake_pressed cruise_standstill =
    (let stopping_condition = should_stop;
         start = starting_condition cp should_stop brake_pressed cruise_standstill;
         started_condition = vEgoStarting cp < v_ego
     in if \<not> active then LongCtrlState_off
        else case st of
          LongCtrlState_off \<Rightarrow>
            (if \<not> start then LongCtrlState_stopping
             else if start \<and> startingState cp then LongCtrlState_starting else LongCtrlState_pid)
        | LongCtrlState_stopping \<Rightarrow>
            (if start \<and> startingState cp then LongCtrlState_starting
             else if start then LongCtrlState_pid else LongCtrlState_stopping)
        | _ \<Rightarrow> (if stopping_condition then LongCtrlState_stopping
                else if started_condition then LongCtrlState_pid else st))"

section \<open>LongControl\<close>

record long_control =
  long_params :: long_params
  long_control_state :: LongCtrlState
  long_pid :: pid
  last_output_accel :: rat

definition LONG_DT :: rat where "LONG_DT = fl (1 / 100)"

definition LongControl_init :: "long_params \<Rightarrow> long_control" where
  "LongControl_init cp =
    \<lparr>long_params = cp, long_control_state = LongCtrlState_off,
     long_pid = PIDController_init (kpTable cp) (kiTable cp) [(0, 0)] (10 ^ 308) (- (10 ^ 308)) (fl (1 / LONG_DT)),
     last_output_accel = 0\<rparr>"

record long_car =
  lc_vEgo :: rat
  lc_aEgo :: rat
  lc_brakePressed :: bool
  lc_standstill :: bool

definition long_reset :: "long_control \<Rightarrow> long_control" where
  "long_reset c = c\<lparr>long_pid := pid_reset (long_pid c)\<rparr>"

definition stopping_output :: "long_params \<Rightarrow> rat \<Rightarrow> rat" where
  "stopping_output cp output_accel =
    (if stopAccel cp < output_accel then fl (min output_accel 0 - fl (stoppingDecelRate cp * LONG_DT)) else output_accel)"

definition LongControl_update ::
    "math_env \<Rightarrow> bool \<Rightarrow> long_car \<Rightarrow> rat \<Rightarrow> bool \<Rightarrow> rat \<times> rat \<Rightarrow> long_control \<Rightarrow> rat \<times> long_control" where
  "LongControl_update env active cs a_target should_stop accel_limits c =
    (let (lo, hi) = accel_limits; cp = long_params c;
         st = long_control_state_trans cp active (long_control_state c) (lc_vEgo cs) should_stop (lc_brakePressed cs) (lc_standstill cs);
         c = c\<lparr>long_pid := set_limits hi lo (long_pid c), long_control_state := st\<rparr>;
         (output_accel, c) =
           (case st of
              LongCtrlState_off \<Rightarrow> (0, long_reset c)
            | LongCtrlState_stopping \<Rightarrow> (stopping_output cp (last_output_accel c), long_reset c)
            | LongCtrlState_starting \<Rightarrow> (startAccel cp, long_reset c)
            | LongCtrlState_pid \<Rightarrow>
                (let p = pid_update env (fl (a_target - lc_aEgo cs)) 0 (lc_vEgo cs) a_target False (long_pid c)
                 in (pid_control p, c\<lparr>long_pid := p\<rparr>)));
         out = np_clip env output_accel lo hi
     in (out, c\<lparr>last_output_accel := out\<rparr>))"

end
