(* ===== verification/LongControlCorrect.thy ===== *)
theory LongControlCorrect
  imports LongControl
begin

text \<open>
  Longitudinal control stays within the acceleration limits of each update, does not wind up its integrator beyond them,
  obeys a stop request at once and then brakes to \<open>stopAccel\<close>.
\<close>

section \<open>The state machine\<close>

text \<open>The state of longitudinal control follows the request: it is off exactly while inactive; a stop request
  leads to stopping at once from every state; and stopping or off is left for starting or pid only without stop
  request, with the brake released and the car not held at standstill (unless it has a gas interceptor), to starting
  exactly when the car has a starting state.\<close>

theorem long_state_follows_request:
  fixes cp :: long_params
  defines "next \<equiv> \<lambda>active st v stop brake standstill. long_control_state_trans cp active st v stop brake standstill"
  shows "(next active st v stop brake standstill = LongCtrlState_off) = (\<not> active) \<and>
    next True st v True brake standstill = LongCtrlState_stopping \<and>
    (st \<in> {LongCtrlState_off, LongCtrlState_stopping} \<and>
       next active st v stop brake standstill \<in> {LongCtrlState_starting, LongCtrlState_pid}) =
    (st \<in> {LongCtrlState_off, LongCtrlState_stopping} \<and> active \<and> \<not> stop \<and> \<not> brake \<and> (standstill \<longrightarrow> enableGasInterceptor cp)) \<and>
    (next True LongCtrlState_stopping v stop brake standstill = LongCtrlState_starting \<longrightarrow> startingState cp)"
  by (cases st) (auto simp: next_def long_control_state_trans_def starting_condition_def Let_def)

section \<open>The controller\<close>

lemma pid_update_i:
  "\<exists>test i. pid_i (pid_update env e r v f False c) =
    np_clip env i (if test < neg_limit c then pid_i c else neg_limit c) (if pos_limit c < test then pid_i c else pos_limit c)"
  unfolding pid_update_def Let_def by simp blast

lemma pid_update_clips:
  "\<exists>x. pid_control (pid_update env e r v f b c) = np_clip env x (neg_limit c) (pos_limit c)"
  unfolding pid_update_def Let_def by (cases b) (simp_all, blast+)

lemma pid_update_limits [simp]:
  "pos_limit (pid_update env e r v f b c) = pos_limit c" "neg_limit (pid_update env e r v f b c) = neg_limit c"
  by (simp_all add: pid_update_def Let_def)

lemma pid_update_control:
  assumes "clip_spec env" "neg_limit c \<le> pos_limit c"
  shows "neg_limit c \<le> pid_control (pid_update env e r v f b c)" "pid_control (pid_update env e r v f b c) \<le> pos_limit c"
  using pid_update_clips [of env e r v f b c] np_clip_bounds [OF assms] by auto

text \<open>The integrator moves into the limits or, if it stands beyond them, not farther out.\<close>

lemma pid_update_integrator:
  assumes "clip_spec env" "neg_limit c \<le> pos_limit c"
  shows "min (neg_limit c) (pid_i c) \<le> pid_i (pid_update env e r v f False c)"
    "pid_i (pid_update env e r v f False c) \<le> max (pos_limit c) (pid_i c)"
proof -
  obtain test i where i: "pid_i (pid_update env e r v f False c) =
      np_clip env i (if test < neg_limit c then pid_i c else neg_limit c) (if pos_limit c < test then pid_i c else pos_limit c)"
    using pid_update_i by blast
  show "min (neg_limit c) (pid_i c) \<le> pid_i (pid_update env e r v f False c)"
    "pid_i (pid_update env e r v f False c) \<le> max (pos_limit c) (pid_i c)"
    unfolding i np_clip_eq [OF assms(1)] using assms(2) by (auto simp: min_def max_def)
qed

section \<open>Runs with limits that change\<close>

text \<open>An update has its own acceleration limits, the lower and the upper one.\<close>

type_synonym long_input = "bool \<times> long_car \<times> rat \<times> bool \<times> rat \<times> rat"

definition long_step :: "math_env \<Rightarrow> long_input \<Rightarrow> long_control \<Rightarrow> long_control" where
  "long_step env i c = (case i of (active, cs, a, stop, lims) \<Rightarrow> snd (LongControl_update env active cs a stop lims c))"

definition long_run :: "math_env \<Rightarrow> long_input list \<Rightarrow> long_params \<Rightarrow> long_control" where
  "long_run env is cp = fold (long_step env) is (LongControl_init cp)"

abbreviation integrator :: "long_control \<Rightarrow> rat" where
  "integrator c \<equiv> pid_i (long_pid c)"

lemma long_step_bounds:
  fixes cs :: long_car and c :: long_control and active stop :: bool and a :: rat
  assumes "clip_spec env" "lo \<le> hi"
  defines "c' \<equiv> long_step env (active, cs, a, stop, lo, hi) c"
  shows "lo \<le> last_output_accel c' \<and> last_output_accel c' \<le> hi"
    "integrator c' = 0 \<or> min lo (integrator c) \<le> integrator c' \<and> integrator c' \<le> max hi (integrator c)"
proof -
  let ?st = "long_control_state_trans (long_params c) active (long_control_state c) (lc_vEgo cs) stop (lc_brakePressed cs) (lc_standstill cs)"
  let ?p = "set_limits hi lo (long_pid c)"
  have clip: "lo \<le> np_clip env x lo hi" "np_clip env x lo hi \<le> hi" for x
    using np_clip_bounds [OF assms(1,2)] by simp_all
  then show "lo \<le> last_output_accel c' \<and> last_output_accel c' \<le> hi"
    by (cases ?st) (simp_all add: c'_def long_step_def LongControl_update_def Let_def long_reset_def)
  have "min lo (integrator c) \<le> pid_i (pid_update env e 0 v f False ?p) \<and>
      pid_i (pid_update env e 0 v f False ?p) \<le> max hi (integrator c)" for e v f
    using pid_update_integrator [OF assms(1), of ?p e 0 v f] assms(2) by (simp add: set_limits_def)
  then show "integrator c' = 0 \<or> min lo (integrator c) \<le> integrator c' \<and> integrator c' \<le> max hi (integrator c)"
    by (cases ?st) (simp_all add: c'_def long_step_def LongControl_update_def Let_def long_reset_def pid_reset_def)
qed

lemma long_run_simps:
  "long_run env [] cp = LongControl_init cp"
  "long_run env (is @ [i]) cp = long_step env i (long_run env is cp)"
  by (simp_all add: long_run_def)

definition limits_ordered :: "long_input list \<Rightarrow> bool" where
  "limits_ordered is \<longleftrightarrow> (\<forall>(_, _, _, _, lo, hi)\<in>set is. lo \<le> hi)"

definition limits_within :: "rat \<Rightarrow> rat \<Rightarrow> long_input list \<Rightarrow> bool" where
  "limits_within L H is \<longleftrightarrow> (\<forall>(_, _, _, _, lo, hi)\<in>set is. L \<le> lo \<and> hi \<le> H)"

lemma long_run_within:
  assumes "clip_spec env" "L \<le> 0" "0 \<le> H" "limits_ordered is" "limits_within L H is"
  shows "L \<le> integrator (long_run env is cp) \<and> integrator (long_run env is cp) \<le> H"
  using assms(4,5)
proof (induction "is" rule: rev_induct)
  case Nil
  then show ?case
    using assms(2,3) by (simp add: long_run_simps LongControl_init_def PIDController_init_def pid_reset_def set_limits_def)
next
  case (snoc i js)
  obtain active cs a stop lo hi where i: "i = (active, cs, a, stop, lo, hi)" by (cases i)
  have "L \<le> integrator (long_run env js cp) \<and> integrator (long_run env js cp) \<le> H"
    using snoc by (simp add: limits_ordered_def limits_within_def)
  moreover have "lo \<le> hi" "L \<le> lo" "hi \<le> H" using snoc.prems by (simp_all add: limits_ordered_def limits_within_def i)
  ultimately show ?case
    using long_step_bounds(2) [OF assms(1), of lo hi active cs a stop "long_run env js cp"] assms(2,3)
    by (auto simp: long_run_simps i min_le_iff_disj le_max_iff_disj)
qed

text \<open>C35: In every run of longitudinal control with limits that may be others in every update, whatever the targets, stop
  requests, brakings, engagements and gain tables: the output of each update lies within the limits of that update; the
  integrator is reset or moves into the limits of the update or, if it stands beyond them because they have changed, not
  farther out; and it never leaves limits, from a lower one up to 0 to an upper one from 0, that enclose those of all updates.\<close>

theorem long_output_bounded:
  assumes "clip_spec env" "limits_ordered (is @ [(active, cs, a, stop, lo, hi)])"
  shows "(let c = long_run env is cp; c' = long_run env (is @ [(active, cs, a, stop, lo, hi)]) cp in
    lo \<le> last_output_accel c' \<and> last_output_accel c' \<le> hi \<and>
    (integrator c' = 0 \<or> min lo (integrator c) \<le> integrator c' \<and> integrator c' \<le> max hi (integrator c)) \<and>
    (\<forall>L H. L \<le> 0 \<and> 0 \<le> H \<and> limits_within L H (is @ [(active, cs, a, stop, lo, hi)]) \<longrightarrow>
       L \<le> integrator c' \<and> integrator c' \<le> H))"
proof -
  have "lo \<le> hi" using assms(2) by (simp add: limits_ordered_def)
  then show ?thesis
    using long_step_bounds [OF assms(1), of lo hi active cs a stop "long_run env is cp"] long_run_within [OF assms(1) _ _ assms(2)]
    unfolding Let_def long_run_simps(2) by blast
qed

section \<open>Braking to a stop\<close>

lemma stopping_output_falls:
  assumes "0 \<le> d" "d = fl (stoppingDecelRate cp * LONG_DT)" "- 100 \<le> stopAccel cp" "d \<le> 100" "1 / 10 ^ 9 \<le> d" "stopAccel cp < a"
  shows "stopping_output cp a \<le> min a 0 - d / 2"
proof -
  let ?x = "min a 0 - d"
  have err: "\<bar>fl ?x - ?x\<bar> \<le> \<bar>?x\<bar> / 2 ^ 53" by (rule fl_error)
  have "\<bar>?x\<bar> \<le> 200" using assms by (auto simp: min_def)
  then have "\<bar>?x\<bar> / 2 ^ 53 \<le> 200 / 2 ^ 53" by (intro divide_right_mono) simp_all
  with err have "fl ?x \<le> ?x + 200 / 2 ^ 53" unfolding abs_le_iff by linarith
  then have "fl ?x \<le> min a 0 - d / 2" using assms(5) by simp
  then show ?thesis using assms(2,6) by (simp add: stopping_output_def)
qed

lemma stopping_step:
  fixes a :: rat and cs :: long_car
  assumes "clip_spec env" "lo \<le> hi" "lo \<le> stopAccel (long_params c)"
  defines "c' \<equiv> snd (LongControl_update env True cs a True (lo, hi) c)"
  shows "long_params c' = long_params c"
    "last_output_accel c' \<le> max (stopAccel (long_params c)) (stopping_output (long_params c) (last_output_accel c))"
proof -
  have st: "long_control_state_trans (long_params c) True (long_control_state c) (lc_vEgo cs) True (lc_brakePressed cs) (lc_standstill cs)
      = LongCtrlState_stopping"
    by (cases "long_control_state c") (simp_all add: long_control_state_trans_def starting_condition_def Let_def)
  show "long_params c' = long_params c"
    "last_output_accel c' \<le> max (stopAccel (long_params c)) (stopping_output (long_params c) (last_output_accel c))"
    using assms(2,3) by (simp_all add: c'_def LongControl_update_def st Let_def np_clip_eq [OF assms(1)] long_reset_def)
qed

text \<open>A stop request brakes the car to a standstill: while it lasts, whatever the limits of each update and the
  speed, the output falls below 0 in the first update and then by at least half of \<open>stoppingDecelRate\<close> per second
  until it is at most \<open>stopAccel\<close>, as long as the limits allow \<open>stopAccel\<close>; so enough updates always reach it.\<close>

theorem stop_request_brakes:
  assumes "clip_spec env" "- 100 \<le> stopAccel (long_params c)"
    and "d = fl (stoppingDecelRate (long_params c) * LONG_DT)" "1 / 10 ^ 9 \<le> d" "d \<le> 100"
    and "list_all (\<lambda>(cs, a, lo, hi). lo \<le> hi \<and> lo \<le> stopAccel (long_params c)) xs" "xs \<noteq> []"
  shows "last_output_accel (fold (\<lambda>(cs, a, lims) c. snd (LongControl_update env True cs a True lims c)) xs c)
    \<le> max (stopAccel (long_params c)) (- (of_nat (length xs) * (d / 2)))"
  using assms(2,3,6,7)
proof (induction xs rule: rev_induct)
  case (snoc i xs)
  let ?f = "\<lambda>(cs, a, lims) c. snd (LongControl_update env True cs a True lims c)"
  obtain cs a lo hi where i: "i = (cs, a, lo, hi)" by (cases i)
  have p: "long_params (fold ?f js c) = long_params c" if "list_all (\<lambda>(cs, a, lo, hi). lo \<le> hi \<and> lo \<le> stopAccel (long_params c)) js" for js
    using that by (induction js rule: rev_induct) (auto simp: stopping_step(1) [OF assms(1)])
  let ?c = "fold ?f xs c" and ?cp = "long_params c"
  have pc: "long_params ?c = ?cp" using p snoc.prems(3) by simp
  have lim: "lo \<le> hi" "lo \<le> stopAccel (long_params ?c)" using snoc.prems(3) pc by (simp_all add: i)
  have step: "last_output_accel (fold ?f (xs @ [i]) c) \<le> max (stopAccel ?cp) (stopping_output ?cp (last_output_accel ?c))"
    using stopping_step(2) [OF assms(1) lim, of cs a] by (simp add: i pc)
  have fall: "stopping_output ?cp (last_output_accel ?c) \<le> max (stopAccel ?cp) (min (last_output_accel ?c) 0 - d / 2)"
  proof (cases "stopAccel ?cp < last_output_accel ?c")
    case True
    have "0 \<le> d" using assms(4) by simp
    from stopping_output_falls [OF this assms(3) assms(2,5,4) True] show ?thesis by simp
  qed (simp add: stopping_output_def)
  have "min (last_output_accel ?c) 0 \<le> max (stopAccel ?cp) (- (of_nat (length xs) * (d / 2)))"
  proof (cases "xs = []")
    case False
    then have "last_output_accel ?c \<le> max (stopAccel ?cp) (- (of_nat (length xs) * (d / 2)))"
      using snoc.IH snoc.prems by simp
    then show ?thesis by simp
  qed simp
  moreover have "of_nat (length (xs @ [i])) * (d / 2) = of_nat (length xs) * (d / 2) + d / 2"
    by (simp add: algebra_simps)
  moreover have "0 \<le> d / 2" using assms(4) by simp
  ultimately show ?case using step fall by linarith
qed simp

section \<open>Concrete runs\<close>

definition plain_long :: long_params where
  "plain_long = \<lparr>kpTable = [(0, 1)], kiTable = [(0, 1)], vEgoStarting = 1 / 2, startingState = True, stopAccel = - 2,
     startAccel = 1, stoppingDecelRate = 1, enableGasInterceptor = False\<rparr>"

definition creeping :: long_car where
  "creeping = \<lparr>lc_vEgo = 1, lc_aEgo = 0, lc_brakePressed = False, lc_standstill = False\<rparr>"

text \<open>Five seconds of hard acceleration with an upper limit of 2 \<^verbatim>\<open>m/s^2\<close>, then the limit falls to 1.\<close>

theorem long_output_bounded_witness:
  "last_output_accel (long_run plain_math (replicate 500 (True, creeping, 9, False, - 3, 2) @ [(True, creeping, 9, False, - 3, 1)]) plain_long) \<le> 1 \<and>
   integrator (long_run plain_math (replicate 500 (True, creeping, 9, False, - 3, 2) @ [(True, creeping, 9, False, - 3, 1)]) plain_long) \<le> 2"
proof -
  let ?fs = "replicate 500 (True, creeping, 9, False, - 3, 2) :: long_input list"
  let ?i = "(True, creeping, 9, False, - 3, 1) :: long_input"
  have fs: "set ?fs = {(True, creeping, 9, False, - 3, 2)}" by (simp only: set_replicate_conv_if) simp
  have lims: "limits_ordered (?fs @ [?i])" "limits_within (- 3) 2 (?fs @ [?i])"
    unfolding limits_ordered_def limits_within_def set_append fs by simp_all
  note all = long_output_bounded [OF plain_math_clip lims(1), of plain_long, unfolded Let_def]
  have "(- 3 :: rat) \<le> 0 \<and> (0 :: rat) \<le> 2 \<and> limits_within (- 3) 2 (?fs @ [?i])" using lims(2) by simp
  with all show ?thesis by blast
qed

theorem stop_request_brakes_witness:
  "last_output_accel (fold (\<lambda>(cs, a, lims) c. snd (LongControl_update plain_math True cs a True lims c))
     (replicate 1000 (creeping, 1, - 3, 2)) (LongControl_init plain_long)) \<le> - 2"
proof -
  define d where "d = fl (stoppingDecelRate plain_long * LONG_DT)"
  have d: "1 / 250 \<le> d" "d \<le> 100" unfolding d_def by code_simp+
  have cp: "long_params (LongControl_init plain_long) = plain_long" by (simp add: LongControl_init_def)
  have "last_output_accel (fold (\<lambda>(cs, a, lims) c. snd (LongControl_update plain_math True cs a True lims c))
      (replicate 1000 (creeping, 1, - 3, 2)) (LongControl_init plain_long))
    \<le> max (stopAccel plain_long) (- (1000 * (d / 2)))"
    using d stop_request_brakes [OF plain_math_clip, where c = "LongControl_init plain_long" and d = d and xs = "replicate 1000 (creeping, 1, - 3, 2)"]
    unfolding cp by (simp add: d_def list_all_iff plain_long_def)
  also have "\<dots> \<le> - 2" using d by (simp add: plain_long_def)
  finally show ?thesis .
qed

theorem long_state_follows_request_witness:
  "long_control_state_trans plain_long True LongCtrlState_pid 1 True False False = LongCtrlState_stopping \<and>
    long_control_state_trans plain_long True LongCtrlState_stopping 0 False True False = LongCtrlState_stopping"
  using long_state_follows_request [of plain_long True LongCtrlState_pid 1 True False False]
    long_state_follows_request [of plain_long True LongCtrlState_stopping 0 False True False]
  by (cases "long_control_state_trans plain_long True LongCtrlState_stopping 0 False True False") simp_all

end
