(* ===== verification/VCruise.thy ===== *)
theory VCruise
  imports LaneChange PyNumpy
begin

text \<open>
  The set speed: \<^verbatim>\<open>VCruiseHelper\<close> of \<^verbatim>\<open>selfdrive/car/cruise.py\<close> with its base class \<^verbatim>\<open>VCruiseHelperIQ\<close> of
  \<^verbatim>\<open>iqpilot/selfdrive/car/cruise_ext.py\<close>, and the calls that \<^verbatim>\<open>Car.state_update\<close> of \<^verbatim>\<open>selfdrive/car/card.py\<close> makes
  of it. Speeds are in km/h. After a clip the set speed is a float of numpy and \<^verbatim>\<open>round(v, 1)\<close> is numpy's; before the
  first clip it is Python's. The function of the current frame is the argument \<open>round1\<close>, beside \<^verbatim>\<open>np.clip\<close> in the
  record \<open>cruise_env\<close>, and a run may have another record in every frame. The dictionaries of button timers have fixed
  keys and are functions that are only read at these keys.
\<close>

record cruise_env =
  cruise_math :: math_env
  round1 :: "rat \<Rightarrow> rat"

section \<open>Constants\<close>

definition MPH_TO_KPH :: rat where "MPH_TO_KPH = fl (1609344 / 1000000)"
definition MS_TO_KPH :: rat where "MS_TO_KPH = fl (36 / 10)"
definition KPH_TO_MPH :: rat where "KPH_TO_MPH = fl (1 / MPH_TO_KPH)"
definition MS_TO_MPH :: rat where "MS_TO_MPH = fl (MS_TO_KPH * KPH_TO_MPH)"

definition V_CRUISE_MIN :: rat where "V_CRUISE_MIN = 8"
definition V_CRUISE_MAX :: rat where "V_CRUISE_MAX = 200"
definition V_CRUISE_UNSET :: rat where "V_CRUISE_UNSET = 255"
definition V_CRUISE_INITIAL :: rat where "V_CRUISE_INITIAL = 40"
definition V_CRUISE_INITIAL_EXPERIMENTAL_MODE :: rat where "V_CRUISE_INITIAL_EXPERIMENTAL_MODE = 105"
definition IMPERIAL_INCREMENT :: rat where "IMPERIAL_INCREMENT = py_round_digits MPH_TO_KPH 1"

datatype ButtonEventType =
    Button_unknown | Button_leftBlinker | Button_rightBlinker | Button_accelCruise | Button_decelCruise | Button_cancel
  | Button_lkas | Button_altButton2 | Button_mainCruise | Button_setCruise | Button_resumeCruise | Button_gapAdjustCruise

definition CRUISE_LONG_PRESS :: int where "CRUISE_LONG_PRESS = 50"

fun CRUISE_NEAREST_FUNC :: "ButtonEventType \<Rightarrow> rat \<Rightarrow> int" where
  "CRUISE_NEAREST_FUNC Button_accelCruise x = \<lceil>x\<rceil>"
| "CRUISE_NEAREST_FUNC _ x = \<lfloor>x\<rfloor>"

fun CRUISE_INTERVAL_SIGN :: "ButtonEventType \<Rightarrow> rat" where
  "CRUISE_INTERVAL_SIGN Button_accelCruise = 1"
| "CRUISE_INTERVAL_SIGN _ = - 1"

text \<open>The keys of \<open>button_timers\<close> and of \<open>CRUISE_BUTTON_TIMER\<close>, in the order of the dictionaries.\<close>

definition cruise_buttons :: "ButtonEventType list" where
  "cruise_buttons = [Button_decelCruise, Button_accelCruise]"

definition enable_buttons :: "ButtonEventType list" where
  "enable_buttons = [Button_decelCruise, Button_accelCruise, Button_setCruise, Button_resumeCruise, Button_cancel, Button_mainCruise]"

text \<open>The remainder of two floats, which takes the sign of the divisor.\<close>

definition py_fmod :: "rat \<Rightarrow> rat \<Rightarrow> rat" where
  "py_fmod x y = fl (x - y * of_int \<lfloor>x / y\<rfloor>)"

section \<open>State and input\<close>

datatype AssistState =
    Assist_disabled | Assist_inactive | Assist_preActive | Assist_pending | Assist_adapting | Assist_active

record cruise_config =
  pcmCruise :: bool
  pcmCruiseSpeed :: bool

record v_cruise =
  v_cruise_kph :: rat
  v_cruise_cluster_kph :: rat
  v_cruise_kph_last :: rat
  button_timers :: "ButtonEventType \<Rightarrow> int"
  button_change_states :: "ButtonEventType \<Rightarrow> bool \<times> bool"
  v_cruise_min :: rat
  enabled_prev :: bool
  custom_acc_enabled :: bool
  short_increment :: int
  long_increment :: int
  enable_button_timers :: "ButtonEventType \<Rightarrow> int"
  speed_limit_state :: AssistState
  prev_speed_limit_state :: AssistState
  has_speed_limit :: bool
  speed_limit_final_last :: rat
  speed_limit_final_last_kph :: rat
  prev_speed_limit_final_last_kph :: rat
  req_plus :: bool
  req_minus :: bool

record cruise_params =
  CustomAccIncrementsEnabled :: bool
  CustomAccShortPressIncrement :: int
  CustomAccLongPressIncrement :: int

record cruise_car =
  cc_vEgo :: rat
  cc_gasPressed :: bool
  cc_available :: bool
  cc_standstill :: bool
  cc_speed :: rat
  cc_speedCluster :: rat
  cc_buttonEvents :: "(ButtonEventType \<times> bool) list"

definition read_custom_set_speed_params :: "cruise_params \<Rightarrow> v_cruise \<Rightarrow> v_cruise" where
  "read_custom_set_speed_params p v =
    v\<lparr>custom_acc_enabled := CustomAccIncrementsEnabled p, short_increment := CustomAccShortPressIncrement p,
      long_increment := CustomAccLongPressIncrement p\<rparr>"

definition VCruiseHelper_init :: "cruise_params \<Rightarrow> v_cruise" where
  "VCruiseHelper_init p =
    \<lparr>v_cruise_kph = V_CRUISE_UNSET, v_cruise_cluster_kph = V_CRUISE_UNSET, v_cruise_kph_last = 0,
     button_timers = (\<lambda>_. 0), button_change_states = (\<lambda>_. (False, False)), v_cruise_min = 0, enabled_prev = False,
     custom_acc_enabled = CustomAccIncrementsEnabled p, short_increment = CustomAccShortPressIncrement p,
     long_increment = CustomAccLongPressIncrement p, enable_button_timers = (\<lambda>_. 0),
     speed_limit_state = Assist_disabled, prev_speed_limit_state = Assist_disabled, has_speed_limit = False,
     speed_limit_final_last = 0, speed_limit_final_last_kph = 0, prev_speed_limit_final_last_kph = 0,
     req_plus = False, req_minus = False\<rparr>"

definition v_cruise_initialized :: "v_cruise \<Rightarrow> bool" where
  "v_cruise_initialized v \<longleftrightarrow> v_cruise_kph v \<noteq> V_CRUISE_UNSET"

section \<open>Buttons\<close>

text \<open>Timers run while a button is held and are set by the events of this frame, in order.\<close>

definition run_timers :: "ButtonEventType list \<Rightarrow> (ButtonEventType \<times> bool) list \<Rightarrow> (ButtonEventType \<Rightarrow> int) \<Rightarrow> ButtonEventType \<Rightarrow> int" where
  "run_timers keys evs t =
    fold (\<lambda>(b, pressed) t. if b \<in> set keys then t(b := (if pressed then 1 else 0)) else t) evs
      (\<lambda>k. if k \<in> set keys \<and> 0 < t k then t k + 1 else t k)"

definition update_manual_button_timers :: "cruise_car \<Rightarrow> (ButtonEventType \<Rightarrow> int) \<Rightarrow> ButtonEventType \<Rightarrow> int" where
  "update_manual_button_timers cs t = run_timers enable_buttons (cc_buttonEvents cs) t"

definition update_button_timers :: "cruise_car \<Rightarrow> bool \<Rightarrow> v_cruise \<Rightarrow> v_cruise" where
  "update_button_timers cs enabled v =
    v\<lparr>button_timers := run_timers cruise_buttons (cc_buttonEvents cs) (button_timers v),
      button_change_states := fold (\<lambda>(b, _) c. if b \<in> set cruise_buttons then c(b := (cc_standstill cs, enabled)) else c)
        (cc_buttonEvents cs) (button_change_states v)\<rparr>"

definition update_enabled_state :: "cruise_config \<Rightarrow> cruise_car \<Rightarrow> bool \<Rightarrow> v_cruise \<Rightarrow> bool \<times> v_cruise" where
  "update_enabled_state cp cs enabled v =
    (if \<not> pcmCruiseSpeed cp
     then let v = v\<lparr>enable_button_timers := update_manual_button_timers cs (enable_button_timers v)\<rparr>;
              button_pressed = (\<exists>k\<in>set enable_buttons. 0 < enable_button_timers v k);
              (enabled, v) =
                (if enabled \<and> \<not> enabled_prev v then (False, v\<lparr>enabled_prev := \<not> button_pressed\<rparr>)
                 else if \<not> enabled then (enabled, v\<lparr>enabled_prev := enabled\<rparr>)
                 else (enabled, v))
          in (enabled \<and> enabled_prev v, v)
     else (enabled, v))"

definition get_minimum_set_speed :: "v_cruise \<Rightarrow> v_cruise" where
  "get_minimum_set_speed v = v\<lparr>v_cruise_min := V_CRUISE_MIN\<rparr>"

definition update_v_cruise_delta :: "cruise_env \<Rightarrow> bool \<Rightarrow> rat \<Rightarrow> v_cruise \<Rightarrow> bool \<times> rat" where
  "update_v_cruise_delta env long_press v_cruise_delta v =
    (if \<not> custom_acc_enabled v then (long_press, fl (v_cruise_delta * (if long_press then 5 else 1)))
     else let clip = (\<lambda>n. np_clip (cruise_math env) (of_int n) 1 10);
              actual_increment = (if long_press then clip (long_increment v) else clip (short_increment v))
          in (actual_increment \<in> {5, 10}, fl (v_cruise_delta * actual_increment)))"

text \<open>Which button acts in this frame: a release (unless it ends a long press), else a button held for a multiple of
  the long press time. \<open>None\<close> is the early return.\<close>

definition acting_button :: "cruise_car \<Rightarrow> v_cruise \<Rightarrow> (ButtonEventType \<times> bool) option" where
  "acting_button cs v =
    (case find (\<lambda>(b, pressed). b \<in> set cruise_buttons \<and> \<not> pressed) (cc_buttonEvents cs) of
       Some (b, _) \<Rightarrow> (if CRUISE_LONG_PRESS < button_timers v b then None else Some (b, False))
     | None \<Rightarrow>
         (case find (\<lambda>k. button_timers v k \<noteq> 0 \<and> button_timers v k mod CRUISE_LONG_PRESS = 0) cruise_buttons of
            Some k \<Rightarrow> Some (k, True)
          | None \<Rightarrow> None))"

definition stepped_speed :: "cruise_env \<Rightarrow> ButtonEventType \<Rightarrow> bool \<Rightarrow> bool \<Rightarrow> v_cruise \<Rightarrow> rat" where
  "stepped_speed env b long_press is_metric v =
    (let (long_press, delta) = update_v_cruise_delta env long_press (if is_metric then 1 else IMPERIAL_INCREMENT) v
     in if long_press \<and> py_fmod (v_cruise_kph v) delta \<noteq> 0
        then fl (of_int (CRUISE_NEAREST_FUNC b (fl (v_cruise_kph v / delta))) * delta)
        else fl (v_cruise_kph v + delta * CRUISE_INTERVAL_SIGN b))"

definition update_v_cruise_non_pcm :: "cruise_env \<Rightarrow> cruise_car \<Rightarrow> bool \<Rightarrow> bool \<Rightarrow> v_cruise \<Rightarrow> v_cruise" where
  "update_v_cruise_non_pcm env cs enabled is_metric v =
    (if \<not> enabled then v
     else case acting_button cs v of
       None \<Rightarrow> v
     | Some (b, long_press) \<Rightarrow>
         (let (was_standstill, was_enabled) = button_change_states v b
          in if b = Button_accelCruise \<and> (was_standstill \<or> cc_standstill cs) then v
             else if \<not> was_enabled then v
             else let x = stepped_speed env b long_press is_metric v;
                      x = (if cc_gasPressed cs \<and> b \<in> {Button_decelCruise, Button_setCruise}
                           then max x (fl (cc_vEgo cs * MS_TO_KPH)) else x)
                  in v\<lparr>v_cruise_kph := np_clip (cruise_math env) (round1 env x) (v_cruise_min v) V_CRUISE_MAX\<rparr>))"

section \<open>Speed limits\<close>

definition compare_cluster_target :: "rat \<Rightarrow> rat \<Rightarrow> bool \<Rightarrow> bool \<times> bool" where
  "compare_cluster_target v_cruise_cluster target_set_speed is_metric =
    (let speed_conv = (if is_metric then MS_TO_KPH else MS_TO_MPH);
         c = py_round (fl (v_cruise_cluster * speed_conv)); t = py_round (fl (target_set_speed * speed_conv))
     in (c < t, t < c))"

definition assist_engaged :: "AssistState \<Rightarrow> bool" where
  "assist_engaged s \<longleftrightarrow> s \<in> {Assist_active, Assist_adapting}"

definition update_speed_limit_assist :: "bool \<Rightarrow> bool \<Rightarrow> bool \<Rightarrow> rat \<Rightarrow> AssistState \<Rightarrow> v_cruise \<Rightarrow> v_cruise" where
  "update_speed_limit_assist is_metric valid last_valid final_last st v =
    (let (plus, minus) = compare_cluster_target (fl (v_cruise_cluster_kph v * KPH_TO_MS)) final_last is_metric
     in v\<lparr>has_speed_limit := valid \<or> last_valid, speed_limit_final_last := final_last,
          speed_limit_final_last_kph := fl (final_last * MS_TO_KPH), speed_limit_state := st,
          req_plus := plus, req_minus := minus\<rparr>)"

definition final_last_changed :: "v_cruise \<Rightarrow> bool" where
  "final_last_changed v \<longleftrightarrow> has_speed_limit v \<and> speed_limit_final_last_kph v \<noteq> prev_speed_limit_final_last_kph v"

definition update_speed_limit_assist_v_cruise_non_pcm :: "cruise_env \<Rightarrow> v_cruise \<Rightarrow> v_cruise" where
  "update_speed_limit_assist_v_cruise_non_pcm env v =
    (let v = (if assist_engaged (speed_limit_state v) \<and> (\<not> assist_engaged (prev_speed_limit_state v) \<or> final_last_changed v)
              then v\<lparr>v_cruise_kph := np_clip (cruise_math env) (py_round_digits (speed_limit_final_last_kph v) 1) (v_cruise_min v) V_CRUISE_MAX\<rparr>
              else v)
     in v\<lparr>prev_speed_limit_state := speed_limit_state v, prev_speed_limit_final_last_kph := speed_limit_final_last_kph v\<rparr>)"

section \<open>The update\<close>

definition update_v_cruise :: "cruise_env \<Rightarrow> cruise_config \<Rightarrow> cruise_car \<Rightarrow> bool \<Rightarrow> bool \<Rightarrow> v_cruise \<Rightarrow> v_cruise" where
  "update_v_cruise env cp cs enabled is_metric v =
    (let v = get_minimum_set_speed (v\<lparr>v_cruise_kph_last := v_cruise_kph v\<rparr>)
     in if cc_available cs
        then let (en, v) = update_enabled_state cp cs enabled v
             in if \<not> pcmCruise cp \<or> (\<not> pcmCruiseSpeed cp \<and> en)
                then let v = update_speed_limit_assist_v_cruise_non_pcm env (update_v_cruise_non_pcm env cs en is_metric v)
                     in update_button_timers cs enabled (v\<lparr>v_cruise_cluster_kph := v_cruise_kph v\<rparr>)
                else let v = v\<lparr>v_cruise_kph := fl (cc_speed cs * MS_TO_KPH), v_cruise_cluster_kph := fl (cc_speedCluster cs * MS_TO_KPH)\<rparr>
                     in if cc_speed cs = 0 then v\<lparr>v_cruise_kph := V_CRUISE_UNSET, v_cruise_cluster_kph := V_CRUISE_UNSET\<rparr>
                        else if cc_speed cs = - 1 then v\<lparr>v_cruise_kph := - 1, v_cruise_cluster_kph := - 1\<rparr>
                        else v
        else v\<lparr>v_cruise_kph := V_CRUISE_UNSET, v_cruise_cluster_kph := V_CRUISE_UNSET\<rparr>)"

definition initialize_v_cruise :: "cruise_env \<Rightarrow> cruise_config \<Rightarrow> cruise_car \<Rightarrow> bool \<Rightarrow> bool \<Rightarrow> v_cruise \<Rightarrow> v_cruise" where
  "initialize_v_cruise env cp cs experimental_mode iq_dynamic_mode v =
    (if pcmCruise cp then v
     else let initial = (if experimental_mode \<and> \<not> iq_dynamic_mode then V_CRUISE_INITIAL_EXPERIMENTAL_MODE else V_CRUISE_INITIAL);
              v = (if (\<exists>(b, _)\<in>set (cc_buttonEvents cs). b \<in> {Button_accelCruise, Button_resumeCruise}) \<and> v_cruise_initialized v
                   then v\<lparr>v_cruise_kph := v_cruise_kph_last v\<rparr>
                   else v\<lparr>v_cruise_kph := of_int (py_round (np_clip (cruise_math env) (fl (cc_vEgo cs * MS_TO_KPH)) initial V_CRUISE_MAX))\<rparr>)
          in v\<lparr>v_cruise_cluster_kph := v_cruise_kph v\<rparr>)"

section \<open>The calls of the car daemon\<close>

text \<open>One turn of \<^verbatim>\<open>Car.step\<close>, as far as it concerns the set speed. The thread that reads the parameters may run
  between two turns (\<open>ci_params\<close>); \<open>ci_controls\<close> says that \<^verbatim>\<open>controls_update\<close> came to the end and stored the car control
  message.\<close>

record card_input =
  ci_params :: "cruise_params option"
  ci_car :: cruise_car
  ci_enabled :: bool
  ci_is_metric :: bool
  ci_experimental_mode :: bool
  ci_iq_dynamic_mode :: bool
  ci_limit_valid :: bool
  ci_limit_last_valid :: bool
  ci_limit_final_last :: rat
  ci_assist :: AssistState
  ci_controls :: bool

record card =
  card_helper :: v_cruise
  card_CS_prev :: cruise_car
  card_CC_prev_enabled :: bool

definition card_init :: "cruise_params \<Rightarrow> card" where
  "card_init p =
    \<lparr>card_helper = VCruiseHelper_init p,
     card_CS_prev = \<lparr>cc_vEgo = 0, cc_gasPressed = False, cc_available = False, cc_standstill = False, cc_speed = 0,
       cc_speedCluster = 0, cc_buttonEvents = []\<rparr>,
     card_CC_prev_enabled = False\<rparr>"

definition card_cruise :: "cruise_env \<Rightarrow> cruise_config \<Rightarrow> card_input \<Rightarrow> card \<Rightarrow> v_cruise" where
  "card_cruise env cp i c =
    (let v = update_speed_limit_assist (ci_is_metric i) (ci_limit_valid i) (ci_limit_last_valid i) (ci_limit_final_last i)
               (ci_assist i) (card_helper c);
         v = update_v_cruise env cp (ci_car i) (ci_enabled i) (ci_is_metric i) v
     in if ci_enabled i \<and> \<not> card_CC_prev_enabled c
        then initialize_v_cruise env cp (card_CS_prev c) (ci_experimental_mode i) (ci_iq_dynamic_mode i) v else v)"

definition card_step :: "cruise_env \<Rightarrow> cruise_config \<Rightarrow> card_input \<Rightarrow> card \<Rightarrow> card" where
  "card_step env cp i c =
    (let c = (case ci_params i of
                None \<Rightarrow> c
              | Some p \<Rightarrow> c\<lparr>card_helper := read_custom_set_speed_params p (card_helper c)\<rparr>)
     in c\<lparr>card_helper := card_cruise env cp i c, card_CS_prev := ci_car i,
         card_CC_prev_enabled := (if ci_controls i then ci_enabled i else card_CC_prev_enabled c)\<rparr>)"

definition card_run :: "cruise_config \<Rightarrow> cruise_params \<Rightarrow> (cruise_env \<times> card_input) list \<Rightarrow> card" where
  "card_run cp p fs = fold (\<lambda>(env, i). card_step env cp i) fs (card_init p)"

end
