(* ===== verification/VCruiseCorrect.thy ===== *)
theory VCruiseCorrect
  imports VCruise
begin

text \<open>
  The set speed, for cars whose cruise control openpilot runs itself (\<^verbatim>\<open>pcmCruise\<close> off): its range in every run of the
  car daemon, the reasons for which it changes, and what one press of a button does.
\<close>

named_theorems cruise_defs
declare V_CRUISE_MIN_def [cruise_defs] V_CRUISE_MAX_def [cruise_defs] V_CRUISE_UNSET_def [cruise_defs]
  V_CRUISE_INITIAL_def [cruise_defs] V_CRUISE_INITIAL_EXPERIMENTAL_MODE_def [cruise_defs]

section \<open>Range\<close>

definition set_speed_ok :: "v_cruise \<Rightarrow> bool" where
  "set_speed_ok v \<longleftrightarrow> (v_cruise_kph v = 255 \<or> 8 \<le> v_cruise_kph v \<and> v_cruise_kph v \<le> 200)"

lemma cruise_clip_ok:
  assumes "clip_spec env"
  shows "8 \<le> np_clip env x 8 200 \<and> np_clip env x 8 200 \<le> 200"
  using assms by (simp add: np_clip_eq)

lemma read_params_simps [simp]:
  "v_cruise_kph (read_custom_set_speed_params p v) = v_cruise_kph v"
  "v_cruise_cluster_kph (read_custom_set_speed_params p v) = v_cruise_cluster_kph v"
  "button_change_states (read_custom_set_speed_params p v) = button_change_states v"
  "button_timers (read_custom_set_speed_params p v) = button_timers v"
  by (simp_all add: read_custom_set_speed_params_def)

lemma update_assist_simps [simp]:
  "v_cruise_kph (update_speed_limit_assist m a b f s v) = v_cruise_kph v"
  "v_cruise_min (update_speed_limit_assist m a b f s v) = v_cruise_min v"
  "button_change_states (update_speed_limit_assist m a b f s v) = button_change_states v"
  "button_timers (update_speed_limit_assist m a b f s v) = button_timers v"
  "speed_limit_state (update_speed_limit_assist m a b f s v) = s"
  "prev_speed_limit_state (update_speed_limit_assist m a b f s v) = prev_speed_limit_state v"
  "prev_speed_limit_final_last_kph (update_speed_limit_assist m a b f s v) = prev_speed_limit_final_last_kph v"
  "has_speed_limit (update_speed_limit_assist m a b f s v) = (a \<or> b)"
  "speed_limit_final_last_kph (update_speed_limit_assist m a b f s v) = fl (f * MS_TO_KPH)"
  by (simp_all add: update_speed_limit_assist_def split: prod.split)

lemma update_enabled_state_frame:
  "v_cruise_kph (snd (update_enabled_state cp cs en v)) = v_cruise_kph v"
  "v_cruise_min (snd (update_enabled_state cp cs en v)) = v_cruise_min v"
  "button_change_states (snd (update_enabled_state cp cs en v)) = button_change_states v"
  "button_timers (snd (update_enabled_state cp cs en v)) = button_timers v"
  "fst (update_enabled_state cp cs en v) \<Longrightarrow> en"
  by (auto simp: update_enabled_state_def Let_def split: if_splits)

lemma non_pcm_kph:
  "v_cruise_kph (update_v_cruise_non_pcm env cs en m v) = v_cruise_kph v \<or>
   (\<exists>x. v_cruise_kph (update_v_cruise_non_pcm env cs en m v) = np_clip (cruise_math env) x (v_cruise_min v) V_CRUISE_MAX)"
  by (auto simp: update_v_cruise_non_pcm_def Let_def split: option.split prod.split)

lemma non_pcm_frame [simp]:
  "v_cruise_min (update_v_cruise_non_pcm env cs en m v) = v_cruise_min v"
  "speed_limit_state (update_v_cruise_non_pcm env cs en m v) = speed_limit_state v"
  "prev_speed_limit_state (update_v_cruise_non_pcm env cs en m v) = prev_speed_limit_state v"
  "button_timers (update_v_cruise_non_pcm env cs en m v) = button_timers v"
  "button_change_states (update_v_cruise_non_pcm env cs en m v) = button_change_states v"
  "final_last_changed (update_v_cruise_non_pcm env cs en m v) = final_last_changed v"
  by (simp_all add: update_v_cruise_non_pcm_def final_last_changed_def Let_def split: option.split prod.split)

lemma acting_button_cong: "button_timers v = button_timers w \<Longrightarrow> acting_button cs v = acting_button cs w"
  by (simp only: acting_button_def cong: option.case_cong if_cong)

lemma enabled_state_frame:
  "speed_limit_state (snd (update_enabled_state cp cs en v)) = speed_limit_state v"
  "prev_speed_limit_state (snd (update_enabled_state cp cs en v)) = prev_speed_limit_state v"
  "final_last_changed (snd (update_enabled_state cp cs en v)) = final_last_changed v"
  by (simp_all add: update_enabled_state_def final_last_changed_def Let_def split: if_splits)

text \<open>The four ways a frame of a car without cruise control of its own can go.\<close>

definition assist_sets_speed :: "v_cruise \<Rightarrow> bool" where
  "assist_sets_speed v \<longleftrightarrow>
     assist_engaged (speed_limit_state v) \<and> (\<not> assist_engaged (prev_speed_limit_state v) \<or> final_last_changed v)"

definition button_sets_speed :: "cruise_car \<Rightarrow> bool \<Rightarrow> v_cruise \<Rightarrow> ButtonEventType \<Rightarrow> bool" where
  "button_sets_speed cs en v b \<longleftrightarrow>
     en \<and> (\<exists>long. acting_button cs v = Some (b, long)) \<and> snd (button_change_states v b) \<and>
     \<not> (b = Button_accelCruise \<and> (fst (button_change_states v b) \<or> cc_standstill cs))"

lemma non_pcm_cases:
  "v_cruise_kph (update_v_cruise_non_pcm env cs en m v) = v_cruise_kph v \<or>
   (\<exists>b. button_sets_speed cs en v b)"
  by (auto simp: update_v_cruise_non_pcm_def button_sets_speed_def Let_def split: option.split prod.split)

lemma button_timers_kph [simp]:
  "v_cruise_kph (update_button_timers cs en v) = v_cruise_kph v"
  "v_cruise_cluster_kph (update_button_timers cs en v) = v_cruise_cluster_kph v"
  by (simp_all add: update_button_timers_def)

lemma speed_limit_non_pcm_kph:
  "v_cruise_kph (update_speed_limit_assist_v_cruise_non_pcm env v) =
   (if assist_sets_speed v then np_clip (cruise_math env) (py_round_digits (speed_limit_final_last_kph v) 1) (v_cruise_min v) V_CRUISE_MAX
    else v_cruise_kph v)"
  by (auto simp: update_speed_limit_assist_v_cruise_non_pcm_def assist_sets_speed_def Let_def)

definition based :: "v_cruise \<Rightarrow> v_cruise" where
  "based v = get_minimum_set_speed (v\<lparr>v_cruise_kph_last := v_cruise_kph v\<rparr>)"

lemma based_simps [simp]:
  "v_cruise_kph (based v) = v_cruise_kph v" "v_cruise_min (based v) = 8"
  "button_timers (based v) = button_timers v" "button_change_states (based v) = button_change_states v"
  "speed_limit_state (based v) = speed_limit_state v"
  "prev_speed_limit_state (based v) = prev_speed_limit_state v"
  "final_last_changed (based v) = final_last_changed v"
  by (simp_all add: based_def get_minimum_set_speed_def final_last_changed_def cruise_defs)

lemma update_unavailable:
  assumes "\<not> cc_available cs"
  shows "update_v_cruise env cp cs en m v = (based v)\<lparr>v_cruise_kph := 255, v_cruise_cluster_kph := 255\<rparr>"
  using assms by (simp add: update_v_cruise_def based_def cruise_defs)

lemma update_available:
  fixes env :: cruise_env and cp :: cruise_config and cs :: cruise_car and en m :: bool and v :: v_cruise
  assumes "\<not> pcmCruise cp" "cc_available cs"
  defines "es \<equiv> update_enabled_state cp cs en (based v)"
  defines "w \<equiv> update_speed_limit_assist_v_cruise_non_pcm env (update_v_cruise_non_pcm env cs (fst es) m (snd es))"
  shows "update_v_cruise env cp cs en m v = update_button_timers cs en (w\<lparr>v_cruise_cluster_kph := v_cruise_kph w\<rparr>)"
  using assms(1,2) by (simp add: update_v_cruise_def based_def [symmetric] w_def es_def Let_def split: prod.split)

lemma update_speed_cases:
  assumes "\<not> pcmCruise cp"
  shows "\<not> cc_available cs \<and> v_cruise_kph (update_v_cruise env cp cs en m v) = 255 \<or>
    cc_available cs \<and> v_cruise_kph (update_v_cruise env cp cs en m v) = v_cruise_kph v \<or>
    cc_available cs \<and> assist_sets_speed v \<or>
    cc_available cs \<and> (\<exists>b. button_sets_speed cs en v b)"
proof (cases "cc_available cs")
  case True
  define es where "es = update_enabled_state cp cs en (based v)"
  have "button_sets_speed cs en v b" if "button_sets_speed cs (fst es) (snd es) b" for b
    using that update_enabled_state_frame(5) [of cp cs en "based v"] acting_button_cong [of "snd es" v cs]
    by (auto simp: button_sets_speed_def es_def update_enabled_state_frame)
  moreover have "assist_sets_speed (update_v_cruise_non_pcm env cs (fst es) m (snd es)) = assist_sets_speed v"
    by (simp add: assist_sets_speed_def es_def enabled_state_frame)
  ultimately show ?thesis
    using True non_pcm_cases [of env cs "fst es" m "snd es"]
    by (auto simp: update_available [OF assms True] speed_limit_non_pcm_kph es_def [symmetric])
      (simp_all add: es_def update_enabled_state_frame)
qed (simp add: update_unavailable)

lemma update_in_range:
  assumes "\<not> pcmCruise cp" "clip_spec (cruise_math env)" "set_speed_ok v"
  shows "set_speed_ok (update_v_cruise env cp cs en m v) \<and>
    v_cruise_cluster_kph (update_v_cruise env cp cs en m v) = v_cruise_kph (update_v_cruise env cp cs en m v)"
proof (cases "cc_available cs")
  case True
  have "set_speed_ok (snd (update_enabled_state cp cs en (based v)))"
    using assms(3) by (simp add: set_speed_ok_def update_enabled_state_frame)
  then show ?thesis
    using non_pcm_kph [of env cs "fst (update_enabled_state cp cs en (based v))" m "snd (update_enabled_state cp cs en (based v))"]
      cruise_clip_ok [OF assms(2)]
    by (auto simp: update_available [OF assms(1) True] speed_limit_non_pcm_kph set_speed_ok_def update_enabled_state_frame cruise_defs)
qed (simp add: update_unavailable set_speed_ok_def)

lemma update_last:
  assumes "\<not> pcmCruise cp"
  shows "v_cruise_kph_last (update_v_cruise env cp cs en m v) = v_cruise_kph v"
proof -
  have "v_cruise_kph_last (based v) = v_cruise_kph v" by (simp add: based_def get_minimum_set_speed_def)
  moreover have "v_cruise_kph_last (snd (update_enabled_state cp cs en w)) = v_cruise_kph_last w" for w
    by (simp add: update_enabled_state_def Let_def split: if_splits)
  moreover have "v_cruise_kph_last (update_v_cruise_non_pcm env cs e m w) = v_cruise_kph_last w" for e w
    by (simp add: update_v_cruise_non_pcm_def Let_def split: option.split prod.split)
  moreover have "v_cruise_kph_last (update_speed_limit_assist_v_cruise_non_pcm env w) = v_cruise_kph_last w" for w
    by (simp add: update_speed_limit_assist_v_cruise_non_pcm_def Let_def)
  ultimately show ?thesis
    by (cases "cc_available cs") (simp_all add: update_unavailable update_available [OF assms] update_button_timers_def)
qed

lemma initial_speed_in_range:
  assumes "clip_spec env" "40 \<le> lo" "lo \<le> 200"
  shows "40 \<le> py_round (np_clip env x lo 200)" "py_round (np_clip env x lo 200) \<le> 200"
  by (rule py_round_bounds(1) [where b = 200] py_round_bounds(2) [where a = 40];
      use assms in \<open>simp add: np_clip_eq\<close>)+

lemma initialize_in_range:
  assumes "\<not> pcmCruise cp" "clip_spec (cruise_math env)" "set_speed_ok v" "v_cruise_kph_last v = 255 \<or> 8 \<le> v_cruise_kph_last v \<and> v_cruise_kph_last v \<le> 200"
  shows "set_speed_ok (initialize_v_cruise env cp cs e d v) \<and>
    v_cruise_cluster_kph (initialize_v_cruise env cp cs e d v) = v_cruise_kph (initialize_v_cruise env cp cs e d v)"
proof -
  let ?c = "\<lambda>lo. py_round (np_clip (cruise_math env) (fl (cc_vEgo cs * MS_TO_KPH)) lo 200)"
  have "8 \<le> (of_int (?c lo) :: rat) \<and> of_int (?c lo) \<le> (200 :: rat)" if "40 \<le> lo" "lo \<le> 200" for lo
    using initial_speed_in_range [OF assms(2) that, of "fl (cc_vEgo cs * MS_TO_KPH)"] by linarith
  then show ?thesis using assms(1,4)
    by (simp add: initialize_v_cruise_def set_speed_ok_def Let_def cruise_defs)
qed

lemma card_run_simps [simp]:
  "card_run cp p [] = card_init p"
  "card_run cp p (fs @ [(env, i)]) = card_step env cp i (card_run cp p fs)"
  by (simp_all add: card_run_def)

definition with_params :: "card_input \<Rightarrow> card \<Rightarrow> card" where
  "with_params i c =
    (case ci_params i of None \<Rightarrow> c | Some p \<Rightarrow> c\<lparr>card_helper := read_custom_set_speed_params p (card_helper c)\<rparr>)"

lemma with_params_simps [simp]:
  "v_cruise_kph (card_helper (with_params i c)) = v_cruise_kph (card_helper c)"
  "button_change_states (card_helper (with_params i c)) = button_change_states (card_helper c)"
  "button_timers (card_helper (with_params i c)) = button_timers (card_helper c)"
  "prev_speed_limit_state (card_helper (with_params i c)) = prev_speed_limit_state (card_helper c)"
  "prev_speed_limit_final_last_kph (card_helper (with_params i c)) = prev_speed_limit_final_last_kph (card_helper c)"
  "card_CC_prev_enabled (with_params i c) = card_CC_prev_enabled c"
  by (simp_all add: with_params_def read_custom_set_speed_params_def split: option.split)

lemma card_helper_step: "card_helper (card_step env cp i c) = card_cruise env cp i (with_params i c)"
  by (simp add: card_step_def with_params_def [symmetric] Let_def)

definition assisted :: "card_input \<Rightarrow> v_cruise \<Rightarrow> v_cruise" where
  "assisted i v = update_speed_limit_assist (ci_is_metric i) (ci_limit_valid i) (ci_limit_last_valid i) (ci_limit_final_last i) (ci_assist i) v"

definition card_ok :: "card \<Rightarrow> bool" where
  "card_ok c \<longleftrightarrow> set_speed_ok (card_helper c) \<and> v_cruise_cluster_kph (card_helper c) = v_cruise_kph (card_helper c)"

lemma card_init_ok: "card_ok (card_init p)"
  by (simp add: card_ok_def card_init_def VCruiseHelper_init_def set_speed_ok_def cruise_defs)

lemma card_step_ok:
  assumes "\<not> pcmCruise cp" "clip_spec (cruise_math env)" "card_ok c"
  shows "card_ok (card_step env cp i c)"
proof -
  define v where "v = update_v_cruise env cp (ci_car i) (ci_enabled i) (ci_is_metric i) (assisted i (card_helper (with_params i c)))"
  have kph: "v_cruise_kph (assisted i (card_helper (with_params i c))) = v_cruise_kph (card_helper c)" by (simp add: assisted_def)
  then have ok: "set_speed_ok (assisted i (card_helper (with_params i c)))" using assms(3) by (simp add: card_ok_def set_speed_ok_def)
  have upd: "set_speed_ok v \<and> v_cruise_cluster_kph v = v_cruise_kph v"
    unfolding v_def by (rule update_in_range [OF assms(1,2) ok])
  have "v_cruise_kph_last v = v_cruise_kph (card_helper c)" by (simp add: v_def update_last [OF assms(1)] kph)
  then have ini: "set_speed_ok (initialize_v_cruise env cp cs e d v) \<and>
      v_cruise_cluster_kph (initialize_v_cruise env cp cs e d v) = v_cruise_kph (initialize_v_cruise env cp cs e d v)" for cs e d
    using initialize_in_range [OF assms(1,2)] upd assms(3) by (simp add: card_ok_def set_speed_ok_def)
  have "card_helper (card_step env cp i c) =
      (if ci_enabled i \<and> \<not> card_CC_prev_enabled c
       then initialize_v_cruise env cp (card_CS_prev (with_params i c)) (ci_experimental_mode i) (ci_iq_dynamic_mode i) v else v)"
    by (simp only: card_helper_step card_cruise_def assisted_def Let_def v_def with_params_simps)
  then show ?thesis using upd ini by (simp add: card_ok_def)
qed

lemma card_run_ok:
  assumes "\<not> pcmCruise cp" "list_all (\<lambda>(env, i). clip_spec (cruise_math env)) fs"
  shows "card_ok (card_run cp p fs)"
  using assms(2)
proof (induction fs rule: rev_induct)
  case (snoc f fs)
  then show ?case by (cases f) (simp add: card_step_ok [OF assms(1)])
qed (simp add: card_init_ok)

text \<open>C17: In every run of the car daemon on a car whose set speed openpilot keeps, with any events, changes of
  parameters, speed limits and roundings, the set speed is unset (255) or between 8 and 200 km/h, and the cluster shows
  it. A frame in which cruise control is not available unsets it, with one exception: a frame in which openpilot has
  just been enabled, where the speed is initialised.\<close>

theorem set_speed_in_range:
  assumes "\<not> pcmCruise cp" "list_all (\<lambda>(env, i). clip_spec (cruise_math env)) (fs @ [(env, i)])"
  shows "(let c = card_run cp p fs; v = card_helper (card_run cp p (fs @ [(env, i)]))
    in (v_cruise_kph v = 255 \<or> 8 \<le> v_cruise_kph v \<and> v_cruise_kph v \<le> 200) \<and> v_cruise_cluster_kph v = v_cruise_kph v \<and>
       (cc_available (ci_car i) \<or> ci_enabled i \<and> \<not> card_CC_prev_enabled c \<or> v_cruise_kph v = 255))"
  using card_run_ok [OF assms] by (auto simp: card_ok_def set_speed_ok_def card_helper_step card_cruise_def update_unavailable Let_def)

section \<open>The causes of a change\<close>

text \<open>The last frame of a run, with cruise control available, that had an event of a button.\<close>

definition last_event :: "ButtonEventType \<Rightarrow> (cruise_env \<times> card_input) list \<Rightarrow> card_input option" where
  "last_event b fs = find (\<lambda>i. cc_available (ci_car i) \<and> b \<in> fst ` set (cc_buttonEvents (ci_car i))) (rev (map snd fs))"

lemma change_states_fold:
  "fold (\<lambda>(b, _) c. if b \<in> set keys then c(b := x) else c) evs f k =
   (if k \<in> set keys \<and> k \<in> fst ` set evs then x else f k)"
  by (induction evs arbitrary: f) auto

lemma update_change_states:
  assumes "\<not> pcmCruise cp" "b \<in> set cruise_buttons"
  shows "button_change_states (update_v_cruise env cp cs en m v) b =
    (if cc_available cs \<and> b \<in> fst ` set (cc_buttonEvents cs) then (cc_standstill cs, en) else button_change_states v b)"
proof (cases "cc_available cs")
  case True
  have "button_change_states (update_speed_limit_assist_v_cruise_non_pcm env w) = button_change_states w" for w
    by (simp add: update_speed_limit_assist_v_cruise_non_pcm_def Let_def)
  then show ?thesis using True assms(2)
    by (simp add: update_available [OF assms(1)] update_button_timers_def change_states_fold update_enabled_state_frame)
qed (simp add: update_unavailable)

lemma initialize_frame [simp]:
  "button_change_states (initialize_v_cruise env cp cs e d v) = button_change_states v"
  "button_timers (initialize_v_cruise env cp cs e d v) = button_timers v"
  by (simp_all add: initialize_v_cruise_def Let_def)

lemma run_change_states:
  assumes "\<not> pcmCruise cp" "b \<in> set cruise_buttons"
  shows "button_change_states (card_helper (card_run cp p fs)) b =
    (case last_event b fs of None \<Rightarrow> (False, False) | Some i \<Rightarrow> (cc_standstill (ci_car i), ci_enabled i))"
proof (induction fs rule: rev_induct)
  case Nil
  then show ?case by (simp add: last_event_def card_init_def VCruiseHelper_init_def)
next
  case (snoc f fs)
  then show ?case
    by (cases f)
      (auto simp: card_helper_step card_cruise_def update_change_states [OF assms] last_event_def Let_def split: option.splits)
qed

lemma find_Some_P: "find P xs = Some x \<Longrightarrow> x \<in> set xs \<and> P x"
  by (auto simp: find_Some_iff)

lemma acting_button_cause:
  assumes "acting_button cs v = Some (b, long)"
  shows "b \<in> set cruise_buttons \<and>
    (if long then button_timers v b \<noteq> 0 \<and> 50 dvd button_timers v b else (b, False) \<in> set (cc_buttonEvents cs) \<and> button_timers v b \<le> 50)"
  using assms
  by (auto simp: acting_button_def CRUISE_LONG_PRESS_def mod_eq_0_iff_dvd split: option.splits prod.splits if_splits dest!: find_Some_P)

lemma card_speed_cases:
  assumes "\<not> pcmCruise cp" "v_cruise_kph (card_cruise env cp i c) \<noteq> v_cruise_kph (card_helper c)"
  shows "\<not> cc_available (ci_car i) \<and> \<not> (ci_enabled i \<and> \<not> card_CC_prev_enabled c) \<and> v_cruise_kph (card_cruise env cp i c) = 255 \<or>
    ci_enabled i \<and> \<not> card_CC_prev_enabled c \<or> assist_sets_speed (assisted i (card_helper c)) \<or>
    (\<exists>b. button_sets_speed (ci_car i) (ci_enabled i) (card_helper c) b)"
proof (cases "ci_enabled i \<and> \<not> card_CC_prev_enabled c")
  case False
  then have "card_cruise env cp i c = update_v_cruise env cp (ci_car i) (ci_enabled i) (ci_is_metric i) (assisted i (card_helper c))"
    by (simp only: card_cruise_def assisted_def Let_def if_False)
  moreover have "button_sets_speed cs en (assisted i v) b = button_sets_speed cs en v b" for cs en v b
    using acting_button_cong [of "assisted i v" v] by (simp add: button_sets_speed_def assisted_def)
  moreover have "v_cruise_kph (assisted i v) = v_cruise_kph v" for v by (simp add: assisted_def)
  ultimately show ?thesis
    using update_speed_cases [OF assms(1), of "ci_car i" env "ci_enabled i" "ci_is_metric i" "assisted i (card_helper c)"] assms(2) False
    by auto
qed blast


section \<open>One press of a button\<close>

text \<open>What a press is to do, in whole numbers: the increment of a short or a long press, whether the speed first goes to
  the next multiple of the increment, and the new speed.\<close>

definition press_increment :: "bool \<Rightarrow> v_cruise \<Rightarrow> int" where
  "press_increment long v =
    (if custom_acc_enabled v then min 10 (max 1 (if long then long_increment v else short_increment v)) else if long then 5 else 1)"

definition press_snaps :: "bool \<Rightarrow> v_cruise \<Rightarrow> bool" where
  "press_snaps long v \<longleftrightarrow> (if custom_acc_enabled v then press_increment long v \<in> {5, 10} else long)"

definition pressed_speed :: "ButtonEventType \<Rightarrow> bool \<Rightarrow> v_cruise \<Rightarrow> int \<Rightarrow> int" where
  "pressed_speed b long v k =
    (let d = press_increment long v; up = (b = Button_accelCruise)
     in min 200 (max 8
       (if press_snaps long v \<and> \<not> d dvd k then (if up then (k div d + 1) * d else k div d * d)
        else if up then k + d else k - d)))"

lemma press_increment_range: "1 \<le> press_increment long v" "press_increment long v \<le> 10"
  by (simp_all add: press_increment_def)

lemma pressed_speed_range: "8 \<le> pressed_speed b long v k" "pressed_speed b long v k \<le> 200"
  by (simp_all add: pressed_speed_def Let_def)

lemma quotient_between:
  assumes "0 < d" "d \<le> 10" "0 \<le> k" "k \<le> 200" "\<not> d dvd k"
  shows "of_int (k div d) < fl (of_int k / of_int d)" "fl (of_int k / of_int d) < of_int (k div d) + 1"
proof -
  let ?q = "of_int k / of_int d :: rat"
  have "k mod d \<noteq> 0" using assms(5) by (simp add: dvd_eq_mod_eq_0)
  then have m: "1 \<le> k mod d" "k mod d \<le> d - 1"
    using pos_mod_bound [OF assms(1), of k] pos_mod_sign [OF assms(1), of k] by linarith+
  have "?q = of_int (k div d) + of_int (k mod d) / of_int d"
  proof -
    have "(of_int k :: rat) = of_int (k div d * d + k mod d)" by simp
    also have "\<dots> = of_int (k div d) * of_int d + of_int (k mod d)" by (simp only: of_int_add of_int_mult)
    finally show ?thesis using assms(1) by (simp add: add_divide_distrib)
  qed
  moreover have "(1 :: rat) / 10 \<le> of_int (k mod d) / of_int d" "(of_int (k mod d) :: rat) / of_int d \<le> 1 - 1 / 10"
  proof -
    have "d \<le> 10 * (k mod d)" "10 * (k mod d) \<le> 9 * d" using m assms(1,2) by linarith+
    then have "(of_int d :: rat) \<le> 10 * of_int (k mod d)" "10 * of_int (k mod d) \<le> (9 * of_int d :: rat)"
      by (metis of_int_le_iff of_int_mult of_int_numeral)+
    then show "(1 :: rat) / 10 \<le> of_int (k mod d) / of_int d" "(of_int (k mod d) :: rat) / of_int d \<le> 1 - 1 / 10"
      using assms(1) by (simp_all add: field_simps)
  qed
  moreover have small: "\<bar>?q\<bar> / 2 ^ 53 < 1 / 10"
  proof -
    have "?q \<le> of_int k" "0 \<le> ?q" using assms by (simp_all add: divide_le_eq mult_le_cancel_left1)
    moreover have "(of_int k :: rat) \<le> 200" using assms(4) by (metis of_int_le_iff of_int_numeral)
    ultimately show ?thesis by simp
  qed
  ultimately show "of_int (k div d) < fl ?q" "fl ?q < of_int (k div d) + 1"
    using le_less_trans [OF fl_error small] unfolding abs_less_iff by linarith+
qed

lemma CRUISE_NEAREST_FUNC_quotient:
  assumes "0 < d" "d \<le> 10" "0 \<le> k" "k \<le> 200" "\<not> d dvd k"
  shows "CRUISE_NEAREST_FUNC b (fl (of_int k / of_int d)) = (if b = Button_accelCruise then k div d + 1 else k div d)"
proof -
  note q = quotient_between [OF assms]
  have "\<lceil>fl (of_int k / of_int d)\<rceil> = k div d + 1" using q by (intro ceiling_unique) simp_all
  moreover have "\<lfloor>fl (of_int k / of_int d)\<rfloor> = k div d" using q by (intro floor_unique) simp_all
  ultimately show ?thesis by (cases b) simp_all
qed

lemma update_v_cruise_delta_metric:
  assumes "clip_spec (cruise_math env)"
  shows "update_v_cruise_delta env long 1 v = (press_snaps long v, of_int (press_increment long v))"
proof -
  have clip: "np_clip (cruise_math env) (of_int n) 1 10 = (of_int (min 10 (max 1 n)) :: rat)" for n
    by (simp add: np_clip_eq [OF assms] of_int_min of_int_max max.commute)
  have five_ten: "(of_int n :: rat) \<in> {5, 10} \<longleftrightarrow> n \<in> {5, 10}" for n
    using of_int_eq_iff [of n 5, where ?'a = rat] of_int_eq_iff [of n 10, where ?'a = rat] by simp
  have fl: "fl (1 * of_int (press_increment long v)) = of_int (press_increment long v)"
    using fl_of_int [of "press_increment long v"] press_increment_range [of long v] by simp
  show ?thesis
  proof (cases "custom_acc_enabled v")
    case True
    then have inc: "(if long then np_clip (cruise_math env) (of_int (long_increment v)) 1 10
        else np_clip (cruise_math env) (of_int (short_increment v)) 1 10) = (of_int (press_increment long v) :: rat)"
      by (simp only: clip press_increment_def if_True split: if_split) simp
    show ?thesis using True by (simp only: update_v_cruise_delta_def Let_def inc five_ten fl press_snaps_def) simp
  next
    case False
    then show ?thesis using fl_of_int [of 5]
      by (simp add: update_v_cruise_delta_def press_snaps_def press_increment_def)
  qed
qed

text \<open>Rounding to one decimal keeps whole numbers.\<close>

definition round1_spec :: "cruise_env \<Rightarrow> bool" where
  "round1_spec env \<longleftrightarrow> (\<forall>n. \<bar>n\<bar> \<le> 1000 \<longrightarrow> round1 env (of_int n) = of_int n)"

lemma of_int_clip:
  assumes "clip_spec env"
  shows "np_clip env (of_int k) 8 200 = of_int (min 200 (max 8 k))"
  by (simp add: np_clip_eq [OF assms] of_int_min of_int_max max.commute)

lemma stepped_speed_metric:
  assumes clip: "clip_spec (cruise_math env)" and k: "v_cruise_kph v = of_int k" "8 \<le> k" "k \<le> 200"
    and b: "b \<in> set cruise_buttons" and round: "round1_spec env"
  shows "np_clip (cruise_math env) (round1 env (stepped_speed env b long True v)) 8 200 = of_int (pressed_speed b long v k)"
proof -
  define d where "d = press_increment long v"
  have d: "1 \<le> d" "d \<le> 10" by (simp_all add: d_def press_increment_range)
  have rem: "py_fmod (of_int k) (of_int d) = of_int (k mod d)"
  proof -
    have "(of_int k - of_int d * of_int \<lfloor>of_int k / of_int d :: rat\<rfloor> :: rat) = of_int (k mod d)"
      by (simp add: floor_divide_of_int_eq minus_mult_div_eq_mod [symmetric])
    moreover have "\<bar>k mod d\<bar> \<le> 2 ^ 53"
    proof -
      have "k mod d < d" "0 \<le> k mod d" using d by simp_all
      then have "k mod d < 10" "0 \<le> k mod d" using d(2) by linarith+
      then show ?thesis by simp
    qed
    ultimately show ?thesis by (simp add: py_fmod_def fl_of_int)
  qed
  have snap: "fl (of_int n * of_int d) = of_int (n * d) \<and> \<bar>n * d\<bar> \<le> 1000" if "n = k div d \<or> n = k div d + 1" for n
  proof -
    have "k div d * d \<le> k" "0 \<le> k div d * d"
      using d k div_mult_mod_eq [of k d] pos_mod_sign [of d k] pos_imp_zdiv_nonneg_iff [of d k] by (linarith, simp)
    then have "\<bar>n * d\<bar> \<le> 1000" using that d k by (auto simp: algebra_simps)
    then show ?thesis using fl_of_int [of "n * d"] by simp
  qed
  have step: "fl (of_int k + of_int d * CRUISE_INTERVAL_SIGN b) = of_int (if b = Button_accelCruise then k + d else k - d)"
    using b d k fl_of_int [of "k + d"] fl_of_int [of "k - d"] by (auto simp: cruise_buttons_def)
  define x where "x = (if press_snaps long v \<and> \<not> d dvd k then (if b = Button_accelCruise then (k div d + 1) * d else k div d * d)
    else if b = Button_accelCruise then k + d else k - d)"
  have "stepped_speed env b long True v = of_int x"
  proof (cases "press_snaps long v \<and> \<not> d dvd k")
    case True
    then have "CRUISE_NEAREST_FUNC b (fl (of_int k / of_int d)) = (if b = Button_accelCruise then k div d + 1 else k div d)"
      using CRUISE_NEAREST_FUNC_quotient [of d k b] d k by simp
    then show ?thesis using True snap
      by (simp add: stepped_speed_def update_v_cruise_delta_metric [OF clip] d_def [symmetric] k(1) rem dvd_eq_mod_eq_0 x_def del: of_int_mult of_int_add)
  next
    case False
    then show ?thesis using step
      by (auto simp add: stepped_speed_def update_v_cruise_delta_metric [OF clip] d_def [symmetric] k(1) rem dvd_eq_mod_eq_0 x_def)
  qed
  moreover have "\<bar>k + d\<bar> \<le> 1000" "\<bar>k - d\<bar> \<le> 1000" using d k by (simp_all add: abs_le_iff)
  then have "\<bar>x\<bar> \<le> 1000" using snap by (simp add: x_def)
  moreover have "pressed_speed b long v k = min 200 (max 8 x)" by (simp add: pressed_speed_def Let_def x_def d_def)
  ultimately show ?thesis using round by (simp add: of_int_clip [OF clip] round1_spec_def)
qed

text \<open>The state while one of the two buttons is held: the frames since it was pressed, and the set speed.\<close>

definition held :: "ButtonEventType \<Rightarrow> int \<Rightarrow> int \<Rightarrow> v_cruise \<Rightarrow> v_cruise \<Rightarrow> bool" where
  "held b n k v0 v \<longleftrightarrow>
     v_cruise_kph v = of_int k \<and> 8 \<le> k \<and> k \<le> 200 \<and> (\<forall>c\<in>set cruise_buttons. button_timers v c = (if c = b then n else 0)) \<and>
     (n \<noteq> 0 \<longrightarrow> button_change_states v b = (False, True)) \<and> \<not> assist_engaged (speed_limit_state v) \<and>
     custom_acc_enabled v = custom_acc_enabled v0 \<and> short_increment v = short_increment v0 \<and>
     long_increment v = long_increment v0"

lemma pressed_speed_cong:
  "custom_acc_enabled v = custom_acc_enabled w \<Longrightarrow> short_increment v = short_increment w \<Longrightarrow>
   long_increment v = long_increment w \<Longrightarrow> pressed_speed b long v k = pressed_speed b long w k"
  by (simp only: pressed_speed_def press_snaps_def press_increment_def)

definition free_road :: "cruise_car \<Rightarrow> bool" where
  "free_road cs \<longleftrightarrow> cc_available cs \<and> \<not> cc_gasPressed cs \<and> \<not> cc_standstill cs"

text \<open>A frame in which the driver does not press the gas and the speed limit assist is off.\<close>

lemma update_free:
  fixes env :: cruise_env and cp :: cruise_config and cs :: cruise_car and v :: v_cruise and b :: ButtonEventType
  assumes "\<not> pcmCruise cp" "pcmCruiseSpeed cp" "free_road cs" "clip_spec (cruise_math env)"
    and "round1_spec env" and held: "held b n k v0 v" and "b \<in> set cruise_buttons"
    and was: "\<And>b' long. acting_button cs v = Some (b', long) \<Longrightarrow> b' = b \<and> n \<noteq> 0"
  defines "w \<equiv> update_v_cruise env cp cs True True v"
  shows "v_cruise_kph w =
      of_int (case acting_button cs v of None \<Rightarrow> k | Some (_, long) \<Rightarrow> pressed_speed b long v0 k)"
    and "button_timers w = run_timers cruise_buttons (cc_buttonEvents cs) (button_timers v)"
    and "button_change_states w b =
      (if b \<in> fst ` set (cc_buttonEvents cs) then (False, True) else button_change_states v b)"
    and "speed_limit_state w = speed_limit_state v"
    and "custom_acc_enabled w = custom_acc_enabled v" "short_increment w = short_increment v" "long_increment w = long_increment v"
proof -
  have es: "update_enabled_state cp cs True (based v) = (True, based v)" using assms(2) by (simp add: update_enabled_state_def)
  have av: "cc_available cs" using assms(3) by (simp add: free_road_def)
  let ?u = "update_v_cruise_non_pcm env cs True True (based v)"
  have w: "w = update_button_timers cs True
      ((update_speed_limit_assist_v_cruise_non_pcm env ?u)\<lparr>v_cruise_cluster_kph :=
         v_cruise_kph (update_speed_limit_assist_v_cruise_non_pcm env ?u)\<rparr>)"
    by (simp add: w_def update_available [OF assms(1) av] es)
  have idle: "\<not> assist_sets_speed ?u" using held by (simp add: assist_sets_speed_def held_def)
  have act: "acting_button cs (based v) = acting_button cs v" by (rule acting_button_cong) simp
  have stepped: "np_clip (cruise_math env) (round1 env (stepped_speed env b long True (based v))) 8 200 =
      of_int (pressed_speed b long v0 k)" for long
  proof -
    have "pressed_speed b long (based v) k = pressed_speed b long v0 k"
      using held by (intro pressed_speed_cong) (simp_all add: held_def based_def get_minimum_set_speed_def)
    then show ?thesis
      using stepped_speed_metric [OF assms(4), of "based v" k b long] held assms(5,7) by (simp add: held_def)
  qed
  have "v_cruise_kph ?u = of_int (case acting_button cs v of None \<Rightarrow> k | Some (_, long) \<Rightarrow> pressed_speed b long v0 k)"
  proof (cases "acting_button cs v")
    case None
    then show ?thesis using held by (simp add: update_v_cruise_non_pcm_def act held_def)
  next
    case (Some a)
    then obtain long where a: "acting_button cs v = Some (b, long)" using was by (cases a) blast
    from was [OF a] have "button_change_states v b = (False, True)" using held by (simp add: held_def)
    then show ?thesis using a assms(3) stepped
      by (simp add: update_v_cruise_non_pcm_def act free_road_def Let_def cruise_defs)
  qed
  then show "v_cruise_kph w = of_int (case acting_button cs v of None \<Rightarrow> k | Some (_, long) \<Rightarrow> pressed_speed b long v0 k)"
    using idle by (simp add: w speed_limit_non_pcm_kph)
  show "button_change_states w b = (if b \<in> fst ` set (cc_buttonEvents cs) then (False, True) else button_change_states v b)"
    using av assms(3) by (simp add: w_def update_change_states [OF assms(1,7)] free_road_def)
  note frame = w update_button_timers_def update_speed_limit_assist_v_cruise_non_pcm_def based_def get_minimum_set_speed_def Let_def
  show "button_timers w = run_timers cruise_buttons (cc_buttonEvents cs) (button_timers v)"
    "speed_limit_state w = speed_limit_state v"
    by (simp_all add: frame)
  have "custom_acc_enabled ?u = custom_acc_enabled v" "short_increment ?u = short_increment v" "long_increment ?u = long_increment v"
    by (simp_all add: update_v_cruise_non_pcm_def based_def get_minimum_set_speed_def Let_def split: option.split prod.split)
  then show "custom_acc_enabled w = custom_acc_enabled v" "short_increment w = short_increment v" "long_increment w = long_increment v"
    by (simp_all add: w update_button_timers_def update_speed_limit_assist_v_cruise_non_pcm_def Let_def)
qed

text \<open>A press, a frame with the button held, and the release.\<close>

lemma acting_button_press:
  assumes "held b 0 k v0 v" "cc_buttonEvents cs = [(b, True)]"
  shows "acting_button cs v = None"
  using assms by (simp add: acting_button_def held_def cruise_buttons_def)

lemma acting_button_hold:
  assumes "held b n k v0 v" "cc_buttonEvents cs = []" "b \<in> set cruise_buttons" "n \<noteq> 0"
  shows "acting_button cs v = (if 50 dvd n then Some (b, True) else None)"
  using assms by (auto simp: acting_button_def held_def cruise_buttons_def CRUISE_LONG_PRESS_def mod_eq_0_iff_dvd)

lemma acting_button_release:
  assumes "held b n k v0 v" "cc_buttonEvents cs = [(b, False)]" "b \<in> set cruise_buttons"
  shows "acting_button cs v = (if 50 < n then None else Some (b, False))"
  using assms by (auto simp: acting_button_def held_def cruise_buttons_def CRUISE_LONG_PRESS_def)

definition frame_with :: "cruise_car \<Rightarrow> (ButtonEventType \<times> bool) list \<Rightarrow> cruise_car" where
  "frame_with cs evs = cs\<lparr>cc_buttonEvents := evs\<rparr>"

lemma frame_with_simps [simp]:
  "cc_buttonEvents (frame_with cs evs) = evs" "free_road (frame_with cs evs) = free_road cs"
  by (simp_all add: frame_with_def free_road_def)

lemma run_timers_simps:
  "run_timers cruise_buttons [] t c = (if c \<in> set cruise_buttons \<and> 0 < t c then t c + 1 else t c)"
  "b \<in> set cruise_buttons \<Longrightarrow> run_timers cruise_buttons [(b, x)] t c =
    (if c = b then (if x then 1 else 0) else if c \<in> set cruise_buttons \<and> 0 < t c then t c + 1 else t c)"
  by (simp_all add: run_timers_def)

lemma held_update:
  assumes setting: "\<not> pcmCruise cp" "pcmCruiseSpeed cp" "free_road cs" "clip_spec (cruise_math env)"
      "round1_spec env"
    and held: "held b n k v0 v" and b: "b \<in> set cruise_buttons"
    and act: "acting_button cs v = a" "a = None \<or> (\<exists>long. a = Some (b, long)) \<and> n \<noteq> 0"
    and timers: "\<And>c. c \<in> set cruise_buttons \<Longrightarrow>
      run_timers cruise_buttons (cc_buttonEvents cs) (button_timers v) c = (if c = b then n' else 0)"
    and event: "n' \<noteq> 0 \<Longrightarrow> n \<noteq> 0 \<or> b \<in> fst ` set (cc_buttonEvents cs)"
    and k': "k' = (case a of None \<Rightarrow> k | Some (_, long) \<Rightarrow> pressed_speed b long v0 k)"
  shows "held b n' k' v0 (update_v_cruise env cp cs True True v)"
proof -
  have was: "b' = b \<and> n \<noteq> 0" if "acting_button cs v = Some (b', long)" for b' long using that act by auto
  note upd = update_free [OF setting held b was]
  have "v_cruise_kph (update_v_cruise env cp cs True True v) = of_int k'" using upd(1) by (simp only: act(1) k')
  moreover have "8 \<le> k' \<and> k' \<le> 200"
    using held pressed_speed_range by (auto simp: k' held_def split: option.split)
  moreover have "n' \<noteq> 0 \<longrightarrow> button_change_states (update_v_cruise env cp cs True True v) b = (False, True)"
    using upd(3) event held by (auto simp: held_def)
  ultimately show ?thesis using held upd(2,4-7) by (simp add: held_def timers)
qed

lemma held_press:
  assumes "\<not> pcmCruise cp" "pcmCruiseSpeed cp" "free_road cs" "clip_spec (cruise_math env)"
    "round1_spec env" and held: "held b 0 k v0 v" and b: "b \<in> set cruise_buttons"
  shows "held b 1 k v0 (update_v_cruise env cp (frame_with cs [(b, True)]) True True v)"
  using held b assms(3)
  by (intro held_update [OF assms(1,2) _ assms(4-7) acting_button_press [OF held]])
    (simp_all add: run_timers_simps held_def)

lemma held_hold:
  assumes "\<not> pcmCruise cp" "pcmCruiseSpeed cp" "free_road cs" "clip_spec (cruise_math env)"
    "round1_spec env" and held: "held b n k v0 v" and b: "b \<in> set cruise_buttons" and n: "0 < n"
  shows "held b (n + 1) (if 50 dvd n then pressed_speed b True v0 k else k) v0
    (update_v_cruise env cp (frame_with cs []) True True v)"
  using held b assms(3) n
  by (intro held_update [OF assms(1,2) _ assms(4-7) acting_button_hold [OF held _ b]])
    (simp_all add: run_timers_simps held_def, blast)

lemma held_release:
  assumes "\<not> pcmCruise cp" "pcmCruiseSpeed cp" "free_road cs" "clip_spec (cruise_math env)"
    "round1_spec env" and held: "held b n k v0 v" and b: "b \<in> set cruise_buttons" and n: "0 < n"
  shows "held b 0 (if 50 < n then k else pressed_speed b False v0 k) v0
    (update_v_cruise env cp (frame_with cs [(b, False)]) True True v)"
  using held b assms(3) n
  by (intro held_update [OF assms(1,2) _ assms(4-7) acting_button_release [OF held _ b]])
    (simp_all add: run_timers_simps held_def, blast)

definition cruise_frames :: "cruise_env \<Rightarrow> cruise_config \<Rightarrow> cruise_car list \<Rightarrow> v_cruise \<Rightarrow> v_cruise" where
  "cruise_frames env cp = fold (\<lambda>cs. update_v_cruise env cp cs True True)"

lemma held_frames:
  assumes "\<not> pcmCruise cp" "pcmCruiseSpeed cp" "free_road cs" "clip_spec (cruise_math env)"
    "round1_spec env" "held b 0 k v0 v" "b \<in> set cruise_buttons"
  shows "held b (int n + 1) ((pressed_speed b True v0 ^^ (n div 50)) k) v0
    (cruise_frames env cp (frame_with cs [(b, True)] # replicate n (frame_with cs [])) v)"
proof (induction n)
  case 0
  then show ?case using held_press [OF assms] by (simp add: cruise_frames_def)
next
  case (Suc n)
  have snoc: "replicate (Suc n) x = replicate n x @ [x]" for x :: cruise_car by (simp add: replicate_append_same)
  have "50 dvd int n + 1 \<longleftrightarrow> 50 dvd Suc n" using int_dvd_int_iff [of 50 "Suc n"] by (simp add: add.commute)
  then have "(if 50 dvd int n + 1 then pressed_speed b True v0 ((pressed_speed b True v0 ^^ (n div 50)) k)
      else (pressed_speed b True v0 ^^ (n div 50)) k) = (pressed_speed b True v0 ^^ (Suc n div 50)) k"
    by (auto simp: div_Suc dvd_eq_mod_eq_0)
  then show ?case
    using held_hold [OF assms(1-5) Suc.IH assms(7)] by (simp add: cruise_frames_def snoc del: replicate_Suc)
qed

text \<open>C23: A press of plus or minus, held for any number of frames and released, on a car without cruise control of its own
  that is engaged and moving, without gas, at a whole number of km/h between 8 and 200 in metric units, while no speed
  limit is followed. Held for less than half a second, the press changes the speed once, at the release; held longer, once
  every half second, and the release changes nothing more. Each change is \<open>pressed_speed\<close>, computed in whole numbers: by default a
  step of 1 for a short press, and for a long one a step to the next multiple of 5; with custom increments, which are cut
  to 1 to 10, a step of the increment of this kind of press, which goes to the next multiple if, and only if, the increment is 5 or 10.
  The result is cut to 8 to 200. All roundings of the floats are exact, and the buttons are free again afterwards.\<close>

theorem press_and_release:
  assumes "\<not> pcmCruise cp" "pcmCruiseSpeed cp" "cc_available cs" "\<not> cc_gasPressed cs" "\<not> cc_standstill cs"
    and "clip_spec (cruise_math env)" "round1_spec env" "b \<in> {Button_decelCruise, Button_accelCruise}"
    and "v_cruise_kph v = of_int k" "8 \<le> k" "k \<le> 200" "button_timers v Button_decelCruise = 0" "button_timers v Button_accelCruise = 0"
    and "\<not> assist_engaged (speed_limit_state v)"
  shows "(let w = cruise_frames env cp
            ([cs\<lparr>cc_buttonEvents := [(b, True)]\<rparr>] @ replicate n (cs\<lparr>cc_buttonEvents := []\<rparr>) @ [cs\<lparr>cc_buttonEvents := [(b, False)]\<rparr>]) v
    in v_cruise_kph w = of_int (if n < 50 then pressed_speed b False v k else (pressed_speed b True v ^^ (n div 50)) k) \<and>
       button_timers w Button_decelCruise = 0 \<and> button_timers w Button_accelCruise = 0)"
proof -
  have b: "b \<in> set cruise_buttons" using assms(8) by (auto simp: cruise_buttons_def)
  have free: "free_road cs" using assms(3-5) by (simp add: free_road_def)
  have "held b 0 k v v" using assms(9-14) by (simp add: held_def cruise_buttons_def)
  note frames = held_frames [OF assms(1,2) free assms(6,7) this b, of n]
  have "held b 0 (if n < 50 then pressed_speed b False v k else (pressed_speed b True v ^^ (n div 50)) k) v
      (cruise_frames env cp (frame_with cs [(b, True)] # replicate n (frame_with cs []) @ [frame_with cs [(b, False)]]) v)"
    using held_release [OF assms(1,2) free assms(6,7) frames b] by (cases "n < 50") (simp_all add: cruise_frames_def)
  then show ?thesis by (simp add: held_def cruise_buttons_def frame_with_def Let_def)
qed

section \<open>Concrete runs\<close>

definition plain_cruise :: cruise_env where
  "plain_cruise = \<lparr>cruise_math = plain_math, round1 = (\<lambda>x. py_round_digits x 1)\<rparr>"

lemma plain_cruise_simps [simp]:
  "clip_spec (cruise_math plain_cruise)" "cruise_math plain_cruise = plain_math"
  "round1 plain_cruise x = py_round_digits x 1"
  by (simp_all add: plain_cruise_def)

lemma plain_cruise_round: "round1_spec plain_cruise"
proof -
  have "round_half_even (of_int n * 10) = n * 10" for n
    using round_half_even_of_int [of "n * 10"] by simp
  then show ?thesis by (simp add: round1_spec_def py_round_digits_def)
qed

definition own_cruise :: cruise_config where
  "own_cruise = \<lparr>pcmCruise = False, pcmCruiseSpeed = True\<rparr>"

definition factory_increments :: cruise_params where
  "factory_increments = \<lparr>CustomAccIncrementsEnabled = False, CustomAccShortPressIncrement = 1, CustomAccLongPressIncrement = 5\<rparr>"

definition driving :: "(ButtonEventType \<times> bool) list \<Rightarrow> cruise_car" where
  "driving evs = \<lparr>cc_vEgo = 15, cc_gasPressed = False, cc_available = True, cc_standstill = False, cc_speed = 15,
     cc_speedCluster = 15, cc_buttonEvents = evs\<rparr>"

text \<open>Plus, held for 1.2 seconds at 42 km/h: first to 45, then to 50.\<close>

lemma press_and_release_witness:
  "v_cruise_kph (cruise_frames plain_cruise own_cruise
     ([driving [(Button_accelCruise, True)]] @ replicate 120 (driving []) @ [driving [(Button_accelCruise, False)]])
     ((VCruiseHelper_init factory_increments)\<lparr>v_cruise_kph := 42\<rparr>)) = 50"
proof -
  let ?v = "(VCruiseHelper_init factory_increments)\<lparr>v_cruise_kph := 42\<rparr>"
  have "(pressed_speed Button_accelCruise True ?v ^^ (120 div 50)) 42 = 50"
    by (simp add: pressed_speed_def press_snaps_def press_increment_def VCruiseHelper_init_def factory_increments_def numeral_2_eq_2)
  then show ?thesis
    using press_and_release [of own_cruise "driving []" plain_cruise Button_accelCruise ?v 42 120] plain_cruise_round
    by (simp add: own_cruise_def driving_def VCruiseHelper_init_def assist_engaged_def Let_def)
qed

definition quiet_input :: "bool \<Rightarrow> (ButtonEventType \<times> bool) list \<Rightarrow> card_input" where
  "quiet_input en evs =
    \<lparr>ci_params = None, ci_car = driving evs, ci_enabled = en, ci_is_metric = True, ci_experimental_mode = False,
     ci_iq_dynamic_mode = False, ci_limit_valid = False, ci_limit_last_valid = False, ci_limit_final_last = 0,
     ci_assist = Assist_disabled, ci_controls = True\<rparr>"

text \<open>A driver at 54 km/h engages with minus.\<close>

lemma set_speed_in_range_witness:
  "v_cruise_kph (card_helper (card_run own_cruise factory_increments
     ([(plain_cruise, quiet_input False [(Button_decelCruise, True)])] @ [(plain_cruise, quiet_input True [(Button_decelCruise, False)])]))) \<le> 255"
  using set_speed_in_range [of own_cruise "[(plain_cruise, quiet_input False [(Button_decelCruise, True)])]" plain_cruise
      "quiet_input True [(Button_decelCruise, False)]" factory_increments]
  by (auto simp: own_cruise_def Let_def)

text \<open>Plus is pressed and released while engaged.\<close>

definition engaged_press :: "(cruise_env \<times> card_input) list" where
  "engaged_press = [(plain_cruise, quiet_input True []), (plain_cruise, quiet_input True [(Button_accelCruise, True)])]"

lemma own_cruise_simps [simp]: "\<not> pcmCruise own_cruise" "pcmCruiseSpeed own_cruise"
  by (simp_all add: own_cruise_def)

lemma quiet_input_simps [simp]:
  "ci_car (quiet_input en evs) = driving evs" "ci_enabled (quiet_input en evs) = en" "ci_params (quiet_input en evs) = None"
  "ci_is_metric (quiet_input en evs)" "ci_assist (quiet_input en evs) = Assist_disabled" "ci_controls (quiet_input en evs)"
  "ci_experimental_mode (quiet_input en evs) = False"
  by (simp_all add: quiet_input_def)

lemma driving_simps [simp]:
  "cc_available (driving evs)" "cc_buttonEvents (driving evs) = evs" "\<not> cc_standstill (driving evs)"
  "free_road (driving evs)" "frame_with (driving []) evs = driving evs"
  by (simp_all add: driving_def free_road_def frame_with_def)

lemma held_assisted: "held b n k v0 v \<Longrightarrow> \<not> assist_engaged (ci_assist i) \<Longrightarrow> held b n k v0 (assisted i v)"
  by (simp add: held_def assisted_def update_speed_limit_assist_def split: prod.split)

lemma quiet_engaged_step:
  "card_CC_prev_enabled c \<Longrightarrow> card_helper (card_step env own_cruise (quiet_input True evs) c) =
     update_v_cruise env own_cruise (driving evs) True True (assisted (quiet_input True evs) (card_helper c))"
  "card_CC_prev_enabled (card_step env own_cruise (quiet_input en evs) c) = en"
  by (simp_all add: card_helper_step card_cruise_def with_params_def assisted_def card_step_def Let_def)

lemma initialize_unset:
  assumes "\<not> pcmCruise cp" "v_cruise_kph v = 255" "cc_vEgo cs = 0" "clip_spec (cruise_math env)"
  shows "initialize_v_cruise env cp cs False d v = v\<lparr>v_cruise_kph := 40, v_cruise_cluster_kph := 40\<rparr>"
  using assms by (simp add: initialize_v_cruise_def v_cruise_initialized_def np_clip_eq cruise_defs py_round_def round_half_even_of_int [of 40, simplified])

lemma update_settings:
  assumes "\<not> pcmCruise cp"
  shows "custom_acc_enabled (update_v_cruise env cp cs en m v) = custom_acc_enabled v"
    "short_increment (update_v_cruise env cp cs en m v) = short_increment v"
    "long_increment (update_v_cruise env cp cs en m v) = long_increment v"
    "speed_limit_state (update_v_cruise env cp cs en m v) = speed_limit_state v"
    "cc_available cs \<Longrightarrow>
      button_timers (update_v_cruise env cp cs en m v) = run_timers cruise_buttons (cc_buttonEvents cs) (button_timers v)"
proof -
  define es where "es = update_enabled_state cp cs en (based v)"
  define u where "u = update_v_cruise_non_pcm env cs (fst es) m (snd es)"
  have es: "custom_acc_enabled (snd es) = custom_acc_enabled v \<and> short_increment (snd es) = short_increment v \<and>
      long_increment (snd es) = long_increment v \<and> speed_limit_state (snd es) = speed_limit_state v"
    by (simp add: es_def update_enabled_state_def based_def get_minimum_set_speed_def Let_def)
  have u: "custom_acc_enabled u = custom_acc_enabled v \<and> short_increment u = short_increment v \<and>
      long_increment u = long_increment v \<and> speed_limit_state u = speed_limit_state v"
    using es by (simp add: u_def update_v_cruise_non_pcm_def Let_def split: option.split prod.split)
  have timers: "button_timers u = button_timers v" by (simp add: u_def es_def update_enabled_state_frame)
  note defs = update_button_timers_def update_speed_limit_assist_v_cruise_non_pcm_def Let_def
  have upd: "update_v_cruise env cp cs en m v = (if cc_available cs
      then update_button_timers cs en ((update_speed_limit_assist_v_cruise_non_pcm env u)\<lparr>v_cruise_cluster_kph :=
        v_cruise_kph (update_speed_limit_assist_v_cruise_non_pcm env u)\<rparr>)
      else (based v)\<lparr>v_cruise_kph := 255, v_cruise_cluster_kph := 255\<rparr>)"
    by (simp add: update_available [OF assms] update_unavailable u_def es_def)
  show "custom_acc_enabled (update_v_cruise env cp cs en m v) = custom_acc_enabled v"
    "short_increment (update_v_cruise env cp cs en m v) = short_increment v"
    "long_increment (update_v_cruise env cp cs en m v) = long_increment v"
    "speed_limit_state (update_v_cruise env cp cs en m v) = speed_limit_state v"
    unfolding upd using u by (simp_all add: defs based_def get_minimum_set_speed_def)
  show "button_timers (update_v_cruise env cp cs en m v) = run_timers cruise_buttons (cc_buttonEvents cs) (button_timers v)"
    if "cc_available cs"
    unfolding upd using that timers by (simp add: defs)
qed

lemma engaged_start:
  "held Button_accelCruise 0 40 (VCruiseHelper_init factory_increments)
     (card_helper (card_run own_cruise factory_increments [(plain_cruise, quiet_input True [])]))"
proof -
  let ?start = "VCruiseHelper_init factory_increments"
  let ?v = "update_v_cruise plain_cruise own_cruise (driving []) True True (assisted (quiet_input True []) ?start)"
  have start: "v_cruise_kph ?start = 255" "button_timers ?start = (\<lambda>_. 0)"
    by (simp_all add: VCruiseHelper_init_def cruise_defs)
  have settings: "custom_acc_enabled (assisted i v) = custom_acc_enabled v" "short_increment (assisted i v) = short_increment v"
    "long_increment (assisted i v) = long_increment v" "v_cruise_kph (assisted i v) = v_cruise_kph v"
    "button_timers (assisted i v) = button_timers v" "speed_limit_state (assisted i v) = ci_assist i" for i v
    by (simp_all add: assisted_def update_speed_limit_assist_def split: prod.split)
  have "v_cruise_kph ?v = 255"
    using update_speed_cases [of own_cruise "driving []" plain_cruise True True "assisted (quiet_input True []) ?start"]
    by (simp add: settings start button_sets_speed_def acting_button_def cruise_buttons_def assist_sets_speed_def assist_engaged_def)
  moreover have "button_timers ?v = (\<lambda>_. 0)"
    by (simp add: update_settings settings start run_timers_def fun_eq_iff)
  moreover have "speed_limit_state ?v = Assist_disabled"
    "custom_acc_enabled ?v = custom_acc_enabled ?start" "short_increment ?v = short_increment ?start"
    "long_increment ?v = long_increment ?start"
    by (simp_all add: update_settings settings)
  ultimately have v: "v_cruise_kph ?v = 255" "button_timers ?v = (\<lambda>_. 0)" "speed_limit_state ?v = Assist_disabled"
    "custom_acc_enabled ?v = custom_acc_enabled ?start" "short_increment ?v = short_increment ?start"
    "long_increment ?v = long_increment ?start" by simp_all
  have "card_helper (card_run own_cruise factory_increments [(plain_cruise, quiet_input True [])]) =
      initialize_v_cruise plain_cruise own_cruise (card_CS_prev (card_init factory_increments)) False
        (ci_iq_dynamic_mode (quiet_input True [])) ?v"
    by (simp add: card_run_def card_helper_step card_cruise_def with_params_def assisted_def card_init_def Let_def)
  also have "\<dots> = ?v\<lparr>v_cruise_kph := 40, v_cruise_cluster_kph := 40\<rparr>"
    using v(1) by (intro initialize_unset) (simp_all add: card_init_def)
  finally show ?thesis using v by (simp add: held_def assist_engaged_def)
qed

lemma engaged_press_run:
  "v_cruise_kph (card_helper (card_run own_cruise factory_increments engaged_press)) = 40"
  "v_cruise_kph (card_helper (card_run own_cruise factory_increments
     (engaged_press @ [(plain_cruise, quiet_input True [(Button_accelCruise, False)])]))) = 41"
  "card_CC_prev_enabled (card_run own_cruise factory_increments engaged_press)"
proof -
  let ?c = "card_run own_cruise factory_increments [(plain_cruise, quiet_input True [])]"
  let ?c2 = "card_run own_cruise factory_increments engaged_press"
  have c2: "?c2 = card_step plain_cruise own_cruise (quiet_input True [(Button_accelCruise, True)]) ?c"
    by (simp add: card_run_def engaged_press_def)
  show on2: "card_CC_prev_enabled ?c2" by (simp add: c2 quiet_engaged_step)
  have on: "card_CC_prev_enabled ?c" by (simp add: card_run_def quiet_engaged_step)
  have quiet: "\<not> assist_engaged (ci_assist (quiet_input True evs))" for evs by (simp add: assist_engaged_def)
  have b: "Button_accelCruise \<in> set cruise_buttons" by (simp add: cruise_buttons_def)
  note setting = own_cruise_simps driving_simps(4) [of "[]"] plain_cruise_simps(1) plain_cruise_round
  note press = held_press [OF setting held_assisted [OF engaged_start quiet] b]
  have held2: "held Button_accelCruise 1 40 (VCruiseHelper_init factory_increments) (card_helper ?c2)"
    using press [of "[(Button_accelCruise, True)]"] by (simp add: c2 quiet_engaged_step(1) [OF on])
  then show "v_cruise_kph (card_helper ?c2) = 40" by (simp add: held_def)
  have plus: "pressed_speed Button_accelCruise False (VCruiseHelper_init factory_increments) 40 = 41"
    by (simp add: pressed_speed_def press_snaps_def press_increment_def VCruiseHelper_init_def factory_increments_def)
  have "held Button_accelCruise 0 41 (VCruiseHelper_init factory_increments)
      (card_helper (card_step plain_cruise own_cruise (quiet_input True [(Button_accelCruise, False)]) ?c2))"
    using held_release [OF setting held_assisted [OF held2 quiet] b, of "[(Button_accelCruise, False)]"]
    by (simp add: quiet_engaged_step(1) [OF on2] plus)
  then show "v_cruise_kph (card_helper (card_run own_cruise factory_increments
      (engaged_press @ [(plain_cruise, quiet_input True [(Button_accelCruise, False)])]))) = 41"
    by (simp add: held_def)
qed


end
