(* ===== verification/FwMatch.thy ===== *)
theory FwMatch
  imports PyBytes PyFloat UdsTypes "HOL-Library.AList"
begin

text \<open>
  Identifying the car (\<^verbatim>\<open>opendbc/car/fw_versions.py\<close>, \<^verbatim>\<open>fingerprints.py\<close>, \<^verbatim>\<open>car_helpers.py\<close>): the firmware versions the
  control units answered with are matched against a database, exactly first and fuzzily then; the messages on the
  bus are matched against older tables of addresses and lengths. The database is an argument, per brand its query
  configuration and its table of models; a dictionary is an association list with distinct keys, a set of versions
  a list without duplicates in any order.
\<close>

section \<open>The database\<close>

datatype Ecu =
    Ecu_eps | Ecu_abs | Ecu_fwdRadar | Ecu_fwdCamera | Ecu_engine | Ecu_unknown | Ecu_transmission | Ecu_hybrid | Ecu_inverter
  | Ecu_srs | Ecu_gateway | Ecu_hud | Ecu_combinationMeter | Ecu_electricBrakeBooster | Ecu_shiftByWire | Ecu_adas
  | Ecu_cornerRadar | Ecu_hvac | Ecu_parkingAdas | Ecu_epb | Ecu_telematics | Ecu_body | Ecu_dsu | Ecu_vsa
  | Ecu_programmedFuelInjection | Ecu_debug

type_synonym addr_type = "int \<times> int option"
type_synonym ecu_key = "Ecu \<times> addr_type"
type_synonym fw_table = "(ecu_key \<times> bytes list) list"
type_synonym live_fw = "(addr_type \<times> bytes list) list"

definition ESSENTIAL_ECUS :: "Ecu list" where
  "ESSENTIAL_ECUS = [Ecu_engine, Ecu_eps, Ecu_abs, Ecu_fwdRadar, Ecu_fwdCamera, Ecu_vsa]"

definition FUZZY_EXCLUDE_ECUS :: "Ecu list" where
  "FUZZY_EXCLUDE_ECUS = [Ecu_fwdCamera, Ecu_fwdRadar, Ecu_eps, Ecu_debug]"

record fw_request =
  fr_request :: "bytes list"
  fr_response :: "bytes list"
  whitelist_ecus :: "Ecu list"
  rx_offset :: int
  fr_bus :: int
  auxiliary :: bool
  fr_logging :: bool
  obd_multiplexing :: bool

record fw_config =
  fw_requests :: "fw_request list"
  non_essential_ecus :: "(Ecu \<times> string list) list"
  extra_ecus :: "ecu_key list"
  brand_fuzzy :: "(live_fw \<Rightarrow> string \<Rightarrow> (string \<times> fw_table) list \<Rightarrow> string set) option"

text \<open>One brand: \<open>FW_QUERY_CONFIGS[brand]\<close> and \<open>VERSIONS[brand]\<close>.\<close>

record brand_entry =
  brand_config :: fw_config
  brand_models :: "(string \<times> fw_table) list"

type_synonym fw_db = "(string \<times> brand_entry) list"

definition FW_VERSIONS :: "fw_db \<Rightarrow> (string \<times> fw_table) list" where
  "FW_VERSIONS db = concat (map (\<lambda>(b, e). brand_models e) db)"

definition MODEL_TO_BRAND :: "fw_db \<Rightarrow> (string \<times> string) list" where
  "MODEL_TO_BRAND db = concat (map (\<lambda>(b, e). map (\<lambda>(c, fws). (c, b)) (brand_models e)) db)"

text \<open>The keys of a dictionary are distinct: brands, models, and the control units of a model.\<close>

definition fw_db_wf :: "fw_db \<Rightarrow> bool" where
  "fw_db_wf db \<longleftrightarrow> distinct (map fst db) \<and> distinct (map fst (FW_VERSIONS db))"

section \<open>Configurations\<close>

text \<open>\<^verbatim>\<open>FwQueryConfig.__post_init__\<close>: the assertions, and a copy on the second panda for every auxiliary request.\<close>

definition config_asserts :: "fw_config \<Rightarrow> bool" where
  "config_asserts c \<longleftrightarrow>
     (extra_ecus c \<noteq> [] \<longrightarrow> fw_requests c \<noteq> []) \<and>
     list_all (\<lambda>(ecu, _). list_ex (\<lambda>r. ecu \<in> set (whitelist_ecus r)) (fw_requests c) \<or>
       list_ex (\<lambda>r. whitelist_ecus r = []) (fw_requests c)) (extra_ecus c) \<and>
     list_all (\<lambda>(ecu, _). ecu \<in> set ESSENTIAL_ECUS) (non_essential_ecus c) \<and>
     list_all (\<lambda>r. length (fr_request r) = length (fr_response r) \<and> \<not> (auxiliary r \<and> fr_bus r = 1 \<and> obd_multiplexing r))
       (fw_requests c)"

definition FwQueryConfig_init :: "fw_config \<Rightarrow> fw_config result" where
  "FwQueryConfig_init c =
    (if config_asserts c
     then Inr (c\<lparr>fw_requests := fw_requests c @ map (\<lambda>r. r\<lparr>fr_bus := fr_bus r + 4\<rparr>) (filter auxiliary (fw_requests c))\<rparr>)
     else Inl AssertionError)"

definition get_all_ecus :: "fw_config \<Rightarrow> (string \<times> fw_table) list \<Rightarrow> bool \<Rightarrow> ecu_key list" where
  "get_all_ecus c models include_extra =
    remdups (concat (map (\<lambda>(_, fws). map fst fws) models) @ (if include_extra then extra_ecus c else []))"

section \<open>Live firmware versions\<close>

record car_fw =
  fwVersion :: bytes
  fw_address :: int
  subAddress :: int
  fw_brand :: string
  fw_logging :: bool

definition is_brand :: "string \<Rightarrow> string option \<Rightarrow> bool" where
  "is_brand brand filter_brand \<longleftrightarrow> filter_brand = None \<or> filter_brand = Some brand"

definition build_fw_dict :: "car_fw list \<Rightarrow> string option \<Rightarrow> live_fw" where
  "build_fw_dict fws filter_brand =
    fold (\<lambda>fw d. if is_brand (fw_brand fw) filter_brand \<and> \<not> fw_logging fw
                 then let sub_addr = (if subAddress fw \<noteq> 0 then Some (subAddress fw) else None)
                      in AList.map_default (fw_address fw, sub_addr) [fwVersion fw] (List.insert (fwVersion fw)) d
                 else d) fws []"

definition live_get :: "live_fw \<Rightarrow> addr_type \<Rightarrow> bytes list" where
  "live_get live addr = (case map_of live addr of None \<Rightarrow> [] | Some vs \<Rightarrow> vs)"

definition brand_candidates :: "fw_db \<Rightarrow> string option \<Rightarrow> (string \<times> fw_table) list" where
  "brand_candidates db match_brand =
    filter (\<lambda>(c, _). case map_of (MODEL_TO_BRAND db) c of None \<Rightarrow> False | Some b \<Rightarrow> is_brand b match_brand) (FW_VERSIONS db)"

section \<open>Fuzzy matching\<close>

text \<open>The lookup table from address and version to the models that have it, with repetitions.\<close>

definition all_fw_versions :: "fw_db \<Rightarrow> string option \<Rightarrow> string option \<Rightarrow> ((addr_type \<times> bytes) \<times> string) list" where
  "all_fw_versions db match_brand exclude =
    concat (map (\<lambda>(c, fws).
      if exclude = Some c then []
      else concat (map (\<lambda>((ecu, addr), vs). if ecu \<in> set FUZZY_EXCLUDE_ECUS then [] else map (\<lambda>v. ((addr, v), c)) vs) fws))
      (brand_candidates db match_brand))"

definition fw_candidates :: "((addr_type \<times> bytes) \<times> string) list \<Rightarrow> addr_type \<times> bytes \<Rightarrow> string list" where
  "fw_candidates table key = map snd (filter (\<lambda>(k, _). k = key) table)"

fun fuzzy_loop ::
  "((addr_type \<times> bytes) \<times> string) list \<Rightarrow> (addr_type \<times> bytes) list \<Rightarrow> addr_type list \<Rightarrow> string option \<Rightarrow>
   (addr_type list \<times> string option) option" where
  "fuzzy_loop table [] matched m = Some (matched, m)"
| "fuzzy_loop table (kv # rest) matched m =
    (case fw_candidates table kv of
       [c] \<Rightarrow> (if m = None then fuzzy_loop table rest (List.insert (fst kv) matched) (Some c)
               else if m \<noteq> Some c then None
               else fuzzy_loop table rest (List.insert (fst kv) matched) m)
     | _ \<Rightarrow> fuzzy_loop table rest matched m)"

definition live_pairs :: "live_fw \<Rightarrow> (addr_type \<times> bytes) list" where
  "live_pairs live = concat (map (\<lambda>(addr, vs). map (Pair addr) vs) live)"

definition match_fw_to_car_fuzzy :: "fw_db \<Rightarrow> live_fw \<Rightarrow> string option \<Rightarrow> string option \<Rightarrow> string set" where
  "match_fw_to_car_fuzzy db live match_brand exclude =
    (case fuzzy_loop (all_fw_versions db match_brand exclude) (live_pairs live) [] None of
       None \<Rightarrow> {}
     | Some (matched, None) \<Rightarrow> {}
     | Some (matched, Some m) \<Rightarrow> (if m \<noteq> [] \<and> 2 \<le> length matched then {m} else {}))"

section \<open>Exact matching\<close>

definition non_essential :: "fw_db \<Rightarrow> string \<Rightarrow> Ecu \<Rightarrow> bool" where
  "non_essential db candidate ecu =
    (case map_of (MODEL_TO_BRAND db) candidate of
       None \<Rightarrow> False
     | Some b \<Rightarrow>
         (case map_of db b of
            None \<Rightarrow> False
          | Some e \<Rightarrow>
              (case map_of (non_essential_ecus (brand_config e)) ecu of None \<Rightarrow> False | Some cars \<Rightarrow> candidate \<in> set cars)))"

definition extra_versions :: "(string \<times> fw_table) list \<Rightarrow> string \<Rightarrow> ecu_key \<Rightarrow> bytes list" where
  "extra_versions extra candidate ecu =
    (case map_of extra candidate of
       None \<Rightarrow> []
     | Some fws \<Rightarrow> (case map_of fws ecu of None \<Rightarrow> [] | Some vs \<Rightarrow> vs))"

text \<open>The body of the loop over the control units of a candidate; false is the branch that makes it invalid.\<close>

definition ecu_accepts ::
  "fw_db \<Rightarrow> (string \<times> fw_table) list \<Rightarrow> live_fw \<Rightarrow> string \<Rightarrow> ecu_key \<times> bytes list \<Rightarrow> bool" where
  "ecu_accepts db extra live candidate = (\<lambda>((ecu_type, addr), expected).
    let expected_versions = expected @ extra_versions extra candidate (ecu_type, addr);
        found_versions = live_get live addr
    in if found_versions = [] \<and> non_essential db candidate ecu_type then True
       else if found_versions = [] \<and> ecu_type \<notin> set ESSENTIAL_ECUS then True
       else if ecu_type = Ecu_debug then True
       else list_ex (\<lambda>v. v \<in> set expected_versions) found_versions)"

definition match_fw_to_car_exact ::
  "fw_db \<Rightarrow> live_fw \<Rightarrow> string option \<Rightarrow> (string \<times> fw_table) list \<Rightarrow> string set" where
  "match_fw_to_car_exact db live match_brand extra =
    (let candidates = brand_candidates db match_brand;
         invalid = map fst (filter (\<lambda>(c, fws). \<not> list_all (ecu_accepts db extra live c) fws) candidates)
     in set (map fst candidates) - set invalid)"

section \<open>Matching over all brands\<close>

fun match_brands ::
  "bool \<Rightarrow> (live_fw \<Rightarrow> string option \<Rightarrow> string set) \<Rightarrow> car_fw list \<Rightarrow> string \<Rightarrow> fw_db \<Rightarrow> string set \<Rightarrow> string set" where
  "match_brands exact_match match_func fws vin [] matches = matches"
| "match_brands exact_match match_func fws vin ((brand, e) # rest) matches =
    (let live = build_fw_dict fws (Some brand);
         matches = matches \<union> match_func live (Some brand);
         matches = (case brand_fuzzy (brand_config e) of
             None \<Rightarrow> matches
           | Some f \<Rightarrow> (if \<not> exact_match \<and> matches = {} then matches \<union> f live vin (brand_models e) else matches))
     in match_brands exact_match match_func fws vin rest matches)"

definition match_fw_to_car :: "fw_db \<Rightarrow> car_fw list \<Rightarrow> string \<Rightarrow> bool \<Rightarrow> bool \<Rightarrow> bool \<times> string set" where
  "match_fw_to_car db fws vin allow_exact allow_fuzzy =
    (let exact = (if allow_exact then match_brands True (\<lambda>live b. match_fw_to_car_exact db live b []) fws vin db {} else {})
     in if exact \<noteq> {} then (True, exact)
        else let fuzzy = (if allow_fuzzy then match_brands False (\<lambda>live b. match_fw_to_car_fuzzy db live b None) fws vin db {} else {})
             in if fuzzy \<noteq> {} then (False, fuzzy) else (True, {}))"

datatype FingerprintSource = Source_can | Source_fw | Source_fixed

text \<open>The end of \<^verbatim>\<open>fingerprint\<close>: a single candidate of the firmware query overrides the car found on the bus, and a fixed
  one overrides both.\<close>

definition choose_car :: "string option \<Rightarrow> bool \<times> string set \<Rightarrow> string \<Rightarrow> string option \<times> FingerprintSource \<times> bool" where
  "choose_car can_car = (\<lambda>(exact_fw_match, candidates) fixed.
    let (car, source, exact_match) =
          (if card candidates = 1 then (Some (the_elem candidates), Source_fw, exact_fw_match) else (can_car, Source_can, True))
    in if fixed \<noteq> [] then (Some fixed, Source_fixed, exact_match) else (car, source, exact_match))"

section \<open>The order of the queries\<close>

text \<open>The brands sorted by the number and then the share of their control units that are present; brands without any are
  skipped, and the first one whose versions match one car ends the search. \<open>query\<close> is the query of one brand,
  with the state of the bus.\<close>

definition brand_rx_addrs :: "brand_entry \<Rightarrow> (int option \<times> int option) list result" where
  "brand_rx_addrs e =
    foldl (\<lambda>acc (r, (ecu, addr, sub)).
        ebind acc (\<lambda>xs.
          if whitelist_ecus r = [] \<or> ecu \<in> set (whitelist_ecus r)
          then ebind (get_rx_addr_for_tx_addr addr (rx_offset r)) (\<lambda>rx. Inr (List.insert (rx, sub) xs))
          else Inr xs))
      (Inr []) (List.product (fw_requests (brand_config e)) (get_all_ecus (brand_config e) (brand_models e) True))"

text \<open>Brands without a request do not take part.\<close>

fun get_brand_ecu_matches :: "fw_db \<Rightarrow> (int \<times> int option \<times> int) list \<Rightarrow> (string \<times> bool list) list result" where
  "get_brand_ecu_matches [] ecu_rx_addrs = Inr []"
| "get_brand_ecu_matches ((brand, e) # db) ecu_rx_addrs =
    ebind (brand_rx_addrs e) (\<lambda>addrs.
    ebind (get_brand_ecu_matches db ecu_rx_addrs) (\<lambda>rest.
      Inr (if fw_requests (brand_config e) = [] then rest
           else (brand, map (\<lambda>a. a \<in> (\<lambda>(rx, sub, bus). (Some rx, sub)) ` set ecu_rx_addrs) addrs) # rest)))"

definition present :: "bool list \<Rightarrow> nat" where
  "present ms = length (filter (\<lambda>m. m) ms)"

definition share :: "bool list \<Rightarrow> rat" where
  "share ms = fl (of_nat (present ms) / of_nat (length ms))"

text \<open>\<^verbatim>\<open>sorted\<close> is stable, also in reverse: sorting by the second component of the key and then by the first is sorting by
  the pair. The share of a brand without control units divides by zero.\<close>

definition order_brands :: "(string \<times> bool list) list \<Rightarrow> (string \<times> bool list) list result" where
  "order_brands bs =
    (if list_ex (\<lambda>(_, ms). ms = []) bs then Inl ZeroDivisionError
     else Inr (sort_key (\<lambda>(_, ms). - int (present ms)) (sort_key (\<lambda>(_, ms). - share ms) bs)))"

fun ordered_queries ::
  "fw_db \<Rightarrow> string \<Rightarrow> (string \<Rightarrow> 's \<Rightarrow> car_fw list \<times> 's) \<Rightarrow> (string \<times> bool list) list \<Rightarrow> car_fw list \<Rightarrow> 's \<Rightarrow> car_fw list \<times> 's" where
  "ordered_queries db vin query [] all_car_fw st = (all_car_fw, st)"
| "ordered_queries db vin query ((brand, ms) # rest) all_car_fw st =
    (if True \<notin> set ms then ordered_queries db vin query rest all_car_fw st
     else let (car_fw, st) = query brand st;
              all_car_fw = all_car_fw @ car_fw
          in if card (snd (match_fw_to_car db car_fw vin True True)) = 1 then (all_car_fw, st)
             else ordered_queries db vin query rest all_car_fw st)"

definition get_fw_versions_ordered ::
  "fw_db \<Rightarrow> string \<Rightarrow> (string \<Rightarrow> 's \<Rightarrow> car_fw list \<times> 's) \<Rightarrow> (int \<times> int option \<times> int) list \<Rightarrow> 's \<Rightarrow> (car_fw list \<times> 's) result" where
  "get_fw_versions_ordered db vin query ecu_rx_addrs st =
    ebind (get_brand_ecu_matches db ecu_rx_addrs) (\<lambda>bs.
    ebind (order_brands bs) (\<lambda>bs.
      Inr (ordered_queries db vin query bs [] st)))"

end
