(* ===== verification/FwMatchCorrect.thy ===== *)
theory FwMatchCorrect
  imports FwMatch "HOL-Library.Multiset"
begin

text \<open>
  What the firmware matching decides, stated over the set of answers: the order of the answers, of the dictionaries and
  of the sets of versions plays no part.
\<close>

section \<open>The dictionary of answers\<close>

definition fw_key :: "car_fw \<Rightarrow> addr_type" where
  "fw_key fw = (fw_address fw, if subAddress fw \<noteq> 0 then Some (subAddress fw) else None)"

definition answered :: "car_fw list \<Rightarrow> string option \<Rightarrow> (addr_type \<times> bytes) set" where
  "answered fws b = (\<lambda>fw. (fw_key fw, fwVersion fw)) ` {fw \<in> set fws. is_brand (fw_brand fw) b \<and> \<not> fw_logging fw}"

lemma build_fw_dict_snoc:
  "build_fw_dict (fws @ [fw]) b =
    (if is_brand (fw_brand fw) b \<and> \<not> fw_logging fw
     then AList.map_default (fw_key fw) [fwVersion fw] (List.insert (fwVersion fw)) (build_fw_dict fws b)
     else build_fw_dict fws b)"
  by (simp add: build_fw_dict_def fw_key_def Let_def)

lemma answered_snoc:
  "answered (fws @ [fw]) b =
    (if is_brand (fw_brand fw) b \<and> \<not> fw_logging fw then insert (fw_key fw, fwVersion fw) (answered fws b) else answered fws b)"
  by (auto simp: answered_def)

lemma live_get_build: "v \<in> set (live_get (build_fw_dict fws b) addr) \<longleftrightarrow> (addr, v) \<in> answered fws b"
proof (induction fws arbitrary: v rule: rev_induct)
  case Nil
  then show ?case by (simp add: build_fw_dict_def answered_def live_get_def)
next
  case (snoc fw fws)
  then show ?case
    by (auto simp: build_fw_dict_snoc answered_snoc live_get_def map_of_map_default split: option.splits)
qed

lemma distinct_build: "distinct (map fst (build_fw_dict fws b))"
  by (induction fws rule: rev_induct) (simp_all add: build_fw_dict_snoc distinct_map_default, simp add: build_fw_dict_def)

lemma live_pairs_get: "distinct (map fst d) \<Longrightarrow> (addr, v) \<in> set (live_pairs d) \<longleftrightarrow> v \<in> set (live_get d addr)"
proof (induction d)
  case (Cons x d)
  obtain a vs where x: "x = (a, vs)" by (cases x)
  have "live_get d a = []" if "a \<notin> fst ` set d" using that by (simp add: live_get_def map_of_eq_None_iff [symmetric])
  then show ?case using Cons by (auto simp: live_pairs_def live_get_def x)
qed (simp add: live_pairs_def live_get_def)

lemma live_pairs_build: "set (live_pairs (build_fw_dict fws b)) = answered fws b"
  using live_pairs_get [OF distinct_build] live_get_build by auto

section \<open>Fuzzy matching\<close>

text \<open>The answers that exactly one entry of the table has: the control unit, and the car.\<close>

definition hits :: "((addr_type \<times> bytes) \<times> string) list \<Rightarrow> (addr_type \<times> bytes) set \<Rightarrow> (addr_type \<times> string) set" where
  "hits table A = {(k, c). \<exists>v. (k, v) \<in> A \<and> fw_candidates table (k, v) = [c]}"

lemma hits_simps:
  "hits table {} = {}"
  "fw_candidates table kv = [c] \<Longrightarrow> hits table (insert kv A) = insert (fst kv, c) (hits table A)"
  "(\<And>c. fw_candidates table kv \<noteq> [c]) \<Longrightarrow> hits table (insert kv A) = hits table A"
  by (cases kv; auto simp: hits_def)+

lemma fuzzy_loop_spec:
  "distinct matched \<Longrightarrow>
   (case fuzzy_loop table ps matched m of
      None \<Rightarrow> \<not> (\<exists>c. snd ` hits table (set ps) \<union> set_option m \<subseteq> {c})
    | Some (ms, m') \<Rightarrow> set_option m' = snd ` hits table (set ps) \<union> set_option m \<and>
        set ms = set matched \<union> fst ` hits table (set ps) \<and> distinct ms)"
proof (induction ps arbitrary: matched m)
  case Nil
  then show ?case by (simp add: hits_simps)
next
  case (Cons kv rest)
  show ?case
  proof (cases "\<exists>c. fw_candidates table kv = [c]")
    case True
    then obtain c where c: "fw_candidates table kv = [c]" by blast
    show ?thesis
    proof (cases "m = None \<or> m = Some c")
      case True
      then have "fuzzy_loop table (kv # rest) matched m = fuzzy_loop table rest (List.insert (fst kv) matched) (Some c)"
        using c by auto
      moreover have "distinct (List.insert (fst kv) matched)" using Cons.prems by simp
      ultimately show ?thesis using Cons.IH [of "List.insert (fst kv) matched" "Some c"] True
        by (auto simp: hits_simps(2) [OF c] split: option.splits prod.splits)
    next
      case False
      then show ?thesis using c by (auto simp: hits_simps(2) [OF c])
    qed
  next
    case False
    then have "fuzzy_loop table (kv # rest) matched m = fuzzy_loop table rest matched m"
      by (auto split: list.split)
    moreover have "hits table (set (kv # rest)) = hits table (set rest)"
      using False hits_simps(3) [of table kv "set rest"] by simp
    ultimately show ?thesis using Cons.IH [OF Cons.prems, of m] by (simp only:)
  qed
qed

lemma fuzzy_spec:
  assumes "distinct (map fst live)"
  shows "match_fw_to_car_fuzzy db live b ex =
    (let H = hits (all_fw_versions db b ex) (set (live_pairs live)) in {c. c \<noteq> [] \<and> snd ` H = {c} \<and> 2 \<le> card (fst ` H)})"
proof -
  define H where "H = hits (all_fw_versions db b ex) (set (live_pairs live))"
  show ?thesis
  proof (cases "fuzzy_loop (all_fw_versions db b ex) (live_pairs live) [] None")
    case None
    then have "\<not> (\<exists>c. snd ` H \<subseteq> {c})"
      using fuzzy_loop_spec [of "[]" "all_fw_versions db b ex" "live_pairs live" None] by (simp add: H_def)
    then show ?thesis using None by (auto simp: match_fw_to_car_fuzzy_def H_def [symmetric])
  next
    case (Some r)
    obtain ms m where r: "r = (ms, m)" by (cases r)
    have "snd ` H = set_option m" and ms: "fst ` H = set ms" "distinct ms"
      using fuzzy_loop_spec [of "[]" "all_fw_versions db b ex" "live_pairs live" None] Some r by (simp_all add: H_def)
    moreover have "card (fst ` H) = length ms" using ms by (simp add: distinct_card)
    ultimately have "{c. c \<noteq> [] \<and> snd ` H = {c} \<and> 2 \<le> card (fst ` H)} = {c. c \<noteq> [] \<and> m = Some c \<and> 2 \<le> length ms}"
      by (cases m) auto
    then show ?thesis using Some r
      by (cases m) (auto simp: match_fw_to_car_fuzzy_def H_def [symmetric] Let_def)
  qed
qed

text \<open>C24: Fuzzy matching depends only on the set of answers of the brand, not on their order, number or the order of any
  dictionary: it finds a car exactly if that car is the only one that any answer identifies uniquely, and the answers of at
  least two control units do. An answer identifies a car uniquely if exactly one entry of the table, without
  cameras, radars, power steering and debug units, has this version at this address.\<close>

theorem fuzzy_match_order_free:
  "match_fw_to_car_fuzzy db (build_fw_dict fws (Some b)) (Some b) None =
    (let table = all_fw_versions db (Some b) None;
         H = {(fw_key fw, c) | fw c. fw \<in> set fws \<and> fw_brand fw = b \<and> \<not> fw_logging fw \<and>
                fw_candidates table (fw_key fw, fwVersion fw) = [c]}
     in {c. c \<noteq> [] \<and> snd ` H = {c} \<and> 2 \<le> card (fst ` H)})"
proof -
  have "hits table (answered fws (Some b)) = {(fw_key fw, c) | fw c. fw \<in> set fws \<and> fw_brand fw = b \<and> \<not> fw_logging fw \<and>
      fw_candidates table (fw_key fw, fwVersion fw) = [c]}" for table
    by (auto simp: hits_def answered_def is_brand_def)
  then show ?thesis by (simp add: fuzzy_spec [OF distinct_build] live_pairs_build)
qed

section \<open>Exact matching\<close>

lemma map_of_MODEL_TO_BRAND:
  assumes "fw_db_wf db" "(b, e) \<in> set db" "(c, fws) \<in> set (brand_models e)"
  shows "map_of (MODEL_TO_BRAND db) c = Some b"
proof (rule map_of_is_SomeI)
  have "map fst (MODEL_TO_BRAND db) = map fst (FW_VERSIONS db)"
    by (simp add: MODEL_TO_BRAND_def FW_VERSIONS_def map_concat case_prod_unfold comp_def)
  then show "distinct (map fst (MODEL_TO_BRAND db))" using assms(1) by (simp add: fw_db_wf_def)
  show "(c, b) \<in> set (MODEL_TO_BRAND db)" using assms(2,3) by (force simp: MODEL_TO_BRAND_def)
qed

lemma brand_candidates_of:
  assumes "fw_db_wf db" "(b, e) \<in> set db"
  shows "set (brand_candidates db (Some b)) = set (brand_models e)"
proof (intro equalityI subsetI)
  fix x assume "x \<in> set (brand_models e)"
  then show "x \<in> set (brand_candidates db (Some b))"
    using map_of_MODEL_TO_BRAND [OF assms, of "fst x" "snd x"] assms(2)
    by (force simp: brand_candidates_def is_brand_def FW_VERSIONS_def)
next
  fix x assume x: "x \<in> set (brand_candidates db (Some b))"
  then obtain b' e' where e': "(b', e') \<in> set db" "x \<in> set (brand_models e')"
    by (force simp: brand_candidates_def FW_VERSIONS_def)
  then have "map_of (MODEL_TO_BRAND db) (fst x) = Some b'"
    using map_of_MODEL_TO_BRAND [OF assms(1), of b' e' "fst x" "snd x"] by simp
  then have "b' = b" using x by (auto simp: brand_candidates_def is_brand_def)
  then have "e' = e" using e'(1) assms by (simp add: fw_db_wf_def) (metis map_of_is_SomeI option.inject)
  then show "x \<in> set (brand_models e)" using e'(2) by simp
qed

lemma distinct_concat_part: "distinct (concat xss) \<Longrightarrow> xs \<in> set xss \<Longrightarrow> distinct xs"
  by (auto simp: distinct_concat_iff)

lemma distinct_models:
  assumes "fw_db_wf db" "(b, e) \<in> set db"
  shows "distinct (map fst (brand_models e))"
proof -
  have "map fst (FW_VERSIONS db) = concat (map (\<lambda>(b, e). map fst (brand_models e)) db)"
    by (simp add: FW_VERSIONS_def map_concat case_prod_unfold comp_def)
  then show ?thesis
    using assms distinct_concat_part [of "map (\<lambda>(b, e). map fst (brand_models e)) db" "map fst (brand_models e)"]
    by (force simp: fw_db_wf_def)
qed

lemma exact_iff:
  assumes "fw_db_wf db" "(b, e) \<in> set db"
  shows "c \<in> match_fw_to_car_exact db live (Some b) [] \<longleftrightarrow>
    (\<exists>tab. (c, tab) \<in> set (brand_models e) \<and> list_all (ecu_accepts db [] live c) tab)"
proof -
  have "tab = tab'" if "(c, tab) \<in> set (brand_models e)" "(c, tab') \<in> set (brand_models e)" for tab tab'
    using that distinct_models [OF assms] by (metis map_of_is_SomeI option.inject)
  moreover have "c \<in> match_fw_to_car_exact db live (Some b) [] \<longleftrightarrow>
      (\<exists>tab. (c, tab) \<in> set (brand_models e)) \<and>
      \<not> (\<exists>tab. (c, tab) \<in> set (brand_models e) \<and> \<not> list_all (ecu_accepts db [] live c) tab)"
    by (simp add: match_fw_to_car_exact_def brand_candidates_of [OF assms] Let_def image_iff Bex_def case_prod_unfold)
  ultimately show ?thesis by blast
qed

text \<open>What makes a car possible after the answers of the control units: of every control unit in its table some answered
  version is in the database, or none was answered and the unit may be missing, or it is the debug unit.\<close>

definition unit_fits :: "fw_db \<Rightarrow> car_fw list \<Rightarrow> string \<Rightarrow> string \<Rightarrow> ecu_key \<times> bytes list \<Rightarrow> bool" where
  "unit_fits db fws b c = (\<lambda>((ecu, addr), versions).
    let found = {fwVersion fw | fw. fw \<in> set fws \<and> fw_brand fw = b \<and> \<not> fw_logging fw \<and> fw_key fw = addr}
    in if found = {} then ecu \<notin> set ESSENTIAL_ECUS \<or> non_essential db c ecu
       else ecu = Ecu_debug \<or> found \<inter> set versions \<noteq> {})"

definition car_fits :: "fw_db \<Rightarrow> car_fw list \<Rightarrow> string \<Rightarrow> bool" where
  "car_fits db fws c \<longleftrightarrow>
     (\<exists>b e tab. (b, e) \<in> set db \<and> (c, tab) \<in> set (brand_models e) \<and> (\<forall>u\<in>set tab. unit_fits db fws b c u))"

lemma ecu_accepts_fits: "ecu_accepts db [] (build_fw_dict fws (Some b)) c u = unit_fits db fws b c u"
proof -
  obtain ecu addr vs where u: "u = ((ecu, addr), vs)" by (metis surj_pair)
  let ?found = "{fwVersion fw | fw. fw \<in> set fws \<and> fw_brand fw = b \<and> \<not> fw_logging fw \<and> fw_key fw = addr}"
  have found: "set (live_get (build_fw_dict fws (Some b)) addr) = ?found"
    by (auto simp: live_get_build answered_def is_brand_def)
  then have empty: "live_get (build_fw_dict fws (Some b)) addr = [] \<longleftrightarrow> ?found = {}"
    by (metis set_empty)
  have "list_ex (\<lambda>v. v \<in> set vs) (live_get (build_fw_dict fws (Some b)) addr) \<longleftrightarrow> ?found \<inter> set vs \<noteq> {}"
    using found by (auto simp: list_ex_iff)
  moreover have "Ecu_debug \<notin> set ESSENTIAL_ECUS" by (simp add: ESSENTIAL_ECUS_def)
  ultimately show ?thesis
    by (auto simp: ecu_accepts_def unit_fits_def u extra_versions_def empty Let_def simp del: Collect_empty_eq)
qed

lemma match_brands_exact:
  "match_brands True f fws vin db M = M \<union> (\<Union>(b, e)\<in>set db. f (build_fw_dict fws (Some b)) (Some b))"
proof (induction db arbitrary: M)
  case (Cons x db)
  obtain b e where x: "x = (b, e)" by (cases x)
  have "match_brands True f fws vin (x # db) M = match_brands True f fws vin db (M \<union> f (build_fw_dict fws (Some b)) (Some b))"
    by (simp add: x Let_def split: option.split)
  then show ?case by (simp add: Cons.IH x Un_assoc)
qed simp

lemma exact_matches_fit:
  assumes "fw_db_wf db"
  shows "match_brands True (\<lambda>live b. match_fw_to_car_exact db live b []) fws vin db {} = {c. car_fits db fws c}"
proof (rule set_eqI)
  fix c
  let ?exact = "\<lambda>b. match_fw_to_car_exact db (build_fw_dict fws (Some b)) (Some b) []"
  have "c \<in> match_brands True (\<lambda>live b. match_fw_to_car_exact db live b []) fws vin db {} \<longleftrightarrow>
      (\<exists>b e. (b, e) \<in> set db \<and> c \<in> ?exact b)"
    by (auto simp: match_brands_exact)
  also have "\<dots> \<longleftrightarrow> c \<in> {c. car_fits db fws c}"
  proof -
    have "c \<in> ?exact b \<longleftrightarrow> (\<exists>tab. (c, tab) \<in> set (brand_models e) \<and> (\<forall>u\<in>set tab. unit_fits db fws b c u))"
      if "(b, e) \<in> set db" for b e
      using exact_iff [OF assms that] by (simp add: ecu_accepts_fits list_all_iff)
    then show ?thesis unfolding car_fits_def mem_Collect_eq by blast
  qed
  finally show "c \<in> match_brands True (\<lambda>live b. match_fw_to_car_exact db live b []) fws vin db {} \<longleftrightarrow> c \<in> {c. car_fits db fws c}" .
qed

text \<open>C14: Exact matching finds every car that the answers leave possible and no other, for all orders of the answers and of
  the database; and the fuzzy functions are asked only if there is none. In particular a car of the database whose
  control units all answer with versions of the database is found exactly, and if no other car fits, it is the car
  that is used, whatever was recognised on the bus.\<close>

theorem known_car_is_found:
  assumes "fw_db_wf db" "(b, e) \<in> set db" "(c, tab) \<in> set (brand_models e)"
    and "list_all (\<lambda>((ecu, addr), vs). ecu = Ecu_debug \<or>
      list_ex (\<lambda>fw. fw_brand fw = b \<and> \<not> fw_logging fw \<and> fw_key fw = addr \<and> fwVersion fw \<in> set vs) fws) tab"
  shows "match_fw_to_car db fws vin True fuzzy = (True, {c. car_fits db fws c}) \<and> car_fits db fws c \<and>
    ({c. car_fits db fws c} = {c} \<longrightarrow>
      choose_car can_car (match_fw_to_car db fws vin True fuzzy) [] = (Some c, Source_fw, True))"
proof -
  have "unit_fits db fws b c u" if "u \<in> set tab" for u
  proof -
    obtain ecu addr vs where u: "u = ((ecu, addr), vs)" by (metis surj_pair)
    then have "ecu = Ecu_debug \<or>
        (\<exists>fw\<in>set fws. fw_brand fw = b \<and> \<not> fw_logging fw \<and> fw_key fw = addr \<and> fwVersion fw \<in> set vs)"
      using that assms(4) by (auto simp: list_all_iff list_ex_iff)
    then show ?thesis
    proof
      assume "ecu = Ecu_debug"
      then show ?thesis by (simp add: unit_fits_def u ESSENTIAL_ECUS_def Let_def)
    next
      assume "\<exists>fw\<in>set fws. fw_brand fw = b \<and> \<not> fw_logging fw \<and> fw_key fw = addr \<and> fwVersion fw \<in> set vs"
      then show ?thesis by (auto simp: unit_fits_def u Let_def)
    qed
  qed
  then have fits: "car_fits db fws c" using assms(2,3) unfolding car_fits_def by blast
  then have "match_fw_to_car db fws vin True fuzzy = (True, {c. car_fits db fws c})"
    by (auto simp: match_fw_to_car_def exact_matches_fit [OF assms(1)] Let_def)
  then show ?thesis using fits by (simp add: choose_car_def)
qed

section \<open>The order of the queries\<close>

text \<open>The brands that are queried are a prefix of the present ones, which ends at the first that matches one car.\<close>

definition settles :: "fw_db \<Rightarrow> string \<Rightarrow> car_fw list \<Rightarrow> bool" where
  "settles db vin fws \<longleftrightarrow> card (snd (match_fw_to_car db fws vin True True)) = 1"

lemma ordered_queries_prefix:
  "\<exists>qs rest. map fst (filter (\<lambda>(_, ms). True \<in> set ms) bs) = qs @ rest \<and>
     ordered_queries db vin (\<lambda>b st. (f b, st @ [b])) bs fws st = (fws @ concat (map f qs), st @ qs) \<and>
     list_all (\<lambda>b. \<not> settles db vin (f b)) (butlast qs) \<and>
     (rest \<noteq> [] \<longrightarrow> qs \<noteq> [] \<and> settles db vin (f (last qs)))"
proof (induction bs arbitrary: fws st)
  case Nil
  then show ?case by simp
next
  case (Cons x bs)
  obtain b ms where x: "x = (b, ms)" by (cases x)
  consider "True \<notin> set ms" | "True \<in> set ms" "settles db vin (f b)" | "True \<in> set ms" "\<not> settles db vin (f b)" by blast
  then show ?case
  proof cases
    case 1
    then show ?thesis using Cons.IH [of fws st] by (simp add: x)
  next
    case 2
    then show ?thesis
      by (intro exI [of _ "[b]"] exI [of _ "map fst (filter (\<lambda>(_, ms). True \<in> set ms) bs)"]) (simp add: x settles_def)
  next
    case 3
    obtain qs rest where IH: "map fst (filter (\<lambda>(_, ms). True \<in> set ms) bs) = qs @ rest"
      "ordered_queries db vin (\<lambda>b st. (f b, st @ [b])) bs (fws @ f b) (st @ [b]) =
        (fws @ f b @ concat (map f qs), st @ b # qs)"
      "list_all (\<lambda>b. \<not> settles db vin (f b)) (butlast qs)"
      "rest \<noteq> [] \<longrightarrow> qs \<noteq> [] \<and> settles db vin (f (last qs))"
      using Cons.IH [of "fws @ f b" "st @ [b]"] by auto
    then show ?thesis using 3 by (intro exI [of _ "b # qs"] exI [of _ rest]) (simp add: x settles_def)
  qed
qed

lemma filter_sorted_nth:
  "sorted_wrt P (filter Q xs) \<Longrightarrow> i < j \<Longrightarrow> j < length xs \<Longrightarrow> Q (xs ! i) \<Longrightarrow> Q (xs ! j) \<Longrightarrow> P (xs ! i) (xs ! j)"
proof (induction xs arbitrary: i j)
  case (Cons x xs)
  show ?case
  proof (cases i)
    case 0
    then show ?thesis using Cons.prems by (cases j) auto
  next
    case (Suc i')
    then show ?thesis using Cons by (cases j) (auto split: if_splits)
  qed
qed simp

text \<open>The order: by the number of present control units, then by their share.\<close>

lemma order_brands_sorted:
  assumes "order_brands bs = Inr os"
  shows "mset os = mset bs \<and> sorted_wrt (\<lambda>(_, x) (_, y). present y < present x \<or> present y = present x \<and> share y \<le> share x) os"
proof -
  define ys where "ys = sort_key (\<lambda>(_, ms). - share ms) bs"
  have os: "os = sort_key (\<lambda>(_, ms). - int (present ms)) ys"
    using assms by (simp add: order_brands_def ys_def split: if_splits)
  have "sorted_wrt (\<lambda>(_, x) (_, y). share y \<le> share x) ys"
    using sorted_sort_key [of "\<lambda>(_, ms). - share ms" bs] by (simp add: ys_def sorted_map case_prod_unfold)
  then have part: "sorted_wrt (\<lambda>(_, x) (_, y). share y \<le> share x) (filter (\<lambda>b. - int (present (snd b)) = k) os)" for k
    using sort_key_stable [of "\<lambda>(_, ms). - int (present ms)" k ys]
    by (simp add: os case_prod_unfold sorted_wrt_filter)
  have sorted: "sorted_wrt (\<lambda>x y. present (snd y) \<le> present (snd x)) os"
    using sorted_sort_key [of "\<lambda>(_, ms). - int (present ms)" ys] by (simp add: os sorted_map case_prod_unfold)
  have "present (snd (os ! j)) < present (snd (os ! i)) \<or>
      present (snd (os ! j)) = present (snd (os ! i)) \<and> share (snd (os ! j)) \<le> share (snd (os ! i))"
    if ij: "i < j" "j < length os" for i j
    using sorted_wrt_nth_less [OF sorted ij] filter_sorted_nth [OF part ij, of "- int (present (snd (os ! i)))"]
    by (auto simp: case_prod_unfold)
  moreover have "mset os = mset bs" by (simp add: os ys_def)
  ultimately show ?thesis by (simp add: sorted_wrt_iff_nth_less case_prod_unfold)
qed

section \<open>A small database\<close>

definition plain_config :: fw_config where
  "plain_config = \<lparr>fw_requests = [], non_essential_ecus = [], extra_ecus = [], brand_fuzzy = None\<rparr>"

definition corolla_table :: fw_table where
  "corolla_table = [((Ecu_engine, 0x7e0, None), [[1], [2]]), ((Ecu_eps, 0x7a1, None), [[3]])]"

definition toyota_entry :: brand_entry where
  "toyota_entry =
    \<lparr>brand_config = plain_config,
     brand_models = [(''COROLLA'', corolla_table),
       (''PRIUS'', [((Ecu_engine, 0x7e0, None), [[4]]), ((Ecu_eps, 0x7a1, None), [[3]])])]\<rparr>"

definition two_cars :: fw_db where
  "two_cars = [(''toyota'', toyota_entry)]"

definition corolla_fw :: "car_fw list" where
  "corolla_fw =
    [\<lparr>fwVersion = [2], fw_address = 0x7e0, subAddress = 0, fw_brand = ''toyota'', fw_logging = False\<rparr>,
     \<lparr>fwVersion = [3], fw_address = 0x7a1, subAddress = 0, fw_brand = ''toyota'', fw_logging = False\<rparr>]"

lemma corolla_only: "{c. car_fits two_cars corolla_fw c} = {''COROLLA''}"
proof -
  have "{c. car_fits two_cars corolla_fw c} =
      match_brands True (\<lambda>live b. match_fw_to_car_exact two_cars live b []) corolla_fw [] two_cars {}"
    by (rule exact_matches_fit [symmetric]) (simp add: fw_db_wf_def two_cars_def toyota_entry_def FW_VERSIONS_def)
  also have "\<dots> = {''COROLLA''}" by code_simp
  finally show ?thesis .
qed

lemma known_car_is_found_witness:
  "choose_car None (match_fw_to_car two_cars corolla_fw [] True True) [] = (Some ''COROLLA'', Source_fw, True)"
proof -
  have "fw_db_wf two_cars" by (simp add: fw_db_wf_def two_cars_def toyota_entry_def FW_VERSIONS_def)
  moreover have "(''toyota'', toyota_entry) \<in> set two_cars" by (simp add: two_cars_def)
  moreover have "(''COROLLA'', corolla_table) \<in> set (brand_models toyota_entry)" by (simp add: toyota_entry_def)
  moreover have "list_all (\<lambda>((ecu, addr), vs). ecu = Ecu_debug \<or> list_ex (\<lambda>fw. fw_brand fw = ''toyota'' \<and> \<not> fw_logging fw \<and>
      fw_key fw = addr \<and> fwVersion fw \<in> set vs) corolla_fw) corolla_table"
    by (simp add: corolla_table_def corolla_fw_def fw_key_def)
  ultimately show ?thesis using known_car_is_found corolla_only by blast
qed

end
