(* ===== verification/CanFingerprint.thy ===== *)
theory CanFingerprint
  imports PyBytes "HOL-Library.AList"
begin

text \<open>
  Recognising a car by the messages on its buses (\<^verbatim>\<open>can_fingerprint\<close> of \<^verbatim>\<open>opendbc/car/car_helpers.py\<close> and
  \<^verbatim>\<open>opendbc/car/fingerprints.py\<close>): on each of the first two buses the cars that cannot have sent a message are
  struck off, until one is left after 100 packets or nothing is found after 200. The batches that \<^verbatim>\<open>can_recv\<close>
  returns are a list; the table of fingerprints is an argument.
\<close>

record can_data =
  cd_src :: int
  cd_address :: int
  cd_dat :: bytes

type_synonym fingerprint = "(int \<times> int) list"

definition DEBUG_ADDRESS :: "int \<times> int" where "DEBUG_ADDRESS = (1880, 8)"
definition FRAME_FINGERPRINT :: int where "FRAME_FINGERPRINT = 100"

definition is_valid_for_fingerprint :: "can_data \<Rightarrow> fingerprint \<Rightarrow> bool" where
  "is_valid_for_fingerprint msg car_fingerprint \<longleftrightarrow>
     map_of car_fingerprint (cd_address msg) = Some (int (length (cd_dat msg))) \<or> cd_address msg \<ge> 0x800"

text \<open>\<^verbatim>\<open>fingerprint | _DEBUG_ADDRESS\<close>: the right dictionary wins.\<close>

definition with_debug :: "fingerprint \<Rightarrow> fingerprint" where
  "with_debug f = AList.update (fst DEBUG_ADDRESS) (snd DEBUG_ADDRESS) f"

definition car_fingerprints :: "(string \<times> fingerprint list) list \<Rightarrow> string \<Rightarrow> fingerprint list" where
  "car_fingerprints db car = (case map_of db car of None \<Rightarrow> [] | Some fs \<Rightarrow> fs)"

definition eliminate_incompatible_cars :: "(string \<times> fingerprint list) list \<Rightarrow> can_data \<Rightarrow> string list \<Rightarrow> string list" where
  "eliminate_incompatible_cars db msg cars =
    filter (\<lambda>car. list_ex (\<lambda>f. is_valid_for_fingerprint msg (with_debug f)) (car_fingerprints db car)) cars"

definition all_legacy_fingerprint_cars :: "(string \<times> fingerprint list) list \<Rightarrow> string list" where
  "all_legacy_fingerprint_cars db = map fst db"

type_synonym finger = "(int \<times> (int \<times> int) list) list"

definition gen_empty_fingerprint :: finger where
  "gen_empty_fingerprint = map (\<lambda>i. (i, [])) [0..7]"

record fp_state =
  fp_finger :: finger
  candidate_cars :: "(int \<times> string list) list"
  fp_frame :: int
  car_fingerprint :: "string option"
  fp_done :: bool

definition fp_init :: "(string \<times> fingerprint list) list \<Rightarrow> fp_state" where
  "fp_init db =
    \<lparr>fp_finger = gen_empty_fingerprint, candidate_cars = map (\<lambda>i. (i, all_legacy_fingerprint_cars db)) [0, 1], fp_frame = 0,
     car_fingerprint = None, fp_done = False\<rparr>"

definition relevant :: "int \<Rightarrow> can_data \<Rightarrow> bool" where
  "relevant b can \<longleftrightarrow> cd_src can = b \<and> cd_address can < 0x800 \<and> cd_address can \<notin> {0x7df, 0x7e0, 0x7e8}"

definition see_can :: "(string \<times> fingerprint list) list \<Rightarrow> can_data \<Rightarrow> fp_state \<Rightarrow> fp_state" where
  "see_can db can s =
    (let len = int (length (cd_dat can))
     in s\<lparr>fp_finger :=
            (if cd_src can < 128
             then AList.map_default (cd_src can) [(cd_address can, len)] (AList.update (cd_address can) len) (fp_finger s)
             else fp_finger s),
          candidate_cars :=
            map (\<lambda>(b, cars). (b, if relevant b can then eliminate_incompatible_cars db can cars else cars)) (candidate_cars s)\<rparr>)"

definition see_packet :: "(string \<times> fingerprint list) list \<Rightarrow> can_data list \<Rightarrow> fp_state \<Rightarrow> fp_state" where
  "see_packet db can_packet s =
    (let s = fold (see_can db) can_packet s;
         car = fold (\<lambda>(b, cars) car. if length cars = 1 \<and> fp_frame s > FRAME_FINGERPRINT then Some (cars ! 0) else car)
                 (candidate_cars s) (car_fingerprint s);
         failed = (list_all (\<lambda>(b, cars). length cars = 0) (candidate_cars s) \<and> fp_frame s > FRAME_FINGERPRINT) \<or> fp_frame s > 200;
         succeeded = car \<noteq> None
     in s\<lparr>car_fingerprint := car, fp_done := failed \<or> succeeded, fp_frame := fp_frame s + 1\<rparr>)"

text \<open>The outer loop over the batches; \<open>None\<close> when it still waits for packets at the end of the list.\<close>

fun fp_loop :: "(string \<times> fingerprint list) list \<Rightarrow> can_data list list list \<Rightarrow> fp_state \<Rightarrow> fp_state option" where
  "fp_loop db [] s = (if fp_done s then Some s else None)"
| "fp_loop db (can_packets # batches) s =
    (if fp_done s then Some s else fp_loop db batches (fold (see_packet db) can_packets s))"

definition can_fingerprint :: "(string \<times> fingerprint list) list \<Rightarrow> can_data list list list \<Rightarrow> (string option \<times> finger) option" where
  "can_fingerprint db batches = map_option (\<lambda>s. (car_fingerprint s, fp_finger s)) (fp_loop db batches (fp_init db))"

end
