(* ===== verification/CanFingerprintCorrect.thy ===== *)
theory CanFingerprintCorrect
  imports CanFingerprint
begin

text \<open>
  Recognition by messages never gives a wrong car: after any packets the candidates of a bus are exactly the cars that
  could have sent all its messages. And it always ends.
\<close>

definition could_send :: "(string \<times> fingerprint list) list \<Rightarrow> int \<Rightarrow> can_data set \<Rightarrow> string \<Rightarrow> bool" where
  "could_send db b msgs car \<longleftrightarrow>
     (\<forall>m\<in>msgs. relevant b m \<longrightarrow> (\<exists>f\<in>set (car_fingerprints db car). is_valid_for_fingerprint m (with_debug f)))"

definition possible_cars :: "(string \<times> fingerprint list) list \<Rightarrow> can_data set \<Rightarrow> (int \<times> string list) list" where
  "possible_cars db msgs = map (\<lambda>b. (b, filter (could_send db b msgs) (map fst db))) [0, 1]"

lemma could_send_insert:
  "could_send db b (insert m msgs) car \<longleftrightarrow> could_send db b msgs car \<and>
     (relevant b m \<longrightarrow> list_ex (\<lambda>f. is_valid_for_fingerprint m (with_debug f)) (car_fingerprints db car))"
  by (auto simp: could_send_def list_ex_iff)

lemma see_can_possible:
  assumes "candidate_cars s = possible_cars db msgs"
  shows "candidate_cars (see_can db can s) = possible_cars db (insert can msgs)"
proof -
  have "(if relevant b can then eliminate_incompatible_cars db can (filter (could_send db b msgs) cars)
      else filter (could_send db b msgs) cars) = filter (could_send db b (insert can msgs)) cars" for b cars
    by (auto simp: eliminate_incompatible_cars_def could_send_insert intro!: filter_cong)
  then show ?thesis by (simp add: see_can_def assms possible_cars_def Let_def)
qed

lemma see_can_frame [simp]:
  "fp_frame (see_can db can s) = fp_frame s" "car_fingerprint (see_can db can s) = car_fingerprint s"
  "fp_done (see_can db can s) = fp_done s"
  by (simp_all add: see_can_def Let_def)

lemma see_cans_frame [simp]:
  "fp_frame (fold (see_can db) cans s) = fp_frame s" "car_fingerprint (fold (see_can db) cans s) = car_fingerprint s"
  by (induction cans arbitrary: s) simp_all

lemma see_cans_possible:
  "candidate_cars s = possible_cars db msgs \<Longrightarrow>
   candidate_cars (fold (see_can db) cans s) = possible_cars db (msgs \<union> set cans)"
proof (induction cans arbitrary: s msgs)
  case (Cons can cans)
  then show ?case using Cons.IH [OF see_can_possible [OF Cons.prems]] by simp
qed simp

section \<open>The car that is found\<close>

text \<open>The invariant of the packets seen so far: the candidates, the number of packets, and that a car was chosen when it was
  the only possible one on its bus.\<close>

definition single :: "(string \<times> fingerprint list) list \<Rightarrow> can_data list list \<Rightarrow> string \<Rightarrow> bool" where
  "single db seen car \<longleftrightarrow>
     (\<exists>n b. b \<in> {0, 1} \<and> {c \<in> fst ` set db. could_send db b (set (concat (take n seen))) c} = {car})"

definition fp_inv :: "(string \<times> fingerprint list) list \<Rightarrow> can_data list list \<Rightarrow> fp_state \<Rightarrow> bool" where
  "fp_inv db seen s \<longleftrightarrow>
     candidate_cars s = possible_cars db (set (concat seen)) \<and> fp_frame s = int (length seen) \<and>
     (\<forall>car. car_fingerprint s = Some car \<longrightarrow> single db seen car) \<and> (202 \<le> length seen \<longrightarrow> fp_done s)"

lemma fp_inv_init: "fp_inv db [] (fp_init db)"
  by (simp add: fp_inv_def fp_init_def possible_cars_def could_send_def all_legacy_fingerprint_cars_def)

lemma single_mono: "single db seen car \<Longrightarrow> single db (seen @ rest) car"
proof -
  assume "single db seen car"
  then obtain n b where nb: "b \<in> {0, 1}" "{c \<in> fst ` set db. could_send db b (set (concat (take n seen))) c} = {car}"
    by (auto simp: single_def)
  have "take (min n (length seen)) (seen @ rest) = take n seen" by (simp add: min_def)
  then show ?thesis unfolding single_def using nb by metis
qed

lemma single_now:
  assumes "(b, cars) \<in> set (possible_cars db (set (concat seen)))" "length cars = 1"
  shows "single db seen (cars ! 0)"
proof -
  have b: "b \<in> {0, 1}" "cars = filter (could_send db b (set (concat seen))) (map fst db)"
    using assms(1) by (auto simp: possible_cars_def)
  have "set cars = {cars ! 0}" using assms(2) by (cases cars) auto
  then have "{c \<in> fst ` set db. could_send db b (set (concat (take (length seen) seen))) c} = {cars ! 0}"
    using b(2) by auto
  then show ?thesis using b(1) unfolding single_def by blast
qed

lemma fp_inv_packet:
  assumes "fp_inv db seen s"
  shows "fp_inv db (seen @ [packet]) (see_packet db packet s)"
proof -
  let ?t = "fold (see_can db) packet s" and ?seen = "seen @ [packet]"
  have cands: "candidate_cars ?t = possible_cars db (set (concat ?seen))"
    using see_cans_possible [of s db "set (concat seen)" packet] assms by (simp add: fp_inv_def)
  define pick where "pick = (\<lambda>(b :: int, cars :: string list) car. if length cars = 1 \<and> fp_frame ?t > FRAME_FINGERPRINT then Some (cars ! 0) else car)"
  have "single db ?seen car"
    if "fold pick cs c0 = Some car" "set cs \<subseteq> set (possible_cars db (set (concat ?seen)))"
      "\<And>car. c0 = Some car \<Longrightarrow> single db ?seen car" for cs c0 car
    using that
  proof (induction cs arbitrary: c0)
    case (Cons x cs)
    obtain b cars where x: "x = (b, cars)" by (cases x)
    have "single db ?seen car" if "pick x c0 = Some car" for car
      using that Cons.prems single_now [of b cars db ?seen] by (auto simp: pick_def x split: if_splits)
    then show ?case using Cons.IH [of "pick x c0"] Cons.prems by simp
  qed simp
  moreover have "single db ?seen car" if "car_fingerprint ?t = Some car" for car
    using that assms single_mono by (simp add: fp_inv_def)
  ultimately have "single db ?seen car" if "fold pick (candidate_cars ?t) (car_fingerprint ?t) = Some car" for car
    using that by (simp add: cands)
  then show ?thesis
    using assms cands by (simp add: fp_inv_def see_packet_def Let_def pick_def)
qed

lemma fp_inv_packets: "fp_inv db seen s \<Longrightarrow> fp_inv db (seen @ packets) (fold (see_packet db) packets s)"
proof (induction packets arbitrary: seen s)
  case (Cons p packets)
  then show ?case using Cons.IH [OF fp_inv_packet [OF Cons.prems], of p] by simp
qed simp

lemma fp_loop_inv:
  "fp_inv db seen s \<Longrightarrow> fp_loop db batches s = Some t \<Longrightarrow> \<exists>n. fp_inv db (seen @ take n (concat batches)) t"
proof (induction batches arbitrary: seen s)
  case Nil
  then show ?case by (auto split: if_splits)
next
  case (Cons b batches)
  show ?case
  proof (cases "fp_done s")
    case True
    then show ?thesis using Cons.prems by (intro exI [of _ 0]) simp
  next
    case False
    then obtain n where "fp_inv db ((seen @ b) @ take n (concat batches)) t"
      using Cons.IH [OF fp_inv_packets [OF Cons.prems(1), of b]] Cons.prems(2) by auto
    then show ?thesis by (intro exI [of _ "length b + n"]) simp
  qed
qed

lemma fp_loop_ends:
  "fp_inv db seen s \<Longrightarrow> 202 \<le> length seen + length (concat batches) \<Longrightarrow> fp_loop db batches s \<noteq> None"
proof (induction batches arbitrary: seen s)
  case (Cons b batches)
  then show ?case using Cons.IH [OF fp_inv_packets [OF Cons.prems(1), of b]] by simp
qed (simp add: fp_inv_def)

text \<open>C34: Recognition by messages ends after at most 202 packets, however they are batched.\<close>

theorem can_fingerprint_ends:
  assumes "202 \<le> length (concat batches)"
  shows "can_fingerprint db batches \<noteq> None"
  using fp_loop_ends [OF fp_inv_init] assms by (simp add: can_fingerprint_def)

lemma can_fingerprint_ends_witness:
  "can_fingerprint [(''CIVIC'', [[(100, 8)]])] (replicate 101 [[], [\<lparr>cd_src = 0, cd_address = 100, cd_dat = [0]\<rparr>]]) \<noteq> None"
  by (rule can_fingerprint_ends) (simp add: concat_replicate_trivial length_concat sum_list_replicate)

text \<open>C21: A car that is recognised is the only one of the table that could have sent every message seen until then on one
  of the two buses. So if the true car is in the table and its messages agree with one of its fingerprints, no
  other car is ever recognised: the result is the true car or none.\<close>

theorem right_car_or_none:
  assumes "true_car \<in> fst ` set db" "could_send db 0 (set (concat (concat batches))) true_car"
    and "could_send db 1 (set (concat (concat batches))) true_car"
    and "can_fingerprint db batches = Some (Some car, finger)"
  shows "car = true_car"
proof -
  obtain t where t: "fp_loop db batches (fp_init db) = Some t" "car_fingerprint t = Some car"
    using assms(4) by (auto simp: can_fingerprint_def)
  then obtain n where "fp_inv db (take n (concat batches)) t"
    using fp_loop_inv [OF fp_inv_init t(1)] by auto
  then have "single db (take n (concat batches)) car" using t(2) by (simp add: fp_inv_def)
  then obtain k b where kb: "b \<in> {0, 1}"
    "{c \<in> fst ` set db. could_send db b (set (concat (take k (take n (concat batches))))) c} = {car}"
    by (auto simp: single_def)
  have "set (take k (take n (concat batches))) \<subseteq> set (concat batches)" by (meson in_set_takeD subsetI)
  then have "set (concat (take k (take n (concat batches)))) \<subseteq> set (concat (concat batches))"
    unfolding set_concat by (rule UN_mono) simp
  then have "could_send db b (set (concat (take k (take n (concat batches))))) true_car"
    using kb(1) assms(2,3) by (auto simp: could_send_def)
  then have "true_car \<in> {c \<in> fst ` set db. could_send db b (set (concat (take k (take n (concat batches))))) c}"
    using assms(1) by (simp only: mem_Collect_eq)
  then show ?thesis unfolding kb(2) by simp
qed

text \<open>Two cars, told apart by the length of one message.\<close>

definition two_fingerprints :: "(string \<times> fingerprint list) list" where
  "two_fingerprints = [(''CIVIC'', [[(100, 8), (200, 4)]]), (''PILOT'', [[(100, 7), (200, 4)]])]"

definition civic_packets :: "can_data list list list" where
  "civic_packets = replicate 102 [[\<lparr>cd_src = 0, cd_address = 100, cd_dat = replicate 8 0\<rparr>]]"

lemma civic_messages: "set (concat (concat civic_packets)) = {\<lparr>cd_src = 0, cd_address = 100, cd_dat = replicate 8 0\<rparr>}"
  by (simp add: civic_packets_def)

lemma right_car_or_none_witness: "fst (the (can_fingerprint two_fingerprints civic_packets)) = Some ''CIVIC''"
proof -
  have sent: "could_send two_fingerprints b (set (concat (concat civic_packets))) ''CIVIC''" for b
    unfolding civic_messages
    by (simp add: could_send_def two_fingerprints_def car_fingerprints_def is_valid_for_fingerprint_def with_debug_def
        DEBUG_ADDRESS_def)
  obtain car finger where found: "can_fingerprint two_fingerprints civic_packets = Some (Some car, finger)"
  proof -
    have "case can_fingerprint two_fingerprints civic_packets of None \<Rightarrow> False | Some (car, _) \<Rightarrow> car \<noteq> None"
      by code_simp
    then show thesis using that
      by (cases "can_fingerprint two_fingerprints civic_packets") (auto split: prod.splits)
  qed
  have "''CIVIC'' \<in> fst ` set two_fingerprints" by (simp add: two_fingerprints_def)
  then have "car = ''CIVIC''" by (rule right_car_or_none [OF _ sent sent found])
  then show ?thesis using found by simp
qed

end
