(* ===== verification/SpeedLimit.thy ===== *)
theory SpeedLimit
  imports LaneChange PyNumpy
begin

text \<open>
  The speed limit controller: \<^verbatim>\<open>SpeedLimitController\<close> of \<^verbatim>\<open>iqpilot/selfdrive/controls/lib/speed_limit_controller.py\<close>,
  \<^verbatim>\<open>SLCVCruise\<close> of \<^verbatim>\<open>slc_vcruise.py\<close>, and the part of \<^verbatim>\<open>LongitudinalPlannerIQ\<close> that chooses the target speed and
  publishes the state of the assist. Speeds are in m/s. Parameters are given parsed, as the values the code converts them
  to. The web request to Mapbox runs in a thread: what it writes are steps of their own (\<open>make_request\<close>,
  \<open>complete_request\<close>), with the answer as an argument; the position it sends is not modelled.
\<close>

section \<open>Parameters\<close>

datatype SlcSource = Source_Dashboard | Source_Mapbox | Source_MapData | Source_None

definition FREE_MAPBOX_REQUESTS :: int where "FREE_MAPBOX_REQUESTS = 100000"

definition OFFSET_MAP_IMPERIAL :: "(rat \<times> rat \<times> nat) list" where
  "OFFSET_MAP_IMPERIAL =
    [(0, fl (112 / 10), 1), (fl (112 / 10), fl (152 / 10), 2), (fl (152 / 10), fl (196 / 10), 3), (fl (196 / 10), fl (241 / 10), 4),
     (fl (241 / 10), fl (286 / 10), 5), (fl (286 / 10), fl (331 / 10), 6), (fl (331 / 10), fl (442 / 10), 7)]"

definition OFFSET_MAP_METRIC :: "(rat \<times> rat \<times> nat) list" where
  "OFFSET_MAP_METRIC =
    [(0, fl (81 / 10), 1), (fl (81 / 10), fl (136 / 10), 2), (fl (136 / 10), fl (164 / 10), 3), (fl (164 / 10), fl (219 / 10), 4),
     (fl (219 / 10), fl (275 / 10), 5), (fl (275 / 10), fl (331 / 10), 6), (fl (331 / 10), fl (389 / 10), 7)]"

definition CRUISING_SPEED :: rat where "CRUISING_SPEED = 7"

datatype SpeedLimitMode = Mode_off | Mode_information | Mode_warning | Mode_control

text \<open>The parameters as they are stored: \<open>offset i\<close> is \<^verbatim>\<open>speed_limit_offset<i>\<close>.\<close>

record raw_params =
  SLCPriority :: int
  SLCOverrideMethod :: int
  raw_mode :: SpeedLimitMode
  SpeedLimitConfirmationHigher :: bool
  SpeedLimitConfirmationLower :: bool
  MapSpeedLookaheadHigher :: rat
  MapSpeedLookaheadLower :: rat
  SLCFallbackSetSpeed :: bool
  SLCFallbackPreviousSpeedLimit :: bool
  IsMetric :: bool
  speed_limit_offset :: "nat \<Rightarrow> rat option"

record slc_params =
  speed_limit_controller :: bool
  show_speed_limits :: bool
  priority_highest :: bool
  priority_lowest :: bool
  priority1 :: SlcSource
  priority2 :: SlcSource
  priority3 :: SlcSource
  confirmation_higher :: bool
  confirmation_lower :: bool
  lookahead_higher :: rat
  lookahead_lower :: rat
  fallback_set_speed :: bool
  fallback_previous :: bool
  override_manual :: bool
  override_set_speed :: bool
  is_metric :: bool
  offset_param :: "nat \<Rightarrow> rat option"

definition priority_order :: "int \<Rightarrow> SlcSource \<times> SlcSource \<times> SlcSource \<times> bool \<times> bool" where
  "priority_order priority_mode =
    (if priority_mode = 0 then (Source_Dashboard, Source_Mapbox, Source_MapData, False, False)
     else if priority_mode = 1 then (Source_Mapbox, Source_Dashboard, Source_MapData, False, False)
     else if priority_mode = 2 then (Source_MapData, Source_Mapbox, Source_Dashboard, False, False)
     else if priority_mode = 3 then (Source_Dashboard, Source_Mapbox, Source_MapData, True, False)
     else (Source_Dashboard, Source_Mapbox, Source_MapData, False, True))"

definition mode_flags :: "SpeedLimitMode \<Rightarrow> bool \<times> bool" where
  "mode_flags speed_limit_mode =
    (if speed_limit_mode = Mode_off then (False, False)
     else if speed_limit_mode = Mode_control then (True, False)
     else (False, True))"

definition get_slc_params :: "raw_params \<Rightarrow> slc_params" where
  "get_slc_params r =
    (let (p1, p2, p3, highest, lowest) = priority_order (SLCPriority r);
         (controller, shown) = mode_flags (raw_mode r)
     in \<lparr>speed_limit_controller = controller, show_speed_limits = shown, priority_highest = highest, priority_lowest = lowest,
         priority1 = p1, priority2 = p2, priority3 = p3, confirmation_higher = SpeedLimitConfirmationHigher r,
         confirmation_lower = SpeedLimitConfirmationLower r, lookahead_higher = MapSpeedLookaheadHigher r,
         lookahead_lower = MapSpeedLookaheadLower r, fallback_set_speed = SLCFallbackSetSpeed r,
         fallback_previous = SLCFallbackPreviousSpeedLimit r, override_manual = (SLCOverrideMethod r = 0),
         override_set_speed = (SLCOverrideMethod r = 1), is_metric = IsMetric r, offset_param = speed_limit_offset r\<rparr>)"

section \<open>State and input\<close>

record slc =
  calling_mapbox :: bool
  override_slc :: bool
  denied_target :: rat
  map_speed_limit :: rat
  mapbox_limit :: rat
  next_speed_limit :: rat
  overridden_speed :: rat
  segment_distance :: rat
  speed_limit_changed_timer :: rat
  slc_target :: rat
  unconfirmed_speed_limit :: rat
  previous_source :: SlcSource
  previous_target :: rat
  slc_source :: SlcSource
  active_source :: SlcSource
  active_target :: rat
  speed_limit_accepted :: bool
  gps_valid :: bool
  mapbox_total :: int
  mapbox_max :: int
  mapbox_month :: "int option"

text \<open>The stored request counters and previous limit, if any, come from the parameters.\<close>

definition SpeedLimitController_init :: "int option \<Rightarrow> int option \<Rightarrow> int option \<Rightarrow> rat option \<Rightarrow> slc" where
  "SpeedLimitController_init used maximum month previous =
    \<lparr>calling_mapbox = False, override_slc = False, denied_target = 0, map_speed_limit = 0, mapbox_limit = 0, next_speed_limit = 0,
     overridden_speed = 0, segment_distance = 0, speed_limit_changed_timer = 0, slc_target = 0, unconfirmed_speed_limit = 0,
     previous_source = Source_None, previous_target = (case previous of None \<Rightarrow> 0 | Some x \<Rightarrow> x), slc_source = Source_None,
     active_source = Source_None, active_target = 0, speed_limit_accepted = False, gps_valid = False,
     mapbox_total = (case used of None \<Rightarrow> 0 | Some n \<Rightarrow> n),
     mapbox_max = (case maximum of None \<Rightarrow> FREE_MAPBOX_REQUESTS - 28 * 100 | Some n \<Rightarrow> n), mapbox_month = month\<rparr>"

record slc_input =
  in_v_cruise :: rat
  in_v_ego :: rat
  in_vCruiseCluster :: rat
  in_vEgoCluster :: rat
  in_gasPressed :: bool
  in_steering_offset :: rat
  in_accelPressed :: bool
  in_decelPressed :: bool
  in_longActive :: bool
  in_enabled :: bool
  in_dashboard :: rat
  in_gps_flags :: "int option"
  in_map_alive :: bool
  in_speedLimit :: rat
  in_speedLimitValid :: bool
  in_speedLimitAhead :: rat
  in_speedLimitAheadValid :: bool
  in_speedLimitAheadDistance :: rat
  in_mapbox_ready :: bool

section \<open>Sources\<close>

definition get_offset :: "bool \<Rightarrow> (nat \<Rightarrow> rat option) \<Rightarrow> slc \<Rightarrow> rat" where
  "get_offset metric offsets s =
    (case find (\<lambda>(low, high, _). low < slc_target s \<and> slc_target s < high) (if metric then OFFSET_MAP_METRIC else OFFSET_MAP_IMPERIAL) of
       None \<Rightarrow> 0
     | Some (_, _, i) \<Rightarrow> (case offsets i of None \<Rightarrow> 0 | Some x \<Rightarrow> x))"

definition update_gps :: "slc_input \<Rightarrow> slc \<Rightarrow> slc" where
  "update_gps i s = s\<lparr>gps_valid := (case in_gps_flags i of None \<Rightarrow> False | Some f \<Rightarrow> 0 < f)\<rparr>"

definition update_map_speed_limit :: "slc_params \<Rightarrow> slc_input \<Rightarrow> slc \<Rightarrow> slc" where
  "update_map_speed_limit p i s =
    (if in_map_alive i
     then let limit = (if in_speedLimitValid i then in_speedLimit i else 0);
              ahead = (if in_speedLimitAheadValid i then in_speedLimitAhead i else 0);
              max_lookahead = (if limit < ahead then fl (lookahead_higher p * in_v_ego i)
                               else if limit > ahead then fl (lookahead_lower p * in_v_ego i) else 0)
          in s\<lparr>map_speed_limit := (if 0 < ahead \<and> in_speedLimitAheadDistance i < max_lookahead then ahead else limit),
               next_speed_limit := ahead\<rparr>
     else s\<lparr>map_speed_limit := 0, next_speed_limit := 0\<rparr>)"

text \<open>\<open>in_mapbox_ready\<close> is a session with a token, \<open>in_steering_offset\<close> the steering angle without its offset. The second
  component says whether a request is submitted.\<close>

definition get_mapbox_speed_limit :: "slc_input \<Rightarrow> slc \<Rightarrow> slc \<times> bool" where
  "get_mapbox_speed_limit i s =
    (if \<not> in_mapbox_ready i \<or> \<not> gps_valid s \<or> in_steering_offset i \<ge> 45 then (s\<lparr>mapbox_limit := 0, segment_distance := 0\<rparr>, False)
     else if in_v_ego i < 1 then (s, False)
     else if segment_distance s > 0 then (s\<lparr>segment_distance := fl (segment_distance s - fl (in_v_ego i * DT_MDL))\<rparr>, False)
     else if calling_mapbox s then (s\<lparr>segment_distance := in_v_ego i\<rparr>, False)
     else (s, True))"

section \<open>The thread that asks Mapbox\<close>

datatype maxspeed = No_speed | Speed rat

record mapbox_leg =
  leg_distances :: "rat list"
  leg_maxspeeds :: "maxspeed list"

text \<open>\<open>clock\<close> is the validated month with its number of days; \<open>answer\<close> the outcome of the web request. The \<^verbatim>\<open>finally\<close>
  block overwrites the distance that was set before it.\<close>

definition make_request ::
  "bool \<Rightarrow> (int \<times> int) option \<Rightarrow> mapbox_leg list list option \<Rightarrow> rat \<Rightarrow> slc \<Rightarrow> mapbox_leg list list option \<times> slc" where
  "make_request pingable clock answer v_ego s =
    (let s = s\<lparr>calling_mapbox := True\<rparr>;
         (successful, s) =
           (if \<not> pingable then (False, s\<lparr>segment_distance := 1000\<rparr>)
            else let s = (case clock of
                            None \<Rightarrow> s
                          | Some (month, days) \<Rightarrow>
                              if mapbox_month s \<noteq> Some month
                              then s\<lparr>mapbox_month := Some month, mapbox_total := 0, mapbox_max := FREE_MAPBOX_REQUESTS - days * 100\<rparr>
                              else s);
                     s = s\<lparr>mapbox_total := mapbox_total s + 1\<rparr>
                 in (answer \<noteq> None, s));
         s = s\<lparr>calling_mapbox := False\<rparr>
     in if \<not> successful then (None, s\<lparr>mapbox_limit := 0, segment_distance := v_ego\<rparr>) else (answer, s))"

definition complete_request :: "mapbox_leg list list option \<Rightarrow> rat \<Rightarrow> slc \<Rightarrow> slc" where
  "complete_request data v_ego s =
    (let none = s\<lparr>mapbox_limit := 0, segment_distance := v_ego\<rparr>
     in case data of
          Some ((leg # _) # _) \<Rightarrow>
            (let distance = (case leg_distances leg of [] \<Rightarrow> v_ego | d # _ \<Rightarrow> d);
                 kph = (case leg_maxspeeds leg of Speed x # _ \<Rightarrow> x | _ \<Rightarrow> 0)
             in if kph > 0 then s\<lparr>mapbox_limit := fl (kph * KPH_TO_MS), segment_distance := distance\<rparr> else none)
        | _ \<Rightarrow> none)"

section \<open>The choice of the limit\<close>

text \<open>\<^verbatim>\<open>max\<close> and \<^verbatim>\<open>min\<close> over the dictionary of limits return the first of equal ones.\<close>

definition first_best :: "(rat \<Rightarrow> rat \<Rightarrow> bool) \<Rightarrow> (SlcSource \<times> rat) list \<Rightarrow> SlcSource \<times> rat" where
  "first_best better ls =
    (case ls of [] \<Rightarrow> (Source_None, 0) | l # ls \<Rightarrow> fold (\<lambda>x best. if better (snd x) (snd best) then x else best) ls l)"

definition filtered_limits :: "slc_input \<Rightarrow> slc \<Rightarrow> (SlcSource \<times> rat) list" where
  "filtered_limits i s =
    filter (\<lambda>(_, limit). limit \<ge> 1)
      [(Source_Dashboard, in_dashboard i), (Source_Mapbox, mapbox_limit s), (Source_MapData, map_speed_limit s)]"

definition desired_limit :: "slc_params \<Rightarrow> (SlcSource \<times> rat) list \<Rightarrow> SlcSource \<times> rat" where
  "desired_limit p ls =
    (if priority_highest p then first_best (>) ls
     else if priority_lowest p then first_best (<) ls
     else case find (\<lambda>src. src \<in> fst ` set ls) [priority1 p, priority2 p, priority3 p] of
            None \<Rightarrow> (Source_None, 0)
          | Some src \<Rightarrow> (src, case map_of ls src of None \<Rightarrow> 0 | Some x \<Rightarrow> x))"

definition handle_limit_change :: "slc_params \<Rightarrow> slc_input \<Rightarrow> SlcSource \<Rightarrow> rat \<Rightarrow> slc \<Rightarrow> slc" where
  "handle_limit_change p i desired_source desired_target s =
    (let s = s\<lparr>speed_limit_changed_timer := fl (speed_limit_changed_timer s + DT_MDL)\<rparr>;
         accepted = (in_accelPressed i \<and> in_longActive i) \<or> speed_limit_accepted s;
         denied = in_decelPressed i \<or> speed_limit_changed_timer s \<ge> 30;
         s = (if accepted then s\<lparr>overridden_speed := 0, slc_source := desired_source, slc_target := desired_target, speed_limit_accepted := False\<rparr>
              else if denied then s\<lparr>denied_target := desired_target, previous_source := desired_source, previous_target := desired_target\<rparr>
              else if desired_target < slc_target s \<and> \<not> confirmation_lower p
              then s\<lparr>slc_source := desired_source, slc_target := desired_target\<rparr>
              else if desired_target > slc_target s \<and> \<not> confirmation_higher p
              then s\<lparr>slc_source := desired_source, slc_target := desired_target\<rparr>
              else s\<lparr>slc_source := Source_None, unconfirmed_speed_limit := desired_target\<rparr>)
     in if slc_target s \<noteq> previous_target s \<and> slc_target s > 0 \<and> \<not> denied
        then s\<lparr>denied_target := 0, previous_source := slc_source s, previous_target := slc_target s\<rparr> else s)"

text \<open>The limit of the sources, with the previous limit or the set speed as a fallback.\<close>

definition with_fallback :: "slc_params \<Rightarrow> slc_input \<Rightarrow> SlcSource \<times> rat \<Rightarrow> slc \<Rightarrow> (SlcSource \<times> rat) \<times> slc" where
  "with_fallback p i desired s =
    (if snd desired = 0 \<or> slc_target s = 0
     then if denied_target s \<noteq> previous_target s \<and> previous_target s > 0 \<and> fallback_previous p
          then ((previous_source s, previous_target s), s\<lparr>slc_target := previous_target s\<rparr>)
          else if in_enabled i \<and> fallback_set_speed p then ((Source_None, in_v_cruise i), s)
          else (desired, s)
     else (desired, s))"

text \<open>The end of \<^verbatim>\<open>update_limits\<close>, and its whole.\<close>

definition take_limit :: "slc_params \<Rightarrow> slc_input \<Rightarrow> SlcSource \<Rightarrow> rat \<Rightarrow> slc \<Rightarrow> slc" where
  "take_limit p i source target s =
    (let s = s\<lparr>active_source := source, active_target := target\<rparr>
     in if \<bar>fl (target - previous_target s)\<bar> \<ge> 1 then handle_limit_change p i source target s
        else if source \<noteq> slc_source s \<and> \<bar>fl (target - slc_target s)\<bar> < 1 then s\<lparr>slc_source := source\<rparr>
        else s\<lparr>speed_limit_changed_timer := 0, unconfirmed_speed_limit := 0\<rparr>)"

definition update_limits :: "slc_params \<Rightarrow> slc_input \<Rightarrow> slc \<Rightarrow> slc \<times> bool" where
  "update_limits p i s =
    (let s = update_map_speed_limit p i (update_gps i s);
         (s, submitted) =
           (if mapbox_total s < mapbox_max s then get_mapbox_speed_limit i s else (s\<lparr>mapbox_limit := 0, segment_distance := 0\<rparr>, False));
         ((source, target), s) = with_fallback p i (desired_limit p (filtered_limits i s)) s
     in (take_limit p i source target s, submitted))"

definition update_override :: "math_env \<Rightarrow> slc_params \<Rightarrow> slc_input \<Rightarrow> rat \<Rightarrow> rat \<Rightarrow> slc \<Rightarrow> slc" where
  "update_override env p i cruise_diff ego_diff s =
    (let limit = fl (slc_target s + get_offset (is_metric p) (offset_param p) s);
         over = ((overridden_speed s > limit \<and> limit > 0) \<or> (in_gasPressed i \<and> in_v_ego i > limit \<and> limit > 0)) \<and> in_enabled i;
         s = s\<lparr>override_slc := over\<rparr>
     in if over
        then let s = (if override_manual p
                      then let v = (if in_gasPressed i then max (fl (in_v_ego i + ego_diff)) (overridden_speed s) else overridden_speed s)
                           in s\<lparr>overridden_speed := np_clip env v limit (fl (in_v_cruise i + cruise_diff))\<rparr>
                      else if override_set_speed p then s\<lparr>overridden_speed := fl (in_v_cruise i + cruise_diff)\<rparr>
                      else s)
             in s\<lparr>slc_source := Source_None\<rparr>
        else s\<lparr>overridden_speed := 0\<rparr>)"

section \<open>The set speed of the limit\<close>

record slc_cruise =
  cruise_slc :: slc
  shown_offset :: rat
  shown_target :: rat
  shown_source :: SlcSource
  shown_active_target :: rat
  shown_active_source :: SlcSource
  shown_unconfirmed :: rat
  shown_overridden :: rat

definition SLCVCruise_init :: "slc \<Rightarrow> slc_cruise" where
  "SLCVCruise_init s =
    \<lparr>cruise_slc = s, shown_offset = 0, shown_target = 0, shown_source = Source_None, shown_active_target = 0,
     shown_active_source = Source_None, shown_unconfirmed = 0, shown_overridden = 0\<rparr>"

definition show_slc :: "rat \<Rightarrow> rat \<Rightarrow> slc \<Rightarrow> slc_cruise" where
  "show_slc offset overridden s =
    \<lparr>cruise_slc = s, shown_offset = offset, shown_target = slc_target s, shown_source = slc_source s,
     shown_active_target = active_target s, shown_active_source = active_source s,
     shown_unconfirmed = unconfirmed_speed_limit s, shown_overridden = overridden\<rparr>"

definition v_ego_diff :: "slc_input \<Rightarrow> rat" where
  "v_ego_diff i = fl (max (in_vEgoCluster i) (in_v_ego i) - in_v_ego i)"

text \<open>The three branches of the mode.\<close>

definition SLCVCruise_state :: "math_env \<Rightarrow> raw_params \<Rightarrow> slc_input \<Rightarrow> slc_cruise \<Rightarrow> slc_cruise" where
  "SLCVCruise_state env r i c =
    (let p = get_slc_params r;
         v_cruise_cluster = max (fl (in_vCruiseCluster i * KPH_TO_MS)) (in_v_cruise i);
         v_cruise_diff = fl (v_cruise_cluster - in_v_cruise i)
     in if speed_limit_controller p
        then let s = update_override env p i v_cruise_diff (v_ego_diff i) (fst (update_limits p i (cruise_slc c)))
             in show_slc (get_offset (is_metric p) (offset_param p) s) (overridden_speed s) s
        else if show_speed_limits p then show_slc 0 0 (fst (update_limits p i (cruise_slc c)))
        else SLCVCruise_init (cruise_slc c))"

definition SLCVCruise_update :: "math_env \<Rightarrow> raw_params \<Rightarrow> slc_input \<Rightarrow> bool \<Rightarrow> slc_cruise \<Rightarrow> rat \<times> slc_cruise" where
  "SLCVCruise_update env r i long_control_active c =
    (let c = SLCVCruise_state env r i c;
         slc_cruise_target = fl (max (shown_overridden c) (fl (shown_target c + shown_offset c)) - v_ego_diff i)
     in if speed_limit_controller (get_slc_params r) \<and> long_control_active \<and> slc_cruise_target \<ge> CRUISING_SPEED
        then (min (in_v_cruise i) slc_cruise_target, c)
        else (in_v_cruise i, c))"

section \<open>The planner\<close>

datatype LongitudinalPlanSource = Plan_cruise | Plan_sccVision | Plan_sccMap | Plan_speedLimitAssist

record planner =
  planner_slc :: slc_cruise
  plan_source :: LongitudinalPlanSource
  output_v_target :: rat
  output_a_target :: rat
  plan_limit_last :: rat
  plan_limit_final_last :: rat

definition planner_init :: "slc \<Rightarrow> planner" where
  "planner_init s =
    \<lparr>planner_slc = SLCVCruise_init s, plan_source = Plan_cruise, output_v_target = 0, output_a_target = 0, plan_limit_last = 0,
     plan_limit_final_last = 0\<rparr>"

text \<open>The targets of the smart cruise control are arguments; \<^verbatim>\<open>min\<close> takes the first of the dictionary with the least speed.\<close>

definition least_target :: "(LongitudinalPlanSource \<times> rat \<times> rat) list \<Rightarrow> LongitudinalPlanSource \<times> rat \<times> rat" where
  "least_target ts = fold (\<lambda>x best. if fst (snd x) < fst (snd best) then x else best) (tl ts) (hd ts)"

definition update_targets ::
  "math_env \<Rightarrow> raw_params \<Rightarrow> slc_input \<Rightarrow> bool \<Rightarrow> rat \<Rightarrow> rat \<times> rat \<Rightarrow> rat \<times> rat \<Rightarrow> planner \<Rightarrow> planner" where
  "update_targets env r i long_enabled a_ego scc_vision scc_map pl =
    (let (slc_v_cruise, c) = SLCVCruise_update env r i long_enabled (planner_slc pl);
         display = (if shown_target c > 0 then shown_target c else shown_active_target c);
         (source, v, a) = least_target
           [(Plan_cruise, in_v_cruise i, a_ego), (Plan_sccVision, scc_vision), (Plan_sccMap, scc_map),
            (Plan_speedLimitAssist, slc_v_cruise, a_ego)]
     in \<lparr>planner_slc = c, plan_source = source, output_v_target = v, output_a_target = a,
         plan_limit_last = (if display > 0 then display else plan_limit_last pl),
         plan_limit_final_last = (if display > 0 then fl (display + shown_offset c) else plan_limit_final_last pl)\<rparr>)"

end
