(* ===== verification/SpeedLimitCorrect.thy ===== *)
theory SpeedLimitCorrect
  imports SpeedLimit VCruise
begin

text \<open>
  What the speed limit controller may do: it only lowers the target speed, only in the mode that controls, and with
  confirmations required it does nothing the driver has not confirmed. The state it publishes is what \<open>VCruise\<close>
  reads.
\<close>

section \<open>What the planner publishes\<close>

definition published_limit :: "planner \<Rightarrow> rat" where
  "published_limit pl =
    (let c = planner_slc pl in if shown_target c > 0 then shown_target c else shown_active_target c)"

definition assist_enabled :: "planner \<Rightarrow> bool" where
  "assist_enabled pl \<longleftrightarrow> shown_target (planner_slc pl) > 0 \<or> shown_unconfirmed (planner_slc pl) > 0"

definition assist_active :: "planner \<Rightarrow> bool" where
  "assist_active pl \<longleftrightarrow> plan_source pl = Plan_speedLimitAssist \<and> shown_target (planner_slc pl) > 0"

definition assist_state :: "planner \<Rightarrow> AssistState" where
  "assist_state pl =
    (if \<not> assist_enabled pl then Assist_disabled
     else if shown_unconfirmed (planner_slc pl) > 0 then Assist_preActive
     else if assist_active pl then Assist_active else Assist_inactive)"

definition published_final :: "planner \<Rightarrow> rat" where
  "published_final pl =
    (if published_limit pl > 0 then fl (published_limit pl + shown_offset (planner_slc pl)) else 0)"

definition assist_v_target :: "planner \<Rightarrow> rat" where
  "assist_v_target pl = (if assist_active pl then output_v_target pl else 255)"

section \<open>Only lower\<close>

lemma get_slc_params_simps [simp]:
  "speed_limit_controller (get_slc_params r) \<longleftrightarrow> raw_mode r = Mode_control"
  "show_speed_limits (get_slc_params r) \<longleftrightarrow> raw_mode r \<noteq> Mode_control \<and> raw_mode r \<noteq> Mode_off"
  "confirmation_higher (get_slc_params r) = SpeedLimitConfirmationHigher r"
  "confirmation_lower (get_slc_params r) = SpeedLimitConfirmationLower r"
  "fallback_previous (get_slc_params r) = SLCFallbackPreviousSpeedLimit r"
  "is_metric (get_slc_params r) = IsMetric r" "offset_param (get_slc_params r) = speed_limit_offset r"
  by (auto simp: get_slc_params_def mode_flags_def split: prod.split)

lemma SLCVCruise_update_speed:
  assumes "SLCVCruise_update env r i active c = (v, c')"
  shows "v \<le> in_v_cruise i"
    and "v \<noteq> in_v_cruise i \<Longrightarrow> raw_mode r = Mode_control \<and> active \<and> 7 \<le> v"
    and "c' = SLCVCruise_state env r i c"
  using assms
  by (auto simp: SLCVCruise_update_def CRUISING_SPEED_def Let_def min_def split: if_splits)

lemma least_target_four:
  assumes "least_target [(A, a), (B, b), (C, c), (D, d)] = (s, v, x)"
  shows "v \<le> fst a \<and> v \<le> fst b \<and> v \<le> fst c \<and> v \<le> fst d" "s = A \<or> s = B \<or> s = C \<or> s = D \<and> v = fst d \<and> v < fst a"
  using assms by (auto simp: least_target_def split: if_splits)

text \<open>C18: The target speed of the planner is never above the set speed, nor above the targets of the smart cruise control.
  The speed limit is its source, and the published state one in which the set speed follows the limit, only in the
  control mode and with longitudinal control enabled, and then the target is below the set speed and at least 7 m/s.\<close>

theorem planner_only_lowers:
  "(let pl' = update_targets env r i long_enabled a_ego scc_vision scc_map pl; v = output_v_target pl'
    in v \<le> in_v_cruise i \<and> v \<le> fst scc_vision \<and> v \<le> fst scc_map \<and>
       (plan_source pl' \<noteq> Plan_speedLimitAssist \<and> \<not> assist_engaged (assist_state pl') \<or>
        raw_mode r = Mode_control \<and> long_enabled \<and> 7 \<le> v \<and> v < in_v_cruise i))"
proof -
  obtain sv c where slc: "SLCVCruise_update env r i long_enabled (planner_slc pl) = (sv, c)" by fastforce
  obtain s v a where least: "least_target [(Plan_cruise, in_v_cruise i, a_ego), (Plan_sccVision, scc_vision), (Plan_sccMap, scc_map),
      (Plan_speedLimitAssist, sv, a_ego)] = (s, v, a)"
    by (metis surj_pair)
  have "output_v_target (update_targets env r i long_enabled a_ego scc_vision scc_map pl) = v"
    "plan_source (update_targets env r i long_enabled a_ego scc_vision scc_map pl) = s"
    by (simp_all add: update_targets_def slc least Let_def)
  moreover have "plan_source pl' = Plan_speedLimitAssist" if "assist_engaged (assist_state pl')" for pl'
    using that by (auto simp: assist_state_def assist_engaged_def assist_active_def split: if_splits)
  ultimately show ?thesis
    using least_target_four [OF least] SLCVCruise_update_speed [OF slc] by (auto simp: Let_def)
qed

section \<open>Confirmation\<close>

text \<open>Both kinds of changes need a confirmation. There is no previous limit to fall back to: none is stored, or it is the one
  the driver denied; or the fallback is off.\<close>

definition confirms :: "raw_params \<Rightarrow> bool" where
  "confirms r \<longleftrightarrow> SpeedLimitConfirmationHigher r \<and> SpeedLimitConfirmationLower r"

definition nothing_stored :: "slc \<Rightarrow> bool" where
  "nothing_stored s \<longleftrightarrow> previous_target s \<le> 0 \<or> denied_target s = previous_target s"

definition no_fallback :: "raw_params \<Rightarrow> slc \<Rightarrow> bool" where
  "no_fallback r s \<longleftrightarrow> \<not> SLCFallbackPreviousSpeedLimit r \<or> nothing_stored s"

definition confirmed :: "slc_input \<Rightarrow> bool" where
  "confirmed i \<longleftrightarrow> in_accelPressed i \<and> in_longActive i"

lemma get_mapbox_frame [simp]:
  "slc_target (fst (get_mapbox_speed_limit i s)) = slc_target s"
  "speed_limit_accepted (fst (get_mapbox_speed_limit i s)) = speed_limit_accepted s"
  "nothing_stored (fst (get_mapbox_speed_limit i s)) = nothing_stored s"
  by (simp_all add: get_mapbox_speed_limit_def nothing_stored_def)

lemma with_fallback_frame:
  "\<not> fallback_previous p \<or> nothing_stored s \<Longrightarrow> snd (with_fallback p i d s) = s"
  by (auto simp: with_fallback_def nothing_stored_def)

lemma handle_limit_change_unconfirmed:
  assumes "\<not> confirmed i" "\<not> speed_limit_accepted s" "confirmation_lower p" "confirmation_higher p"
  shows "slc_target (handle_limit_change p i src t s) = slc_target s \<and> \<not> speed_limit_accepted (handle_limit_change p i src t s)"
    "nothing_stored s \<Longrightarrow> slc_target s = 0 \<Longrightarrow> nothing_stored (handle_limit_change p i src t s)"
  using assms by (auto simp: handle_limit_change_def confirmed_def nothing_stored_def Let_def)

lemma take_limit_unconfirmed:
  assumes "\<not> confirmed i" "\<not> speed_limit_accepted s" "confirmation_lower p" "confirmation_higher p"
  shows "slc_target (take_limit p i src t s) = slc_target s \<and> \<not> speed_limit_accepted (take_limit p i src t s)"
    "nothing_stored s \<Longrightarrow> slc_target s = 0 \<Longrightarrow> nothing_stored (take_limit p i src t s)"
  using handle_limit_change_unconfirmed [OF assms(1) _ assms(3,4), of "s\<lparr>active_source := src, active_target := t\<rparr>"] assms(2)
  by (simp_all add: take_limit_def nothing_stored_def Let_def)

lemma update_limits_unconfirmed:
  assumes "\<not> confirmed i" "\<not> speed_limit_accepted s" "confirms r" "no_fallback r s"
  shows "slc_target (fst (update_limits (get_slc_params r) i s)) = slc_target s \<and>
    \<not> speed_limit_accepted (fst (update_limits (get_slc_params r) i s))"
    "nothing_stored s \<Longrightarrow> slc_target s = 0 \<Longrightarrow> nothing_stored (fst (update_limits (get_slc_params r) i s))"
proof -
  let ?p = "get_slc_params r"
  define a where "a = update_map_speed_limit ?p i (update_gps i s)"
  define b where "b = (if mapbox_total a < mapbox_max a then get_mapbox_speed_limit i a else (a\<lparr>mapbox_limit := 0, segment_distance := 0\<rparr>, False))"
  have a: "slc_target a = slc_target s" "speed_limit_accepted a = speed_limit_accepted s" "nothing_stored a = nothing_stored s"
    by (simp_all add: a_def update_map_speed_limit_def update_gps_def nothing_stored_def Let_def)
  then have b: "slc_target (fst b) = slc_target s" "\<not> speed_limit_accepted (fst b)" "nothing_stored (fst b) = nothing_stored s"
    using assms(2) by (auto simp: b_def) (simp_all add: nothing_stored_def)
  have "\<not> fallback_previous ?p \<or> nothing_stored (fst b)" using assms(4) b(3) by (simp add: no_fallback_def get_slc_params_simps)
  then obtain src t where fb: "with_fallback ?p i (desired_limit ?p (filtered_limits i (fst b))) (fst b) = ((src, t), fst b)"
    using with_fallback_frame [of ?p "fst b" i "desired_limit ?p (filtered_limits i (fst b))"] by (metis prod.collapse)
  have upd: "fst (update_limits ?p i s) = take_limit ?p i src t (fst b)"
    by (simp add: update_limits_def a_def [symmetric] b_def [symmetric] fb case_prod_unfold Let_def)
  have "confirmation_lower ?p" "confirmation_higher ?p" using assms(3) by (simp_all add: confirms_def)
  note take = take_limit_unconfirmed [OF assms(1) b(2) this, of src t]
  show "slc_target (fst (update_limits ?p i s)) = slc_target s \<and> \<not> speed_limit_accepted (fst (update_limits ?p i s))"
    using take(1) b(1) by (simp add: upd)
  show "nothing_stored s \<Longrightarrow> slc_target s = 0 \<Longrightarrow> nothing_stored (fst (update_limits ?p i s))"
    using take(2) b(1,3) by (simp add: upd)
qed

lemma update_override_frame [simp]:
  "slc_target (update_override env p i d e s) = slc_target s"
  "speed_limit_accepted (update_override env p i d e s) = speed_limit_accepted s"
  "nothing_stored (update_override env p i d e s) = nothing_stored s"
  by (simp_all add: update_override_def nothing_stored_def Let_def)

text \<open>Nothing is known of the limit: no target, and nothing pending that counts as accepted.\<close>

definition no_limit :: "slc_cruise \<Rightarrow> bool" where
  "no_limit c \<longleftrightarrow> slc_target (cruise_slc c) = 0 \<and> \<not> speed_limit_accepted (cruise_slc c) \<and> shown_target c = 0 \<and> shown_overridden c = 0 \<and>
     shown_offset c = 0"

lemma fl_pos: "0 < q \<Longrightarrow> 0 < fl q"
  using fl_ge_half [of q] by linarith

lemma get_offset_no_target: "slc_target s = 0 \<Longrightarrow> get_offset m offsets s = 0"
proof -
  have "\<not> (low < (0 :: rat) \<and> 0 < high)" if "(low, high, i) \<in> set (if m then OFFSET_MAP_METRIC else OFFSET_MAP_IMPERIAL)" for low high i
    using that by (auto simp: OFFSET_MAP_METRIC_def OFFSET_MAP_IMPERIAL_def not_less split: if_splits)
  then have "find (\<lambda>(low, high, _). low < (0 :: rat) \<and> 0 < high) (if m then OFFSET_MAP_METRIC else OFFSET_MAP_IMPERIAL) = None"
    by (auto simp: find_None_iff)
  then show "slc_target s = 0 \<Longrightarrow> get_offset m offsets s = 0" by (simp add: get_offset_def)
qed

lemma no_limit_step:
  assumes "\<not> confirmed i" "confirms r" "no_limit c" "no_fallback r (cruise_slc c)"
  shows "no_limit (SLCVCruise_state env r i c)"
    "nothing_stored (cruise_slc c) \<Longrightarrow> nothing_stored (cruise_slc (SLCVCruise_state env r i c))"
proof -
  let ?s = "fst (update_limits (get_slc_params r) i (cruise_slc c))"
  have s: "slc_target ?s = 0" "\<not> speed_limit_accepted ?s" and stored: "nothing_stored (cruise_slc c) \<Longrightarrow> nothing_stored ?s"
    using update_limits_unconfirmed [OF assms(1) _ assms(2,4)] assms(3) by (simp_all add: no_limit_def)
  have o0: "get_offset m offsets (update_override env p i d e ?s) = 0" for m offsets p d e
    using s by (intro get_offset_no_target) simp
  have "overridden_speed (update_override env (get_slc_params r) i d e ?s) = 0" for d e
    using s get_offset_no_target [OF s(1)] by (simp add: update_override_def Let_def)
  then show "no_limit (SLCVCruise_state env r i c)" using s o0 assms(3)
    by (simp add: SLCVCruise_state_def no_limit_def show_slc_def SLCVCruise_init_def Let_def)
  show "nothing_stored (cruise_slc c) \<Longrightarrow> nothing_stored (cruise_slc (SLCVCruise_state env r i c))"
    using stored by (simp add: SLCVCruise_state_def show_slc_def SLCVCruise_init_def Let_def)
qed

record plan_frame =
  pf_env :: math_env
  pf_params :: raw_params
  pf_input :: slc_input
  pf_enabled :: bool
  pf_a_ego :: rat
  pf_vision :: "rat \<times> rat"
  pf_map :: "rat \<times> rat"

definition plan_step :: "plan_frame \<Rightarrow> planner \<Rightarrow> planner" where
  "plan_step f = update_targets (pf_env f) (pf_params f) (pf_input f) (pf_enabled f) (pf_a_ego f) (pf_vision f) (pf_map f)"

lemma no_limit_plan:
  assumes "\<not> confirmed (pf_input f)" "confirms (pf_params f)" "no_limit (planner_slc pl)"
    "no_fallback (pf_params f) (cruise_slc (planner_slc pl))"
  shows "no_limit (planner_slc (plan_step f pl)) \<and> plan_source (plan_step f pl) \<noteq> Plan_speedLimitAssist"
    "nothing_stored (cruise_slc (planner_slc pl)) \<Longrightarrow> nothing_stored (cruise_slc (planner_slc (plan_step f pl)))"
proof -
  let ?i = "pf_input f" and ?r = "pf_params f" and ?c = "SLCVCruise_state (pf_env f) (pf_params f) (pf_input f) (planner_slc pl)"
  have c: "no_limit ?c" by (rule no_limit_step(1) [OF assms])
  have "0 \<le> v_ego_diff ?i" by (simp add: v_ego_diff_def)
  then have "fl (max (shown_overridden ?c) (fl (shown_target ?c + shown_offset ?c)) - v_ego_diff ?i) \<le> fl 0"
    using c by (intro fl_mono) (simp add: no_limit_def)
  then have slc: "SLCVCruise_update (pf_env f) ?r ?i (pf_enabled f) (planner_slc pl) = (in_v_cruise ?i, ?c)"
    by (auto simp: SLCVCruise_update_def CRUISING_SPEED_def Let_def)
  obtain s v a where least: "least_target [(Plan_cruise, in_v_cruise ?i, pf_a_ego f), (Plan_sccVision, pf_vision f), (Plan_sccMap, pf_map f),
      (Plan_speedLimitAssist, in_v_cruise ?i, pf_a_ego f)] = (s, v, a)"
    by (metis surj_pair)
  then have "s \<noteq> Plan_speedLimitAssist" using least_target_four [OF least] by auto
  then show "no_limit (planner_slc (plan_step f pl)) \<and> plan_source (plan_step f pl) \<noteq> Plan_speedLimitAssist"
    using c by (simp add: plan_step_def update_targets_def slc least Let_def)
  show "nothing_stored (cruise_slc (planner_slc pl)) \<Longrightarrow> nothing_stored (cruise_slc (planner_slc (plan_step f pl)))"
    using no_limit_step(2) [OF assms] by (simp add: plan_step_def update_targets_def slc least Let_def)
qed

text \<open>C27: With a confirmation required for lower and higher limits, and the fallback to the previous limit off or no limit
  stored from an earlier drive, nothing that the sources say changes the speed before the driver has confirmed once, by
  plus under longitudinal control: after any frames without, in any mode, whether the driver denies limits or not, the
  controller has no target, the limit is not the source of the target speed, and the published state does not make the set
  speed follow. (With the fallback on, a stored limit is taken without a confirmation.)\<close>

theorem unconfirmed_limit_is_ignored:
  assumes "list_all (\<lambda>f. SpeedLimitConfirmationHigher (pf_params f) \<and> SpeedLimitConfirmationLower (pf_params f) \<and>
      \<not> (in_accelPressed (pf_input f) \<and> in_longActive (pf_input f))) fs"
    and "list_all (\<lambda>f. \<not> SLCFallbackPreviousSpeedLimit (pf_params f)) fs \<or> previous = None"
  shows "(let pl = fold plan_step fs (planner_init (SpeedLimitController_init used maximum month previous))
    in slc_target (cruise_slc (planner_slc pl)) = 0 \<and> plan_source pl \<noteq> Plan_speedLimitAssist \<and> \<not> assist_engaged (assist_state pl))"
proof -
  let ?start = "planner_init (SpeedLimitController_init used maximum month previous)"
  have start: "no_limit (planner_slc ?start)" "plan_source ?start \<noteq> Plan_speedLimitAssist"
      "previous = None \<Longrightarrow> nothing_stored (cruise_slc (planner_slc ?start))"
    by (simp_all add: no_limit_def planner_init_def SLCVCruise_init_def SpeedLimitController_init_def nothing_stored_def)
  have "no_limit (planner_slc (fold plan_step fs pl)) \<and> plan_source (fold plan_step fs pl) \<noteq> Plan_speedLimitAssist"
    if "no_limit (planner_slc pl)" "plan_source pl \<noteq> Plan_speedLimitAssist"
      "list_all (\<lambda>f. \<not> SLCFallbackPreviousSpeedLimit (pf_params f)) fs \<or> nothing_stored (cruise_slc (planner_slc pl))" for pl
    using assms(1) that
  proof (induction fs arbitrary: pl)
    case (Cons f fs)
    have f: "\<not> confirmed (pf_input f)" "confirms (pf_params f)" "no_fallback (pf_params f) (cruise_slc (planner_slc pl))"
      using Cons.prems by (auto simp: confirmed_def confirms_def no_fallback_def)
    note step = no_limit_plan [OF f(1,2) Cons.prems(2) f(3)]
    show ?case using Cons.IH [of "plan_step f pl"] Cons.prems(1,4) step by auto
  qed simp
  from this [OF start(1,2)] show ?thesis using assms(2) start(3)
    by (auto simp: no_limit_def planner_init_def assist_state_def assist_active_def assist_engaged_def Let_def)
qed

definition limit_frame :: "bool \<Rightarrow> plan_frame" where
  "limit_frame accel =
    \<lparr>pf_env = plain_math,
     pf_params = \<lparr>SLCPriority = 0, SLCOverrideMethod = 0, raw_mode = Mode_control, SpeedLimitConfirmationHigher = True,
       SpeedLimitConfirmationLower = True, MapSpeedLookaheadHigher = 5, MapSpeedLookaheadLower = 5, SLCFallbackSetSpeed = False,
       SLCFallbackPreviousSpeedLimit = False, IsMetric = True, speed_limit_offset = (\<lambda>_. None)\<rparr>,
     pf_input = \<lparr>in_v_cruise = 30, in_v_ego = 20, in_vCruiseCluster = 108, in_vEgoCluster = 20, in_gasPressed = False,
       in_steering_offset = 0, in_accelPressed = accel, in_decelPressed = False, in_longActive = True, in_enabled = True,
       in_dashboard = 15, in_gps_flags = None, in_map_alive = False, in_speedLimit = 0, in_speedLimitValid = False,
       in_speedLimitAhead = 0, in_speedLimitAheadValid = False, in_speedLimitAheadDistance = 0, in_mapbox_ready = False\<rparr>,
     pf_enabled = True, pf_a_ego = 0, pf_vision = (255, 0), pf_map = (255, 0)\<rparr>"

lemma unconfirmed_limit_is_ignored_witness:
  "plan_source (fold plan_step (replicate 3 (limit_frame False)) (planner_init (SpeedLimitController_init None None None None)))
     \<noteq> Plan_speedLimitAssist"
proof -
  have "list_all (\<lambda>f. SpeedLimitConfirmationHigher (pf_params f) \<and> SpeedLimitConfirmationLower (pf_params f) \<and>
      \<not> (in_accelPressed (pf_input f) \<and> in_longActive (pf_input f)))
    (replicate 3 (limit_frame False))"
    by (simp add: limit_frame_def numeral_3_eq_3)
  from unconfirmed_limit_is_ignored [OF this, of None None None None] show ?thesis by (simp only: Let_def simp_thms)
qed

text \<open>With the fallback on, a stored limit of 15 m/s is taken in the first frame.\<close>

lemma stored_limit_is_taken:
  "slc_target (cruise_slc (planner_slc (plan_step
     (limit_frame False\<lparr>pf_params := pf_params (limit_frame False)\<lparr>SLCFallbackPreviousSpeedLimit := True\<rparr>,
        pf_input := pf_input (limit_frame False)\<lparr>in_dashboard := 0\<rparr>\<rparr>)
     (planner_init (SpeedLimitController_init None None None (Some 15)))))) = 15"
  by code_simp

text \<open>The same frame with the confirmation: the planner drives at the limit of 15 m/s.\<close>

lemma confirmed_limit_is_taken:
  "output_v_target (plan_step (limit_frame True) (planner_init (SpeedLimitController_init None None None None))) = 15"
  by code_simp

section \<open>The request to the web\<close>

text \<open>An unreachable host sets a distance of 1000 m before the next request, which the \<^verbatim>\<open>finally\<close> block replaces by the
  distance of one second.\<close>

lemma unreachable_host_backoff_lost:
  "segment_distance (snd (make_request False clock answer v_ego s)) = v_ego"
  by (simp add: make_request_def Let_def)

end
