(* ===== verification/Dto.thy ===== *)
theory Dto
  imports PandaEnv
begin

text \<open>
  What the clients of the two calibration protocols (\<^verbatim>\<open>opendbc/car/ccp.py\<close>, \<^verbatim>\<open>opendbc/car/xcp.py\<close>) have in
  common: a byte order, and a method \<^verbatim>\<open>_recv_dto\<close> that polls the adapter until a frame decides the answer or the
  time is up. \<open>dto_wait\<close> is that loop over the treatment of one batch of frames; it takes fuel, one unit per turn.
  The locale \<open>dto_scan\<close> states what the treatment of a batch has to promise (that it decides by the first frame with
  a verdict and touches nothing but the clock), and proves for every such loop that it ends and what it returns.
  The pause of a millisecond between two turns and messages that are only printed are left out.
\<close>

section \<open>Byte order\<close>

datatype BYTE_ORDER = LITTLE_ENDIAN | BIG_ENDIAN

definition pack_order :: "BYTE_ORDER \<Rightarrow> nat \<Rightarrow> int \<Rightarrow> bytes result" where
  "pack_order order k n = (case order of LITTLE_ENDIAN \<Rightarrow> pack_le k n | BIG_ENDIAN \<Rightarrow> pack_be k n)"

definition unpack_order :: "BYTE_ORDER \<Rightarrow> nat \<Rightarrow> bytes \<Rightarrow> int result" where
  "unpack_order order k bs = (case order of LITTLE_ENDIAN \<Rightarrow> unpack_le k bs | BIG_ENDIAN \<Rightarrow> unpack_be k bs)"

text \<open>An argument above its bound raises \<^verbatim>\<open>ValueError\<close>.\<close>

definition at_most :: "int \<Rightarrow> int \<Rightarrow> unit result" where
  "at_most bound n = ensure (n \<le> bound) ValueError"

text \<open>\<^verbatim>\<open>bytes([...]) + rest\<close>: the list is converted first.\<close>

definition bytes_then :: "int list \<Rightarrow> bytes result \<Rightarrow> bytes result" where
  "bytes_then ns rest = ebind (py_bytes ns) (\<lambda>a. ebind rest (\<lambda>b. Inr (a @ b)))"

section \<open>Waiting for an answer\<close>

text \<open>The treatment of one batch: an answer or an exception if there is one, and the time since which it waits.\<close>

type_synonym batch_scan = "frame list \<Rightarrow> rat \<Rightarrow> panda \<Rightarrow> bytes result option \<times> rat \<times> panda"

fun dto_wait :: "batch_scan \<Rightarrow> nat \<Rightarrow> rat \<Rightarrow> rat \<Rightarrow> panda \<Rightarrow> bytes result \<times> panda" where
  "dto_wait scan 0 timeout start p = (Inl OutOfFuel, p)"
| "dto_wait scan (Suc n) timeout start p =
    (let (now, p) = read_clock p
     in if fl (now - start) < timeout
        then let (msgs, p) = can_recv p;
                 (r, start, p) = scan msgs start p
             in (case r of Some r \<Rightarrow> (r, p) | None \<Rightarrow> dto_wait scan n timeout start p)
        else (Inl CommandTimeoutError, p))"

section \<open>The contract of a batch and what follows for the loop\<close>

text \<open>The first frame that has a verdict decides.\<close>

fun first_verdict :: "(frame \<Rightarrow> bytes result option) \<Rightarrow> frame list \<Rightarrow> bytes result option" where
  "first_verdict v [] = None"
| "first_verdict v (f # fs) = (case v f of Some r \<Rightarrow> Some r | None \<Rightarrow> first_verdict v fs)"

lemma first_verdict_append:
  "first_verdict v (xs @ ys) = (case first_verdict v xs of Some r \<Rightarrow> Some r | None \<Rightarrow> first_verdict v ys)"
  by (induction xs) (simp_all split: option.splits)

lemma first_verdict_SomeE:
  assumes "first_verdict v fs = Some r"
  obtains f where "f \<in> set fs" "v f = Some r"
  using assms by (induction fs) (auto split: option.splits)

lemma first_verdict_None: "first_verdict v fs = None \<longleftrightarrow> (\<forall>f\<in>set fs. v f = None)"
  by (induction fs) (simp_all split: option.splits)

text \<open>The adapter and the clock are as before, except that the clock may have been read.\<close>

definition same_env :: "panda \<Rightarrow> panda \<Rightarrow> bool" where
  "same_env p p' \<longleftrightarrow> rx_script p' = rx_script p \<and> tx_log p' = tx_log p \<and> cleared p' = cleared p
      \<and> clock p' = clock p \<and> ticks p \<le> ticks p'"

lemma same_env_refl [simp]: "same_env p p"
  by (simp add: same_env_def)

lemma same_env_tick [simp]: "same_env p (p\<lparr>ticks := Suc (ticks p)\<rparr>)"
  by (simp add: same_env_def)

lemma same_env_trans: "same_env p q \<Longrightarrow> same_env q r \<Longrightarrow> same_env p r"
  by (auto simp: same_env_def)

lemma timeout_due:
  fixes t :: rat
  assumes "2 * \<bar>t\<bar> \<le> d"
  shows "\<not> fl d < t"
  using fl_ge_half [of d] assms by linarith

locale dto_scan =
  fixes scan :: batch_scan
    and verdict :: "frame \<Rightarrow> bytes result option"
  assumes scan_Nil: "scan [] start p = (None, start, p)"
    and scan_decides: "fst (scan msgs start p) = first_verdict verdict msgs"
    and scan_env: "same_env p (snd (snd (scan msgs start p)))"
    and verdict_fuel: "verdict f \<noteq> Some (Inl OutOfFuel)"
begin

lemma first_fuel: "first_verdict verdict fs \<noteq> Some (Inl OutOfFuel)"
  by (metis first_verdict_SomeE verdict_fuel)

text \<open>Without frames the clock alone ends the loop.\<close>

lemma silent_ends:
  assumes "rx_script p = []" and "\<And>k. N \<le> k \<Longrightarrow> start + 2 * \<bar>timeout\<bar> \<le> clock p k"
  shows "\<exists>p'. \<forall>n > N - ticks p. dto_wait scan n timeout start p = (Inl CommandTimeoutError, p')"
  using assms
proof (induction "N - ticks p" arbitrary: p)
  case 0
  then have "start + 2 * \<bar>timeout\<bar> \<le> clock p (ticks p)" by simp
  then have "\<not> fl (clock p (ticks p) - start) < timeout" by (intro timeout_due) linarith
  then have "\<forall>n > N - ticks p. dto_wait scan n timeout start p = (Inl CommandTimeoutError, p\<lparr>ticks := Suc (ticks p)\<rparr>)"
    by (auto simp: read_clock_def dest!: gr0_implies_Suc dest: le_less_trans [OF le0])
  then show ?case by blast
next
  case (Suc d)
  let ?p = "p\<lparr>ticks := Suc (ticks p)\<rparr>"
  have "d = N - ticks ?p" using Suc.hyps(2) by simp
  from Suc.hyps(1) [OF this] Suc.prems obtain q
    where q: "\<forall>n > N - ticks ?p. dto_wait scan n timeout start ?p = (Inl CommandTimeoutError, q)" by auto
  show ?case
  proof (cases "fl (clock p (ticks p) - start) < timeout")
    case True
    have "dto_wait scan n timeout start p = (Inl CommandTimeoutError, q)" if n: "N - ticks p < n" for n
    proof (cases n)
      case (Suc m)
      then have "N - ticks ?p < m" using n Suc.hyps(2) by simp
      then show ?thesis using q Suc True Suc.prems by (simp add: read_clock_def scan_Nil)
    qed (use n in simp)
    then show ?thesis by blast
  next
    case False
    have "dto_wait scan n timeout start p = (Inl CommandTimeoutError, ?p)" if "N - ticks p < n" for n
      using that False by (cases n) (simp_all add: read_clock_def)
    then show ?thesis by blast
  qed
qed

text \<open>With a clock that advances, the loop ends, and more fuel changes nothing.\<close>

lemma wait_ends:
  assumes "clock_advances (clock p)"
  shows "\<exists>n0 r p'. r \<noteq> Inl OutOfFuel \<and> (\<forall>n\<ge>n0. dto_wait scan n timeout start p = (r, p'))"
  using assms
proof (induction "rx_script p" arbitrary: p start)
  case Nil
  obtain N where "\<And>k. N \<le> k \<Longrightarrow> start + 2 * \<bar>timeout\<bar> < clock p k"
    using clock_advancesD [OF Nil.prems] by blast
  with silent_ends [of p N start timeout] Nil.hyps obtain p'
    where "\<forall>n > N - ticks p. dto_wait scan n timeout start p = (Inl CommandTimeoutError, p')"
    by (auto intro: less_imp_le)
  then show ?case by (intro exI [of _ "Suc (N - ticks p)"] exI [of _ "Inl CommandTimeoutError"] exI [of _ p']) simp
next
  case (Cons msgs rest)
  let ?p = "p\<lparr>ticks := Suc (ticks p), rx_script := rest\<rparr>"
  obtain r start' p' where sc: "scan msgs start ?p = (r, start', p')" by (cases "scan msgs start ?p")
  have env: "same_env ?p p'" using scan_env [of ?p msgs start] sc by simp
  have run: "dto_wait scan (Suc n) timeout start p =
      (if fl (clock p (ticks p) - start) < timeout
       then (case r of Some r \<Rightarrow> (r, p') | None \<Rightarrow> dto_wait scan n timeout start' p')
       else (Inl CommandTimeoutError, p\<lparr>ticks := Suc (ticks p)\<rparr>))" for n
    using sc Cons.hyps(2) [symmetric] by (simp add: read_clock_def)
  have rx: "rest = rx_script p'" "clock_advances (clock p')"
    using env Cons.prems by (auto simp: same_env_def)
  from Cons.hyps(1) [OF this, of start'] obtain n0 r' q where ih: "r' \<noteq> Inl OutOfFuel"
      "\<forall>n\<ge>n0. dto_wait scan n timeout start' p' = (r', q)" by blast
  have fuel: "r \<noteq> Some (Inl OutOfFuel)"
    using first_fuel [of msgs] scan_decides [of msgs start ?p] sc by auto
  let ?res = "if fl (clock p (ticks p) - start) < timeout
      then (case r of Some r \<Rightarrow> (r, p') | None \<Rightarrow> (r', q)) else (Inl CommandTimeoutError, p\<lparr>ticks := Suc (ticks p)\<rparr>)"
  have all: "dto_wait scan n timeout start p = ?res" if le: "Suc n0 \<le> n" for n
  proof -
    obtain m where "n = Suc m" "n0 \<le> m" using le by (cases n) auto
    then show ?thesis using ih(2) by (simp add: run del: dto_wait.simps split: option.splits)
  qed
  have "fst ?res \<noteq> Inl OutOfFuel" using ih(1) fuel by (auto split: option.splits)
  then show ?case
    by (intro exI [of _ "Suc n0"] exI [of _ "fst ?res"] exI [of _ "snd ?res"] conjI allI impI) (simp_all only: all prod.collapse not_False_eq_True)
qed

text \<open>The loop returns the first verdict among the frames that arrive, unless it times out before; it reads frames
  and the clock and does nothing else to the adapter.\<close>

lemma wait_result:
  assumes "dto_wait scan n timeout start p = (r, p')"
  shows "r = Inl OutOfFuel \<or> r = Inl CommandTimeoutError
      \<or> first_verdict verdict (concat (rx_script p)) = Some r \<and> length (rx_script p') < length (rx_script p)"
  using assms
proof (induction n arbitrary: start p)
  case (Suc n)
  obtain msgs p1 where rc: "can_recv (p\<lparr>ticks := Suc (ticks p)\<rparr>) = (msgs, p1)" by fastforce
  obtain s start' p2 where sc: "scan msgs start p1 = (s, start', p2)" by (cases "scan msgs start p1")
  have s: "s = first_verdict verdict msgs" using scan_decides [of msgs start p1] sc by simp
  have env: "rx_script p2 = rx_script p1" using scan_env [of p1 msgs start] sc by (simp add: same_env_def)
  have rx: "concat (rx_script p) = msgs @ concat (rx_script p1)"
      "length (rx_script p1) < length (rx_script p) \<or> msgs = [] \<and> rx_script p1 = rx_script p"
    using rc by (auto simp: can_recv_def split: list.splits)
  show ?case
  proof (cases "fl (clock p (ticks p) - start) < timeout")
    case False
    then show ?thesis using Suc.prems by (simp add: read_clock_def)
  next
    case True
    show ?thesis
    proof (cases s)
      case None
      then have "dto_wait scan n timeout start' p2 = (r, p')"
        using Suc.prems True rc sc by (simp add: read_clock_def)
      from Suc.IH [OF this] show ?thesis using None s env rx by (auto simp: first_verdict_append)
    next
      case (Some x)
      then have "r = x" "p' = p2" using Suc.prems True rc sc by (simp_all add: read_clock_def)
      then show ?thesis using Some s env rx by (auto simp: first_verdict_append)
    qed
  qed
qed simp

lemma wait_env:
  assumes "dto_wait scan n timeout start p = (r, p')"
  shows "tx_log p' = tx_log p \<and> cleared p' = cleared p \<and> clock p' = clock p"
  using assms
proof (induction n arbitrary: start p)
  case (Suc n)
  obtain msgs p1 where rc: "can_recv (p\<lparr>ticks := Suc (ticks p)\<rparr>) = (msgs, p1)" by fastforce
  obtain s start' p2 where sc: "scan msgs start p1 = (s, start', p2)" by (cases "scan msgs start p1")
  have "tx_log p1 = tx_log p \<and> cleared p1 = cleared p \<and> clock p1 = clock p"
    using rc by (auto simp: can_recv_def split: list.splits)
  moreover have "tx_log p2 = tx_log p1 \<and> cleared p2 = cleared p1 \<and> clock p2 = clock p1"
    using scan_env [of p1 msgs start] sc by (simp add: same_env_def)
  moreover have "p' = p\<lparr>ticks := Suc (ticks p)\<rparr> \<or> p' = p2 \<or> dto_wait scan n timeout start' p2 = (r, p')"
    using Suc.prems rc sc by (auto simp: read_clock_def split: if_splits option.splits)
  ultimately show ?case using Suc.IH by auto
qed simp

end

end
