(* ===== verification/Ccp.thy ===== *)
theory Ccp
  imports Dto
begin

text \<open>
  \<^verbatim>\<open>opendbc/car/ccp.py\<close>: the client of the CAN calibration protocol. Every command sends one frame of eight bytes with
  a running counter and waits for the answer in the loop of \<open>Dto\<close>. A command is named after its method; \<open>ccp_query\<close> is
  the pair of calls \<^verbatim>\<open>_send_cro\<close>, \<^verbatim>\<open>_recv_dto\<close> that every method makes.
\<close>

section \<open>Constants and results\<close>

datatype CCP_COMMAND_CODE =
    CCP_CONNECT | CCP_SET_MTA | CCP_DNLOAD | CCP_UPLOAD | CCP_TEST | CCP_START_STOP | CCP_DISCONNECT
    | CCP_START_STOP_ALL | CCP_GET_ACTIVE_CAL_PAGE | CCP_SET_S_STATUS | CCP_GET_S_STATUS | CCP_BUILD_CHKSUM
    | CCP_SHORT_UP | CCP_CLEAR_MEMORY | CCP_SELECT_CAL_PAGE | CCP_GET_SEED | CCP_UNLOCK | CCP_GET_DAQ_SIZE
    | CCP_SET_DAQ_PTR | CCP_WRITE_DAQ | CCP_EXCHANGE_ID | CCP_PROGRAM | CCP_MOVE | CCP_GET_CCP_VERSION
    | CCP_DIAG_SERVICE | CCP_ACTION_SERVICE | CCP_PROGRAM_6 | CCP_DNLOAD_6

fun CCP_COMMAND_CODE_value :: "CCP_COMMAND_CODE \<Rightarrow> int" where
  "CCP_COMMAND_CODE_value CCP_CONNECT = 0x01"
| "CCP_COMMAND_CODE_value CCP_SET_MTA = 0x02"
| "CCP_COMMAND_CODE_value CCP_DNLOAD = 0x03"
| "CCP_COMMAND_CODE_value CCP_UPLOAD = 0x04"
| "CCP_COMMAND_CODE_value CCP_TEST = 0x05"
| "CCP_COMMAND_CODE_value CCP_START_STOP = 0x06"
| "CCP_COMMAND_CODE_value CCP_DISCONNECT = 0x07"
| "CCP_COMMAND_CODE_value CCP_START_STOP_ALL = 0x08"
| "CCP_COMMAND_CODE_value CCP_GET_ACTIVE_CAL_PAGE = 0x09"
| "CCP_COMMAND_CODE_value CCP_SET_S_STATUS = 0x0C"
| "CCP_COMMAND_CODE_value CCP_GET_S_STATUS = 0x0D"
| "CCP_COMMAND_CODE_value CCP_BUILD_CHKSUM = 0x0E"
| "CCP_COMMAND_CODE_value CCP_SHORT_UP = 0x0F"
| "CCP_COMMAND_CODE_value CCP_CLEAR_MEMORY = 0x10"
| "CCP_COMMAND_CODE_value CCP_SELECT_CAL_PAGE = 0x11"
| "CCP_COMMAND_CODE_value CCP_GET_SEED = 0x12"
| "CCP_COMMAND_CODE_value CCP_UNLOCK = 0x13"
| "CCP_COMMAND_CODE_value CCP_GET_DAQ_SIZE = 0x14"
| "CCP_COMMAND_CODE_value CCP_SET_DAQ_PTR = 0x15"
| "CCP_COMMAND_CODE_value CCP_WRITE_DAQ = 0x16"
| "CCP_COMMAND_CODE_value CCP_EXCHANGE_ID = 0x17"
| "CCP_COMMAND_CODE_value CCP_PROGRAM = 0x18"
| "CCP_COMMAND_CODE_value CCP_MOVE = 0x19"
| "CCP_COMMAND_CODE_value CCP_GET_CCP_VERSION = 0x1B"
| "CCP_COMMAND_CODE_value CCP_DIAG_SERVICE = 0x20"
| "CCP_COMMAND_CODE_value CCP_ACTION_SERVICE = 0x21"
| "CCP_COMMAND_CODE_value CCP_PROGRAM_6 = 0x22"
| "CCP_COMMAND_CODE_value CCP_DNLOAD_6 = 0x23"

record ExchangeStationIdsReturn =
  id_length :: int
  data_type :: int
  available :: int
  protected :: int

record GetDaqListSizeReturn =
  list_size :: int
  first_pid :: int

record GetSessionStatusReturn =
  session_status :: int
  session_info :: "int option"

record DiagnosticServiceReturn =
  diag_length :: int
  diag_type :: int

record ActionServiceReturn =
  action_length :: int
  action_type :: int

section \<open>Sending and waiting\<close>

record ccp =
  ccp_tx_addr :: int
  ccp_rx_addr :: int
  ccp_bus :: int
  byte_order :: BYTE_ORDER
  command_counter :: int
  ccp_panda :: panda

definition CcpClient_init :: "panda \<Rightarrow> int \<Rightarrow> int \<Rightarrow> int \<Rightarrow> BYTE_ORDER \<Rightarrow> ccp" where
  "CcpClient_init p tx rx b order =
    \<lparr>ccp_tx_addr = tx, ccp_rx_addr = rx, ccp_bus = b, byte_order = order, command_counter = - 1, ccp_panda = p\<rparr>"

definition send_cro :: "CCP_COMMAND_CODE \<Rightarrow> bytes \<Rightarrow> (ccp, unit) meth" where
  "send_cro cmd dat c =
    (let c = c\<lparr>command_counter := (command_counter c + 1) AND 0xFF\<rparr>
     in case py_bytes [CCP_COMMAND_CODE_value cmd, command_counter c] of
          Inl e \<Rightarrow> (Inl e, c)
        | Inr head \<Rightarrow>
            let tx_data = ljust 8 (head @ dat)
            in if length tx_data \<noteq> 8 then (Inl AssertionError, c)
               else (Inr (), c\<lparr>ccp_panda := can_send (ccp_tx_addr c) tx_data (ccp_bus c)
                   (can_clear 0xFFFF (can_clear (ccp_bus c) (ccp_panda c)))\<rparr>))"

text \<open>The loop over the messages of one call: an answer or an exception, else the time since which it waits.\<close>

fun ccp_messages :: "int \<Rightarrow> int \<Rightarrow> int \<Rightarrow> frame list \<Rightarrow> rat \<Rightarrow> panda \<Rightarrow> bytes result option \<times> rat \<times> panda" where
  "ccp_messages rx b ctr [] start p = (None, start, p)"
| "ccp_messages rx b ctr ((addr, dat, fbus) # msgs) start p =
    (if fbus = b \<and> addr = rx
     then if length dat \<noteq> 8 then (Some (Inl AssertionError), start, p)
          else let pid = uint (dat ! 0)
               in if pid = 0xFF \<or> pid = 0xFE
                  then let err = uint (dat ! 1)
                       in if pid = 0xFF \<and> ctr \<noteq> uint (dat ! 2) then (Some (Inl CommandCounterError), start, p)
                          else if 0x10 \<le> err \<and> err \<le> 0x12
                          then let (now, p) = read_clock p in ccp_messages rx b ctr msgs now p
                          else if 0x30 \<le> err then (Some (Inl (CommandResponseError err)), start, p)
                          else (Some (Inr (drop 3 dat)), start, p)
                  else (Some (Inr (drop 1 dat)), start, p)
     else ccp_messages rx b ctr msgs start p)"

definition ccp_recv_dto :: "nat \<Rightarrow> rat \<Rightarrow> (ccp, bytes) meth" where
  "ccp_recv_dto fuel timeout c =
    (let (start, p) = read_clock (ccp_panda c);
         (r, p) = dto_wait (ccp_messages (ccp_rx_addr c) (ccp_bus c) (command_counter c)) fuel timeout start p
     in (r, c\<lparr>ccp_panda := p\<rparr>))"

text \<open>The arguments of a command are evaluated before it is sent.\<close>

definition ccp_query :: "nat \<Rightarrow> rat \<Rightarrow> CCP_COMMAND_CODE \<Rightarrow> bytes result \<Rightarrow> (ccp, bytes) meth" where
  "ccp_query fuel timeout cmd dat =
    sbind (slift dat) (\<lambda>dat. sbind (send_cro cmd dat) (\<lambda>_. ccp_recv_dto fuel timeout))"

definition quick :: rat where "quick = fl (25 / 1000)"

definition no_answer :: "('s, bytes) meth \<Rightarrow> ('s, unit) meth" where
  "no_answer m = sbind m (\<lambda>_. sret ())"

definition mta_addr :: "BYTE_ORDER \<Rightarrow> bytes \<Rightarrow> int result" where
  "mta_addr order resp = unpack_order order 4 (py_slice resp 1 5)"

section \<open>Commands\<close>

definition ccp_connect :: "nat \<Rightarrow> int \<Rightarrow> (ccp, unit) meth" where
  "ccp_connect fuel station_addr c =
    (sbind (slift (at_most 65535 station_addr)) (\<lambda>_. no_answer (ccp_query fuel quick CCP_CONNECT (pack_le 2 station_addr)))) c"

definition ccp_exchange_station_ids :: "nat \<Rightarrow> bytes \<Rightarrow> (ccp, ExchangeStationIdsReturn) meth" where
  "ccp_exchange_station_ids fuel device_id_info c =
    (sbind (ccp_query fuel quick CCP_EXCHANGE_ID (Inr device_id_info)) (\<lambda>resp.
     sbind (slift (byte_at resp 0)) (\<lambda>a. sbind (slift (byte_at resp 1)) (\<lambda>b.
     sbind (slift (byte_at resp 2)) (\<lambda>d.
     sbind (slift (byte_at resp 3)) (\<lambda>e. sret \<lparr>id_length = a, data_type = b, available = d, protected = e\<rparr>)))))) c"

definition ccp_get_seed :: "nat \<Rightarrow> int \<Rightarrow> (ccp, bytes) meth" where
  "ccp_get_seed fuel resource_mask c =
    (sbind (slift (at_most 255 resource_mask)) (\<lambda>_.
     sbind (ccp_query fuel quick CCP_GET_SEED (py_bytes [resource_mask])) (\<lambda>resp.
     sret (drop 1 resp)))) c"

definition ccp_unlock :: "nat \<Rightarrow> bytes \<Rightarrow> (ccp, int) meth" where
  "ccp_unlock fuel key c =
    (sbind (slift (at_most 6 (int (length key)))) (\<lambda>_.
     sbind (ccp_query fuel quick CCP_UNLOCK (Inr key)) (\<lambda>resp.
     slift (byte_at resp 0)))) c"

definition ccp_set_memory_transfer_address :: "nat \<Rightarrow> int \<Rightarrow> int \<Rightarrow> int \<Rightarrow> (ccp, unit) meth" where
  "ccp_set_memory_transfer_address fuel mta_num addr_ext addr c =
    (sbind (slift (at_most 255 mta_num)) (\<lambda>_.
     sbind (slift (at_most 255 addr_ext)) (\<lambda>_. no_answer
     (ccp_query fuel quick CCP_SET_MTA (bytes_then [mta_num, addr_ext] (pack_order (byte_order c) 4 addr)))))) c"

definition ccp_download :: "nat \<Rightarrow> bytes \<Rightarrow> (ccp, int) meth" where
  "ccp_download fuel data c =
    (sbind (slift (at_most 5 (int (length data)))) (\<lambda>_.
     sbind (ccp_query fuel quick CCP_DNLOAD (bytes_then [int (length data)] (Inr data))) (\<lambda>resp.
     slift (mta_addr (byte_order c) resp)))) c"

definition ccp_download_6_bytes :: "nat \<Rightarrow> bytes \<Rightarrow> (ccp, int) meth" where
  "ccp_download_6_bytes fuel data c =
    (sbind (slift (ensure (length data = 6) ValueError)) (\<lambda>_.
     sbind (ccp_query fuel quick CCP_DNLOAD_6 (Inr data)) (\<lambda>resp.
     slift (mta_addr (byte_order c) resp)))) c"

definition ccp_upload :: "nat \<Rightarrow> int \<Rightarrow> (ccp, bytes) meth" where
  "ccp_upload fuel n_bytes c =
    (sbind (slift (at_most 5 n_bytes)) (\<lambda>_.
     sbind (ccp_query fuel quick CCP_UPLOAD (py_bytes [n_bytes])) (\<lambda>resp.
     sret (py_slice resp 0 n_bytes)))) c"

definition ccp_short_upload :: "nat \<Rightarrow> int \<Rightarrow> int \<Rightarrow> int \<Rightarrow> (ccp, bytes) meth" where
  "ccp_short_upload fuel n_bytes addr_ext addr c =
    (sbind (slift (at_most 5 n_bytes)) (\<lambda>_. sbind (slift (at_most 255 addr_ext)) (\<lambda>_.
     sbind (ccp_query fuel quick CCP_SHORT_UP (bytes_then [n_bytes, addr_ext] (pack_order (byte_order c) 4 addr))) (\<lambda>resp.
     sret (py_slice resp 0 n_bytes))))) c"

definition ccp_select_calibration_page :: "nat \<Rightarrow> (ccp, unit) meth" where
  "ccp_select_calibration_page fuel c =
    (no_answer (ccp_query fuel quick CCP_SELECT_CAL_PAGE (Inr []))) c"

definition ccp_get_daq_list_size :: "nat \<Rightarrow> int \<Rightarrow> int \<Rightarrow> (ccp, GetDaqListSizeReturn) meth" where
  "ccp_get_daq_list_size fuel list_num can_id c =
    (sbind (slift (at_most 255 list_num)) (\<lambda>_.
     sbind (ccp_query fuel quick CCP_GET_DAQ_SIZE (bytes_then [list_num, 0] (pack_order (byte_order c) 4 can_id))) (\<lambda>resp.
     sbind (slift (byte_at resp 0)) (\<lambda>a. sbind (slift (byte_at resp 1)) (\<lambda>b. sret \<lparr>list_size = a, first_pid = b\<rparr>))))) c"

definition ccp_set_daq_list_pointer :: "nat \<Rightarrow> int \<Rightarrow> int \<Rightarrow> int \<Rightarrow> (ccp, unit) meth" where
  "ccp_set_daq_list_pointer fuel list_num odt_num element_num c =
    (sbind (slift (at_most 255 list_num)) (\<lambda>_. sbind (slift (at_most 255 odt_num)) (\<lambda>_.
     sbind (slift (at_most 255 element_num)) (\<lambda>_. no_answer
     (ccp_query fuel quick CCP_SET_DAQ_PTR (py_bytes [list_num, odt_num, element_num])))))) c"

definition ccp_write_daq_list_entry :: "nat \<Rightarrow> int \<Rightarrow> int \<Rightarrow> int \<Rightarrow> (ccp, unit) meth" where
  "ccp_write_daq_list_entry fuel n_bytes addr_ext addr c =
    (sbind (slift (at_most 255 n_bytes)) (\<lambda>_.
     sbind (slift (at_most 255 addr_ext)) (\<lambda>_. no_answer
     (ccp_query fuel quick CCP_WRITE_DAQ (bytes_then [n_bytes, addr_ext] (pack_order (byte_order c) 4 addr)))))) c"

definition ccp_start_stop_transmission :: "nat \<Rightarrow> int \<Rightarrow> int \<Rightarrow> int \<Rightarrow> int \<Rightarrow> int \<Rightarrow> (ccp, unit) meth" where
  "ccp_start_stop_transmission fuel mode list_num odt_num channel_num rate_prescaler c =
    (sbind (slift (at_most 255 mode)) (\<lambda>_. sbind (slift (at_most 255 list_num)) (\<lambda>_.
     sbind (slift (at_most 255 odt_num)) (\<lambda>_. sbind (slift (at_most 255 channel_num)) (\<lambda>_.
     sbind (slift (at_most 65535 rate_prescaler)) (\<lambda>_. no_answer
     (ccp_query fuel quick CCP_START_STOP (bytes_then [mode, list_num, odt_num, channel_num] (pack_order (byte_order c) 2 rate_prescaler))))))))) c"

definition ccp_disconnect :: "nat \<Rightarrow> int \<Rightarrow> bool \<Rightarrow> (ccp, unit) meth" where
  "ccp_disconnect fuel station_addr temporary c =
    (sbind (slift (at_most 65535 station_addr)) (\<lambda>_. no_answer
     (ccp_query fuel quick CCP_DISCONNECT (bytes_then [if temporary then 0 else 1, 0] (pack_le 2 station_addr))))) c"

definition ccp_set_session_status :: "nat \<Rightarrow> int \<Rightarrow> (ccp, unit) meth" where
  "ccp_set_session_status fuel status c =
    (sbind (slift (at_most 255 status)) (\<lambda>_. no_answer (ccp_query fuel quick CCP_SET_S_STATUS (py_bytes [status])))) c"

definition ccp_get_session_status :: "nat \<Rightarrow> (ccp, GetSessionStatusReturn) meth" where
  "ccp_get_session_status fuel c =
    (sbind (ccp_query fuel quick CCP_GET_S_STATUS (Inr [])) (\<lambda>resp.
     sbind (slift (byte_at resp 1)) (\<lambda>b.
     sbind (if b \<noteq> 0 then sbind (slift (byte_at resp 2)) (\<lambda>i. sret (Some i)) else sret None) (\<lambda>info. sbind (slift (byte_at resp 0)) (\<lambda>a. sret \<lparr>session_status = a, session_info = info\<rparr>))))) c"

definition ccp_build_checksum :: "nat \<Rightarrow> int \<Rightarrow> (ccp, bytes) meth" where
  "ccp_build_checksum fuel n_bytes c =
    (sbind (ccp_query fuel 30 CCP_BUILD_CHKSUM (pack_order (byte_order c) 4 n_bytes)) (\<lambda>resp.
     sbind (slift (byte_at resp 0)) (\<lambda>n. sbind (sassert (n \<le> 4)) (\<lambda>_. sret (py_slice resp 1 (1 + n)))))) c"

definition ccp_clear_memory :: "nat \<Rightarrow> int \<Rightarrow> (ccp, unit) meth" where
  "ccp_clear_memory fuel n_bytes c =
    (no_answer (ccp_query fuel 30 CCP_CLEAR_MEMORY (pack_order (byte_order c) 4 n_bytes))) c"

definition ccp_program :: "nat \<Rightarrow> int \<Rightarrow> bytes \<Rightarrow> (ccp, int) meth" where
  "ccp_program fuel n_bytes data c =
    (sbind (slift (at_most 5 n_bytes)) (\<lambda>_. sbind (slift (at_most 5 (int (length data)))) (\<lambda>_.
     sbind (ccp_query fuel (fl (1 / 10)) CCP_PROGRAM (bytes_then [n_bytes] (Inr data))) (\<lambda>resp.
     slift (mta_addr (byte_order c) resp))))) c"

definition ccp_program_6_bytes :: "nat \<Rightarrow> bytes \<Rightarrow> (ccp, int) meth" where
  "ccp_program_6_bytes fuel data c =
    (sbind (slift (ensure (length data = 6) ValueError)) (\<lambda>_.
     sbind (ccp_query fuel (fl (1 / 10)) CCP_PROGRAM_6 (Inr data)) (\<lambda>resp.
     slift (mta_addr (byte_order c) resp)))) c"

definition ccp_move_memory_block :: "nat \<Rightarrow> int \<Rightarrow> (ccp, unit) meth" where
  "ccp_move_memory_block fuel n_bytes c =
    (no_answer (ccp_query fuel quick CCP_MOVE (pack_order (byte_order c) 4 n_bytes))) c"

definition ccp_diagnostic_service :: "nat \<Rightarrow> int \<Rightarrow> bytes \<Rightarrow> (ccp, DiagnosticServiceReturn) meth" where
  "ccp_diagnostic_service fuel service_num data c =
    (sbind (slift (at_most 65535 service_num)) (\<lambda>_. sbind (slift (at_most 4 (int (length data)))) (\<lambda>_.
     sbind (ccp_query fuel quick CCP_DIAG_SERVICE (ebind (pack_order (byte_order c) 2 service_num) (\<lambda>s. Inr (s @ data)))) (\<lambda>resp.
     sbind (slift (byte_at resp 0)) (\<lambda>a. sbind (slift (byte_at resp 1)) (\<lambda>b. sret \<lparr>diag_length = a, diag_type = b\<rparr>)))))) c"

definition ccp_action_service :: "nat \<Rightarrow> int \<Rightarrow> bytes \<Rightarrow> (ccp, ActionServiceReturn) meth" where
  "ccp_action_service fuel service_num data c =
    (sbind (slift (at_most 65535 service_num)) (\<lambda>_. sbind (slift (at_most 4 (int (length data)))) (\<lambda>_.
     sbind (ccp_query fuel quick CCP_ACTION_SERVICE (ebind (pack_order (byte_order c) 2 service_num) (\<lambda>s. Inr (s @ data)))) (\<lambda>resp.
     sbind (slift (byte_at resp 0)) (\<lambda>a. sbind (slift (byte_at resp 1)) (\<lambda>b. sret \<lparr>action_length = a, action_type = b\<rparr>)))))) c"

definition ccp_test_availability :: "nat \<Rightarrow> int \<Rightarrow> (ccp, unit) meth" where
  "ccp_test_availability fuel station_addr c =
    (sbind (slift (at_most 65535 station_addr)) (\<lambda>_. no_answer (ccp_query fuel quick CCP_TEST (pack_le 2 station_addr)))) c"

definition ccp_start_stop_synchronised_transmission :: "nat \<Rightarrow> int \<Rightarrow> (ccp, unit) meth" where
  "ccp_start_stop_synchronised_transmission fuel mode c =
    (sbind (slift (at_most 255 mode)) (\<lambda>_. no_answer (ccp_query fuel quick CCP_START_STOP_ALL (py_bytes [mode])))) c"

definition ccp_get_active_calibration_page :: "nat \<Rightarrow> (ccp, int) meth" where
  "ccp_get_active_calibration_page fuel c =
    (sbind (ccp_query fuel quick CCP_GET_ACTIVE_CAL_PAGE (Inr [])) (\<lambda>resp.
     slift (mta_addr (byte_order c) resp))) c"

text \<open>The version is given as the two numbers around its point. The answer is the float written as the first byte, a
  point and the second byte.\<close>

definition ccp_get_version :: "nat \<Rightarrow> int \<Rightarrow> int \<Rightarrow> (ccp, rat) meth" where
  "ccp_get_version fuel major minor c =
    (sbind (ccp_query fuel quick CCP_GET_CCP_VERSION (py_bytes [major, minor])) (\<lambda>resp.
     sbind (slift (byte_at resp 0)) (\<lambda>a. sbind (slift (byte_at resp 1)) (\<lambda>b.
       sret (fl (of_int a + of_int b / (if b < 10 then 10 else if b < 100 then 100 else 1000))))))) c"

end
