(* ===== verification/Xcp.thy ===== *)
theory Xcp
  imports Dto
begin

text \<open>
  \<^verbatim>\<open>opendbc/car/xcp.py\<close>: the client of the universal calibration protocol. It sends a command in one frame and waits
  for the answer in the loop of \<open>Dto\<close>; a block upload waits several times. \<open>connect\<close> stores what the control unit
  says of itself. The attribute \<open>_slave_block_mode\<close> does not exist before, which is \<open>None\<close> here.
\<close>

section \<open>Constants\<close>

datatype XCP_COMMAND_CODE =
    XCP_CONNECT | XCP_DISCONNECT | XCP_GET_STATUS | XCP_SYNCH | XCP_GET_COMM_MODE_INFO | XCP_GET_ID
    | XCP_SET_REQUEST | XCP_GET_SEED | XCP_UNLOCK | XCP_SET_MTA | XCP_UPLOAD | XCP_SHORT_UPLOAD
    | XCP_BUILD_CHECKSUM | XCP_TRANSPORT_LAYER_CMD | XCP_USER_CMD | XCP_DOWNLOAD | XCP_DOWNLOAD_NEXT
    | XCP_DOWNLOAD_MAX | XCP_SHORT_DOWNLOAD | XCP_MODIFY_BITS | XCP_SET_CAL_PAGE | XCP_GET_CAL_PAGE
    | XCP_GET_PAG_PROCESSOR_INFO | XCP_GET_SEGMENT_INFO | XCP_GET_PAGE_INFO | XCP_SET_SEGMENT_MODE
    | XCP_GET_SEGMENT_MODE | XCP_COPY_CAL_PAGE | XCP_CLEAR_DAQ_LIST | XCP_SET_DAQ_PTR | XCP_WRITE_DAQ
    | XCP_SET_DAQ_LIST_MODE | XCP_GET_DAQ_LIST_MODE | XCP_START_STOP_DAQ_LIST | XCP_START_STOP_SYNCH
    | XCP_GET_DAQ_CLOCK | XCP_READ_DAQ | XCP_GET_DAQ_PROCESSOR_INFO | XCP_GET_DAQ_RESOLUTION_INFO
    | XCP_GET_DAQ_LIST_INFO | XCP_GET_DAQ_EVENT_INFO | XCP_FREE_DAQ | XCP_ALLOC_DAQ | XCP_ALLOC_ODT
    | XCP_ALLOC_ODT_ENTRY | XCP_PROGRAM_START | XCP_PROGRAM_CLEAR | XCP_PROGRAM | XCP_PROGRAM_RESET
    | XCP_GET_PGM_PROCESSOR_INFO | XCP_GET_SECTOR_INFO | XCP_PROGRAM_PREPARE | XCP_PROGRAM_FORMAT
    | XCP_PROGRAM_NEXT | XCP_PROGRAM_MAX | XCP_PROGRAM_VERIFY

fun XCP_COMMAND_CODE_value :: "XCP_COMMAND_CODE \<Rightarrow> int" where
  "XCP_COMMAND_CODE_value XCP_CONNECT = 0xFF"
| "XCP_COMMAND_CODE_value XCP_DISCONNECT = 0xFE"
| "XCP_COMMAND_CODE_value XCP_GET_STATUS = 0xFD"
| "XCP_COMMAND_CODE_value XCP_SYNCH = 0xFC"
| "XCP_COMMAND_CODE_value XCP_GET_COMM_MODE_INFO = 0xFB"
| "XCP_COMMAND_CODE_value XCP_GET_ID = 0xFA"
| "XCP_COMMAND_CODE_value XCP_SET_REQUEST = 0xF9"
| "XCP_COMMAND_CODE_value XCP_GET_SEED = 0xF8"
| "XCP_COMMAND_CODE_value XCP_UNLOCK = 0xF7"
| "XCP_COMMAND_CODE_value XCP_SET_MTA = 0xF6"
| "XCP_COMMAND_CODE_value XCP_UPLOAD = 0xF5"
| "XCP_COMMAND_CODE_value XCP_SHORT_UPLOAD = 0xF4"
| "XCP_COMMAND_CODE_value XCP_BUILD_CHECKSUM = 0xF3"
| "XCP_COMMAND_CODE_value XCP_TRANSPORT_LAYER_CMD = 0xF2"
| "XCP_COMMAND_CODE_value XCP_USER_CMD = 0xF1"
| "XCP_COMMAND_CODE_value XCP_DOWNLOAD = 0xF0"
| "XCP_COMMAND_CODE_value XCP_DOWNLOAD_NEXT = 0xEF"
| "XCP_COMMAND_CODE_value XCP_DOWNLOAD_MAX = 0xEE"
| "XCP_COMMAND_CODE_value XCP_SHORT_DOWNLOAD = 0xED"
| "XCP_COMMAND_CODE_value XCP_MODIFY_BITS = 0xEC"
| "XCP_COMMAND_CODE_value XCP_SET_CAL_PAGE = 0xEB"
| "XCP_COMMAND_CODE_value XCP_GET_CAL_PAGE = 0xEA"
| "XCP_COMMAND_CODE_value XCP_GET_PAG_PROCESSOR_INFO = 0xE9"
| "XCP_COMMAND_CODE_value XCP_GET_SEGMENT_INFO = 0xE8"
| "XCP_COMMAND_CODE_value XCP_GET_PAGE_INFO = 0xE7"
| "XCP_COMMAND_CODE_value XCP_SET_SEGMENT_MODE = 0xE6"
| "XCP_COMMAND_CODE_value XCP_GET_SEGMENT_MODE = 0xE5"
| "XCP_COMMAND_CODE_value XCP_COPY_CAL_PAGE = 0xE4"
| "XCP_COMMAND_CODE_value XCP_CLEAR_DAQ_LIST = 0xE3"
| "XCP_COMMAND_CODE_value XCP_SET_DAQ_PTR = 0xE2"
| "XCP_COMMAND_CODE_value XCP_WRITE_DAQ = 0xE1"
| "XCP_COMMAND_CODE_value XCP_SET_DAQ_LIST_MODE = 0xE0"
| "XCP_COMMAND_CODE_value XCP_GET_DAQ_LIST_MODE = 0xDF"
| "XCP_COMMAND_CODE_value XCP_START_STOP_DAQ_LIST = 0xDE"
| "XCP_COMMAND_CODE_value XCP_START_STOP_SYNCH = 0xDD"
| "XCP_COMMAND_CODE_value XCP_GET_DAQ_CLOCK = 0xDC"
| "XCP_COMMAND_CODE_value XCP_READ_DAQ = 0xDB"
| "XCP_COMMAND_CODE_value XCP_GET_DAQ_PROCESSOR_INFO = 0xDA"
| "XCP_COMMAND_CODE_value XCP_GET_DAQ_RESOLUTION_INFO = 0xD9"
| "XCP_COMMAND_CODE_value XCP_GET_DAQ_LIST_INFO = 0xD8"
| "XCP_COMMAND_CODE_value XCP_GET_DAQ_EVENT_INFO = 0xD7"
| "XCP_COMMAND_CODE_value XCP_FREE_DAQ = 0xD6"
| "XCP_COMMAND_CODE_value XCP_ALLOC_DAQ = 0xD5"
| "XCP_COMMAND_CODE_value XCP_ALLOC_ODT = 0xD4"
| "XCP_COMMAND_CODE_value XCP_ALLOC_ODT_ENTRY = 0xD3"
| "XCP_COMMAND_CODE_value XCP_PROGRAM_START = 0xD2"
| "XCP_COMMAND_CODE_value XCP_PROGRAM_CLEAR = 0xD1"
| "XCP_COMMAND_CODE_value XCP_PROGRAM = 0xD0"
| "XCP_COMMAND_CODE_value XCP_PROGRAM_RESET = 0xCF"
| "XCP_COMMAND_CODE_value XCP_GET_PGM_PROCESSOR_INFO = 0xCE"
| "XCP_COMMAND_CODE_value XCP_GET_SECTOR_INFO = 0xCD"
| "XCP_COMMAND_CODE_value XCP_PROGRAM_PREPARE = 0xCC"
| "XCP_COMMAND_CODE_value XCP_PROGRAM_FORMAT = 0xCB"
| "XCP_COMMAND_CODE_value XCP_PROGRAM_NEXT = 0xCA"
| "XCP_COMMAND_CODE_value XCP_PROGRAM_MAX = 0xC9"
| "XCP_COMMAND_CODE_value XCP_PROGRAM_VERIFY = 0xC8"

datatype CONNECT_MODE = CONNECT_NORMAL | USER_DEFINED

fun CONNECT_MODE_value :: "CONNECT_MODE \<Rightarrow> int" where
  "CONNECT_MODE_value CONNECT_NORMAL = 0x00"
| "CONNECT_MODE_value USER_DEFINED = 0x01"

text \<open>\<open>get_id\<close> compares its argument with 255 and sends it: user defined types are plain numbers.\<close>

datatype GET_ID_REQUEST_TYPE =
    ASCII | ASAM_MC2_FILE | ASAM_MC2_PATH | ASAM_MC2_URL | ASAM_MC2_UPLOAD | User_Defined_Id int

fun GET_ID_REQUEST_TYPE_value :: "GET_ID_REQUEST_TYPE \<Rightarrow> int" where
  "GET_ID_REQUEST_TYPE_value ASCII = 0x00"
| "GET_ID_REQUEST_TYPE_value ASAM_MC2_FILE = 0x01"
| "GET_ID_REQUEST_TYPE_value ASAM_MC2_PATH = 0x02"
| "GET_ID_REQUEST_TYPE_value ASAM_MC2_URL = 0x03"
| "GET_ID_REQUEST_TYPE_value ASAM_MC2_UPLOAD = 0x04"
| "GET_ID_REQUEST_TYPE_value (User_Defined_Id n) = n"

section \<open>The client\<close>

record xcp =
  xcp_tx_addr :: int
  xcp_rx_addr :: int
  xcp_bus :: int
  xcp_timeout :: rat
  xcp_pad :: bool
  xcp_byte_order :: BYTE_ORDER
  max_cto :: int
  max_dto :: int
  slave_block_mode :: "bool option"
  xcp_panda :: panda

definition XcpClient_init :: "panda \<Rightarrow> int \<Rightarrow> int \<Rightarrow> int \<Rightarrow> rat \<Rightarrow> bool \<Rightarrow> xcp" where
  "XcpClient_init p tx rx b tmo padded =
    \<lparr>xcp_tx_addr = tx, xcp_rx_addr = rx, xcp_bus = b, xcp_timeout = tmo, xcp_pad = padded,
     xcp_byte_order = BIG_ENDIAN, max_cto = 8, max_dto = 8, slave_block_mode = None, xcp_panda = p\<rparr>"

definition send_cto :: "XCP_COMMAND_CODE \<Rightarrow> bytes \<Rightarrow> (xcp, unit) meth" where
  "send_cto cmd dat c =
    (case py_bytes [XCP_COMMAND_CODE_value cmd] of
       Inl e \<Rightarrow> (Inl e, c)
     | Inr head \<Rightarrow>
         let tx_data = (if xcp_pad c then ljust 8 (head @ dat) else head @ dat)
         in (Inr (), c\<lparr>xcp_panda := can_send (xcp_tx_addr c) tx_data (xcp_bus c)
               (can_clear 0xFFFF (can_clear (xcp_bus c) (xcp_panda c)))\<rparr>))"

text \<open>The answer in one frame of the control unit, and the loop over a batch, which the first such frame ends.\<close>

definition xcp_answer :: "bytes \<Rightarrow> bytes result" where
  "xcp_answer rx_data = ebind (byte_at rx_data 0) (\<lambda>pid.
     if pid = 0xFE then ebind (byte_at rx_data 1) (\<lambda>err. Inl (CommandResponseError err))
     else Inr (drop 1 rx_data))"

fun xcp_messages :: "int \<Rightarrow> int \<Rightarrow> batch_scan" where
  "xcp_messages rx b [] start p = (None, start, p)"
| "xcp_messages rx b ((addr, dat, fbus) # msgs) start p =
    (if fbus = b \<and> addr = rx then (Some (xcp_answer dat), start, p) else xcp_messages rx b msgs start p)"

definition xcp_recv_dto :: "nat \<Rightarrow> rat \<Rightarrow> (xcp, bytes) meth" where
  "xcp_recv_dto fuel tmo c =
    (let (start, p) = read_clock (xcp_panda c);
         (r, p) = dto_wait (xcp_messages (xcp_rx_addr c) (xcp_bus c)) fuel tmo start p
     in (r, c\<lparr>xcp_panda := p\<rparr>))"

text \<open>A command and one answer; the arguments are evaluated before anything is sent.\<close>

definition xcp_query :: "nat \<Rightarrow> XCP_COMMAND_CODE \<Rightarrow> bytes result \<Rightarrow> (xcp, bytes) meth" where
  "xcp_query fuel cmd dat c =
    sbind (slift dat) (\<lambda>dat. sbind (send_cto cmd dat) (\<lambda>_. xcp_recv_dto fuel (xcp_timeout c))) c"

section \<open>Commands\<close>

record connect_info =
  cal_support :: bool
  daq_support :: bool
  stim_support :: bool
  pgm_support :: bool
  info_byte_order :: BYTE_ORDER
  address_granularity :: int
  info_slave_block_mode :: bool
  optional :: bool
  info_max_cto :: int
  info_max_dto :: int
  protocol_version :: int
  transport_version :: int

definition xcp_connect :: "nat \<Rightarrow> CONNECT_MODE \<Rightarrow> (xcp, connect_info) meth" where
  "xcp_connect fuel mode =
    sbind (xcp_query fuel XCP_CONNECT (py_bytes [CONNECT_MODE_value mode])) (\<lambda>resp.
    sbind (sassert (length resp = 7)) (\<lambda>_.
    let byte = (\<lambda>i. uint (resp ! i));
        order = (if byte 1 AND 0x01 \<noteq> 0 then BIG_ENDIAN else LITTLE_ENDIAN);
        block_mode = (byte 1 AND 0x40 \<noteq> 0)
    in sbind (smodify (\<lambda>c. c\<lparr>xcp_byte_order := order, slave_block_mode := Some block_mode, max_cto := byte 2\<rparr>)) (\<lambda>_.
       sbind (slift (unpack_order order 2 (py_slice resp 3 5))) (\<lambda>dto.
       sbind (smodify (\<lambda>c. c\<lparr>max_dto := dto\<rparr>)) (\<lambda>_.
       sret \<lparr>cal_support = (byte 0 AND 0x01 \<noteq> 0), daq_support = (byte 0 AND 0x04 \<noteq> 0),
             stim_support = (byte 0 AND 0x08 \<noteq> 0), pgm_support = (byte 0 AND 0x10 \<noteq> 0), info_byte_order = order,
             address_granularity = 2 ^ nat (drop_bit 1 (byte 1 AND 0x06)), info_slave_block_mode = block_mode,
             optional = (byte 1 AND 0x80 \<noteq> 0), info_max_cto = byte 2, info_max_dto = dto,
             protocol_version = byte 5, transport_version = byte 6\<rparr>)))))"

definition xcp_disconnect :: "nat \<Rightarrow> (xcp, unit) meth" where
  "xcp_disconnect fuel = sbind (xcp_query fuel XCP_DISCONNECT (Inr [])) (\<lambda>resp. sassert (length resp = 0))"

record id_info =
  id_mode :: int
  identifier_length :: int
  id_bytes :: "bytes option"

definition xcp_get_id :: "nat \<Rightarrow> GET_ID_REQUEST_TYPE \<Rightarrow> (xcp, id_info) meth" where
  "xcp_get_id fuel ty c =
    (sbind (slift (at_most 255 (GET_ID_REQUEST_TYPE_value ty))) (\<lambda>_.
     sbind (xcp_query fuel XCP_GET_ID (py_bytes [GET_ID_REQUEST_TYPE_value ty])) (\<lambda>resp.
     sbind (slift (byte_at resp 0)) (\<lambda>m.
     sbind (slift (unpack_order (xcp_byte_order c) 4 (py_slice resp 3 7))) (\<lambda>n.
     sret \<lparr>id_mode = m, identifier_length = n, id_bytes = (if 8 < max_cto c then Some (drop 7 resp) else None)\<rparr>))))) c"

definition xcp_get_seed :: "nat \<Rightarrow> int \<Rightarrow> (xcp, bytes) meth" where
  "xcp_get_seed fuel mode =
    sbind (slift (at_most 255 mode)) (\<lambda>_.
    sbind (xcp_query fuel XCP_GET_SEED (py_bytes [0, mode])) (\<lambda>ret.
    sbind (slift (byte_at ret 0)) (\<lambda>n. sret (py_slice ret 1 (n + 1)))))"

definition xcp_unlock :: "nat \<Rightarrow> bytes \<Rightarrow> (xcp, bytes) meth" where
  "xcp_unlock fuel key = xcp_query fuel XCP_UNLOCK (bytes_then [int (length key)] (Inr key))"

definition xcp_set_mta :: "nat \<Rightarrow> int \<Rightarrow> int \<Rightarrow> (xcp, bytes) meth" where
  "xcp_set_mta fuel addr addr_ext c =
    (sbind (slift (at_most 255 addr_ext)) (\<lambda>_.
     xcp_query fuel XCP_SET_MTA (bytes_then [0x00, 0x00, addr_ext] (pack_order (xcp_byte_order c) 4 addr)))) c"

text \<open>The test at the head of \<open>upload\<close> and \<open>download\<close>: one frame has to do unless the control unit sends blocks.\<close>

definition fits_one_frame :: "int \<Rightarrow> int \<Rightarrow> xcp \<Rightarrow> unit result" where
  "fits_one_frame n_bytes room c =
    ebind (at_most 255 n_bytes) (\<lambda>_. case slave_block_mode c of
        None \<Rightarrow> Inl AttributeError
      | Some block_mode \<Rightarrow> ensure (block_mode \<or> n_bytes \<le> room) ValueError)"

text \<open>The loop of \<open>upload\<close>: its fuel counts the answers it waits for.\<close>

fun xcp_collect :: "nat \<Rightarrow> nat \<Rightarrow> int \<Rightarrow> bytes \<Rightarrow> (xcp, bytes) meth" where
  "xcp_collect 0 fuel n_bytes resp c = (Inl OutOfFuel, c)"
| "xcp_collect (Suc n) fuel n_bytes resp c =
    (if int (length resp) < n_bytes
     then sbind (xcp_recv_dto fuel (xcp_timeout c)) (\<lambda>d.
            xcp_collect n fuel n_bytes (resp @ py_slice d 0 (n_bytes - int (length resp) + 1))) c
     else (Inr resp, c))"

definition xcp_upload :: "nat \<Rightarrow> int \<Rightarrow> (xcp, bytes) meth" where
  "xcp_upload fuel n_bytes c =
    (sbind (slift (fits_one_frame n_bytes (max_dto c - 1) c)) (\<lambda>_.
     sbind (slift (py_bytes [n_bytes])) (\<lambda>dat.
     sbind (send_cto XCP_UPLOAD dat) (\<lambda>_.
     sbind (xcp_collect fuel fuel n_bytes []) (\<lambda>resp. sret (py_slice resp 0 n_bytes)))))) c"

definition xcp_short_upload :: "nat \<Rightarrow> int \<Rightarrow> int \<Rightarrow> int \<Rightarrow> (xcp, bytes) meth" where
  "xcp_short_upload fuel n_bytes addr_ext addr c =
    (sbind (slift (at_most 6 n_bytes)) (\<lambda>_. sbind (slift (at_most 255 addr_ext)) (\<lambda>_.
     sbind (xcp_query fuel XCP_SHORT_UPLOAD (bytes_then [n_bytes, 0x00, addr_ext] (pack_order (xcp_byte_order c) 4 addr)))
       (\<lambda>resp. sret (py_slice resp 0 n_bytes))))) c"

definition xcp_download :: "nat \<Rightarrow> bytes \<Rightarrow> (xcp, bytes) meth" where
  "xcp_download fuel data c =
    (let n_bytes = int (length data)
     in sbind (slift (fits_one_frame n_bytes (max_dto c - 2) c)) (\<lambda>_.
        sbind (xcp_query fuel XCP_DOWNLOAD (bytes_then [n_bytes] (Inr data))) (\<lambda>resp. sret (py_slice resp 0 n_bytes))) c)"

end
