(* ===== verification/CalibrationCorrect.thy ===== *)
theory CalibrationCorrect
  imports Ccp Xcp
begin

text \<open>
  The calibration clients keep the contract of \<open>Dto\<close>: their batches decide by the first frame with a verdict. So every
  command ends when the clock advances, with a time-out or that verdict. For CCP it is shown that a command sends one
  frame with the next counter and takes no acknowledgement with another counter; for XCP, that an upload returns
  as many bytes as were asked for, and that a block whose frames arrive in one batch is lost.
\<close>

section \<open>CCP\<close>

text \<open>What a frame means for a client that waits for the answer with counter \<open>ctr\<close>.\<close>

definition ccp_verdict :: "int \<Rightarrow> int \<Rightarrow> int \<Rightarrow> frame \<Rightarrow> bytes result option" where
  "ccp_verdict rx b ctr f =
    (let (addr, dat, fbus) = f; acknowledge = (hd dat = 0xFF); event = (hd dat = 0xFE); code = uint (dat ! 1)
     in if fbus \<noteq> b \<or> addr \<noteq> rx then None
        else if length dat \<noteq> 8 then Some (Inl AssertionError)
        else if \<not> acknowledge \<and> \<not> event then Some (Inr (tl dat))
        else if acknowledge \<and> uint (dat ! 2) \<noteq> ctr then Some (Inl CommandCounterError)
        else if code \<in> {0x10..0x12} then None
        else if 0x30 \<le> code then Some (Inl (CommandResponseError code))
        else Some (Inr (drop 3 dat)))"

lemma pid_eq: "uint (w :: byte) = 255 \<longleftrightarrow> w = 0xFF" "uint (w :: byte) = 254 \<longleftrightarrow> w = 0xFE"
  by (simp_all add: word_uint_eq_iff)

lemma ccp_messages_decide:
  "fst (ccp_messages rx b ctr msgs start p) = first_verdict (ccp_verdict rx b ctr) msgs"
proof (induction rx b ctr msgs start p rule: ccp_messages.induct)
  case (2 rx b ctr addr dat fbus msgs start p)
  have pid: "dat ! 0 = hd dat" "drop (Suc 0) dat = tl dat" if "length dat = 8"
    using that by (cases dat; simp add: drop_Suc)+
  show ?case using 2 pid
    by (auto simp: ccp_verdict_def Let_def read_clock_def pid_eq split: option.splits)
qed simp

lemma ccp_messages_env: "same_env p (snd (snd (ccp_messages rx b ctr msgs start p)))"
proof (induction rx b ctr msgs start p rule: ccp_messages.induct)
  case (2 rx b ctr addr dat fbus msgs start p)
  then show ?case
    by (auto simp: Let_def read_clock_def intro: same_env_trans [OF same_env_tick])
qed simp

interpretation ccp_loop: dto_scan "ccp_messages rx b ctr" "ccp_verdict rx b ctr"
proof
  show "ccp_verdict rx b ctr f \<noteq> Some (Inl OutOfFuel)" for f
    by (simp add: ccp_verdict_def Let_def split: prod.splits)
qed (simp_all add: ccp_messages_decide ccp_messages_env)

text \<open>The frame of a command.\<close>

definition cro_frame :: "CCP_COMMAND_CODE \<Rightarrow> int \<Rightarrow> bytes \<Rightarrow> bytes" where
  "cro_frame cmd ctr dat =
    [word_of_int (CCP_COMMAND_CODE_value cmd), word_of_int ctr] @ dat @ replicate (6 - length dat) 0"

definition next_counter :: "ccp \<Rightarrow> int" where
  "next_counter c = (command_counter c + 1) mod 256"

lemma CCP_COMMAND_CODE_byte: "0 \<le> CCP_COMMAND_CODE_value cmd \<and> CCP_COMMAND_CODE_value cmd < 256"
  by (cases cmd) simp_all

lemma send_cro_run:
  assumes "length dat \<le> 6"
  shows "send_cro cmd dat c = (Inr (), c\<lparr>command_counter := next_counter c,
      ccp_panda := can_send (ccp_tx_addr c) (cro_frame cmd (next_counter c) dat) (ccp_bus c)
        (can_clear 0xFFFF (can_clear (ccp_bus c) (ccp_panda c)))\<rparr>)"
proof -
  have ctr: "(command_counter c + 1) AND 0xFF = next_counter c"
    using take_bit_eq_mask [of 8 "command_counter c + 1"] by (simp add: next_counter_def take_bit_eq_mod mask_eq_exp_minus_1)
  have "0 \<le> next_counter c" "next_counter c < 256" by (simp_all add: next_counter_def)
  then show ?thesis using assms CCP_COMMAND_CODE_byte [of cmd]
    by (simp add: send_cro_def ctr py_bytes_def ljust_def cro_frame_def)
qed

lemma send_cro_long:
  assumes "6 < length dat"
  shows "send_cro cmd dat c = (Inl AssertionError, c\<lparr>command_counter := next_counter c\<rparr>)"
proof -
  have ctr: "(command_counter c + 1) AND 0xFF = next_counter c"
    using take_bit_eq_mask [of 8 "command_counter c + 1"] by (simp add: next_counter_def take_bit_eq_mod mask_eq_exp_minus_1)
  have "0 \<le> next_counter c" "next_counter c < 256" by (simp_all add: next_counter_def)
  then show ?thesis using assms CCP_COMMAND_CODE_byte [of cmd]
    by (simp add: send_cro_def ctr py_bytes_def ljust_def)
qed

text \<open>The part of a command after its frame is sent.\<close>

lemma ccp_query_run:
  assumes "length dat \<le> 6"
  obtains p where "\<And>n. ccp_query n tmo cmd (Inr dat) c =
      (let (r, q) = dto_wait (ccp_messages (ccp_rx_addr c) (ccp_bus c) (next_counter c)) n tmo
         (clock (ccp_panda c) (ticks (ccp_panda c))) p
       in (r, c\<lparr>command_counter := next_counter c, ccp_panda := q\<rparr>))"
    "rx_script p = rx_script (ccp_panda c)" "clock p = clock (ccp_panda c)"
    "tx_log p = tx_log (ccp_panda c) @ [(ccp_tx_addr c, cro_frame cmd (next_counter c) dat, ccp_bus c)]"
proof -
  let ?p = "can_send (ccp_tx_addr c) (cro_frame cmd (next_counter c) dat) (ccp_bus c)
        (can_clear 0xFFFF (can_clear (ccp_bus c) (ccp_panda c)))"
  let ?q = "?p\<lparr>ticks := Suc (ticks (ccp_panda c))\<rparr>"
  have "ccp_query n tmo cmd (Inr dat) c =
      (let (r, q) = dto_wait (ccp_messages (ccp_rx_addr c) (ccp_bus c) (next_counter c)) n tmo
         (clock (ccp_panda c) (ticks (ccp_panda c))) ?q
       in (r, c\<lparr>command_counter := next_counter c, ccp_panda := q\<rparr>))" for n
    using assms by (simp add: ccp_query_def sbind_run [OF send_cro_run] ccp_recv_dto_def read_clock_def split_def)
  from that [OF this] show ?thesis by simp
qed

text \<open>
  C33: A CCP command with at most six bytes of arguments sends exactly one frame, of eight bytes with the next
  counter, and ends when the clock advances, with a time-out or with the verdict of the first frame that decides.
\<close>

theorem ccp_command_is_answered:
  assumes "length dat \<le> 6" and "clock_advances (clock (ccp_panda c))"
  shows "\<exists>n0. \<forall>n\<ge>n0. \<exists>r c'. ccp_query n tmo cmd (Inr dat) c = (r, c') \<and> command_counter c' = next_counter c
      \<and> tx_log (ccp_panda c') =
          tx_log (ccp_panda c) @ [(ccp_tx_addr c, cro_frame cmd (next_counter c) dat, ccp_bus c)]
      \<and> (r = Inl CommandTimeoutError
          \<or> first_verdict (ccp_verdict (ccp_rx_addr c) (ccp_bus c) (next_counter c)) (concat (rx_script (ccp_panda c)))
            = Some r)"
proof -
  obtain p where p: "\<And>n. ccp_query n tmo cmd (Inr dat) c =
      (let (r, q) = dto_wait (ccp_messages (ccp_rx_addr c) (ccp_bus c) (next_counter c)) n tmo
         (clock (ccp_panda c) (ticks (ccp_panda c))) p
       in (r, c\<lparr>command_counter := next_counter c, ccp_panda := q\<rparr>))"
    "rx_script p = rx_script (ccp_panda c)" "clock p = clock (ccp_panda c)"
    "tx_log p = tx_log (ccp_panda c) @ [(ccp_tx_addr c, cro_frame cmd (next_counter c) dat, ccp_bus c)]"
    using ccp_query_run [OF assms(1)] by blast
  obtain n0 r q where w: "r \<noteq> Inl OutOfFuel" "\<And>n. n0 \<le> n \<Longrightarrow>
      dto_wait (ccp_messages (ccp_rx_addr c) (ccp_bus c) (next_counter c)) n tmo
        (clock (ccp_panda c) (ticks (ccp_panda c))) p = (r, q)"
    using ccp_loop.wait_ends [of p] assms(2) p(3) by metis
  show ?thesis
  proof (intro exI [of _ n0] allI impI)
    fix n assume "n0 \<le> n"
    note run = w(2) [OF this]
    show "\<exists>r c'. ccp_query n tmo cmd (Inr dat) c = (r, c') \<and> command_counter c' = next_counter c
      \<and> tx_log (ccp_panda c') =
          tx_log (ccp_panda c) @ [(ccp_tx_addr c, cro_frame cmd (next_counter c) dat, ccp_bus c)]
      \<and> (r = Inl CommandTimeoutError
          \<or> first_verdict (ccp_verdict (ccp_rx_addr c) (ccp_bus c) (next_counter c)) (concat (rx_script (ccp_panda c)))
            = Some r)"
      using ccp_loop.wait_result [OF run] ccp_loop.wait_env [OF run] w(1) p by (auto simp: run)
  qed
qed

text \<open>
  C29: An acknowledgement of another command is never taken for the answer: if all that comes from the control
  unit are acknowledgements with other counters, no command returns data.
\<close>

theorem stale_acknowledgement_rejected:
  assumes "\<And>addr dat fbus. (addr, dat, fbus) \<in> set (concat (rx_script (ccp_panda c))) \<Longrightarrow>
      addr = ccp_rx_addr c \<Longrightarrow> fbus = ccp_bus c \<Longrightarrow>
      length dat = 8 \<and> hd dat = 0xFF \<and> uint (dat ! 2) \<noteq> next_counter c"
    and "length dat \<le> 6"
  shows "\<exists>e. fst (ccp_query n tmo cmd (Inr dat) c) = Inl e"
proof -
  obtain p where p: "\<And>n. ccp_query n tmo cmd (Inr dat) c =
      (let (r, q) = dto_wait (ccp_messages (ccp_rx_addr c) (ccp_bus c) (next_counter c)) n tmo
         (clock (ccp_panda c) (ticks (ccp_panda c))) p
       in (r, c\<lparr>command_counter := next_counter c, ccp_panda := q\<rparr>))"
    "rx_script p = rx_script (ccp_panda c)"
    using ccp_query_run [OF assms(2)] by blast
  obtain r q where run: "dto_wait (ccp_messages (ccp_rx_addr c) (ccp_bus c) (next_counter c)) n tmo
      (clock (ccp_panda c) (ticks (ccp_panda c))) p = (r, q)" by fastforce
  have "\<exists>e. r = Inl e" if "first_verdict (ccp_verdict (ccp_rx_addr c) (ccp_bus c) (next_counter c))
      (concat (rx_script (ccp_panda c))) = Some r"
    using that assms(1)
    by (fastforce elim!: first_verdict_SomeE simp: ccp_verdict_def Let_def split: if_splits prod.splits)
  with ccp_loop.wait_result [OF run] p show ?thesis by (auto simp: run)
qed

text \<open>A client whose counter starts afresh, and a control unit that answers once.\<close>

definition ccp_with :: "frame list list \<Rightarrow> ccp" where
  "ccp_with script = CcpClient_init
    \<lparr>rx_script = script, tx_log = [], cleared = [], clock = of_nat, ticks = 0\<rparr> 0x6FA 0x6FB 0 BIG_ENDIAN"

lemma ccp_command_is_answered_witness:
  "\<exists>n0. \<forall>n\<ge>n0. \<exists>r c'. ccp_query n quick CCP_GET_SEED (Inr [1]) (ccp_with [[(0x6FB, [0xFF, 0, 0, 1, 2, 3, 4, 5], 0)]]) = (r, c')
      \<and> command_counter c' = 0 \<and> tx_log (ccp_panda c') = [(0x6FA, [0x12, 0, 1, 0, 0, 0, 0, 0], 0)]
      \<and> (r = Inl CommandTimeoutError \<or> Inr [1, 2, 3, 4, 5] = r)"
  using ccp_command_is_answered [of "[1]" "ccp_with [[(0x6FB, [0xFF, 0, 0, 1, 2, 3, 4, 5], 0)]]" quick CCP_GET_SEED]
  by (simp add: ccp_with_def CcpClient_init_def clock_advances_of_nat next_counter_def cro_frame_def ccp_verdict_def
      eval_nat_numeral)

lemma stale_acknowledgement_rejected_witness:
  "\<exists>e. fst (ccp_query 3 quick CCP_GET_SEED (Inr [1]) (ccp_with [[(0x6FB, [0xFF, 0, 5, 1, 2, 3, 4, 5], 0)]])) = Inl e"
  by (rule stale_acknowledgement_rejected)
    (simp_all add: ccp_with_def CcpClient_init_def next_counter_def)

section \<open>XCP\<close>

definition xcp_verdict :: "int \<Rightarrow> int \<Rightarrow> frame \<Rightarrow> bytes result option" where
  "xcp_verdict rx b f = (let (addr, dat, fbus) = f in if fbus = b \<and> addr = rx then Some (xcp_answer dat) else None)"

lemma xcp_answer_Inr: "xcp_answer dat = Inr d \<Longrightarrow> d = tl dat \<and> dat \<noteq> []"
  by (cases dat) (auto simp: xcp_answer_def byte_at_def split: if_splits)

interpretation xcp_loop: dto_scan "xcp_messages rx b" "xcp_verdict rx b"
proof
  show "fst (xcp_messages rx b msgs start p) = first_verdict (xcp_verdict rx b) msgs" for msgs start p
    by (induction rx b msgs start p rule: xcp_messages.induct) (simp_all add: xcp_verdict_def)
  show "same_env p (snd (snd (xcp_messages rx b msgs start p)))" for msgs start p
    by (induction rx b msgs start p rule: xcp_messages.induct) simp_all
  show "xcp_verdict rx b f \<noteq> Some (Inl OutOfFuel)" for f
    by (auto simp: xcp_verdict_def xcp_answer_def byte_at_def ebind_eq_Inl split: prod.splits if_splits)
qed simp_all

text \<open>One wait changes nothing of the client but the adapter; an answer uses up a batch of frames.\<close>

lemma xcp_recv_result:
  assumes "xcp_recv_dto n tmo c = (r, c')"
  shows "c' = c\<lparr>xcp_panda := xcp_panda c'\<rparr> \<and> clock (xcp_panda c') = clock (xcp_panda c)
      \<and> (r = Inl OutOfFuel \<or> r = Inl CommandTimeoutError
        \<or> first_verdict (xcp_verdict (xcp_rx_addr c) (xcp_bus c)) (concat (rx_script (xcp_panda c))) = Some r
          \<and> length (rx_script (xcp_panda c')) < length (rx_script (xcp_panda c)))"
proof -
  obtain p where run: "dto_wait (xcp_messages (xcp_rx_addr c) (xcp_bus c)) n tmo
      (clock (xcp_panda c) (ticks (xcp_panda c))) ((xcp_panda c)\<lparr>ticks := Suc (ticks (xcp_panda c))\<rparr>) = (r, p)"
    and c': "c' = c\<lparr>xcp_panda := p\<rparr>"
    using assms by (auto simp: xcp_recv_dto_def read_clock_def split: prod.splits)
  show ?thesis using xcp_loop.wait_result [OF run] xcp_loop.wait_env [OF run] c' by simp
qed

lemma xcp_recv_ends:
  assumes "clock_advances (clock (xcp_panda c))"
  shows "\<exists>n0 r c'. r \<noteq> Inl OutOfFuel \<and> (\<forall>n\<ge>n0. xcp_recv_dto n tmo c = (r, c'))"
proof -
  obtain n0 r p where "r \<noteq> Inl OutOfFuel" "\<And>n. n0 \<le> n \<Longrightarrow> dto_wait (xcp_messages (xcp_rx_addr c) (xcp_bus c)) n tmo
      (clock (xcp_panda c) (ticks (xcp_panda c))) ((xcp_panda c)\<lparr>ticks := Suc (ticks (xcp_panda c))\<rparr>) = (r, p)"
    using xcp_loop.wait_ends [of "(xcp_panda c)\<lparr>ticks := Suc (ticks (xcp_panda c))\<rparr>"] assms
    by (metis panda.select_convs(4) panda.surjective panda.update_convs(5))
  then show ?thesis
    by (intro exI [of _ n0] exI [of _ r] exI [of _ "c\<lparr>xcp_panda := p\<rparr>"]) (simp add: xcp_recv_dto_def read_clock_def)
qed

text \<open>The loop of an upload ends: every answer uses up a batch.\<close>

lemma xcp_collect_ends:
  assumes "clock_advances (clock (xcp_panda c))"
  shows "\<exists>n0 r c'. r \<noteq> Inl OutOfFuel \<and> (\<forall>n\<ge>n0. \<forall>fuel\<ge>n0. xcp_collect n fuel k resp c = (r, c'))"
  using assms
proof (induction "length (rx_script (xcp_panda c))" arbitrary: c resp rule: less_induct)
  case less
  obtain n0 r c' where rc: "r \<noteq> Inl OutOfFuel" "\<And>n. n0 \<le> n \<Longrightarrow> xcp_recv_dto n (xcp_timeout c) c = (r, c')"
    using xcp_recv_ends [OF less.prems] by blast
  note res = xcp_recv_result [OF rc(2) [OF order_refl]]
  have step: "xcp_collect (Suc n) fuel k resp c = (if int (length resp) < k
      then (case r of Inl e \<Rightarrow> (Inl e, c')
            | Inr d \<Rightarrow> xcp_collect n fuel k (resp @ py_slice d 0 (k - int (length resp) + 1)) c')
      else (Inr resp, c))" if "n0 \<le> fuel" for n fuel
    using rc(2) [OF that] by (simp add: sbind_def)
  show ?case
  proof (cases "int (length resp) < k \<and> (\<exists>d. r = Inr d)")
    case True
    then obtain d where d: "r = Inr d" "int (length resp) < k" by blast
    let ?resp = "resp @ py_slice d 0 (k - int (length resp) + 1)"
    have "length (rx_script (xcp_panda c')) < length (rx_script (xcp_panda c))"
      "clock_advances (clock (xcp_panda c'))" using res d less.prems by auto
    from less.hyps [OF this, of ?resp] obtain n1 r1 c1 where ih: "r1 \<noteq> Inl OutOfFuel"
        "\<And>n fuel. n1 \<le> n \<Longrightarrow> n1 \<le> fuel \<Longrightarrow> xcp_collect n fuel k ?resp c' = (r1, c1)" by blast
    have "xcp_collect n fuel k resp c = (r1, c1)"
      if le: "Suc (max n0 n1) \<le> n" "Suc (max n0 n1) \<le> fuel" for n fuel
    proof -
      obtain m where m: "n = Suc m" "n1 \<le> m" using le(1) by (cases n) auto
      show ?thesis using step [of fuel m] ih(2) [OF m(2), of fuel] le d m(1) by simp
    qed
    with ih(1) show ?thesis by blast
  next
    case False
    let ?res = "if int (length resp) < k then (r, c') else (Inr resp, c)"
    have "xcp_collect n fuel k resp c = ?res" if le: "Suc n0 \<le> n" "Suc n0 \<le> fuel" for n fuel
    proof -
      obtain m where m: "n = Suc m" using le(1) by (cases n) auto
      show ?thesis using step [of fuel m] le False m by (cases r) auto
    qed
    moreover have "fst ?res \<noteq> Inl OutOfFuel" using rc(1) by simp
    ultimately show ?thesis
      by (intro exI [of _ "Suc n0"] exI [of _ "fst ?res"] exI [of _ "snd ?res"] conjI allI impI)
        (simp_all only: prod.collapse not_False_eq_True)
  qed
qed

lemma xcp_collect_enough:
  "xcp_collect n fuel k resp c = (Inr d, c') \<Longrightarrow> k \<le> int (length d)"
proof (induction n arbitrary: resp c)
  case (Suc n)
  then show ?case by (auto simp: sbind_def split: if_splits prod.splits sum.splits)
qed simp

lemma send_cto_run: "\<exists>p. send_cto cmd dat c = (Inr (), c\<lparr>xcp_panda := p\<rparr>) \<and> clock p = clock (xcp_panda c)
    \<and> rx_script p = rx_script (xcp_panda c)"
proof -
  have "0 \<le> XCP_COMMAND_CODE_value cmd \<and> XCP_COMMAND_CODE_value cmd < 256" by (cases cmd) simp_all
  then show ?thesis by (auto simp: send_cto_def py_bytes_def Let_def)
qed

lemma xcp_upload_run:
  assumes "xcp_upload n k c = (Inr d, c')"
  obtains p resp where "xcp_collect n n k [] (c\<lparr>xcp_panda := p\<rparr>) = (Inr resp, c')" "d = py_slice resp 0 k"
    "rx_script p = rx_script (xcp_panda c)" "clock p = clock (xcp_panda c)" "0 \<le> k"
proof -
  obtain u dat where "fits_one_frame k (max_dto c - 1) c = Inr u" and dat: "py_bytes [k] = Inr dat"
    using assms by (auto simp: xcp_upload_def sbind_slift split: sum.splits)
  note ok = this
  obtain p where p: "send_cto XCP_UPLOAD dat c = (Inr (), c\<lparr>xcp_panda := p\<rparr>)"
      "clock p = clock (xcp_panda c)" "rx_script p = rx_script (xcp_panda c)"
    using send_cto_run [of XCP_UPLOAD dat c] by blast
  have "sbind (xcp_collect n n k []) (\<lambda>resp. sret (py_slice resp 0 k)) (c\<lparr>xcp_panda := p\<rparr>) = (Inr d, c')"
    using assms ok by (simp add: xcp_upload_def sbind_run [where m = "send_cto XCP_UPLOAD dat" and s = c, OF p(1)])
  moreover have "0 \<le> k" using dat by (simp add: py_bytes_def py_byte_def split: if_splits)
  ultimately show ?thesis using that [of p] p by (auto simp: sbind_eq_Inr sret_def)
qed

lemma py_slice_length: "0 \<le> k \<Longrightarrow> k \<le> int (length xs) \<Longrightarrow> int (length (py_slice xs 0 k)) = k"
  by (simp add: py_slice_def slice_bound_def)

text \<open>
  C36: An upload ends when the clock advances, and if it returns data, then as many bytes as were asked for,
  whatever the control unit sends.
\<close>

theorem upload_returns_what_was_asked:
  assumes "clock_advances (clock (xcp_panda c))"
  shows "\<exists>n0 r. r \<noteq> Inl OutOfFuel \<and> (\<forall>n\<ge>n0. fst (xcp_upload n k c) = r)
      \<and> (\<forall>d. r = Inr d \<longrightarrow> int (length d) = k)"
proof -
  have "\<exists>n0 r c'. r \<noteq> Inl OutOfFuel \<and> (\<forall>n\<ge>n0. xcp_upload n k c = (r, c'))"
  proof (cases "fits_one_frame k (max_dto c - 1) c")
    case (Inl e)
    have "e \<noteq> OutOfFuel"
      using Inl by (auto simp: fits_one_frame_def at_most_def ebind_eq_Inl split: option.splits)
    with Inl show ?thesis by (auto simp: xcp_upload_def sraise_def)
  next
    case (Inr u)
    show ?thesis
    proof (cases "py_bytes [k]")
      case (Inl e)
      have "e \<noteq> OutOfFuel" using Inl by (auto simp: py_bytes_def py_byte_def split: if_splits)
      with Inl Inr show ?thesis by (auto simp: xcp_upload_def sraise_def)
    next
      case dat: (Inr dat)
      obtain p where p: "send_cto XCP_UPLOAD dat c = (Inr (), c\<lparr>xcp_panda := p\<rparr>)"
          "clock p = clock (xcp_panda c)" "rx_script p = rx_script (xcp_panda c)"
        using send_cto_run [of XCP_UPLOAD dat c] by blast
      obtain n0 r c' where "r \<noteq> Inl OutOfFuel"
          "\<And>n. n0 \<le> n \<Longrightarrow> xcp_collect n n k [] (c\<lparr>xcp_panda := p\<rparr>) = (r, c')"
        using xcp_collect_ends [of "c\<lparr>xcp_panda := p\<rparr>" k "[]"] assms p(2) by (simp) blast
      then show ?thesis using Inr dat
        by (intro exI [of _ n0] exI [of _ "case r of Inl e \<Rightarrow> Inl e | Inr x \<Rightarrow> Inr (py_slice x 0 k)"] exI [of _ c'])
          (auto simp: xcp_upload_def p(1) sbind_def sret_def split: sum.splits)
    qed
  qed
  then obtain n0 r c' where r: "r \<noteq> Inl OutOfFuel" "\<And>n. n0 \<le> n \<Longrightarrow> xcp_upload n k c = (r, c')" by blast
  have "int (length d) = k" if "r = Inr d" for d
    using r(2) [OF order_refl] that
    by (auto elim!: xcp_upload_run dest!: xcp_collect_enough intro!: py_slice_length)
  with r show ?thesis by (intro exI [of _ n0] exI [of _ r]) simp
qed

lemma xcp_answer_short:
  assumes "first_verdict (xcp_verdict rx b) fs = Some (Inr d)" and "\<And>f. f \<in> set fs \<Longrightarrow> length (fst (snd f)) \<le> 8"
  shows "length d \<le> 7"
proof -
  obtain f where "f \<in> set fs" "xcp_verdict rx b f = Some (Inr d)" using assms(1) by (rule first_verdict_SomeE)
  then show ?thesis using assms(2) [of f] by (auto simp: xcp_verdict_def dest!: xcp_answer_Inr split: prod.splits if_splits)
qed

text \<open>
  The frames of a batch after the one that answers are dropped. A block upload, which needs more frames
  than one, therefore fails when its frames arrive together.
\<close>

lemma block_in_one_batch_is_lost:
  assumes "rx_script (xcp_panda c) = [batch]" and "\<And>f. f \<in> set batch \<Longrightarrow> length (fst (snd f)) \<le> 8" and "7 < k"
  shows "\<exists>e. fst (xcp_upload n k c) = Inl e"
proof (rule ccontr)
  assume "\<not> ?thesis"
  then obtain d c' where "xcp_upload n k c = (Inr d, c')"
    by (cases "xcp_upload n k c"; cases "fst (xcp_upload n k c)") auto
  then obtain p resp where run: "xcp_collect n n k [] (c\<lparr>xcp_panda := p\<rparr>) = (Inr resp, c')"
      and p: "rx_script p = [batch]"
    using assms(1) by (auto elim: xcp_upload_run)
  then obtain m where n: "n = Suc m" by (cases n) auto
  obtain d1 c1 where one: "xcp_recv_dto n (xcp_timeout c) (c\<lparr>xcp_panda := p\<rparr>) = (Inr d1, c1)"
      and rest: "xcp_collect m n k (py_slice d1 0 (k + 1)) c1 = (Inr resp, c')"
    using run assms(3) n by (auto simp: sbind_def split: prod.splits sum.splits)
  from xcp_recv_result [OF one] p have c1: "rx_script (xcp_panda c1) = []"
    "first_verdict (xcp_verdict (xcp_rx_addr c) (xcp_bus c)) batch = Some (Inr d1)" by auto
  have "length (py_slice d1 0 (k + 1)) \<le> 7"
    using xcp_answer_short [OF c1(2) assms(2)] by (simp add: py_slice_def Let_def)
  moreover obtain l where m: "m = Suc l" using rest by (cases m) auto
  ultimately obtain d2 c2 where "xcp_recv_dto n (xcp_timeout c1) c1 = (Inr d2, c2)"
    using rest assms(3) by (auto simp: sbind_def split: prod.splits sum.splits if_splits)
  from xcp_recv_result [OF this] c1(1) show False by simp
qed

text \<open>A control unit that sends blocks: two frames carry the ten bytes that are asked for.\<close>

definition xcp_with :: "(nat \<Rightarrow> rat) \<Rightarrow> frame list list \<Rightarrow> xcp" where
  "xcp_with clk script = (XcpClient_init
    \<lparr>rx_script = script, tx_log = [], cleared = [], clock = clk, ticks = 0\<rparr> 0x7A 0x7B 0 (1 / 10) True)
    \<lparr>slave_block_mode := Some True\<rparr>"

definition block_frames :: "frame list" where
  "block_frames = [(0x7B, [0xFF, 1, 2, 3, 4, 5, 6, 7], 0), (0x7B, [0xFF, 8, 9, 10, 0, 0, 0, 0], 0)]"

lemma upload_returns_what_was_asked_witness:
  "\<exists>n0 r. r \<noteq> Inl OutOfFuel \<and> (\<forall>n\<ge>n0. fst (xcp_upload n 10 (xcp_with of_nat [block_frames])) = r)
      \<and> (\<forall>d. r = Inr d \<longrightarrow> int (length d) = 10)"
  by (rule upload_returns_what_was_asked) (simp add: xcp_with_def XcpClient_init_def clock_advances_of_nat)

lemma block_in_one_batch_is_lost_witness:
  "\<exists>e. fst (xcp_upload 5 10 (xcp_with of_nat [block_frames])) = Inl e"
  by (rule block_in_one_batch_is_lost [where batch = block_frames])
    (auto simp: xcp_with_def XcpClient_init_def block_frames_def)

text \<open>The same frames one by one are put together.\<close>

lemma block_frame_by_frame:
  "fst (xcp_upload 5 10 (xcp_with (\<lambda>_. 0) (map (\<lambda>f. [f]) block_frames))) = Inr [1, 2, 3, 4, 5, 6, 7, 8, 9, 10]"
  by code_simp

end
