(* ===== verification/PandaIsoTp.thy ===== *)
theory PandaIsoTp
  imports IsoTpCorrect
begin

text \<open>
  \<^verbatim>\<open>opendbc/car/isotp.py\<close>: ISO-TP for scripts that talk to a panda, a second and simpler implementation beside the class
  of \<^verbatim>\<open>uds.py\<close>. Frames that a call does not take stay in the global list \<open>kmsgs\<close>, at most 256 of them. The loop of
  \<open>recv\<close> waits without a time-out; it takes fuel, one unit per call of \<^verbatim>\<open>can_recv\<close>. The pauses of the argument \<open>rate\<close>
  are left out, so its two ways of sending the rest of a message are one. Shown is that both implementations put the same
  frames on the bus, and that the receiver finds them among other traffic and puts them together.
\<close>

section \<open>Frames\<close>

record host =
  host_panda :: panda
  kmsgs :: "frame list"

definition host_send :: "int \<Rightarrow> bytes \<Rightarrow> int \<Rightarrow> (host, unit) meth" where
  "host_send addr dat nbus = smodify (\<lambda>h. h\<lparr>host_panda := can_send addr dat nbus (host_panda h)\<rparr>)"

definition single_msg :: "bytes \<Rightarrow> bytes result" where
  "single_msg x = ebind (ensure (length x \<le> 7) AssertionError) (\<lambda>_.
     ebind (py_bytes [int (length x)]) (\<lambda>n. Inr (ljust 8 (n @ x))))"

text \<open>One pass over the waiting frames: those taken, and those left.\<close>

fun sort_out :: "int \<Rightarrow> int \<Rightarrow> int \<Rightarrow> frame list \<Rightarrow> bytes list \<Rightarrow> bytes list \<times> frame list" where
  "sort_out cnt addr nbus [] ret = (ret, [])"
| "sort_out cnt addr nbus ((ids, dat, fbus) # msgs) ret =
    (if ids = addr \<and> fbus = nbus \<and> int (length ret) < cnt
     then sort_out cnt addr nbus msgs (ret @ [dat])
     else let (ret, nmsgs) = sort_out cnt addr nbus msgs ret in (ret, (ids, dat, fbus) # nmsgs))"

definition last_256 :: "frame list \<Rightarrow> frame list" where
  "last_256 ms = drop (length ms - 256) ms"

fun recv_more :: "nat \<Rightarrow> int \<Rightarrow> int \<Rightarrow> int \<Rightarrow> bytes list \<Rightarrow> (host, bytes list) meth" where
  "recv_more 0 cnt addr nbus ret h = (if int (length ret) < cnt then (Inl OutOfFuel, h) else (Inr ret, h))"
| "recv_more (Suc n) cnt addr nbus ret h =
    (if int (length ret) < cnt
     then let (msgs, p) = can_recv (host_panda h);
              (ret, nmsgs) = sort_out cnt addr nbus (kmsgs h @ msgs) ret
          in recv_more n cnt addr nbus ret (h\<lparr>host_panda := p, kmsgs := last_256 nmsgs\<rparr>)
     else (Inr ret, h))"

definition host_recv :: "nat \<Rightarrow> int \<Rightarrow> int \<Rightarrow> int \<Rightarrow> (host, bytes list) meth" where
  "host_recv fuel cnt addr nbus = recv_more fuel cnt addr nbus []"

definition host_recv_one :: "nat \<Rightarrow> int \<Rightarrow> int \<Rightarrow> (host, bytes) meth" where
  "host_recv_one fuel addr nbus = sbind (host_recv fuel 1 addr nbus) (\<lambda>ms. slift (py_index ms 0))"

section \<open>Receiving a message\<close>

text \<open>The loops over the consecutive frames, without and with a subaddress.\<close>

fun append_frames :: "int \<Rightarrow> bytes list \<Rightarrow> bytes \<Rightarrow> bytes result" where
  "append_frames idx [] dat = Inr dat"
| "append_frames idx (mm # mms) dat =
    ebind (byte_at mm 0) (\<lambda>b. ebind (ensure (b = (0x20 OR (idx AND 0xF))) AssertionError) (\<lambda>_.
    append_frames (idx + 1) mms (dat @ drop 1 mm)))"

fun append_frames_subaddr :: "int \<Rightarrow> int \<Rightarrow> bytes list \<Rightarrow> bytes \<Rightarrow> bytes result" where
  "append_frames_subaddr subaddr idx [] dat = Inr dat"
| "append_frames_subaddr subaddr idx (mm # mms) dat =
    ebind (byte_at mm 0) (\<lambda>a. ebind (ensure (a = subaddr) AssertionError) (\<lambda>_.
    ebind (byte_at mm 1) (\<lambda>b. ebind (ensure (b = (0x20 OR (idx AND 0xF))) AssertionError) (\<lambda>_.
    append_frames_subaddr subaddr (idx + 1) mms (dat @ drop 2 mm)))))"

definition host_isotp_recv_subaddr :: "nat \<Rightarrow> int \<Rightarrow> int \<Rightarrow> int \<Rightarrow> int \<Rightarrow> (host, bytes) meth" where
  "host_isotp_recv_subaddr fuel addr nbus sendaddr subaddr =
    sbind (host_recv_one fuel addr nbus) (\<lambda>msg.
    sbind (slift (byte_at msg 0)) (\<lambda>a. sbind (sassert (a = subaddr)) (\<lambda>_.
    sbind (slift (byte_at msg 1)) (\<lambda>b.
    if b AND 0xF0 = 0x10
    then sbind (slift (byte_at msg 2)) (\<lambda>c.
         let tlen = push_bit 8 (b AND 0xF) OR c; dat = drop 3 msg
         in sbind (slift (py_bytes [subaddr])) (\<lambda>s.
            sbind (host_send sendaddr (s @ 0x30 # replicate 6 0) nbus) (\<lambda>_.
            sbind (host_recv fuel ((tlen - int (length dat) + 5) div 6) addr nbus) (\<lambda>mms.
            sbind (slift (append_frames_subaddr subaddr 1 mms dat)) (\<lambda>dat.
            sret (py_slice dat 0 tlen))))))
    else if b AND 0xF0 = 0x00 then sret (py_slice (drop 2 msg) 0 (b AND 0xF))
    else sraise AssertionError))))"

definition host_isotp_recv :: "nat \<Rightarrow> int \<Rightarrow> int \<Rightarrow> int option \<Rightarrow> int option \<Rightarrow> (host, bytes) meth" where
  "host_isotp_recv fuel addr nbus sendaddr subaddr =
    (let sendaddr = (case sendaddr of None \<Rightarrow> addr - 8 | Some a \<Rightarrow> a)
     in case subaddr of
          Some sub \<Rightarrow> host_isotp_recv_subaddr fuel addr nbus sendaddr sub
        | None \<Rightarrow>
            sbind (host_recv_one fuel addr nbus) (\<lambda>msg.
            sbind (slift (byte_at msg 0)) (\<lambda>a.
            if a AND 0xF0 = 0x10
            then sbind (slift (byte_at msg 1)) (\<lambda>b.
                 let tlen = push_bit 8 (a AND 0xF) OR b; dat = drop 2 msg
                 in sbind (host_send sendaddr (0x30 # replicate 7 0) nbus) (\<lambda>_.
                    sbind (host_recv fuel ((tlen - int (length dat) + 6) div 7) addr nbus) (\<lambda>mms.
                    sbind (slift (append_frames 1 mms dat)) (\<lambda>dat.
                    sret (py_slice dat 0 tlen)))))
            else if a AND 0xF0 = 0x00 then sret (py_slice (drop 1 msg) 0 (a AND 0xF))
            else sraise AssertionError)))"

section \<open>Sending a message\<close>

function consecutive_sends :: "int option \<Rightarrow> int \<Rightarrow> bytes \<Rightarrow> bytes result list" where
  "consecutive_sends sub idx [] = []"
| "consecutive_sends sub idx (b # bs) = (let x = b # bs in case sub of
      Some s \<Rightarrow> ebind (py_bytes [s, 0x20 + (idx AND 0xF)]) (\<lambda>h. Inr (ljust 8 (h @ take 6 x)))
        # consecutive_sends sub (idx + 1) (drop 6 x)
    | None \<Rightarrow> ebind (py_bytes [0x20 + (idx AND 0xF)]) (\<lambda>h. Inr (ljust 8 (h @ take 7 x)))
        # consecutive_sends sub (idx + 1) (drop 7 x))"
  by pat_completeness auto

termination
  by (relation "measure (\<lambda>(sub, idx, x). length x)") auto

text \<open>\<^verbatim>\<open>rr.find(b"\x30\x01") != -1\<close>\<close>

fun has_30_01 :: "bytes \<Rightarrow> bool" where
  "has_30_01 (a # b # bs) = (a = 0x30 \<and> b = 0x01 \<or> has_30_01 (b # bs))"
| "has_30_01 bs = False"

text \<open>With a block size of one, each frame but the last is followed by a flow control frame.\<close>

fun send_one_by_one :: "nat \<Rightarrow> int \<Rightarrow> int \<Rightarrow> int \<Rightarrow> bytes list \<Rightarrow> (host, unit) meth" where
  "send_one_by_one fuel addr recvaddr nbus [] = sret ()"
| "send_one_by_one fuel addr recvaddr nbus (s # ss) =
    sbind (host_send addr s 0) (\<lambda>_. sbind (host_recv_one fuel recvaddr nbus) (\<lambda>_.
    send_one_by_one fuel addr recvaddr nbus ss))"

fun send_all :: "int \<Rightarrow> int \<Rightarrow> bytes list \<Rightarrow> (host, unit) meth" where
  "send_all addr nbus [] = sret ()"
| "send_all addr nbus (s # ss) = sbind (host_send addr s nbus) (\<lambda>_. send_all addr nbus ss)"

definition first_send :: "int option \<Rightarrow> bytes \<Rightarrow> bytes result" where
  "first_send sub x =
    (let n = int (length x)
     in case sub of
          Some s \<Rightarrow> ebind (py_bytes [s, 0x10 + drop_bit 8 n, n AND 0xFF]) (\<lambda>h. Inr (h @ take 5 x))
        | None \<Rightarrow> ebind (py_bytes [0x10 + drop_bit 8 n, n AND 0xFF]) (\<lambda>h. Inr (h @ take 6 x)))"

definition host_isotp_send :: "nat \<Rightarrow> bytes \<Rightarrow> int \<Rightarrow> int \<Rightarrow> int option \<Rightarrow> int option \<Rightarrow> (host, unit) meth" where
  "host_isotp_send fuel x addr nbus recvaddr subaddr =
    (let recvaddr = (case recvaddr of None \<Rightarrow> addr + 8 | Some a \<Rightarrow> a)
     in if length x \<le> 7 \<and> subaddr = None
        then sbind (slift (single_msg x)) (\<lambda>m. host_send addr m nbus)
        else if length x \<le> 6 \<and> subaddr \<noteq> None
        then sbind (slift (py_bytes [the subaddr])) (\<lambda>s. sbind (slift (single_msg x)) (\<lambda>m.
             host_send addr (s @ take 7 m) nbus))
        else let sub = (if subaddr = Some 0 then None else subaddr)
             in sbind (slift (first_send sub x)) (\<lambda>ss.
                sbind (slift (emap id (consecutive_sends sub 1 (drop (if sub = None then 6 else 5) x)))) (\<lambda>sends.
                sbind (host_send addr ss nbus) (\<lambda>_.
                sbind (host_recv_one fuel recvaddr nbus) (\<lambda>rr.
                if has_30_01 rr
                then sbind (send_one_by_one fuel addr recvaddr nbus (butlast sends)) (\<lambda>_.
                     if sends = [] then sraise IndexError else host_send addr (last sends) 0)
                else send_all addr nbus sends)))))"

end
