(* ===== verification/PandaIsoTpCorrect.thy ===== *)
theory PandaIsoTpCorrect
  imports PandaIsoTp
begin

text \<open>
  The functions of \<^verbatim>\<open>opendbc/car/isotp.py\<close> against the specification \<open>isotp_frames\<close> of \<open>IsoTpCorrect\<close>: what is sent, and
  what becomes of it on the other side.
\<close>

section \<open>Taking frames\<close>

text \<open>The frames a receiver can still get, and the data of those with an address and bus.\<close>

definition waiting :: "host \<Rightarrow> frame list" where
  "waiting h = kmsgs h @ concat (rx_script (host_panda h))"

definition own :: "int \<Rightarrow> int \<Rightarrow> frame list \<Rightarrow> bytes list" where
  "own addr nbus ms = [dat. (a, dat, b) \<leftarrow> ms, a = addr \<and> b = nbus]"

lemma own_simps [simp]:
  "own addr nbus [] = []"
  "own addr nbus ((a, dat, b) # ms) = (if a = addr \<and> b = nbus then dat # own addr nbus ms else own addr nbus ms)"
  "own addr nbus (ms @ ms') = own addr nbus ms @ own addr nbus ms'"
  by (simp_all add: own_def)

lemma sort_out_spec:
  assumes "sort_out cnt addr nbus ms ret = (ret', left)"
  shows "ret' = ret @ take (nat cnt - length ret) (own addr nbus ms)
      \<and> own addr nbus left = drop (nat cnt - length ret) (own addr nbus ms) \<and> length left \<le> length ms"
  using assms
proof (induction cnt addr nbus ms ret arbitrary: ret' left rule: sort_out.induct)
  case (2 cnt addr nbus ids dat fbus msgs ret)
  show ?case
  proof (cases "ids = addr \<and> fbus = nbus \<and> int (length ret) < cnt")
    case True
    then have "length ret < nat cnt" by (simp add: zless_nat_eq_int_zless)
    then have k: "nat cnt - length ret = Suc (nat cnt - length (ret @ [dat]))" by simp
    from True 2 have "ret' = (ret @ [dat]) @ take (nat cnt - length (ret @ [dat])) (own addr nbus msgs)
        \<and> own addr nbus left = drop (nat cnt - length (ret @ [dat])) (own addr nbus msgs) \<and> length left \<le> length msgs"
      by simp
    with True show ?thesis by (simp add: k del: length_append)
  next
    case False
    obtain r n where so: "sort_out cnt addr nbus msgs ret = (r, n)" by fastforce
    with False 2(2) [OF False so] 2(3) show ?thesis by (auto simp: not_less)
  qed
qed simp

lemma last_256_short: "length ms \<le> 256 \<Longrightarrow> last_256 ms = ms"
  by (simp add: last_256_def)

lemma recv_more_full: "cnt \<le> int (length ret) \<Longrightarrow> recv_more fuel cnt addr nbus ret h = (Inr ret, h)"
  by (cases fuel) simp_all

text \<open>If enough frames arrive, \<open>recv\<close> takes the first ones, and with at most 256 waiting frames none is lost.\<close>

definition took :: "int \<Rightarrow> int \<Rightarrow> nat \<Rightarrow> host \<Rightarrow> host \<Rightarrow> bool" where
  "took addr nbus k h h' \<longleftrightarrow> own addr nbus (waiting h') = drop k (own addr nbus (waiting h))
    \<and> length (waiting h') \<le> length (waiting h) \<and> tx_log (host_panda h') = tx_log (host_panda h)
    \<and> length (rx_script (host_panda h')) \<le> length (rx_script (host_panda h))"

lemma recv_more_takes:
  assumes "length (waiting h) \<le> 256" and "nat cnt - length ret \<le> length (own addr nbus (waiting h))"
    and "length (rx_script (host_panda h)) < fuel"
  shows "\<exists>h'. recv_more fuel cnt addr nbus ret h =
      (Inr (ret @ take (nat cnt - length ret) (own addr nbus (waiting h))), h')
      \<and> took addr nbus (nat cnt - length ret) h h'"
  using assms
proof (induction fuel arbitrary: h ret)
  case (Suc fuel)
  show ?case
  proof (cases "int (length ret) < cnt")
    case False
    then show ?thesis by (simp add: took_def)
  next
    case True
    let ?k = "nat cnt - length ret"
    obtain msgs p where rc: "can_recv (host_panda h) = (msgs, p)" by fastforce
    obtain r n where so: "sort_out cnt addr nbus (kmsgs h @ msgs) ret = (r, n)" by fastforce
    let ?A = "own addr nbus (kmsgs h @ msgs)" and ?h = "h\<lparr>host_panda := p, kmsgs := n\<rparr>"
    have w: "waiting h = (kmsgs h @ msgs) @ concat (rx_script p)"
        "length (rx_script p) \<le> length (rx_script (host_panda h))" "tx_log p = tx_log (host_panda h)"
        "rx_script (host_panda h) = [] \<Longrightarrow> rx_script p = []"
        "rx_script (host_panda h) \<noteq> [] \<Longrightarrow> length (rx_script p) < length (rx_script (host_panda h))"
      using rc by (auto simp: waiting_def can_recv_def split: list.splits)
    from sort_out_spec [OF so] have s: "r = ret @ take ?k ?A" "own addr nbus n = drop ?k ?A"
        "length n \<le> length (kmsgs h @ msgs)" by auto
    have "length n \<le> 256" using s(3) Suc.prems(1) w(1) by simp
    then have step: "recv_more (Suc fuel) cnt addr nbus ret h = recv_more fuel cnt addr nbus r ?h"
      using True rc so by (simp add: last_256_short)
    have wh: "waiting ?h = n @ concat (rx_script p)" by (simp add: waiting_def)
    show ?thesis
    proof (cases "?k \<le> length ?A")
      case enough: True
      then have "cnt \<le> int (length r)" using s(1) True by simp
      then show ?thesis using s w enough
        by (simp only: step recv_more_full) (simp add: took_def wh)
    next
      case False
      then have short: "length ?A < ?k" by simp
      have wo: "length (own addr nbus (waiting h)) = length ?A + length (own addr nbus (concat (rx_script p)))"
        by (simp add: w(1))
      have none: "own addr nbus n = []" using s(2) short by simp
      have "own addr nbus (concat (rx_script p)) \<noteq> []" using Suc.prems(2) wo short by fastforce
      then have "rx_script (host_panda h) \<noteq> []" using w(4) by fastforce
      then have fuel: "length (rx_script (host_panda ?h)) < fuel" using w(5) Suc.prems(3) by simp
      have k: "nat cnt - length r = ?k - length ?A" using s(1) short by simp
      have "length (waiting ?h) \<le> 256" using Suc.prems(1) w(1) s(3) wh by simp
      moreover have "nat cnt - length r \<le> length (own addr nbus (waiting ?h))"
        using Suc.prems(2) by (simp only: wh own_simps none k wo append_Nil)
      ultimately obtain h' where "recv_more fuel cnt addr nbus r ?h =
          (Inr (r @ take (nat cnt - length r) (own addr nbus (waiting ?h))), h')"
          "took addr nbus (nat cnt - length r) ?h h'"
        using Suc.IH [OF _ _ fuel] by blast
      then show ?thesis using s w short k wh by (simp only: step) (simp add: took_def add.assoc)
    qed
  qed
qed simp

lemma host_recv_takes:
  assumes "length (waiting h) \<le> 256" and "nat cnt \<le> length (own addr nbus (waiting h))"
    and "length (rx_script (host_panda h)) < fuel"
  obtains h' where "host_recv fuel cnt addr nbus h = (Inr (take (nat cnt) (own addr nbus (waiting h))), h')"
    "took addr nbus (nat cnt) h h'"
  using recv_more_takes [of h cnt "[]" addr nbus fuel] assms by (auto simp: host_recv_def)

lemma host_recv_one_takes:
  assumes "length (waiting h) \<le> 256" and "own addr nbus (waiting h) = m # ms"
    and "length (rx_script (host_panda h)) < fuel"
  obtains h' where "host_recv_one fuel addr nbus h = (Inr m, h')" "took addr nbus 1 h h'"
proof -
  obtain h' where "host_recv fuel 1 addr nbus h = (Inr [m], h')" "took addr nbus 1 h h'"
    using host_recv_takes [of h 1 addr nbus fuel] assms by auto
  with that show ?thesis by (simp add: host_recv_one_def sbind_def slift_def py_index_def)
qed

section \<open>Putting frames together\<close>

lemma cf_frame_padded:
  assumes "o' + 7 \<le> length dat + z"
  shows "take 7 (drop o' dat) @ replicate (7 - length (drop o' dat)) (0 :: byte) = take 7 (drop o' (dat @ replicate z 0))"
  using assms by (cases "o' \<le> length dat") (auto simp: take_append drop_append min_def)

lemma append_frames_Cons:
  "append_frames idx ((w # p) # mms) dat =
    (if uint w = (0x20 OR (idx AND 0xF)) then append_frames (idx + 1) mms (dat @ p) else Inl AssertionError)"
  by (simp add: byte_at_def ensure_def)

lemma append_frames_cfs:
  assumes "D = dat @ replicate (6 + m * 7 - length dat) 0" and "length D = 6 + m * 7" and "k \<le> m"
  shows "append_frames (1 + int k) (map (cf_frame 8 dat) [k..<m]) (take (6 + k * 7) D) = Inr D"
  using assms(3)
proof (induction "m - k" arbitrary: k)
  case 0
  then show ?case using assms(2) by simp
next
  case (Suc n)
  then have k: "k < m" by simp
  let ?b = "word_of_int (32 + int (Suc k) mod 16) :: byte" and ?p = "take 7 (drop (6 + k * 7) D)"
  have room: "6 + k * 7 + 7 \<le> 6 + m * 7" using k by simp
  have f: "cf_frame 8 dat k = ?b # ?p"
    unfolding cf_frame_simps assms(1) using room assms(1,2)
    by (subst cf_frame_padded [where z = "6 + m * 7 - length dat"]) simp_all
  have b: "uint ?b = (0x20 OR ((1 + int k) AND 0xF))"
    by (simp only: or_0x20) (subst seq_mod, simp_all add: add.commute)
  have "take (6 + k * 7) D @ ?p = take (6 + Suc k * 7) D" by (simp flip: take_add add: add.commute)
  then have "append_frames (1 + int k) (map (cf_frame 8 dat) [k..<m]) (take (6 + k * 7) D) =
      append_frames (1 + int (Suc k)) (map (cf_frame 8 dat) [Suc k..<m]) (take (6 + Suc k * 7) D)"
    unfolding upt_conv_Cons [OF k] list.map f append_frames_Cons if_P [OF b] by (simp only: of_nat_Suc add.commute [of 1])
  also have "\<dots> = Inr D" using Suc by (intro Suc.hyps(1)) simp_all
  finally show ?case .
qed

lemma nibble_bits:
  "list_all (\<lambda>n. (16 + int n) AND 0xF0 = 16 \<and> (16 + int n) AND 0xF = int n \<and> int n AND 0xF0 = 0) [0..<16]"
  by code_simp

lemma high_nibble_one: "0 \<le> h \<Longrightarrow> h < 16 \<Longrightarrow> (16 + h) AND 0xF0 = 16 \<and> (16 + h) AND 0xF = (h :: int)"
  using nibble_bits by (auto simp: list_all_iff simp del: and_15 dest!: bspec [where x = "nat h"])

lemma first_byte_bits:
  assumes "0 \<le> n" "n < 4096"
  shows "(16 + n div 256) AND 0xF0 = (16 :: int)" "push_bit 8 ((16 + n div 256) AND 0xF) OR n mod 256 = n"
proof -
  have hi: "0 \<le> n div 256" "n div 256 < 16" using assms by auto
  note both = high_nibble_one [OF this]
  show "(16 + n div 256) AND 0xF0 = 16" using both by simp
  have "push_bit 8 (n div 256) OR n mod 256 = n div 256 * 2 ^ 8 + n mod 256"
    by (rule or_add_disjoint) simp_all
  then show "push_bit 8 ((16 + n div 256) AND 0xF) OR n mod 256 = n" using both by simp
qed

lemma cf_padding:
  assumes "8 \<le> length dat"
  shows "length (dat @ replicate (6 + cf_count 8 (length dat) * 7 - length dat) (0 :: byte)) = 6 + cf_count 8 (length dat) * 7"
  using cf_count_enough [OF assms] by simp

lemma host_isotp_recv_first:
  assumes "host_recv_one fuel addr nbus h = (Inr msg, h1)" and "byte_at msg 0 = Inr a" and "byte_at msg 1 = Inr b"
    and "a AND 0xF0 = 0x10" and "push_bit 8 (a AND 0xF) OR b = tlen"
  shows "host_isotp_recv fuel addr nbus sendaddr None h =
    sbind (host_send (case sendaddr of None \<Rightarrow> addr - 8 | Some a \<Rightarrow> a) (0x30 # replicate 7 0) nbus) (\<lambda>_.
    sbind (host_recv fuel ((tlen - int (length (drop 2 msg)) + 6) div 7) addr nbus) (\<lambda>mms.
    sbind (slift (append_frames 1 mms (drop 2 msg))) (\<lambda>dat. sret (py_slice dat 0 tlen)))) h1"
  unfolding host_isotp_recv_def Let_def
  by (simp only: option.case sbind_run [where m = "host_recv_one fuel addr nbus", OF assms(1)] assms(2-) sbind_simps
      simp_thms if_True)

text \<open>The receiver puts the frames of a message together, whatever else is on the bus.\<close>

lemma host_receives:
  assumes "length dat \<le> 4095" and "own addr nbus (waiting h) = isotp_frames 8 dat @ rest"
    and "length (waiting h) \<le> 256" and "length (rx_script (host_panda h)) < fuel"
  shows "\<exists>h'. host_isotp_recv fuel addr nbus sendaddr None h = (Inr dat, h') \<and> own addr nbus (waiting h') = rest"
proof -
  let ?n = "int (length dat)" and ?send = "case sendaddr of None \<Rightarrow> addr - 8 | Some a \<Rightarrow> a"
  obtain f fs where frames: "isotp_frames 8 dat = f # fs" using that by (cases "isotp_frames 8 dat") (auto simp: isotp_frames_def split: if_splits)
  obtain h1 where one: "host_recv_one fuel addr nbus h = (Inr f, h1)" and h1: "took addr nbus 1 h h1"
    using host_recv_one_takes [of h addr nbus f "fs @ rest" fuel] assms frames by auto
  have own1: "own addr nbus (waiting h1) = fs @ rest" using h1 assms(2) frames by (simp add: took_def)
  show ?thesis
  proof (cases "length dat < 8")
    case True
    then have f: "f = ljust 8 (word_of_int ?n # dat)" and fs: "fs = []" using frames by (auto simp: isotp_frames_def)
    have bits: "?n AND 0xF0 = 0" "?n AND 0xF = ?n"
      using nibble_bits True by (auto simp: list_all_iff)
    have "uint (word_of_int ?n :: byte) = ?n" using True by (simp only: uint_of_int_byte) simp
    then have b: "byte_at f 0 = Inr ?n" "drop 1 f = dat @ replicate (7 - length dat) 0"
      using True by (simp_all add: f ljust_def byte_at_def uint_of_int_byte)
    have "py_slice (dat @ replicate (7 - length dat) (0 :: byte)) 0 ?n = dat"
      by (simp add: py_slice_def slice_bound_def Let_def)
    then show ?thesis using own1 fs True
      by (simp add: host_isotp_recv_def sbind_run [where m = "host_recv_one fuel addr nbus", OF one] b bits sret_def del: One_nat_def)
  next
    case False
    then have 8: "8 \<le> length dat" by simp
    let ?m = "cf_count 8 (length dat)"
    let ?D = "dat @ replicate (6 + ?m * 7 - length dat) (0 :: byte)"
    have f: "f = [word_of_int (16 + ?n div 256), word_of_int ?n] @ take 6 dat"
      and fs: "fs = map (cf_frame 8 dat) [0..<?m]"
      using frames False first_frame_header [of "length dat"] by (auto simp: isotp_frames_def)
    have "(16 + ?n div 256) mod 256 = 16 + ?n div 256" using assms(1) by (intro mod_pos_pos_trivial) auto
    then have u: "uint (word_of_int (16 + ?n div 256) :: byte) = 16 + ?n div 256"
        "uint (word_of_int ?n :: byte) = ?n mod 256"
      by (simp_all only: uint_of_int_byte)
    have b: "byte_at f 0 = Inr (16 + ?n div 256)" "byte_at f 1 = Inr (?n mod 256)" "drop 2 f = take 6 dat"
      by (simp_all add: f byte_at_def u del: of_int_of_nat_eq of_int_add)
    have hd: "(16 + ?n div 256) AND 0xF0 = 16" "push_bit 8 ((16 + ?n div 256) AND 0xF) OR ?n mod 256 = ?n"
      using first_byte_bits [of ?n] assms(1) by simp_all
    let ?h1 = "h1\<lparr>host_panda := can_send ?send (0x30 # replicate 7 0) nbus (host_panda h1)\<rparr>"
    have w: "waiting ?h1 = waiting h1" by (simp add: waiting_def)
    have m: "nat ((?n - int (length (take 6 dat)) + 6) div 7) = ?m"
      using 8 by (simp add: cf_count_def nat_div_distrib)
    obtain h2 where more: "host_recv fuel ((?n - int (length (take 6 dat)) + 6) div 7) addr nbus ?h1 = (Inr fs, h2)"
        and h2: "took addr nbus ?m ?h1 h2"
      using host_recv_takes [of ?h1 "(?n - int (length (take 6 dat)) + 6) div 7" addr nbus fuel]
        own1 fs h1 assms(3,4) unfolding w m by (auto simp: took_def)
    have app: "append_frames 1 fs (take 6 dat) = Inr ?D"
      using append_frames_cfs [OF refl cf_padding [OF 8], of 0] 8 fs by simp
    have slice: "py_slice ?D 0 ?n = dat" by (simp add: py_slice_def slice_bound_def Let_def)
    have "host_isotp_recv fuel addr nbus sendaddr None h = (Inr dat, h2)"
      unfolding host_isotp_recv_first [OF one b(1,2) hd] b(3)
      by (simp only: host_send_def sbind_smodify sbind_run [where m = "host_recv fuel _ addr nbus", OF more] app
          sbind_simps sret_def slice)
    moreover have "own addr nbus (waiting h2) = rest" using h2 w own1 fs by (simp add: took_def)
    ultimately show ?thesis by blast
  qed
qed

section \<open>Sending\<close>

lemma consecutive_sends_step:
  "x \<noteq> [] \<Longrightarrow> consecutive_sends None idx x =
    Inr (ljust 8 (word_of_int (32 + idx mod 16) # take 7 x)) # consecutive_sends None (idx + 1) (drop 7 x)"
proof -
  have "0 \<le> (32 + idx mod 16)" "32 + idx mod 16 < 256" by simp_all
  then show "x \<noteq> [] \<Longrightarrow> ?thesis"
    by (cases x) (simp_all add: or_0x20 py_bytes_def)
qed

lemma consecutive_sends_cfs:
  assumes "8 \<le> length dat" and "k \<le> cf_count 8 (length dat)"
  shows "emap id (consecutive_sends None (1 + int k) (drop (6 + k * 7) dat)) =
    Inr (map (cf_frame 8 dat) [k..<cf_count 8 (length dat)])"
  using assms(2)
proof (induction "cf_count 8 (length dat) - k" arbitrary: k)
  case 0
  then show ?case using cf_count_enough [OF assms(1)] by simp
next
  case (Suc n)
  then have k: "k < cf_count 8 (length dat)" by simp
  then have "drop (6 + k * 7) dat \<noteq> []" using cf_count_less [OF assms(1) k] by simp
  then have "consecutive_sends None (1 + int k) (drop (6 + k * 7) dat) =
      Inr (cf_frame 8 dat k) # consecutive_sends None (1 + int (Suc k)) (drop (6 + Suc k * 7) dat)"
    by (simp add: consecutive_sends_step cf_frame_def add.commute add.left_commute)
  moreover have "emap id (consecutive_sends None (1 + int (Suc k)) (drop (6 + Suc k * 7) dat)) =
      Inr (map (cf_frame 8 dat) [Suc k..<cf_count 8 (length dat)])"
    using Suc by (intro Suc.hyps(1)) simp_all
  ultimately show ?case unfolding upt_conv_Cons [OF k] by simp
qed

lemma send_all_run: "\<exists>p. send_all addr nbus fs h = (Inr (), h\<lparr>host_panda := p\<rparr>)
    \<and> tx_log p = tx_log (host_panda h) @ map (\<lambda>f. (addr, f, nbus)) fs"
proof (induction fs arbitrary: h)
  case Nil
  then show ?case by (intro exI [of _ "host_panda h"]) (simp add: sret_def)
next
  case (Cons f fs)
  from Cons [of "h\<lparr>host_panda := can_send addr f nbus (host_panda h)\<rparr>"]
  show ?case by (auto simp: host_send_def sbind_smodify)
qed

lemma first_send_frame:
  assumes "8 \<le> length dat" and "length dat \<le> 4095"
  shows "first_send None dat = Inr (hd (isotp_frames 8 dat))"
proof -
  let ?n = "int (length dat)"
  have "drop_bit 8 ?n = ?n div 256" "?n AND 0xFF = ?n mod 256"
    using take_bit_eq_mask [of 8 ?n] by (simp_all add: drop_bit_int_def take_bit_eq_mod mask_eq_exp_minus_1)
  moreover have "word_of_int (?n mod 256) = (word_of_int ?n :: byte)"
    by (rule word_of_int_byte_eq) (simp only: uint_of_int_byte mod_mod_trivial)
  ultimately show ?thesis
    using assms first_frame_header [of "length dat"]
    by (simp add: first_send_def isotp_frames_def py_bytes_def)
qed


definition host_with :: "frame list list \<Rightarrow> host" where
  "host_with script = \<lparr>host_panda = \<lparr>rx_script = script, tx_log = [], cleared = [], clock = of_nat, ticks = 0\<rparr>, kmsgs = []\<rparr>"


section \<open>Where the code differs from what it means to do\<close>

text \<open>With a block size of one the rest of a message goes to bus 0, whatever the bus of the message.\<close>

lemma block_size_one_leaves_the_bus:
  "map (snd \<circ> snd) (tx_log (host_panda (snd (host_isotp_send 2 (replicate 9 5) 0x7E0 1 None None
      (host_with [[(0x7E8, [0x30, 1, 0, 0, 0, 0, 0, 0], 1)]]))))) = [1, 0]"
  by code_simp

text \<open>A long message to subaddress 0 is sent without its subaddress, a short one with it.\<close>

lemma subaddress_zero_is_dropped:
  assumes "7 < length x"
  shows "host_isotp_send fuel x addr nbus recvaddr (Some 0) = host_isotp_send fuel x addr nbus recvaddr None"
  using assms by (simp add: host_isotp_send_def)

end
