(* ===== verification/Secoc.thy ===== *)
theory Secoc
  imports PandaEnv
begin

text \<open>
  \<^verbatim>\<open>opendbc/car/secoc.py\<close>: message authentication of the car's network. AES-CMAC is library code and enters as the
  argument \<open>cmac key data\<close>; of its result only the length of 16 bytes is ever used. The code builds the bytes from
  hexadecimal text; the model does the same, and the theorems say which bits end up where and that no two different
  messages, counters or identifiers are authenticated by the same data.
\<close>

section \<open>Hexadecimal text back to bytes\<close>

text \<open>\<^verbatim>\<open>bytes.fromhex\<close> on the digits that \<^verbatim>\<open>bytes.hex\<close> writes; the other forms it accepts do not occur.\<close>

definition hex_val :: "char \<Rightarrow> int option" where
  "hex_val c = find (\<lambda>n. hex_digit n = c) (map int [0..<16])"

fun fromhex :: "string \<Rightarrow> bytes result" where
  "fromhex [] = Inr []"
| "fromhex [a] = Inl ValueError"
| "fromhex (a # b # s) = (case (hex_val a, hex_val b) of
      (Some x, Some y) \<Rightarrow> ebind (fromhex s) (\<lambda>r. Inr (word_of_int (16 * x + y) # r))
    | _ \<Rightarrow> Inl ValueError)"

lemma hex_val_all: "list_all (\<lambda>n. hex_val (hex_digit (int n)) = Some (int n)) [0..<16]"
  by code_simp

lemma hex_val_digit: "0 \<le> n \<Longrightarrow> n < 16 \<Longrightarrow> hex_val (hex_digit n) = Some n"
  using hex_val_all by (auto simp: list_all_iff dest!: bspec [where x = "nat n"])

lemma byte_nibbles [simp]:
  "0 \<le> uint (b :: byte) div 16" "uint (b :: byte) div 16 < 16" "0 \<le> uint (b :: byte) mod 16" "uint (b :: byte) mod 16 < 16"
  using uint_byte_lt [of b] uint_ge_0 [of b] by linarith+

lemma fromhex_digits:
  "0 \<le> x \<Longrightarrow> x < 16 \<Longrightarrow> 0 \<le> y \<Longrightarrow> y < 16 \<Longrightarrow>
    fromhex (hex_digit x # hex_digit y # s) = ebind (fromhex s) (\<lambda>r. Inr (word_of_int (16 * x + y) # r))"
  by (simp add: hex_val_digit)

lemma fromhex_hex_bytes: "fromhex (hex_bytes bs @ s) = ebind (fromhex s) (\<lambda>r. Inr (bs @ r))"
proof (induction bs)
  case Nil
  show ?case by (cases "fromhex s") (simp_all add: hex_bytes_def)
next
  case (Cons b bs)
  have "word_of_int (16 * (uint b div 16) + uint b mod 16) = b" by simp
  with Cons show ?case by (cases "fromhex s") (simp_all add: hex_bytes_def fromhex_digits del: fromhex.simps)
qed

section \<open>The functions\<close>

definition freshness_value :: "int \<Rightarrow> int \<Rightarrow> int \<Rightarrow> bytes result" where
  "freshness_value trip_cnt reset_cnt msg_cnt =
    (let reset_flag = reset_cnt AND 3
     in ebind (pack_be 2 trip_cnt) (\<lambda>a. ebind
          (pack_be 4 (push_bit 12 reset_cnt OR push_bit 4 (msg_cnt AND 0xFF) OR push_bit 2 reset_flag)) (\<lambda>b. Inr (a @ b))))"

definition auth_data :: "int \<Rightarrow> bytes \<Rightarrow> int \<Rightarrow> int \<Rightarrow> int \<Rightarrow> bytes result" where
  "auth_data addr payload trip_cnt reset_cnt msg_cnt =
    ebind (freshness_value trip_cnt reset_cnt msg_cnt) (\<lambda>fv. ebind (pack_be 2 addr) (\<lambda>a. Inr (a @ payload @ fv)))"

definition add_mac :: "(bytes \<Rightarrow> bytes \<Rightarrow> bytes) \<Rightarrow> bytes \<Rightarrow> int \<Rightarrow> int \<Rightarrow> int \<Rightarrow> frame \<Rightarrow> frame result" where
  "add_mac cmac key trip_cnt reset_cnt msg_cnt msg =
    (let (addr, payload, bus) = msg;
         reset_flag = reset_cnt AND 3;
         msg_cnt_flag = msg_cnt AND 3;
         payload = take 4 payload
     in ebind (auth_data addr payload trip_cnt reset_cnt msg_cnt) (\<lambda>to_auth.
        let mac = take 7 (hex_bytes (cmac key to_auth))
        in ebind (pack_be 1 (push_bit 2 msg_cnt_flag OR reset_flag)) (\<lambda>flag.
           ebind (py_index (hex_bytes flag) 1) (\<lambda>msg_cnt_rst_flag.
           ebind (fromhex (hex_bytes payload @ msg_cnt_rst_flag # mac)) (\<lambda>payload. Inr (addr, payload, bus))))))"

definition sync_auth_data :: "int \<Rightarrow> int \<Rightarrow> int \<Rightarrow> bytes result" where
  "sync_auth_data ident trip_cnt reset_cnt =
    ebind (pack_be 2 ident) (\<lambda>i. ebind (pack_be 2 trip_cnt) (\<lambda>t. ebind (pack_be 4 (push_bit 12 reset_cnt)) (\<lambda>r.
      Inr (i @ t @ butlast r))))"

definition build_sync_mac :: "(bytes \<Rightarrow> bytes \<Rightarrow> bytes) \<Rightarrow> bytes \<Rightarrow> int \<Rightarrow> int \<Rightarrow> int \<Rightarrow> int result" where
  "build_sync_mac cmac key trip_cnt reset_cnt ident =
    ebind (sync_auth_data ident trip_cnt reset_cnt) (\<lambda>to_auth.
    ebind (fromhex (CHR ''0'' # take 7 (hex_bytes (cmac key to_auth)))) (\<lambda>msg. unpack_be 4 msg))"

section \<open>What is authenticated\<close>

definition freshness_number :: "int \<Rightarrow> int \<Rightarrow> int" where
  "freshness_number reset_cnt msg_cnt = reset_cnt * 2 ^ 12 + (msg_cnt mod 256 * 2 ^ 4 + reset_cnt mod 4 * 2 ^ 2)"

lemma and_3: "(x :: int) AND 3 = x mod 4"
  using take_bit_eq_mask [of 2 x] by (simp add: take_bit_int_def mask_eq_exp_minus_1)

lemma freshness_number_bits:
  "push_bit 12 r OR push_bit 4 (m AND 0xFF) OR push_bit 2 (r AND 3) = freshness_number r m"
proof -
  have a: "push_bit 2 (r AND 3) = r mod 4 * 2 ^ 2" by (simp add: and_3 push_bit_eq_mult)
  have b: "push_bit 4 (m AND 0xFF) OR r mod 4 * 2 ^ 2 = m mod 256 * 2 ^ 4 + r mod 4 * 2 ^ 2"
    unfolding and_255 by (rule or_add_disjoint) (simp_all add: pos_mod_bound [of 4 r, simplified])
  have "push_bit 12 r OR (m mod 256 * 2 ^ 4 + r mod 4 * 2 ^ 2) = freshness_number r m"
    unfolding freshness_number_def
  proof (rule or_add_disjoint)
    have "m mod 256 < 256" "r mod 4 < 4" by simp_all
    then show "m mod 256 * 2 ^ 4 + r mod 4 * 2 ^ 2 < (2 :: int) ^ 12" by simp
  qed simp
  then show ?thesis unfolding a b .
qed

lemma freshness_number_range: "0 \<le> r \<Longrightarrow> r < 2 ^ 20 \<Longrightarrow> 0 \<le> freshness_number r m \<and> freshness_number r m < 256 ^ 4"
proof -
  assume "0 \<le> r" "r < 2 ^ 20"
  moreover have "0 \<le> m mod 256" "m mod 256 < 256" "0 \<le> r mod 4" "r mod 4 < 4" by simp_all
  ultimately show ?thesis unfolding freshness_number_def by (simp; linarith)
qed

lemma freshness_number_inj:
  assumes "freshness_number r m = freshness_number r' m'"
  shows "r = r' \<and> m mod 256 = m' mod 256"
proof -
  have q: "0 \<le> m mod 256 * 2 ^ 4 + r mod 4 * 2 ^ 2" "m mod 256 * 2 ^ 4 + r mod 4 * 2 ^ 2 < 2 ^ 12" for m r :: int
  proof -
    have "m mod 256 < 256" "r mod 4 < 4" by simp_all
    then show "m mod 256 * 2 ^ 4 + r mod 4 * 2 ^ 2 < (2 :: int) ^ 12" by simp
  qed simp
  have "r = r'" using assms q [of m r] q [of m' r'] unfolding freshness_number_def by simp
  with assms show ?thesis by (simp add: freshness_number_def)
qed

text \<open>The two flags and the first 28 bits of the authenticator, in the last four bytes.\<close>

definition mac_word :: "int \<Rightarrow> bytes \<Rightarrow> int" where
  "mac_word flag digest = flag * 2 ^ 28 + be_int (take 4 digest) div 16"

lemma be_int_4: "be_int [a, b, c, d] = uint a * 2 ^ 24 + uint b * 2 ^ 16 + uint c * 2 ^ 8 + uint d"
  by (simp add: be_int_Cons)

lemma length_4: "length [a, b, c, d] = 4"
  by simp

lemma nibbles_shifted:
  fixes a :: int
  assumes "a = 16 * ha + la" "b = 16 * hb + lb" "c = 16 * hc + lc"
  shows "(16 * flag + ha) * 2 ^ 24 + (16 * la + hb) * 2 ^ 16 + (16 * lb + hc) * 2 ^ 8 + (16 * lc + hz) =
    flag * 2 ^ 28 + (a * 2 ^ 20 + b * 2 ^ 12 + c * 2 ^ 4 + hz)"
  unfolding assms by simp

lemma fromhex_flag_mac:
  assumes "0 \<le> flag" "flag < 16" and "4 \<le> length digest"
  shows "fromhex (hex_digit flag # take 7 (hex_bytes digest)) = Inr (be_bytes 4 (mac_word flag digest))"
proof -
  obtain a b c d rest where digest: "digest = a # b # c # d # rest"
    using assms(3) by (auto simp: numeral_eq_Suc Suc_le_length_iff)
  let ?h = "\<lambda>x :: byte. uint x div 16" and ?l = "\<lambda>x :: byte. uint x mod 16"
  let ?w = "\<lambda>x y. word_of_int (16 * x + y) :: byte"
  have "take 7 (hex_bytes digest) = [hex_digit (?h a), hex_digit (?l a), hex_digit (?h b), hex_digit (?l b),
      hex_digit (?h c), hex_digit (?l c), hex_digit (?h d)]"
    by (simp add: digest hex_bytes_def)
  then have digits: "fromhex (hex_digit flag # take 7 (hex_bytes digest)) =
      Inr [?w flag (?h a), ?w (?l a) (?h b), ?w (?l b) (?h c), ?w (?l c) (?h d)]"
    using assms(1,2) by (simp add: fromhex_digits del: fromhex.simps(3))
  have w: "uint (?w x y) = 16 * x + y" if "0 \<le> x" "x < 16" "0 \<le> y" "y < 16" for x y
    using that by (simp only: uint_of_int_byte) (intro mod_pos_pos_trivial; linarith)
  have "be_int [?w flag (?h a), ?w (?l a) (?h b), ?w (?l b) (?h c), ?w (?l c) (?h d)] = mac_word flag digest"
  proof -
    have parts: "uint (?w flag (?h a)) = 16 * flag + ?h a" "uint (?w (?l a) (?h b)) = 16 * ?l a + ?h b"
        "uint (?w (?l b) (?h c)) = 16 * ?l b + ?h c" "uint (?w (?l c) (?h d)) = 16 * ?l c + ?h d"
      using assms(1,2) by (intro w; simp)+
    have "take 4 digest = [a, b, c, d]" by (simp add: digest)
    then have all: "be_int (take 4 digest) div 16 = uint a * 2 ^ 20 + uint b * 2 ^ 12 + uint c * 2 ^ 4 + ?h d"
      by (simp add: be_int_4)
    show ?thesis unfolding be_int_4 parts mac_word_def all
      by (rule nibbles_shifted) simp_all
  qed
  then have "be_bytes 4 (mac_word flag digest) = [?w flag (?h a), ?w (?l a) (?h b), ?w (?l b) (?h c), ?w (?l c) (?h d)]"
    using be_bytes_int [of "[?w flag (?h a), ?w (?l a) (?h b), ?w (?l b) (?h c), ?w (?l c) (?h d)]"]
    by (simp only: length_4)
  then show ?thesis unfolding digits by (simp only:)
qed

lemma auth_data_ok:
  assumes "0 \<le> addr" "addr < 2 ^ 16" "0 \<le> trip" "trip < 2 ^ 16" "0 \<le> reset" "reset < 2 ^ 20"
  shows "auth_data addr payload trip reset m =
    Inr (be_bytes 2 addr @ payload @ be_bytes 2 trip @ be_bytes 4 (freshness_number reset m))"
  using assms freshness_number_range [of reset m]
  unfolding auth_data_def freshness_value_def Let_def freshness_number_bits by (simp add: pack_be_def)

text \<open>C37: With counters in range, an authenticated message keeps the address, the bus and the first four bytes; the other
  four hold the low two bits of both counters and the first 28 bits of the authenticator of the address, these bytes and
  the counters. Messages that differ in one of these are authenticated by different data.\<close>

theorem authenticated_message:
  assumes "0 \<le> addr" "addr < 2 ^ 16" "0 \<le> trip" "trip < 2 ^ 16" "0 \<le> reset" "reset < 2 ^ 20" "length payload = 4"
    and "\<And>k d. length (cmac k d) = 16"
  shows "\<exists>auth. auth_data addr payload trip reset m = Inr auth
    \<and> add_mac cmac key trip reset m (addr, payload @ others, nbus) =
        Inr (addr, payload @ be_bytes 4 (mac_word (m mod 4 * 4 + reset mod 4) (cmac key auth)), nbus)
    \<and> (\<forall>addr' payload' trip' reset' m'. 0 \<le> addr' \<and> addr' < 2 ^ 16 \<and> 0 \<le> trip' \<and> trip' < 2 ^ 16
          \<and> 0 \<le> reset' \<and> reset' < 2 ^ 20 \<and> length payload' = 4
          \<and> auth_data addr' payload' trip' reset' m' = Inr auth \<longrightarrow>
        addr' = addr \<and> payload' = payload \<and> trip' = trip \<and> reset' = reset \<and> m' mod 256 = m mod 256)"
proof -
  let ?auth = "be_bytes 2 addr @ payload @ be_bytes 2 trip @ be_bytes 4 (freshness_number reset m)"
  let ?flag = "m mod 4 * 4 + reset mod 4"
  note auth = auth_data_ok [OF assms(1-6)]
  have flag: "push_bit 2 (m AND 3) OR (reset AND 3) = ?flag"
    unfolding and_3 using or_add_disjoint [of "reset mod 4" 2 "m mod 4"] by simp
  have "m mod 4 < 4" "reset mod 4 < 4" "0 \<le> m mod 4" "0 \<le> reset mod 4" by simp_all
  then have range: "0 \<le> ?flag" "?flag < 16" by simp_all
  then have u: "uint (word_of_int ?flag :: byte) = ?flag"
    by (simp only: uint_of_int_byte) (intro mod_pos_pos_trivial; linarith)
  have "pack_be 1 ?flag = Inr [word_of_int ?flag]" using range by (simp add: pack_be_def)
  then have nibble: "ebind (pack_be 1 ?flag) (\<lambda>flag. ebind (py_index (hex_bytes flag) 1) f) = f (hex_digit ?flag)" for f
    :: "char \<Rightarrow> frame result"
    using range by (simp add: hex_bytes_def py_index_def u del: of_int_add of_int_mult)
  have keep: "take 4 (payload @ others) = payload" using assms(7) by simp
  have "add_mac cmac key trip reset m (addr, payload @ others, nbus) =
      Inr (addr, payload @ be_bytes 4 (mac_word ?flag (cmac key ?auth)), nbus)"
    unfolding add_mac_def Let_def prod.case keep auth ebind.simps flag nibble
    using assms(8) range by (simp add: fromhex_hex_bytes fromhex_flag_mac)
  moreover have "addr' = addr \<and> payload' = payload \<and> trip' = trip \<and> reset' = reset \<and> m' mod 256 = m mod 256"
    if r: "0 \<le> addr'" "addr' < 2 ^ 16" "0 \<le> trip'" "trip' < 2 ^ 16" "0 \<le> reset'" "reset' < 2 ^ 20" "length payload' = 4"
      and "auth_data addr' payload' trip' reset' m' = Inr ?auth" for addr' payload' trip' reset' m'
  proof -
    have "be_bytes 2 addr' = be_bytes 2 addr \<and> payload' = payload \<and> be_bytes 2 trip' = be_bytes 2 trip
        \<and> be_bytes 4 (freshness_number reset' m') = be_bytes 4 (freshness_number reset m)"
      using that(8) r(7) assms(7) unfolding auth_data_ok [OF r(1-6)] by simp
    then have "addr' mod 256 ^ 2 = addr mod 256 ^ 2 \<and> payload' = payload \<and> trip' mod 256 ^ 2 = trip mod 256 ^ 2
        \<and> freshness_number reset' m' mod 256 ^ 4 = freshness_number reset m mod 256 ^ 4"
      by (metis be_int_bytes)
    then show ?thesis
      using r assms(1-6) freshness_number_range [of reset m] freshness_number_range [of reset' m']
        freshness_number_inj [of reset' m' reset m] by (simp add: mod_pos_pos_trivial)
  qed
  ultimately show ?thesis using auth by (intro exI [of _ ?auth]) blast
qed

lemma authenticated_message_witness:
  "\<exists>auth. auth_data 0x131 [1, 2, 3, 4] 5 6 7 = Inr auth
    \<and> add_mac (\<lambda>k d. replicate 16 0xAB) [] 5 6 7 (0x131, [1, 2, 3, 4] @ [0, 0, 0, 0], 0) =
        Inr (0x131, [1, 2, 3, 4] @ be_bytes 4 (mac_word (7 mod 4 * 4 + 6 mod 4) (replicate 16 0xAB)), 0)"
  using authenticated_message [of "0x131" 5 6 "[1, 2, 3, 4]" "\<lambda>k d. replicate 16 0xAB" 7 "[]" "[0, 0, 0, 0]" 0]
  by auto

lemma sync_mac:
  assumes "sync_auth_data ident trip reset = Inr auth" and "4 \<le> length (cmac key auth)"
  shows "build_sync_mac cmac key trip reset ident = Inr (be_int (take 4 (cmac key auth)) div 16)"
proof -
  have "be_int (take 4 (cmac key auth)) < 256 ^ 4" using be_int_lt [of "take 4 (cmac key auth)"] assms(2) by simp
  then have "be_int (take 4 (cmac key auth)) div 16 mod 256 ^ 4 = be_int (take 4 (cmac key auth)) div 16"
    by (intro mod_pos_pos_trivial) (simp_all add: pos_imp_zdiv_nonneg_iff)
  then show ?thesis using assms fromhex_flag_mac [of 0 "cmac key auth"]
    by (simp add: build_sync_mac_def hex_digit_def mac_word_def unpack_be_def be_int_bytes)
qed

end
