(* ===== verification/Spec2Isabelle.thy ===== *)
theory Spec2Isabelle
  imports UdsCorrect AlwaysOnLateral AlertManager CanLink DriverUnseen LaneChangeCorrect SteeringCorrect LongControlCorrect VCruiseCorrect FwMatchCorrect CanFingerprintCorrect SpeedLimitCorrect CalibrationCorrect PandaIsoTpCorrect Secoc
begin

text \<open>
  A verification development for IQ.Pilot, a driver assistance system (a fork of openpilot) written mostly in
  Python. The system reads the car's CAN buses, decides what the car should do, and writes CAN frames back; a
  driver monitoring process and a state machine decide whether it may. Modelled is the program logic between the
  neural networks and the hardware: who may engage and when the system lets go, what the driver is told, when a
  lane is changed, how commands are limited, how frames are built and read, and how control units are queried.

  \<^bold>\<open>How Python is modelled.\<close> \<open>PyPrelude\<close> has exceptions as values (\<open>'a result\<close>), methods that change an object and
  may raise (\<open>('s, 'a) meth\<close>, the state survives the exception) and the invariant interface \<open>invariant_step\<close>, which
  the components with a step function interpret. \<open>PyBytes\<close> has bytes, indexing, slicing and \<^verbatim>\<open>struct\<close>. \<open>PyFloat\<close>
  has floats: a rational after each operation rounded by \<open>fl\<close> to 53 bits, half to even; infinities, NaN, overflow,
  subnormal numbers and the sign of zero are not modelled. Its lemmas give exactness, the relative error, and that
  rounding is monotone and idempotent. \<open>PyNumpy\<close> collects the functions of numpy that are called as arguments of the
  model (\<open>math_env\<close>); the only fact about them that is ever assumed is \<open>clip_spec\<close>, the documented meaning of
  \<^verbatim>\<open>np.clip\<close>. Sockets, parameters, clocks and the panda adapter are inputs. Log messages have no effect.

  \<^bold>\<open>Diagnostics\<close> (\<^verbatim>\<open>opendbc/car/uds.py\<close>). \<open>UdsTypes\<close>: the enumerations and trouble codes. \<open>PandaEnv\<close>: the adapter as a
  script of received batches and a log of sent frames, and the clock. \<open>CanClient\<close>, \<open>IsoTp\<close>, \<open>UdsClient\<close>: the three
  classes, method by method. The receive loops take fuel; the theorems of termination give a bound that suffices for
  every script of frames when the clock advances. \<open>IsoTpCorrect\<close> shows that segmentation and reassembly agree,
  \<open>UdsExchange\<close> refines a whole request to an abstract exchange of messages, \<open>UdsCorrect\<close> treats termination, time-outs,
  acceptance and rejection of answers and the encodings of the services. \<open>PandaIsoTp\<close> and \<open>PandaIsoTpCorrect\<close>
  (\<^verbatim>\<open>isotp.py\<close>): the second implementation of ISO-TP, against the same specification of frames. \<open>Dto\<close> has the loop that
  the two calibration clients share, with its contract as a locale; \<open>Ccp\<close>, \<open>Xcp\<close> (\<^verbatim>\<open>ccp.py\<close>, \<^verbatim>\<open>xcp.py\<close>): the clients;
  \<open>CalibrationCorrect\<close>: that commands end, are answered by the right frame, and what a block upload returns. \<open>Secoc\<close>
  (\<^verbatim>\<open>secoc.py\<close>): message authentication over an arbitrary AES-CMAC.

  \<^bold>\<open>Identifying the car.\<close> \<open>FwMatch\<close> (\<^verbatim>\<open>fw_versions.py\<close>, \<^verbatim>\<open>fw_query_definitions.py\<close>): exact and fuzzy matching of firmware
  versions against the table of known cars, and the order in which brands are queried; the table and the brand functions
  are arguments. \<open>FwMatchCorrect\<close>: a car whose versions are in the table is found, and the fuzzy match does not depend on
  the order of the table. \<open>CanFingerprint\<close> and \<open>CanFingerprintCorrect\<close> (\<^verbatim>\<open>car_helpers.py\<close>, \<^verbatim>\<open>fingerprints.py\<close>):
  elimination of cars by the messages seen on the bus, which ends within 202 packets (the code's limit of frames, and two).

  \<^bold>\<open>CAN messages\<close> (\<^verbatim>\<open>opendbc/can/\<close>). \<open>CanSignal\<close>: reading and writing bit fields in both byte orders, against one
  specification by bit positions. \<open>CanChecksum\<close>: the thirteen checksum functions of the car modules. \<open>Dbc\<close>: the parsed
  message database and its consistency. \<open>CanPacker\<close> and \<open>CanParser\<close>: the two classes; \<open>CanParserCorrect\<close>: the parser's
  invariant, when a frame is accepted, and what a rejected frame cannot do. \<open>CanLink\<close> composes both ends of a bus.

  \<^bold>\<open>Engagement and alerts.\<close> \<open>Events\<close> and \<open>EventTables\<close> (\<^verbatim>\<open>selfdrived/events.py\<close> and \<^verbatim>\<open>events_base.py\<close>): events, alert
  types and the two tables. \<open>SelfdriveState\<close> (\<^verbatim>\<open>selfdrived/state.py\<close>): the engagement state machine, its safety rules and
  the soft-disable countdown of 300 steps. \<open>AolEngine\<close> and \<open>AlwaysOnLateral\<close> (\<^verbatim>\<open>iqpilot/aol/\<close>): steering while the main
  machine is off. \<open>AlertManager\<close>: which alert is shown.

  \<^bold>\<open>Driver monitoring\<close> (\<^verbatim>\<open>selfdrive/monitoring/\<close>). \<open>DriverMonitor\<close>: the policy object, its filters and one turn of the
  daemon. \<open>DriverMonitorCorrect\<close> isolates the part of the state the policy works on (\<open>core\<close>), \<open>DriverAwareness\<close> has the
  invariant \<open>dm_inv\<close> and the run of a step, \<open>DriverAlerts\<close> the lockout and the red alert, \<open>DriverUnseen\<close> the timing
  with an unseen driver, in floats: 601 steps of 0.05 s.

  \<^bold>\<open>Lane changes\<close> (\<^verbatim>\<open>desire_helper.py\<close>, \<^verbatim>\<open>auto_lane_change.py\<close>, \<^verbatim>\<open>lane_turn_desire.py\<close>). \<open>LaneChange\<close> has the state machine
  with the two controllers it owns, \<open>LaneChangeCorrect\<close> when a change starts, its invariant, and that it ends within
  202 updates (10 s of accumulated float steps and one more).

  \<^bold>\<open>Control.\<close> \<open>SteeringLimits\<close> (\<^verbatim>\<open>opendbc/car/lateral.py\<close>, \<^verbatim>\<open>vehicle_model.py\<close>): the limits of torque, angle and curvature
  commands and the cutting of the request bit; \<open>SteeringCorrect\<close> proves them for every sequence of requests.
  \<open>LongControl\<close> and \<open>LongControlCorrect\<close> (\<^verbatim>\<open>longcontrol.py\<close>, \<^verbatim>\<open>common/pid.py\<close>): the longitudinal state machine and its
  PID controller, with acceleration limits that may change in every update.

  \<^bold>\<open>Set speed and speed limits.\<close> \<open>VCruise\<close> (\<^verbatim>\<open>cruise.py\<close>, \<^verbatim>\<open>cruise_ext.py\<close> and their calls in \<^verbatim>\<open>card.py\<close>): the set speed, the
  buttons and their timers, the increments, and what it takes over from the speed limit assist; \<open>VCruiseCorrect\<close>: the set
  speed stays in its range and changes only with a cause. \<open>SpeedLimit\<close> (\<^verbatim>\<open>speed_limit_controller.py\<close>, \<^verbatim>\<open>slc_vcruise.py\<close>, the
  choice of the target in \<^verbatim>\<open>iqpilot/.../longitudinal_planner.py\<close>): the sources of a speed limit, its confirmation by the
  driver, the request to Mapbox with the answers as inputs, and the published state that \<open>VCruise\<close> reads;
  \<open>SpeedLimitCorrect\<close>: the planner only ever lowers the target, and with confirmations required an unconfirmed limit has
  no effect unless a stored one is the fallback.

  \<^bold>\<open>How the parts interact.\<close> The parser fills the car state the engagement logic reads; the events it raises, and those of
  driver monitoring (\<open>tooDistracted\<close>, \<open>driverDistracted\<close>, \<open>driverUnresponsive\<close>), enter the state machine through the
  tables of \<open>EventTables\<close>; the machine's output enables lateral and longitudinal control, whose commands pass the
  limits and leave through the packer. Each of these steps is modelled in its component; the processes that carry the
  messages between them are not.

  \<^bold>\<open>Not modelled.\<close> The neural networks and their runners; localisation, calibration and the model predictive
  controllers, which are numerical optimisation and filtering; the user interface; the system services (processes,
  files, network, hardware); navigation, maps and cloud services; the per-brand car ports, which are message tables over
  the packer, parser and limits above; the parallel queries that collect the firmware versions; the lateral control laws
  and smart cruise control, which are tuned numerics; the speed limit resolver, which no process of the program calls;
  vendored libraries (tinygrad, rednose, msgq) and everything written in C and C++. Within the modelled
  files, the regular expressions that split a DBC line, the value tables for display (\<^verbatim>\<open>CANDefine\<close>), and the matrix form
  of the vehicle model are left out.
\<close>

end
